(* ===== verification/Prelude.thy ===== *)
theory Prelude
  imports Main "HOL-Library.Multiset"
begin

text \<open>
  Shared vocabulary of the development: the collections that carry simplification sets from one
  component to the next, the reading of Go's nil-able \<open>error\<close> as an option, and the generic list
  lemmas (first match, last match, adjacent sortedness, fold over a running maximum) that the
  domain model and the rules use.
\<close>

named_theorems go_defs \<open>definitions of the Go standard-library model that automation may unfold\<close>
named_theorems dom_defs \<open>definitions of small domain predicates and accessors\<close>
named_theorems stmt_ok \<open>evidence texts that are known not to be blank\<close>
named_theorems draft_ok_intros \<open>well-formedness of the drafts the rules produce\<close>

section \<open>Sequencing of checks\<close>

text \<open>
  A Go \<open>Validate\<close> method is a chain of early returns. \<open>None\<close> is the nil error; the first check
  that answers \<open>Some e\<close> decides the result.
\<close>

definition check :: "bool \<Rightarrow> 'e \<Rightarrow> 'e option" where
  "check bad e = (if bad then Some e else None)"

fun first_error :: "'e option list \<Rightarrow> 'e option" where
  "first_error [] = None"
| "first_error (r # rs) = (case r of None \<Rightarrow> first_error rs | Some e \<Rightarrow> Some e)"

lemma check_None [simp]: "check bad e = None \<longleftrightarrow> \<not> bad"
  by (simp add: check_def)

lemma check_Some [simp]: "check bad e = Some e' \<longleftrightarrow> bad \<and> e' = e"
  by (auto simp: check_def)

declare first_error.simps(2) [simp del]

lemma first_error_Cons [simp]:
  "first_error (r # rs) = None \<longleftrightarrow> r = None \<and> first_error rs = None"
  "first_error (r # rs) = Some e \<longleftrightarrow> r = Some e \<or> r = None \<and> first_error rs = Some e"
  by (auto simp: first_error.simps(2) split: option.splits)

lemma first_error_None: "first_error rs = None \<longleftrightarrow> (\<forall>r \<in> set rs. r = None)"
  by (induction rs) auto

lemma first_error_Some: "first_error rs = Some e \<Longrightarrow> Some e \<in> set rs"
  by (induction rs) auto

lemma error_then_None: "(case e of Some x \<Rightarrow> Some x | None \<Rightarrow> r) = None \<longleftrightarrow> e = None \<and> r = None"
  by (cases e) simp_all

section \<open>First and last match in a list\<close>

lemma find_None_filter: "List.find P xs = None \<longleftrightarrow> filter P xs = []"
  by (auto simp: find_None_iff filter_empty_conv)

lemma find_Some_hd_filter: "List.find P xs = (case filter P xs of [] \<Rightarrow> None | x # _ \<Rightarrow> Some x)"
  by (induction xs) auto

lemma find_SomeD:
  assumes "List.find P xs = Some x"
  shows "P x" and "x \<in> set xs"
  using assms by (auto simp: find_Some_iff)

lemma find_rev_SomeD:
  assumes "List.find P (rev xs) = Some x"
  shows "P x" and "x \<in> set xs"
  using find_SomeD [OF assms] by auto

lemma find_rev_None: "List.find P (rev xs) = None \<longleftrightarrow> List.find P xs = None"
  by (simp add: find_None_iff)

text \<open>A loop that returns the first result some element yields, and goes on past the others.\<close>

fun find_map :: "('a \<Rightarrow> 'b option) \<Rightarrow> 'a list \<Rightarrow> 'b option" where
  "find_map f [] = None"
| "find_map f (x # xs) = (case f x of None \<Rightarrow> find_map f xs | Some y \<Rightarrow> Some y)"

lemma find_map_SomeD: "find_map f xs = Some y \<Longrightarrow> \<exists>x \<in> set xs. f x = Some y"
  by (induction xs) (auto split: option.splits)

lemma find_map_None: "find_map f xs = None \<longleftrightarrow> (\<forall>x \<in> set xs. f x = None)"
  by (induction xs) (auto split: option.splits)

section \<open>Adjacent order\<close>

text \<open>
  The validators compare each element with its predecessor only. For a transitive relation that
  is sortedness of the whole list.
\<close>

fun adjacent :: "('a \<Rightarrow> 'a \<Rightarrow> bool) \<Rightarrow> 'a list \<Rightarrow> bool" where
  "adjacent R (x # y # zs) = (R x y \<and> adjacent R (y # zs))"
| "adjacent R _ = True"

lemma adjacent_sorted_wrt:
  assumes "transp R"
  shows "adjacent R xs \<longleftrightarrow> sorted_wrt R xs"
  using assms
proof (induction R xs rule: adjacent.induct)
  case (1 R x y zs)
  then have "R x z" if "R x y" "R y z" for z
    using that by (blast dest: transpD)
  with 1 show ?case by auto
qed auto

section \<open>Arithmetic on bounded integers\<close>

lemma mod_in_range:
  fixes x k :: int
  assumes "0 < k"
  shows "0 \<le> x mod k" and "x mod k < k"
  using assms by simp_all

end
