(* ===== verification/GoStd.thy ===== *)
theory GoStd
  imports Prelude "HOL-Library.Word" "HOL-Library.List_Lexorder" "HOL-Library.Char_ord"
begin

text \<open>
  The part of Go's standard library the program uses: \<open>int64\<close> arithmetic, \<open>time.Duration\<close> and
  \<open>time.Time\<close>, decimal parsing and printing of \<open>strconv\<close>, \<open>strings.TrimSpace\<close>,
  \<open>encoding/hex\<close> and the \<open>fmt\<close> verbs that occur in evidence texts.

  Strings are byte strings (\<open>char\<close> is one byte), as Go's are, and their order is the
  byte-wise lexicographic one of \<open>List_Lexorder\<close> over \<open>Char_ord\<close>.
\<close>

section \<open>Signed 64-bit integers\<close>

definition int64_max :: int where "int64_max = 9223372036854775807"
definition int64_min :: int where "int64_min = - 9223372036854775808"

definition in_int64 :: "int \<Rightarrow> bool" where
  "in_int64 x \<longleftrightarrow> int64_min \<le> x \<and> x \<le> int64_max"

text \<open>Two's complement wrap-around of an \<open>int64\<close> operation without an overflow guard.\<close>

definition wrap64 :: "int \<Rightarrow> int" where
  "wrap64 x = (x + 9223372036854775808) mod 18446744073709551616 - 9223372036854775808"

definition clamp64 :: "int \<Rightarrow> int" where
  "clamp64 x = max int64_min (min int64_max x)"

lemmas int64_defs = int64_max_def int64_min_def in_int64_def

lemma wrap64_in_int64 [simp]: "in_int64 (wrap64 x)"
  using mod_in_range [of 18446744073709551616 "x + 9223372036854775808"]
  by (simp add: wrap64_def int64_defs)

lemma wrap64_id [simp]: "in_int64 x \<Longrightarrow> wrap64 x = x"
  by (simp add: wrap64_def int64_defs)

lemma clamp64_in_int64 [simp]: "in_int64 (clamp64 x)"
  by (simp add: clamp64_def int64_defs)

lemma clamp64_id [simp]: "in_int64 x \<Longrightarrow> clamp64 x = x"
  by (simp add: clamp64_def int64_defs)

lemma clamp64_mono: "x \<le> y \<Longrightarrow> clamp64 x \<le> clamp64 y"
  by (simp add: clamp64_def)

lemma clamp64_nonneg [simp]: "0 \<le> clamp64 x \<longleftrightarrow> 0 \<le> x"
  by (auto simp: clamp64_def int64_defs)

text \<open>Go's \<open>/\<close> and \<open>%\<close> truncate towards zero.\<close>

definition go_div :: "int \<Rightarrow> int \<Rightarrow> int" where
  "go_div a b = sgn a * sgn b * (\<bar>a\<bar> div \<bar>b\<bar>)"

definition go_rem :: "int \<Rightarrow> int \<Rightarrow> int" where
  "go_rem a b = a - b * go_div a b"

lemma go_div_nonneg [simp]: "0 \<le> a \<Longrightarrow> 0 < b \<Longrightarrow> go_div a b = a div b"
  by (cases "a = 0") (simp_all add: go_div_def)

lemma go_rem_nonneg [simp]: "0 \<le> a \<Longrightarrow> 0 < b \<Longrightarrow> go_rem a b = a mod b"
  by (simp add: go_rem_def minus_mult_div_eq_mod)

lemma unat64_less: "unat (w :: 64 word) < 18446744073709551616"
  using unsigned_less [of w] by simp

text \<open>\<open>bits.Len\<close>: the number of bits of a non-negative integer, 0 for 0.\<close>

fun bits_Len :: "nat \<Rightarrow> nat" where
  "bits_Len n = (if n = 0 then 0 else Suc (bits_Len (n div 2)))"

declare bits_Len.simps [simp del]

lemma bits_Len_bounds: "0 < n \<Longrightarrow> 2 ^ (bits_Len n - 1) \<le> n \<and> n < 2 ^ bits_Len n \<and> 0 < bits_Len n"
proof (induction n rule: bits_Len.induct)
  case (1 n)
  show ?case
  proof (cases "n = 1")
    case True
    then show ?thesis by (simp add: bits_Len.simps)
  next
    case False
    with 1 have ih: "2 ^ (bits_Len (n div 2) - 1) \<le> n div 2" "n div 2 < 2 ^ bits_Len (n div 2)"
      "0 < bits_Len (n div 2)" by auto
    then have "(2 :: nat) ^ bits_Len (n div 2) = 2 * 2 ^ (bits_Len (n div 2) - 1)"
      by (simp flip: power_Suc)
    moreover have "2 * (n div 2) \<le> n" and "n < 2 * (n div 2) + 2" by presburger+
    ultimately have "2 ^ bits_Len (n div 2) \<le> n" and "n < 2 * 2 ^ bits_Len (n div 2)"
      using ih by linarith+
    then show ?thesis using "1.prems" by (simp add: bits_Len.simps [of n])
  qed
qed

section \<open>Durations and instants\<close>

type_synonym duration = int

abbreviation (input) Nanosecond :: duration where "Nanosecond \<equiv> 1"
abbreviation (input) Millisecond :: duration where "Millisecond \<equiv> 1000000"
abbreviation (input) Second :: duration where "Second \<equiv> 1000000000"
abbreviation (input) Minute :: duration where "Minute \<equiv> 60000000000"

text \<open>
  An instant counts nanoseconds from Go's zero time (1 January of year 1, UTC), and carries its
  location. \<open>Add\<close> is exact: Go keeps seconds in 64 bits, so it wraps only some 292 thousand
  million years away. \<open>Sub\<close> saturates at the limits of \<open>Duration\<close>, as the library does.
\<close>

datatype location = UTC | OtherLocation string

record gotime =
  t_ns :: int
  t_loc :: location

definition time_zero :: gotime where
  "time_zero = \<lparr>t_ns = 0, t_loc = UTC\<rparr>"

definition IsZero :: "gotime \<Rightarrow> bool" where
  "IsZero t \<longleftrightarrow> t_ns t = 0"

definition Before :: "gotime \<Rightarrow> gotime \<Rightarrow> bool" where
  "Before t u \<longleftrightarrow> t_ns t < t_ns u"

definition After :: "gotime \<Rightarrow> gotime \<Rightarrow> bool" where
  "After t u \<longleftrightarrow> t_ns t > t_ns u"

definition time_Equal :: "gotime \<Rightarrow> gotime \<Rightarrow> bool" where
  "time_Equal t u \<longleftrightarrow> t_ns t = t_ns u"

definition Add :: "gotime \<Rightarrow> duration \<Rightarrow> gotime" where
  "Add t d = t\<lparr>t_ns := t_ns t + d\<rparr>"

definition Sub :: "gotime \<Rightarrow> gotime \<Rightarrow> duration" where
  "Sub t u = clamp64 (t_ns t - t_ns u)"

definition in_UTC :: "gotime \<Rightarrow> gotime" where
  "in_UTC t = t\<lparr>t_loc := UTC\<rparr>"

lemmas time_defs = IsZero_def Before_def After_def time_Equal_def

lemma Add_sel [simp]: "t_ns (Add t d) = t_ns t + d" "t_loc (Add t d) = t_loc t"
  by (simp_all add: Add_def)

lemma time_zero_sel [simp]: "t_ns time_zero = 0" "t_loc time_zero = UTC" "IsZero time_zero"
  by (simp_all add: time_zero_def IsZero_def)

lemma Sub_in_int64 [simp]: "in_int64 (Sub t u)"
  by (simp add: Sub_def)

lemma Sub_nonneg [simp]: "0 \<le> Sub t u \<longleftrightarrow> \<not> Before t u"
  by (auto simp: Sub_def Before_def)

lemma Sub_Add [simp]: "in_int64 d \<Longrightarrow> Sub (Add t d) t = d"
  by (simp add: Sub_def)

lemma Sub_mono: "\<not> Before t' t \<Longrightarrow> Sub t u \<le> Sub t' u"
  by (simp add: Sub_def Before_def clamp64_mono)

section \<open>Decimal text\<close>

definition digit_char :: "nat \<Rightarrow> char" where
  "digit_char n = char_of (48 + n)"

definition is_digit :: "char \<Rightarrow> bool" where
  "is_digit c \<longleftrightarrow> 48 \<le> (of_char c :: nat) \<and> (of_char c :: nat) \<le> 57"

definition digit_val :: "char \<Rightarrow> nat" where
  "digit_val c = of_char c - 48"

fun FormatUint :: "nat \<Rightarrow> string" where
  "FormatUint n = (if n < 10 then [digit_char n] else FormatUint (n div 10) @ [digit_char (n mod 10)])"

declare FormatUint.simps [simp del]

definition FormatInt :: "int \<Rightarrow> string" where
  "FormatInt i = (if i < 0 then CHR ''-'' # FormatUint (nat (- i)) else FormatUint (nat i))"

definition digits_val :: "string \<Rightarrow> nat" where
  "digits_val s = foldl (\<lambda>n c. 10 * n + digit_val c) 0 s"

text \<open>
  \<open>strconv.ParseUint(s, 10, 64)\<close>: at least one digit and nothing else (no sign, no underscore in
  base 10), within 64 bits. Every failure is an error value, here \<open>None\<close>.
\<close>

definition ParseUint :: "string \<Rightarrow> nat option" where
  "ParseUint s =
     (if s = [] \<or> \<not> list_all is_digit s then None
      else if digits_val s < 2 ^ 64 then Some (digits_val s) else None)"

text \<open>\<open>strconv.ParseInt(s, 10, bits)\<close>: an optional sign, then as above within the signed range.\<close>

definition ParseInt :: "nat \<Rightarrow> string \<Rightarrow> int option" where
  "ParseInt bits s =
     (let neg = (s \<noteq> [] \<and> hd s = CHR ''-'');
          body = (if s \<noteq> [] \<and> (hd s = CHR ''-'' \<or> hd s = CHR ''+'') then tl s else s)
      in case ParseUint body of
           None \<Rightarrow> None
         | Some n \<Rightarrow>
             if \<not> neg \<and> 2 ^ (bits - 1) \<le> n \<or> neg \<and> 2 ^ (bits - 1) < n then None
             else Some (if neg then - int n else int n))"

abbreviation Atoi :: "string \<Rightarrow> int option" where
  "Atoi \<equiv> ParseInt 64"

lemma digit_char_props [simp]:
  assumes "n < 10"
  shows "is_digit (digit_char n)" and "digit_val (digit_char n) = n"
  using assms by (simp_all add: is_digit_def digit_val_def digit_char_def)

lemma digit_char_eval:
  "digit_char 0 = CHR ''0''"
  "digit_char (Suc 0) = CHR ''1''"
  "digit_char 1 = CHR ''1''"
  "digit_char 2 = CHR ''2''"
  "digit_char 3 = CHR ''3''"
  "digit_char 4 = CHR ''4''"
  "digit_char 5 = CHR ''5''"
  "digit_char 6 = CHR ''6''"
  "digit_char 7 = CHR ''7''"
  "digit_char 8 = CHR ''8''"
  "digit_char 9 = CHR ''9''"
  by (simp_all add: digit_char_def char_of_def bit_0)

lemma digits_val_snoc [simp]: "digits_val (s @ [c]) = 10 * digits_val s + digit_val c"
  by (simp add: digits_val_def)

lemma digits_val_Nil [simp]: "digits_val [] = 0"
  by (simp add: digits_val_def)

lemma FormatUint_digits: "list_all is_digit (FormatUint n) \<and> FormatUint n \<noteq> [] \<and> digits_val (FormatUint n) = n"
proof (induction n rule: FormatUint.induct)
  case (1 n)
  show ?case
  proof (cases "n < 10")
    case True
    then show ?thesis by (simp add: FormatUint.simps [of n] digits_val_def)
  next
    case False
    with 1 show ?thesis by (simp add: FormatUint.simps [of n])
  qed
qed

text \<open>The two branches as conditional equations, for evaluation on numerals.\<close>

lemma FormatUint_eval:
  "n < 10 \<Longrightarrow> FormatUint n = [digit_char n]"
  "10 \<le> n \<Longrightarrow> FormatUint n = FormatUint (n div 10) @ [digit_char (n mod 10)]"
  by (simp_all add: FormatUint.simps [of n])

lemma FormatUint_nonempty [simp]: "FormatUint n \<noteq> []"
  by (simp add: FormatUint_digits)

lemma ParseUint_FormatUint: "n < 2 ^ 64 \<Longrightarrow> ParseUint (FormatUint n) = Some n"
  by (simp add: ParseUint_def FormatUint_digits)

lemma ParseUint_bound: "ParseUint s = Some n \<Longrightarrow> n < 2 ^ 64"
  by (simp add: ParseUint_def split: if_splits)

lemma FormatUint_hd_digit: "is_digit (hd (FormatUint n))"
  using FormatUint_digits [of n] by (cases "FormatUint n") auto

lemma is_digit_not_sign: "is_digit c \<Longrightarrow> c \<noteq> CHR ''-'' \<and> c \<noteq> CHR ''+''"
  by (auto simp: is_digit_def)

lemma Atoi_FormatUint: "n < 2 ^ 63 \<Longrightarrow> Atoi (FormatUint n) = Some (int n)"
  using FormatUint_hd_digit [of n] is_digit_not_sign
  by (auto simp: ParseInt_def ParseUint_FormatUint Let_def)

section \<open>White space\<close>

text \<open>
  \<open>strings.TrimSpace(s) == ""\<close>: every rune of \<open>s\<close> is white space. Besides the six ASCII ones the
  library counts U+0085, U+00A0, U+1680, U+2000 to U+200A, U+2028, U+2029, U+202F, U+205F and
  U+3000, matched here by their UTF-8 encodings.
\<close>

definition ascii_space :: "nat \<Rightarrow> bool" where
  "ascii_space b \<longleftrightarrow> b \<in> {9, 10, 11, 12, 13, 32}"

fun blank_bytes :: "nat list \<Rightarrow> bool" where
  "blank_bytes [] = True"
| "blank_bytes (a # rest) =
     (if ascii_space a then blank_bytes rest
      else case rest of
        [] \<Rightarrow> False
      | b # rest2 \<Rightarrow>
          if a = 194 \<and> b \<in> {133, 160} then blank_bytes rest2
          else case rest2 of
            [] \<Rightarrow> False
          | c # rest3 \<Rightarrow>
              if (a, b, c) = (225, 154, 128) \<or>
                 a = 226 \<and> b = 128 \<and> (128 \<le> c \<and> c \<le> 138 \<or> c \<in> {168, 169, 175}) \<or>
                 (a, b, c) = (226, 129, 159) \<or> (a, b, c) = (227, 128, 128)
              then blank_bytes rest3 else False)"

definition blank :: "string \<Rightarrow> bool" where
  "blank s = blank_bytes (map of_char s)"

lemma blank_Nil [simp]: "blank []"
  by (simp add: blank_def)

text \<open>A visible ASCII character in front is enough for a text not to be blank.\<close>

lemma not_blank_Cons:
  assumes "33 \<le> (of_char c :: nat)" and "(of_char c :: nat) \<le> 127"
  shows "\<not> blank (c # s)"
  using assms by (auto simp: blank_def ascii_space_def split: list.splits)

lemma not_blank_FormatUint [simp]: "\<not> blank (FormatUint n @ s)"
proof (cases "FormatUint n")
  case Nil
  then show ?thesis by simp
next
  case (Cons c cs)
  then have "is_digit c" using FormatUint_hd_digit [of n] by simp
  then have "\<not> blank (c # cs @ s)" by (intro not_blank_Cons) (auto simp: is_digit_def)
  then show ?thesis using Cons by simp
qed

section \<open>Hexadecimal text\<close>

definition hex_val :: "char \<Rightarrow> nat option" where
  "hex_val c =
     (let n = of_char c in
      if 48 \<le> n \<and> n \<le> 57 then Some (n - 48)
      else if 97 \<le> n \<and> n \<le> 102 then Some (n - 87)
      else if 65 \<le> n \<and> n \<le> 70 then Some (n - 55)
      else None)"

text \<open>\<open>hex.DecodeString\<close>: pairs of digits in either case; an odd length or another byte is an error.\<close>

fun hex_DecodeString :: "string \<Rightarrow> nat list option" where
  "hex_DecodeString [] = Some []"
| "hex_DecodeString [_] = None"
| "hex_DecodeString (a # b # rest) =
     (case (hex_val a, hex_val b) of
        (Some h, Some l) \<Rightarrow> map_option ((#) (16 * h + l)) (hex_DecodeString rest)
      | _ \<Rightarrow> None)"

definition HasPrefix :: "string \<Rightarrow> string \<Rightarrow> bool" where
  "HasPrefix s p \<longleftrightarrow> take (length p) s = p"

definition TrimPrefix :: "string \<Rightarrow> string \<Rightarrow> string" where
  "TrimPrefix s p = (if HasPrefix s p then drop (length p) s else s)"

text \<open>\<open>strings.ToLower\<close> on ASCII text.\<close>

definition lower_char :: "char \<Rightarrow> char" where
  "lower_char c = (if 65 \<le> (of_char c :: nat) \<and> (of_char c :: nat) \<le> 90 then char_of (of_char c + 32 :: nat) else c)"

definition ToLower :: "string \<Rightarrow> string" where
  "ToLower s = map lower_char s"

lemma hex_val_bound: "hex_val c = Some n \<Longrightarrow> n < 16"
  by (auto simp: hex_val_def Let_def split: if_splits)

lemma hex_DecodeString_length: "hex_DecodeString s = Some bs \<Longrightarrow> length s = 2 * length bs"
  by (induction s arbitrary: bs rule: hex_DecodeString.induct) (auto split: option.splits)

lemma hex_DecodeString_bytes: "hex_DecodeString s = Some bs \<Longrightarrow> \<forall>b \<in> set bs. b < 256"
  by (induction s arbitrary: bs rule: hex_DecodeString.induct)
    (fastforce split: option.splits dest: hex_val_bound)+

lemma hex_val_lower: "hex_val (lower_char c) = hex_val c"
  by (auto simp: hex_val_def lower_char_def Let_def)

lemma hex_DecodeString_ToLower: "hex_DecodeString (ToLower s) = hex_DecodeString s"
  by (induction s rule: hex_DecodeString.induct)
    (auto simp: ToLower_def hex_val_lower split: option.splits)

lemma lower_char_idem [simp]: "lower_char (lower_char c) = lower_char c"
  by (auto simp: lower_char_def)

lemma ToLower_idem [simp]: "ToLower (ToLower s) = ToLower s"
  by (simp add: ToLower_def)

lemma ToLower_length [simp]: "length (ToLower s) = length s"
  by (simp add: ToLower_def)

section \<open>Durations as text\<close>

definition pad_zeros :: "nat \<Rightarrow> string \<Rightarrow> string" where
  "pad_zeros w s = replicate (w - length s) (CHR ''0'') @ s"

definition strip_zeros :: "string \<Rightarrow> string" where
  "strip_zeros s = rev (dropWhile (\<lambda>c. c = CHR ''0'') (rev s))"

text \<open>The fraction \<open>v / 10^prec\<close> without trailing zeros, and without the point when it is zero.\<close>

definition fmt_frac :: "nat \<Rightarrow> nat \<Rightarrow> string" where
  "fmt_frac v prec =
     (let f = strip_zeros (pad_zeros prec (FormatUint (v mod 10 ^ prec)))
      in if f = [] then [] else CHR ''.'' # f)"

definition Duration_String :: "duration \<Rightarrow> string" where
  "Duration_String d =
     (let u = nat \<bar>d\<bar>;
          body =
            (if u = 0 then ''0s''
             else if u < 1000 then FormatUint u @ ''ns''
             else if u < 1000000 then FormatUint (u div 1000) @ fmt_frac u 3 @ [CHR 0xC2, CHR 0xB5, CHR ''s'']
             else if u < 1000000000 then FormatUint (u div 1000000) @ fmt_frac u 6 @ ''ms''
             else
               (let s = u div 1000000000;
                    secs = FormatUint (s mod 60) @ fmt_frac u 9 @ ''s'';
                    m = s div 60
                in if m = 0 then secs
                   else (let mins = FormatUint (m mod 60) @ ''m'' @ secs; h = m div 60
                         in if h = 0 then mins else FormatUint h @ ''h'' @ mins)))
      in if d < 0 then CHR ''-'' # body else body)"

lemmas duration_eval =
  Duration_String_def fmt_frac_def strip_zeros_def pad_zeros_def FormatUint_eval digit_char_eval Let_def

lemma Duration_String_examples:
  "Duration_String 27249902944 = ''27.249902944s''"
  "Duration_String 4000000000 = ''4s''"
  "Duration_String 100000000 = ''100ms''"
  "Duration_String 3600000000000 = ''1h0m0s''"
  by (simp_all add: duration_eval)

text \<open>\<open>t.UTC().Format("15:04:05.000Z")\<close>.\<close>

definition format_clock :: "gotime \<Rightarrow> string" where
  "format_clock t =
     (let ms = nat ((t_ns t mod 86400000000000) div 1000000);
          two = (\<lambda>n. pad_zeros 2 (FormatUint n))
      in two (ms div 3600000) @ '':'' @ two (ms div 60000 mod 60) @ '':'' @
         two (ms div 1000 mod 60) @ ''.'' @ pad_zeros 3 (FormatUint (ms mod 1000)) @ ''Z'')"

text \<open>The UTF-8 encoding of the dash that occurs in several texts.\<close>

definition em_dash :: string where
  "em_dash = [CHR 0xE2, CHR 0x80, CHR 0x94]"

text \<open>\<open>hex.EncodeToString\<close>.\<close>

definition hex_digit :: "nat \<Rightarrow> char" where
  "hex_digit n = char_of (if n < 10 then 48 + n else 87 + n)"

definition hex_EncodeToString :: "nat list \<Rightarrow> string" where
  "hex_EncodeToString bs = concat (map (\<lambda>b. [hex_digit (b div 16), hex_digit (b mod 16)]) bs)"

lemma hex_val_digit: "n < 16 \<Longrightarrow> hex_val (hex_digit n) = Some n"
  by (auto simp: hex_val_def hex_digit_def Let_def)

lemma hex_DecodeString_hex: "\<forall>b \<in> set bs. b < 256 \<Longrightarrow> hex_DecodeString (hex_EncodeToString bs) = Some bs"
  by (induction bs) (auto simp: hex_EncodeToString_def hex_val_digit less_mult_imp_div_less)

lemma length_hex: "length (hex_EncodeToString bs) = 2 * length bs"
  by (induction bs) (simp_all add: hex_EncodeToString_def)

section \<open>Fixed-width digits\<close>

fun fixed_digits :: "nat \<Rightarrow> nat \<Rightarrow> string" where
  "fixed_digits 0 n = []"
| "fixed_digits (Suc w) n = fixed_digits w (n div 10) @ [digit_char (n mod 10)]"

lemma fixed_digits_0: "fixed_digits w 0 = replicate w CHR ''0''"
  by (induction w) (simp_all add: digit_char_eval replicate_append_same)

lemma pad_FormatUint: "0 < w \<Longrightarrow> n < 10 ^ w \<Longrightarrow> pad_zeros w (FormatUint n) = fixed_digits w n"
proof (induction w arbitrary: n)
  case (Suc w)
  show ?case
  proof (cases "n < 10")
    case True
    then show ?thesis by (simp add: pad_zeros_def FormatUint_eval fixed_digits_0)
  next
    case False
    then have "n div 10 < 10 ^ w" "0 < w" using Suc.prems by (cases w; simp add: less_mult_imp_div_less mult.commute)+
    with Suc.IH [of "n div 10"] False show ?thesis by (simp add: pad_zeros_def FormatUint_eval)
  qed
qed simp

lemma fixed_digits_props [simp]: "length (fixed_digits w n) = w" "list_all is_digit (fixed_digits w n)"
  by (induction w arbitrary: n) simp_all

lemma fixed_digits_val: "n < 10 ^ w \<Longrightarrow> digits_val (fixed_digits w n) = n"
  by (induction w arbitrary: n) (simp_all add: less_mult_imp_div_less mult.commute)

lemma digits_val_append: "digits_val (a @ b) = digits_val a * 10 ^ length b + digits_val b"
proof (induction b rule: rev_induct)
  case (snoc c b)
  have "digits_val (a @ b @ [c]) = 10 * digits_val (a @ b) + digit_val c" using digits_val_snoc [of "a @ b" c] by simp
  with snoc show ?case by (simp add: algebra_simps)
qed simp

end
