(* ===== verification/Slots.thy ===== *)
theory Slots
  imports GoStd
begin

text \<open>
  \<open>internal/domain\<close>: slots and epochs (\<open>slot.go\<close>), the timing model of a slot
  (\<open>schedule.go\<close>), duties (\<open>duty.go\<close>) and the package's errors (\<open>errors.go\<close>).

  Slot and epoch numbers are 64-bit words, so the additions and multiplications wrap exactly where
  Go's do. Closed string vocabularies are datatypes with the source's constants as constructors
  and one constructor for every other string.
\<close>

section \<open>Errors\<close>

text \<open>
  A sentinel is kept as such, also when the code wraps it: this is what \<open>errors.Is\<close> sees. A message
  without a sentinel is \<open>ErrText\<close> with the fixed part of its text.
\<close>

datatype domain_error =
    ErrInvalidKind | ErrInvalidAttr | ErrMissingTimestamp | ErrNotUTC | ErrInvalidClock
  | ErrMissingSource | ErrInvalidSource | ErrUnsorted | ErrSlotMismatch | ErrNoEvidence
  | ErrInvalidCause | ErrInvalidOutcome | ErrInvalidConfidence | ErrMissingVersion
  | ErrEmptyStatement | ErrText string

fun domain_error_Error :: "domain_error \<Rightarrow> string" where
  "domain_error_Error ErrInvalidKind = ''observation kind not in taxonomy vocabulary''"
| "domain_error_Error ErrInvalidAttr = ''attribute key not permitted for this kind''"
| "domain_error_Error ErrMissingTimestamp = ''timestamp is zero''"
| "domain_error_Error ErrNotUTC = ''timestamp is not utc''"
| "domain_error_Error ErrInvalidClock = ''clock measurement metadata is invalid''"
| "domain_error_Error ErrMissingSource = ''source is empty''"
| "domain_error_Error ErrInvalidSource = ''source is not permitted for observation kind''"
| "domain_error_Error ErrUnsorted = ''observations are not sorted by timestamp''"
| "domain_error_Error ErrSlotMismatch = ''slot does not match the timeline''"
| "domain_error_Error ErrNoEvidence = ''verdict has no evidence''"
| "domain_error_Error ErrInvalidCause = ''cause id not in taxonomy''"
| "domain_error_Error ErrInvalidOutcome = ''outcome invalid for this verdict''"
| "domain_error_Error ErrInvalidConfidence = ''confidence not in taxonomy''"
| "domain_error_Error ErrMissingVersion = ''version is empty''"
| "domain_error_Error ErrEmptyStatement = ''evidence statement is empty''"
| "domain_error_Error (ErrText s) = s"

section \<open>Slots and epochs\<close>

type_synonym slot = "64 word"
type_synonym epoch = "64 word"
type_synonym validator_index = "64 word"
type_synonym committee_index = "64 word"

definition TaxonomyVersion :: string where
  "TaxonomyVersion = ''4.0.0''"

definition SlotsPerEpoch :: "64 word" where
  "SlotsPerEpoch = 32"

definition max_uint64 :: "64 word" where
  "max_uint64 = 18446744073709551615"

definition Slot_Epoch :: "slot \<Rightarrow> epoch" where
  "Slot_Epoch s = s div SlotsPerEpoch"

definition Epoch_FirstSlot :: "epoch \<Rightarrow> slot" where
  "Epoch_FirstSlot e = e * SlotsPerEpoch"

definition Slot_LastAttestationInclusionSlot :: "slot \<Rightarrow> slot" where
  "Slot_LastAttestationInclusionSlot s =
     (let maxEpoch = max_uint64 div SlotsPerEpoch
      in if Slot_Epoch s \<ge> maxEpoch - 1 then max_uint64
         else Epoch_FirstSlot (Slot_Epoch s + 2) - 1)"

definition Slot_CollectionWindowEnd :: "slot \<Rightarrow> gotime \<Rightarrow> duration \<Rightarrow> gotime" where
  "Slot_CollectionWindowEnd s slotStart secondsPerSlot =
     (let windowSlots = Slot_LastAttestationInclusionSlot s - s
      in if windowSlots > SlotsPerEpoch * 2 - 1 \<or> secondsPerSlot \<le> 0
         then Add slotStart int64_max
         else Add slotStart (wrap64 (uint (windowSlots + 1) * secondsPerSlot)))"

lemmas slot_defs =
  SlotsPerEpoch_def max_uint64_def Slot_Epoch_def Epoch_FirstSlot_def Slot_LastAttestationInclusionSlot_def

lemma unat_Slot_Epoch: "unat (Slot_Epoch s) = unat s div 32"
  by (simp add: slot_defs unat_div)

text \<open>The final inclusion slot, read as a number: the end of the next epoch, saturated.\<close>

lemma unat_LastAttestationInclusionSlot:
  "unat (Slot_LastAttestationInclusionSlot s) =
     (if 576460752303423486 \<le> unat s div 32 then 18446744073709551615
      else 32 * (unat s div 32 + 2) - 1)"
proof -
  let ?e = "unat s div 32"
  have big: "Slot_Epoch s \<ge> max_uint64 div SlotsPerEpoch - 1 \<longleftrightarrow> 576460752303423486 \<le> ?e"
    by (simp add: word_le_nat_alt unat_Slot_Epoch) (simp add: slot_defs)
  show ?thesis
  proof (cases "576460752303423486 \<le> ?e")
    case True
    then show ?thesis using big
      by (simp add: Slot_LastAttestationInclusionSlot_def) (simp add: slot_defs)
  next
    case False
    then have e: "?e < 576460752303423486" by simp
    then have "unat (Slot_Epoch s + 2) = ?e + 2"
      by (simp add: unat_word_ariths unat_Slot_Epoch)
    then have f: "unat (Epoch_FirstSlot (Slot_Epoch s + 2)) = 32 * (?e + 2)"
      unfolding Epoch_FirstSlot_def SlotsPerEpoch_def unat_word_ariths(2) using e by simp
    then have "1 \<le> Epoch_FirstSlot (Slot_Epoch s + 2)"
      by (simp add: word_le_nat_alt)
    then have "unat (Epoch_FirstSlot (Slot_Epoch s + 2) - 1) = 32 * (?e + 2) - 1"
      by (simp add: unat_sub f)
    then show ?thesis using False big by (simp add: Slot_LastAttestationInclusionSlot_def)
  qed
qed

lemma LastAttestationInclusionSlot_ge: "s \<le> Slot_LastAttestationInclusionSlot s"
  using unat64_less [of s] by (auto simp: word_le_nat_alt unat_LastAttestationInclusionSlot)

lemma inclusion_window_unat:
  "unat (Slot_LastAttestationInclusionSlot s - s) = unat (Slot_LastAttestationInclusionSlot s) - unat s"
  by (rule unat_sub [OF LastAttestationInclusionSlot_ge])

lemma inclusion_window_bound: "unat (Slot_LastAttestationInclusionSlot s - s) \<le> 63"
  using unat64_less [of s]
  by (auto simp: inclusion_window_unat unat_LastAttestationInclusionSlot) 

section \<open>Source identifiers and stages\<close>

datatype SourceID =
    SourceBeaconAPI | SourcePromScrape | SourceHostMetrics | SourceClock | SourceXatu
  | SourceDerived | SourceOther string

fun SourceID_str :: "SourceID \<Rightarrow> string" where
  "SourceID_str SourceBeaconAPI = ''beaconapi''"
| "SourceID_str SourcePromScrape = ''promscrape''"
| "SourceID_str SourceHostMetrics = ''hostmetrics''"
| "SourceID_str SourceClock = ''clock''"
| "SourceID_str SourceXatu = ''xatu''"
| "SourceID_str SourceDerived = ''derived''"
| "SourceID_str (SourceOther s) = s"

fun SourceID_Valid :: "SourceID \<Rightarrow> bool" where
  "SourceID_Valid (SourceOther _) = False"
| "SourceID_Valid _ = True"

datatype Stage = StagePropagation | StageValidation | StageSigning | StageOther string

fun Stage_str :: "Stage \<Rightarrow> string" where
  "Stage_str StagePropagation = ''propagation''"
| "Stage_str StageValidation = ''validation''"
| "Stage_str StageSigning = ''signing''"
| "Stage_str (StageOther s) = s"

definition domain_Stages :: "Stage list" where
  "domain_Stages = [StagePropagation, StageValidation, StageSigning]"

fun Stage_Valid :: "Stage \<Rightarrow> bool" where
  "Stage_Valid (StageOther _) = False"
| "Stage_Valid _ = True"

section \<open>The slot schedule\<close>

record SlotSchedule =
  sched_SecondsPerSlot :: duration
  sched_AttestationDeadline :: duration
  sched_AggregationDeadline :: duration
  sched_PayloadRevealDeadline :: duration
  sched_PTCDeadline :: duration

definition maxSupportedSlotDuration :: duration where
  "maxSupportedSlotDuration = Minute"

definition SlotSchedule_IsPostEPBS :: "SlotSchedule \<Rightarrow> bool" where
  "SlotSchedule_IsPostEPBS s \<longleftrightarrow> sched_PayloadRevealDeadline s > 0"

definition MainnetPreEPBS :: SlotSchedule where
  "MainnetPreEPBS =
     \<lparr>sched_SecondsPerSlot = 12 * Second, sched_AttestationDeadline = 4 * Second,
      sched_AggregationDeadline = 8 * Second, sched_PayloadRevealDeadline = 0, sched_PTCDeadline = 0\<rparr>"

definition SlotSchedule_Validate :: "SlotSchedule \<Rightarrow> domain_error option" where
  "SlotSchedule_Validate s = first_error
     [check (sched_SecondsPerSlot s \<le> 0)
        (ErrText ''invalid schedule: seconds_per_slot must be positive''),
      check (sched_SecondsPerSlot s > maxSupportedSlotDuration)
        (ErrText ''invalid schedule: seconds_per_slot exceeds the maximum supported''),
      check (sched_AttestationDeadline s \<le> 0)
        (ErrText ''invalid schedule: attestation_deadline must be positive''),
      check (sched_AggregationDeadline s \<le> 0)
        (ErrText ''invalid schedule: aggregation_deadline must be positive''),
      check (sched_AttestationDeadline s > sched_AggregationDeadline s)
        (ErrText ''invalid schedule: attestation_deadline is after aggregation_deadline''),
      check (sched_AggregationDeadline s > sched_SecondsPerSlot s)
        (ErrText ''invalid schedule: aggregation_deadline exceeds seconds_per_slot''),
      check (sched_PayloadRevealDeadline s < 0)
        (ErrText ''invalid schedule: payload_reveal_deadline must not be negative''),
      check (sched_PTCDeadline s < 0)
        (ErrText ''invalid schedule: ptc_deadline must not be negative''),
      check (sched_PTCDeadline s > 0 \<and> sched_PayloadRevealDeadline s = 0)
        (ErrText ''invalid schedule: ptc_deadline is set without payload_reveal_deadline''),
      check (sched_PayloadRevealDeadline s > 0 \<and>
             sched_PayloadRevealDeadline s \<le> sched_AttestationDeadline s)
        (ErrText ''invalid schedule: payload_reveal_deadline is at or before attestation_deadline''),
      check (sched_PayloadRevealDeadline s > sched_SecondsPerSlot s)
        (ErrText ''invalid schedule: payload_reveal_deadline exceeds seconds_per_slot''),
      check (sched_PTCDeadline s > 0 \<and> sched_PTCDeadline s \<le> sched_PayloadRevealDeadline s)
        (ErrText ''invalid schedule: ptc_deadline is at or before payload_reveal_deadline''),
      check (sched_PTCDeadline s > sched_SecondsPerSlot s)
        (ErrText ''invalid schedule: ptc_deadline exceeds seconds_per_slot'')]"

definition SlotSchedule_AttestationDeadlineAt :: "SlotSchedule \<Rightarrow> gotime \<Rightarrow> gotime" where
  "SlotSchedule_AttestationDeadlineAt s slotStart = Add slotStart (sched_AttestationDeadline s)"

definition SlotSchedule_SlotEndAt :: "SlotSchedule \<Rightarrow> gotime \<Rightarrow> gotime" where
  "SlotSchedule_SlotEndAt s slotStart = Add slotStart (sched_SecondsPerSlot s)"

definition SlotSchedule_PayloadRevealDeadlineAt :: "SlotSchedule \<Rightarrow> gotime \<Rightarrow> gotime option" where
  "SlotSchedule_PayloadRevealDeadlineAt s slotStart =
     (if \<not> SlotSchedule_IsPostEPBS s then None
      else Some (Add slotStart (sched_PayloadRevealDeadline s)))"

definition SlotSchedule_PTCDeadlineAt :: "SlotSchedule \<Rightarrow> gotime \<Rightarrow> gotime option" where
  "SlotSchedule_PTCDeadlineAt s slotStart =
     (if sched_PTCDeadline s \<le> 0 then None else Some (Add slotStart (sched_PTCDeadline s)))"

lemma SlotSchedule_Validate_None:
  assumes "SlotSchedule_Validate s = None"
  shows "0 < sched_SecondsPerSlot s" "sched_SecondsPerSlot s \<le> 60000000000"
    "0 < sched_AttestationDeadline s" "sched_AttestationDeadline s \<le> sched_SecondsPerSlot s"
    "0 \<le> sched_PayloadRevealDeadline s" "sched_PayloadRevealDeadline s \<le> sched_SecondsPerSlot s"
  using assms by (auto simp: SlotSchedule_Validate_def maxSupportedSlotDuration_def)

lemma SlotSchedule_deadline_in_int64:
  assumes "SlotSchedule_Validate s = None"
  shows "in_int64 (sched_AttestationDeadline s)" "in_int64 (sched_PayloadRevealDeadline s)"
  using SlotSchedule_Validate_None [OF assms] by (auto simp: int64_defs)

section \<open>Duties\<close>

datatype DutyKind = DutyAttester | DutyProposer | DutyOther string

fun DutyKind_Valid :: "DutyKind \<Rightarrow> bool" where
  "DutyKind_Valid (DutyOther _) = False"
| "DutyKind_Valid _ = True"

record Duty =
  duty_Kind :: DutyKind
  duty_Slot :: slot
  duty_ValidatorIndex :: validator_index
  duty_CommitteeIndex :: committee_index

definition Duty_Validate :: "Duty \<Rightarrow> domain_error option" where
  "Duty_Validate d = check (\<not> DutyKind_Valid (duty_Kind d)) ErrInvalidKind"

end
