(* ===== verification/GoFloat.thy ===== *)
theory GoFloat
  imports Complex_Main GoStd
begin

text \<open>
  Go's \<open>float64\<close>. A finite value is the rational it denotes; every operation is the exact rational
  operation followed by IEEE 754 rounding to the nearest binary64 number, ties to even, with
  gradual underflow at \<open>2^-1074\<close> and overflow to an infinity at \<open>2^1024\<close>. The two signed zeros
  are one value: the program compares and prints floats, and never tells them apart.

  The lemmas give what the rules rely on: rounding is monotone, integers below \<open>2^53\<close> are exact,
  and a quotient in the unit interval is off by at most \<open>2^-54\<close>.
\<close>

section \<open>Rounding\<close>

datatype f64 = FNaN | FInf bool | FFin rat

definition round_half_even :: "rat \<Rightarrow> int" where
  "round_half_even q =
     (let f = \<lfloor>q\<rfloor>; r = q - of_int f
      in if r < 1 / 2 then f else if 1 / 2 < r then f + 1 else if even f then f else f + 1)"

definition ilog2 :: "rat \<Rightarrow> int" where
  "ilog2 q =
     (let (n, d) = quotient_of q; k = int (bits_Len (nat n)) - int (bits_Len (nat d))
      in if 2 powi k \<le> q then k else k - 1)"

definition fexp :: "rat \<Rightarrow> int" where
  "fexp q = max (- 1074) (ilog2 q - 52)"

definition fmag :: "rat \<Rightarrow> rat" where
  "fmag q = of_int (round_half_even (q / 2 powi fexp q)) * 2 powi fexp q"

text \<open>The first magnitude that is out of range.\<close>

definition f64_limit :: rat where
  "f64_limit = 2 ^ 1024"

definition fround :: "rat \<Rightarrow> f64" where
  "fround q =
     (if q = 0 then FFin 0
      else let m = fmag \<bar>q\<bar>
           in if f64_limit \<le> m then FInf (q < 0) else FFin (if q < 0 then - m else m))"

lemma floor_le_round: "\<lfloor>q\<rfloor> \<le> round_half_even q" "round_half_even q \<le> \<lfloor>q\<rfloor> + 1"
  by (auto simp: round_half_even_def Let_def)

lemma round_half_even_err: "\<bar>of_int (round_half_even q) - q\<bar> \<le> 1 / 2"
proof -
  have "of_int \<lfloor>q\<rfloor> \<le> q" and "q < of_int \<lfloor>q\<rfloor> + 1" by linarith+
  then show ?thesis by (auto simp: round_half_even_def Let_def abs_le_iff)
qed

lemma round_half_even_unique:
  assumes "\<bar>q - of_int m\<bar> < 1 / 2"
  shows "round_half_even q = m"
proof -
  have "\<bar>(of_int (round_half_even q - m) :: rat)\<bar> < 1"
    using assms round_half_even_err [of q] unfolding of_int_diff by linarith
  then show ?thesis by linarith
qed

lemma round_half_even_int [simp]: "round_half_even (of_int n) = n"
  by (simp add: round_half_even_def)

lemma round_half_even_mono:
  assumes "p \<le> q"
  shows "round_half_even p \<le> round_half_even q"
proof (cases "\<lfloor>p\<rfloor> = \<lfloor>q\<rfloor>")
  case True
  with assms show ?thesis by (auto simp: round_half_even_def Let_def)
next
  case False
  with assms have "\<lfloor>p\<rfloor> + 1 \<le> \<lfloor>q\<rfloor>" using floor_mono [OF assms] by linarith
  then show ?thesis using floor_le_round [of p] floor_le_round [of q] by linarith
qed

lemma powi2_pos [simp]: "(0 :: rat) < 2 powi k"
  by (simp add: zero_less_power_int)

lemma powi2_mono: "k \<le> l \<Longrightarrow> (2 :: rat) powi k \<le> 2 powi l"
  by (simp add: power_int_increasing)

lemma bits_Len_rat:
  assumes "0 < n"
  shows "(2 :: rat) ^ (bits_Len (nat n) - 1) \<le> of_int n \<and> of_int n < (2 :: rat) ^ bits_Len (nat n)
     \<and> 0 < bits_Len (nat n)"
proof -
  have b: "2 ^ (bits_Len (nat n) - 1) \<le> nat n" "nat n < 2 ^ bits_Len (nat n)" "0 < bits_Len (nat n)"
    using bits_Len_bounds [of "nat n"] assms by simp_all
  have "of_nat (2 ^ (bits_Len (nat n) - 1)) \<le> (of_nat (nat n) :: rat)"
    and "(of_nat (nat n) :: rat) < of_nat (2 ^ bits_Len (nat n))"
    using b by (simp_all only: of_nat_le_iff of_nat_less_iff)
  then show ?thesis using assms b(3) by (simp add: of_nat_nat)
qed

lemma ilog2_bounds:
  assumes "0 < q"
  shows "2 powi ilog2 q \<le> q" and "q < 2 powi (ilog2 q + 1)"
proof -
  obtain n d where nd: "quotient_of q = (n, d)" by (cases "quotient_of q")
  then have d: "0 < d" and q: "q = of_int n / of_int d"
    by (auto dest: quotient_of_denom_pos quotient_of_div)
  with assms have n: "0 < n" by (simp add: zero_less_divide_iff)
  define a b where "a = bits_Len (nat n)" and "b = bits_Len (nat d)"
  have na: "(2 :: rat) ^ (a - 1) \<le> of_int n" "of_int n < (2 :: rat) ^ a" "0 < a"
    unfolding a_def using bits_Len_rat [OF n] by auto
  have db: "(2 :: rat) ^ (b - 1) \<le> of_int d" "of_int d < (2 :: rat) ^ b" "0 < b"
    unfolding b_def using bits_Len_rat [OF d] by auto
  define k where "k = int a - int b"
  have lo: "2 powi (k - 1) \<le> q"
  proof -
    have "(2 :: rat) powi (k - 1) = 2 ^ (a - 1) / 2 ^ b"
      using na(3) by (simp add: k_def power_int_diff) (simp add: power_diff)
    also have "\<dots> \<le> of_int n / of_int d"
      using na db d n by (intro frac_le) auto
    finally show ?thesis by (simp add: q)
  qed
  have hi: "q < 2 powi (k + 1)"
  proof -
    have "of_int n / of_int d < (2 :: rat) ^ a / 2 ^ (b - 1)"
      using na db d n by (intro frac_less) auto
    also have "\<dots> = 2 powi (k + 1)"
      using db(3) by (simp add: k_def power_int_diff power_int_add) (simp add: power_diff)
    finally show ?thesis by (simp add: q)
  qed
  have "ilog2 q = (if 2 powi k \<le> q then k else k - 1)"
    by (simp add: ilog2_def nd k_def a_def b_def)
  then show "2 powi ilog2 q \<le> q" "q < 2 powi (ilog2 q + 1)"
    using lo hi by auto
qed

lemma ilog2_unique:
  assumes "2 powi k \<le> q" and "q < 2 powi (k + 1)"
  shows "ilog2 q = k"
proof -
  have "0 < q" using assms(1) by (rule less_le_trans [OF powi2_pos])
  note b = ilog2_bounds [OF this]
  have "\<not> ilog2 q + 1 \<le> k" using b(2) assms(1) powi2_mono [of "ilog2 q + 1" k] by linarith
  moreover have "\<not> k + 1 \<le> ilog2 q" using b(1) assms(2) powi2_mono [of "k + 1" "ilog2 q"] by linarith
  ultimately show ?thesis by linarith
qed

lemma ilog2_mono:
  assumes "0 < p" and "p \<le> q"
  shows "ilog2 p \<le> ilog2 q"
proof (rule ccontr)
  assume "\<not> ilog2 p \<le> ilog2 q"
  then have "(2 :: rat) powi (ilog2 q + 1) \<le> 2 powi ilog2 p" by (intro powi2_mono) simp
  then show False using ilog2_bounds [of p] ilog2_bounds [of q] assms by linarith
qed

text \<open>The exponent picks the grid: the scaled value always lies below \<open>2^53\<close>.\<close>

lemma fexp_mono: "0 < p \<Longrightarrow> p \<le> q \<Longrightarrow> fexp p \<le> fexp q"
  using ilog2_mono [of p q] by (simp add: fexp_def)

lemma fexp_upper:
  assumes "0 < q"
  shows "q < 2 powi (fexp q + 53)"
proof -
  have "(2 :: rat) powi (ilog2 q + 1) \<le> 2 powi (fexp q + 53)"
    by (intro powi2_mono) (simp add: fexp_def)
  then show ?thesis using ilog2_bounds(2) [OF assms] by linarith
qed

lemma scale_powi: "(2 :: rat) powi (e + k) / 2 powi e = 2 powi k"
  by (simp add: power_int_add)

lemma powi2_int: "0 \<le> k \<Longrightarrow> (2 :: rat) powi k = of_int (2 ^ nat k)"
  by (simp add: power_int_def)

lemma fmag_nonneg:
  assumes "0 \<le> q"
  shows "0 \<le> fmag q"
proof -
  have "round_half_even (of_int 0) \<le> round_half_even (q / 2 powi fexp q)"
    using assms by (intro round_half_even_mono) (simp add: less_imp_le)
  then show ?thesis by (simp add: fmag_def less_imp_le del: of_int_0)
qed

lemma fmag_le_power:
  assumes "0 < q" and "q \<le> 2 powi (fexp q + k)" and "0 \<le> k"
  shows "fmag q \<le> 2 powi (fexp q + k)"
proof -
  have "q / 2 powi fexp q \<le> 2 powi k"
    using assms(2) by (simp add: power_int_add divide_le_eq mult.commute)
  then have "round_half_even (q / 2 powi fexp q) \<le> 2 ^ nat k"
    using round_half_even_mono [of "q / 2 powi fexp q" "of_int (2 ^ nat k)"] assms(3)
    by (simp only: powi2_int round_half_even_int)
  then have "(of_int (round_half_even (q / 2 powi fexp q)) :: rat) \<le> of_int (2 ^ nat k)"
    by (simp only: of_int_le_iff)
  then have "fmag q \<le> of_int (2 ^ nat k) * 2 powi fexp q"
    unfolding fmag_def by (intro mult_right_mono) (simp_all add: less_imp_le)
  also have "\<dots> = 2 powi (fexp q + k)"
    using assms(3) by (simp add: power_int_add powi2_int)
  finally show ?thesis .
qed

lemma fmag_ge_power:
  assumes "0 < q" and "2 powi (fexp q + k) \<le> q" and "0 \<le> k"
  shows "2 powi (fexp q + k) \<le> fmag q"
proof -
  have "2 powi k \<le> q / 2 powi fexp q"
    using assms(2) by (simp add: power_int_add le_divide_eq mult.commute)
  then have "2 ^ nat k \<le> round_half_even (q / 2 powi fexp q)"
    using round_half_even_mono [of "of_int (2 ^ nat k)" "q / 2 powi fexp q"] assms(3)
    by (simp only: powi2_int round_half_even_int)
  then have "of_int (2 ^ nat k) \<le> (of_int (round_half_even (q / 2 powi fexp q)) :: rat)"
    by (simp only: of_int_le_iff)
  then have "of_int (2 ^ nat k) * 2 powi fexp q \<le> fmag q"
    unfolding fmag_def by (intro mult_right_mono) (simp_all add: less_imp_le)
  moreover have "of_int (2 ^ nat k) * 2 powi fexp q = (2 :: rat) powi (fexp q + k)"
    using assms(3) by (simp add: power_int_add powi2_int)
  ultimately show ?thesis by simp
qed

lemma fmag_mono:
  assumes "0 < p" and "p \<le> q"
  shows "fmag p \<le> fmag q"
proof (cases "fexp p = fexp q")
  case True
  have "round_half_even (p / 2 powi fexp q) \<le> round_half_even (q / 2 powi fexp q)"
    using assms(2) by (intro round_half_even_mono) (simp add: divide_right_mono less_imp_le)
  with True show ?thesis by (simp add: fmag_def less_imp_le)
next
  case False
  with fexp_mono [OF assms] have lt: "fexp p < fexp q" by simp
  have "0 < q" using assms by linarith
  from lt have "ilog2 q = fexp q + 52" by (simp add: fexp_def max_def split: if_splits)
  then have "2 powi (fexp q + 52) \<le> fmag q"
    using fmag_ge_power [OF \<open>0 < q\<close>, of 52] ilog2_bounds(1) [OF \<open>0 < q\<close>] by simp
  moreover have "fmag p \<le> 2 powi (fexp p + 53)"
    using fmag_le_power [OF assms(1), of 53] fexp_upper [OF assms(1)] by simp
  moreover have "(2 :: rat) powi (fexp p + 53) \<le> 2 powi (fexp q + 52)"
    using lt by (intro powi2_mono) simp
  ultimately show ?thesis by linarith
qed

lemma fmag_exact:
  assumes "q = of_int m * 2 powi fexp q"
  shows "fmag q = q"
proof -
  have "q / 2 powi fexp q = of_int m"
    using assms by (metis less_numeral_extra(3) nonzero_mult_div_cancel_right powi2_pos)
  then show ?thesis using assms by (simp add: fmag_def)
qed

lemma fmag_power:
  assumes "- 1022 \<le> k"
  shows "fmag (2 powi k) = (2 powi k :: rat)"
proof (rule fmag_exact)
  have "ilog2 (2 powi k) = k" by (rule ilog2_unique) (simp_all add: power_int_add)
  then have "fexp (2 powi k) = k - 52" using assms by (simp add: fexp_def)
  then show "(2 :: rat) powi k = of_int (2 ^ 52) * 2 powi fexp (2 powi k)"
    by (simp add: power_int_diff)
qed

lemma fmag_le_powi:
  assumes "0 < q" and "q \<le> 2 powi k" and "- 1022 \<le> k"
  shows "fmag q \<le> 2 powi k"
  using fmag_mono [OF assms(1,2)] fmag_power [OF assms(3)] by simp

lemma powi_1024: "(2 :: rat) powi 1024 = f64_limit"
  by (simp only: power_int_numeral f64_limit_def)

lemma fround_bounded:
  assumes "\<bar>q\<bar> \<le> 2 powi k" and "- 1022 \<le> k" and "k < 1024"
  shows "\<exists>r. fround q = FFin r \<and> \<bar>r\<bar> \<le> 2 powi k"
proof (cases "q = 0")
  case False
  have "fmag \<bar>q\<bar> \<le> 2 powi k" using False assms by (intro fmag_le_powi) auto
  moreover have "(2 :: rat) powi k < 2 powi 1024"
    using assms(3) by (simp add: power_int_strict_increasing del: power_int_numeral)
  ultimately have "\<not> f64_limit \<le> fmag \<bar>q\<bar>" unfolding powi_1024 [symmetric] by linarith
  moreover have "0 \<le> fmag \<bar>q\<bar>" by (simp add: fmag_nonneg)
  ultimately show ?thesis using \<open>fmag \<bar>q\<bar> \<le> 2 powi k\<close> False
    by (auto simp: fround_def Let_def)
qed (simp add: fround_def less_imp_le)

lemma fround_int_exact:
  assumes "\<bar>n\<bar> \<le> 2 ^ 53"
  shows "fround (of_int n) = FFin (of_int n)"
proof (cases "n = 0")
  case False
  let ?q = "of_int \<bar>n\<bar> :: rat"
  have q0: "0 < ?q" using False by simp
  have "(2 :: rat) powi (- 1) < 1" by simp
  moreover have "1 \<le> ?q" using False by linarith
  ultimately have lo: "0 \<le> ilog2 ?q"
    using ilog2_bounds(2) [OF q0] powi2_mono [of "ilog2 ?q + 1" 0] by fastforce
  have "?q \<le> 2 powi 53" using assms by (simp flip: of_int_abs of_int_le_iff)
  then have hi: "ilog2 ?q \<le> 53"
    using ilog2_bounds(1) [OF q0] powi2_mono [of 54 "ilog2 ?q"] by fastforce
  have "fmag ?q = ?q"
  proof (cases "ilog2 ?q = 53")
    case True
    then have "?q = 2 powi 53" using ilog2_bounds(1) [OF q0] \<open>?q \<le> 2 powi 53\<close> by simp
    then show ?thesis using fmag_power [of 53] by simp
  next
    case False
    with lo hi have e: "fexp ?q = ilog2 ?q - 52" "fexp ?q \<le> 0" by (simp_all add: fexp_def)
    have "?q = of_int (\<bar>n\<bar> * 2 ^ nat (- fexp ?q)) * 2 powi fexp ?q"
      using e(2) by (simp add: power_int_def power_divide)
    then show ?thesis by (rule fmag_exact)
  qed
  moreover have "?q < f64_limit"
  proof -
    have "?q \<le> 2 powi 53" by fact
    also have "\<dots> < 2 powi 1024" by (simp add: power_int_strict_increasing del: power_int_numeral)
    finally show ?thesis by (simp only: powi_1024)
  qed
  ultimately show ?thesis using False by (simp add: fround_def Let_def)
qed (simp add: fround_def)

text \<open>Dyadic rationals with a 53-bit numerator are exact; with numerals this evaluates.\<close>

lemma fmag_dyadic:
  assumes "0 < m" and "m < 2 ^ 53" and "k \<le> 1074"
  shows "fmag (of_int m / 2 ^ k) = of_int m / 2 ^ k"
proof (rule fmag_exact)
  let ?q = "of_int m / 2 ^ k :: rat"
  have q0: "0 < ?q" using assms(1) by simp
  have "(of_int m :: rat) < of_int (2 ^ 53)" using assms(2) by (simp only: of_int_less_iff)
  then have "?q < 2 powi (53 - int k)" by (simp add: power_int_diff divide_strict_right_mono)
  then have "ilog2 ?q < 53 - int k"
    using ilog2_bounds(1) [OF q0] powi2_mono [of "53 - int k" "ilog2 ?q"] by fastforce
  then have e: "fexp ?q \<le> - int k" using assms(3) by (simp add: fexp_def)
  have "(2 :: rat) ^ nat (- int k - fexp ?q) * 2 powi fexp ?q = 2 powi (- int k)"
    using e by (simp add: power_int_add [symmetric] flip: power_int_of_nat)
  then show "?q = of_int (m * 2 ^ nat (- int k - fexp ?q)) * 2 powi fexp ?q"
    by (simp add: mult.assoc power_int_minus_divide)
qed

lemma fround_dyadic:
  assumes "\<bar>m\<bar> < 2 ^ 53" and "k \<le> 1074"
  shows "fround (of_int m / 2 ^ k) = FFin (of_int m / 2 ^ k)"
proof (cases "m = 0")
  case False
  let ?q = "of_int \<bar>m\<bar> / 2 ^ k :: rat"
  have eq: "\<bar>of_int m / 2 ^ k\<bar> = ?q" by (simp add: abs_divide)
  have mag: "fmag ?q = ?q" using False assms by (intro fmag_dyadic) auto
  have "\<not> f64_limit \<le> ?q"
  proof -
    have "(of_int \<bar>m\<bar> :: rat) < of_int (2 ^ 53)" using assms(1) by (simp only: of_int_less_iff)
    moreover have "?q \<le> of_int \<bar>m\<bar>" by (simp add: divide_le_eq mult_le_cancel_left1)
    moreover have "(2 :: rat) powi 53 < 2 powi 1024"
      by (simp add: power_int_strict_increasing del: power_int_numeral)
    ultimately show ?thesis unfolding powi_1024 [symmetric] by simp
  qed
  then show ?thesis using False mag eq by (auto simp: fround_def Let_def divide_less_0_iff)
qed (simp add: fround_def)

lemma fround_numeral:
  "numeral k < (2 :: int) ^ 53 \<Longrightarrow> fround (numeral k) = FFin (numeral k)"
  "numeral k < (2 :: int) ^ 53 \<Longrightarrow> fround (- numeral k) = FFin (- numeral k)"
  "fround 0 = FFin 0" "fround 1 = FFin 1"
  using fround_int_exact [of "numeral k"] fround_int_exact [of "- numeral k"]
    fround_int_exact [of 0] fround_int_exact [of 1] by simp_all

text \<open>Evaluation at a given binade.\<close>

lemma fround_evalI:
  assumes "2 powi k \<le> q" and "q < 2 powi (k + 1)" and "- 1022 \<le> k" and "k < 1023"
    and "round_half_even (q / 2 powi (k - 52)) = m"
  shows "fround q = FFin (of_int m * 2 powi (k - 52))"
proof -
  have q0: "0 < q" using assms(1) by (rule less_le_trans [OF powi2_pos])
  have "ilog2 q = k" using assms(1,2) by (rule ilog2_unique)
  then have "fexp q = k - 52" using assms(3) by (simp add: fexp_def)
  then have mag: "fmag q = of_int m * 2 powi (k - 52)" using assms(5) by (simp add: fmag_def)
  have "fmag q \<le> 2 powi (k + 1)" using q0 assms by (intro fmag_le_powi) auto
  moreover have "(2 :: rat) powi (k + 1) < 2 powi 1024"
    using assms(4) by (simp add: power_int_strict_increasing del: power_int_numeral)
  ultimately have "\<not> f64_limit \<le> fmag q" unfolding powi_1024 [symmetric] by linarith
  then show ?thesis using q0 mag by (simp add: fround_def Let_def)
qed

lemma fround_err_unit:
  assumes "0 \<le> q" and "q \<le> 1"
  shows "\<exists>r. fround q = FFin r \<and> 0 \<le> r \<and> r \<le> 1 \<and> \<bar>r - q\<bar> \<le> 1 / 2 ^ 54"
proof (cases "q = 0 \<or> q = 1")
  case True
  then show ?thesis using fround_int_exact [of 0] fround_int_exact [of 1] by auto
next
  case False
  with assms have q: "0 < q" "q < 1" by auto
  obtain r where r: "fround q = FFin r" "\<bar>r\<bar> \<le> 2 powi 0"
    using fround_bounded [of q 0] assms by auto
  then have rq: "r = fmag q" using q by (simp add: fround_def Let_def split: if_splits)
  have "ilog2 q < 0"
    using ilog2_bounds(1) [OF q(1)] q(2) powi2_mono [of 0 "ilog2 q"] by fastforce
  then have "fexp q \<le> - 53" by (simp add: fexp_def)
  then have "(2 :: rat) powi fexp q \<le> 2 powi (- 53)" by (rule powi2_mono)
  then have e: "(2 :: rat) powi fexp q \<le> 1 / 2 ^ 53" by (simp add: power_int_minus_divide)
  let ?x = "q / 2 powi fexp q"
  have "fmag q - q = (of_int (round_half_even ?x) - ?x) * 2 powi fexp q"
    by (simp add: fmag_def left_diff_distrib)
  then have "\<bar>fmag q - q\<bar> = \<bar>of_int (round_half_even ?x) - ?x\<bar> * 2 powi fexp q"
    by (simp only: abs_mult abs_of_pos [OF powi2_pos])
  also have "\<dots> \<le> 1 / 2 * (1 / 2 ^ 53)"
    using round_half_even_err [of ?x] e by (intro mult_mono) (simp_all add: less_imp_le)
  finally have "\<bar>r - q\<bar> \<le> 1 / 2 ^ 54" by (simp add: rq)
  moreover have "0 \<le> r" using fmag_nonneg [of q] q(1) by (simp add: rq)
  ultimately show ?thesis using r by auto
qed

section \<open>Operations and comparisons\<close>

fun f_finite :: "f64 \<Rightarrow> bool" where
  "f_finite (FFin _) = True"
| "f_finite _ = False"

fun f_lt :: "f64 \<Rightarrow> f64 \<Rightarrow> bool" where
  "f_lt (FFin a) (FFin b) = (a < b)"
| "f_lt (FInf s) (FFin _) = s"
| "f_lt (FFin _) (FInf t) = (\<not> t)"
| "f_lt (FInf s) (FInf t) = (s \<and> \<not> t)"
| "f_lt _ _ = False"

fun f_le :: "f64 \<Rightarrow> f64 \<Rightarrow> bool" where
  "f_le (FFin a) (FFin b) = (a \<le> b)"
| "f_le (FInf s) (FFin _) = s"
| "f_le (FFin _) (FInf t) = (\<not> t)"
| "f_le (FInf s) (FInf t) = (s \<or> \<not> t)"
| "f_le _ _ = False"

fun f_eq :: "f64 \<Rightarrow> f64 \<Rightarrow> bool" where
  "f_eq FNaN _ = False"
| "f_eq _ FNaN = False"
| "f_eq a b = (a = b)"

fun f_neg :: "f64 \<Rightarrow> f64" where
  "f_neg (FFin a) = FFin (- a)"
| "f_neg (FInf s) = FInf (\<not> s)"
| "f_neg FNaN = FNaN"

fun f_add :: "f64 \<Rightarrow> f64 \<Rightarrow> f64" where
  "f_add (FFin a) (FFin b) = fround (a + b)"
| "f_add (FInf s) (FFin _) = FInf s"
| "f_add (FFin _) (FInf t) = FInf t"
| "f_add (FInf s) (FInf t) = (if s = t then FInf s else FNaN)"
| "f_add _ _ = FNaN"

definition f_sub :: "f64 \<Rightarrow> f64 \<Rightarrow> f64" where
  "f_sub a b = f_add a (f_neg b)"

fun f_mul :: "f64 \<Rightarrow> f64 \<Rightarrow> f64" where
  "f_mul (FFin a) (FFin b) = fround (a * b)"
| "f_mul (FInf s) (FFin b) = (if b = 0 then FNaN else FInf (s \<noteq> (b < 0)))"
| "f_mul (FFin a) (FInf t) = (if a = 0 then FNaN else FInf (t \<noteq> (a < 0)))"
| "f_mul (FInf s) (FInf t) = FInf (s \<noteq> t)"
| "f_mul _ _ = FNaN"

fun f_div :: "f64 \<Rightarrow> f64 \<Rightarrow> f64" where
  "f_div (FFin a) (FFin b) = (if b = 0 then (if a = 0 then FNaN else FInf (a < 0)) else fround (a / b))"
| "f_div (FInf s) (FFin b) = FInf (s \<noteq> (b < 0))"
| "f_div (FFin _) (FInf _) = FFin 0"
| "f_div _ _ = FNaN"

definition f_of_int :: "int \<Rightarrow> f64" where
  "f_of_int n = fround (of_int n)"

text \<open>
  Conversion to \<open>int64\<close> drops the fraction. Outside the range Go leaves the result to the
  platform, so it is no value of the model.
\<close>

definition f_trunc :: "rat \<Rightarrow> int" where
  "f_trunc q = (if q < 0 then \<lceil>q\<rceil> else \<lfloor>q\<rfloor>)"

fun f_to_int64 :: "f64 \<Rightarrow> int option" where
  "f_to_int64 (FFin q) = (if in_int64 (f_trunc q) then Some (f_trunc q) else None)"
| "f_to_int64 _ = None"

text \<open>\<open>Duration.Seconds\<close>, and the millisecond figure the evidence carries.\<close>

definition Seconds :: "duration \<Rightarrow> f64" where
  "Seconds d = f_add (f_of_int (go_div d Second)) (f_div (f_of_int (go_rem d Second)) (FFin 1000000000))"

definition to_ms :: "duration \<Rightarrow> f64" where
  "to_ms d = f_mul (Seconds d) (FFin 1000)"

lemma fround_pos_cases:
  assumes "0 < q"
  shows "fround q = (if f64_limit \<le> fmag q then FInf False else FFin (fmag q))"
  using assms by (simp add: fround_def Let_def)

lemma fround_minus: "fround (- q) = f_neg (fround q)"
  by (auto simp: fround_def Let_def)

lemma f_le_neg: "f_le (f_neg a) (f_neg b) = f_le b a"
  by (cases a; cases b) auto

lemma f_neg_neg [simp]: "f_neg (f_neg a) = a"
  by (cases a) auto

lemma fround_mono_pos:
  assumes "0 < p" and "p \<le> q"
  shows "f_le (fround p) (fround q)"
  using fmag_mono [OF assms] assms by (auto simp: fround_pos_cases)

lemma fround_nonneg: "0 \<le> q \<Longrightarrow> f_le (FFin 0) (fround q)"
  using fmag_nonneg [of q] by (cases "q = 0") (auto simp: fround_def Let_def)

text \<open>Rounding is monotone over all of \<open>rat\<close>, infinities included.\<close>

lemma fround_mono:
  assumes "p \<le> q"
  shows "f_le (fround p) (fround q)"
proof -
  consider "0 < p" | "p \<le> 0" "0 \<le> q" | "q < 0" by linarith
  then show ?thesis
  proof cases
    case 1
    then show ?thesis using assms by (rule fround_mono_pos)
  next
    case 2
    have "f_le (f_neg (fround (- p))) (FFin 0)"
      using f_le_neg [of "fround (- p)" "FFin 0"] fround_nonneg [of "- p"] 2 by simp
    then have "f_le (fround p) (FFin 0)" by (simp add: fround_minus)
    then show ?thesis using fround_nonneg [OF 2(2)]
      by (cases "fround p"; cases "fround q") auto
  next
    case 3
    then have "f_le (fround (- q)) (fround (- p))" using assms by (intro fround_mono_pos) auto
    then show ?thesis by (simp add: fround_minus f_le_neg)
  qed
qed

lemma f_le_FFin_cases:
  assumes "f_le a b" and "f_finite a" and "f_finite b"
  obtains x y where "a = FFin x" "b = FFin y" "x \<le> y"
  using assms by (cases a; cases b) auto

lemma f_of_int_mono: "m \<le> n \<Longrightarrow> f_le (f_of_int m) (f_of_int n)"
  by (simp add: f_of_int_def fround_mono)

lemma f_of_int_exact: "\<bar>n\<bar> \<le> 2 ^ 53 \<Longrightarrow> f_of_int n = FFin (of_int n)"
  by (simp only: f_of_int_def fround_int_exact)

lemma f_lt_irrefl [simp]: "\<not> f_lt a a"
  by (cases a) auto

lemma f_lt_not_le: "f_lt a b \<Longrightarrow> \<not> f_le b a"
  by (cases a; cases b) auto

lemma f_finite_iff: "f_finite a \<longleftrightarrow> (\<exists>q. a = FFin q)"
  by (cases a) auto

text \<open>Every duration has finite seconds and milliseconds.\<close>

lemma go_div_abs: "0 < b \<Longrightarrow> \<bar>go_div a b\<bar> = \<bar>a\<bar> div b"
  by (cases "a = 0") (simp_all add: go_div_def abs_mult pos_imp_zdiv_nonneg_iff)

lemma go_rem_abs:
  assumes "0 < b"
  shows "\<bar>go_rem a b\<bar> = \<bar>a\<bar> mod b"
proof (cases "0 \<le> a")
  case True
  then show ?thesis using assms by simp
next
  case False
  then have "go_rem a b = - (\<bar>a\<bar> - b * (\<bar>a\<bar> div b))"
    using assms by (simp add: go_rem_def go_div_def sgn_if)
  then show ?thesis using assms by (simp add: minus_mult_div_eq_mod)
qed

lemma Seconds_bounded:
  assumes "in_int64 d"
  shows "\<exists>r. Seconds d = FFin r \<and> \<bar>r\<bar> \<le> 2 powi 35"
proof -
  have d: "\<bar>d\<bar> \<le> 9223372036854775808" using assms by (auto simp: int64_defs)
  then have "\<bar>d\<bar> div 1000000000 \<le> 9223372036854775808 div 1000000000"
    by (intro zdiv_mono1) simp_all
  then have q: "\<bar>go_div d 1000000000\<bar> \<le> 9223372036" by (simp add: go_div_abs)
  have r: "\<bar>go_rem d 1000000000\<bar> \<le> 1000000000" by (simp add: go_rem_abs less_imp_le)
  have "\<bar>of_int (go_rem d 1000000000) / 1000000000 :: rat\<bar> \<le> 2 powi 0"
    using r by (simp add: abs_divide)
  then obtain f where f: "fround (of_int (go_rem d 1000000000) / 1000000000) = FFin f" "\<bar>f\<bar> \<le> 1"
    using fround_bounded [of "of_int (go_rem d 1000000000) / 1000000000" 0] by auto
  have "\<bar>of_int (go_div d 1000000000) :: rat\<bar> \<le> 9223372036"
    using q by (metis of_int_abs of_int_le_iff of_int_numeral)
  then have "\<bar>of_int (go_div d 1000000000) + f\<bar> \<le> 2 powi 35" using f(2) by simp
  then have "\<exists>r. fround (of_int (go_div d 1000000000) + f) = FFin r \<and> \<bar>r\<bar> \<le> 2 powi 35"
    by (intro fround_bounded) simp_all
  then show ?thesis using q r f(1) by (simp add: Seconds_def f_of_int_exact)
qed

lemma to_ms_finite [simp]: "in_int64 d \<Longrightarrow> f_finite (to_ms d)"
proof -
  assume "in_int64 d"
  then obtain r where r: "Seconds d = FFin r" "\<bar>r\<bar> \<le> 2 powi 35" using Seconds_bounded by blast
  then have "\<bar>r * 1000\<bar> \<le> 2 powi 45" by (simp add: abs_mult)
  then have "\<exists>s. fround (r * 1000) = FFin s \<and> \<bar>s\<bar> \<le> 2 powi 45"
    by (intro fround_bounded) simp_all
  then show ?thesis using r(1) by (auto simp: to_ms_def)
qed

section \<open>Text of floating-point numbers\<close>

text \<open>
  \<open>strconv.ParseFloat(s, 64)\<close>. The literals are decimal with an optional fraction and exponent, or
  hexadecimal with a mandatory binary exponent; \<open>inf\<close> and \<open>infinity\<close> may carry a sign, \<open>nan\<close> may
  not. Underscores may stand between digits. A value that rounds to an infinity is a range error.
\<close>

definition is_hex_digit :: "char \<Rightarrow> bool" where
  "is_hex_digit c \<longleftrightarrow> hex_val c \<noteq> None"

text \<open>The scan behind \<open>underscoreOK\<close>: the class of the previous character is \<open>0\<close> for the start,
  \<open>1\<close> for a digit, \<open>2\<close> for an underscore, \<open>3\<close> for anything else.\<close>

fun underscore_scan :: "bool \<Rightarrow> nat \<Rightarrow> string \<Rightarrow> bool" where
  "underscore_scan hex prev [] = (prev \<noteq> 2)"
| "underscore_scan hex prev (c # cs) =
     (if is_digit c \<or> hex \<and> is_hex_digit c then underscore_scan hex 1 cs
      else if c = CHR ''_'' then prev = 1 \<and> underscore_scan hex 2 cs
      else prev \<noteq> 2 \<and> underscore_scan hex 3 cs)"

definition strip_sign :: "string \<Rightarrow> bool \<times> string" where
  "strip_sign s =
     (case s of
        c # cs \<Rightarrow> if c = CHR ''-'' then (True, cs) else if c = CHR ''+'' then (False, cs) else (False, s)
      | [] \<Rightarrow> (False, s))"

definition base_prefix :: "char list \<Rightarrow> string \<Rightarrow> bool" where
  "base_prefix letters s \<longleftrightarrow> 2 \<le> length s \<and> s ! 0 = CHR ''0'' \<and> lower_char (s ! 1) \<in> set letters"

definition underscoreOK :: "string \<Rightarrow> bool" where
  "underscoreOK s =
     (let body = snd (strip_sign s)
      in if base_prefix ''box'' body
         then underscore_scan (base_prefix ''x'' body) 1 (drop 2 body)
         else underscore_scan False 0 body)"

text \<open>The exponent saturates once it reaches five digits, as the library's accumulator does.\<close>

definition exp_val :: "string \<Rightarrow> nat" where
  "exp_val s = foldl (\<lambda>e c. if e < 10000 then 10 * e + digit_val c else e) 0 s"

definition parse_exponent :: "string \<Rightarrow> int option" where
  "parse_exponent s =
     (let (neg, ds) = strip_sign s
      in if ds \<noteq> [] \<and> is_digit (hd ds) \<and> list_all (\<lambda>c. is_digit c \<or> c = CHR ''_'') ds
         then Some (let e = int (exp_val (filter is_digit ds)) in if neg then - e else e) else None)"

definition mantissa_val :: "nat \<Rightarrow> string \<Rightarrow> nat" where
  "mantissa_val base ds = foldl (\<lambda>n c. base * n + the (hex_val c)) 0 ds"

definition read_number :: "bool \<Rightarrow> string \<Rightarrow> rat option" where
  "read_number hex body =
     (let dig = (\<lambda>c. if hex then is_hex_digit c else is_digit c);
          base = (if hex then 16 else 10);
          run = (\<lambda>s. takeWhile (\<lambda>c. dig c \<or> c = CHR ''_'') s);
          rest = (\<lambda>s. dropWhile (\<lambda>c. dig c \<or> c = CHR ''_'') s);
          ip = filter dig (run body); r1 = rest body;
          dot = (r1 \<noteq> [] \<and> hd r1 = CHR ''.'');
          fp = (if dot then filter dig (run (tl r1)) else []);
          r2 = (if dot then rest (tl r1) else r1);
          m = of_nat (mantissa_val base (ip @ fp)) / of_nat (base ^ length fp)
      in if ip @ fp = [] then None
         else case r2 of
           [] \<Rightarrow> if hex then None else Some m
         | c # cs \<Rightarrow>
             if lower_char c = (if hex then CHR ''p'' else CHR ''e'')
             then map_option (\<lambda>e. m * (if hex then 2 else 10) powi e) (parse_exponent cs)
             else None)"

definition parse_special :: "string \<Rightarrow> f64 option" where
  "parse_special s =
     (let (neg, body) = strip_sign s
      in if ToLower body = ''inf'' \<or> ToLower body = ''infinity'' then Some (FInf neg)
         else if ToLower s = ''nan'' then Some FNaN else None)"

definition ParseFloat :: "string \<Rightarrow> f64 option" where
  "ParseFloat s =
     (case parse_special s of
        Some v \<Rightarrow> Some v
      | None \<Rightarrow>
          (let (neg, body) = strip_sign s;
               hex = (base_prefix ''x'' body \<and> 2 < length body);
               num = (if hex then read_number True (drop 2 body) else read_number False body)
           in if CHR ''_'' \<in> set s \<and> \<not> underscoreOK s then None
              else case num of
                None \<Rightarrow> None
              | Some q \<Rightarrow>
                  (case fround (if neg then - q else q) of
                     FFin r \<Rightarrow> Some (FFin r)
                   | _ \<Rightarrow> None)))"

text \<open>The \<open>%.2f\<close> and \<open>%.0f\<close> verbs: the exact value, rounded half to even at the last place.\<close>

definition format_fixed :: "nat \<Rightarrow> f64 \<Rightarrow> string" where
  "format_fixed prec v =
     (case v of
        FNaN \<Rightarrow> ''NaN''
      | FInf neg \<Rightarrow> if neg then ''-Inf'' else ''+Inf''
      | FFin q \<Rightarrow>
          (let n = nat (round_half_even (\<bar>q\<bar> * 10 ^ prec));
               whole = FormatUint (n div 10 ^ prec);
               frac = (if prec = 0 then [] else CHR ''.'' # pad_zeros prec (FormatUint (n mod 10 ^ prec)))
           in (if q < 0 then ''-'' else []) @ whole @ frac))"

lemma format_fixed_nonempty [simp]: "format_fixed prec v \<noteq> []"
  by (auto simp: format_fixed_def Let_def split: f64.splits)

end
