(* ===== verification/Observation.thy ===== *)
theory Observation
  imports Slots GoFloat
begin

text \<open>
  \<open>internal/domain/observation.go\<close>: the closed vocabulary of observation kinds and attribute
  keys, which source may report which kind, the validation of an observation, and the
  canonicalising constructor \<open>NewObservation\<close>.

  An attribute map is an association list in the order a \<open>range\<close> loop happens to visit it; its keys
  are distinct, as those of a Go map are (\<open>attrs_wf\<close>).
\<close>

section \<open>Vocabulary\<close>

datatype ObservationKind =
    ObsSlotStart | ObsDutyAssigned | ObsBlockSeen | ObsBlockSkipped | ObsHeadUpdated
  | ObsAttestationPublished | ObsAttestationIncluded | ObsBlockProposed | ObsReorg
  | ObsPeerCountSampled | ObsEngineCall | ObsHostSampled | ObsClockSampled
  | ObsCollectionCompleted | ObsNetworkBaselineSampled | ObsPayloadAttested
  | ObsOther string

fun ObservationKind_str :: "ObservationKind \<Rightarrow> string" where
  "ObservationKind_str ObsSlotStart = ''slot_start''"
| "ObservationKind_str ObsDutyAssigned = ''duty_assigned''"
| "ObservationKind_str ObsBlockSeen = ''block_seen''"
| "ObservationKind_str ObsBlockSkipped = ''block_skipped''"
| "ObservationKind_str ObsHeadUpdated = ''head_updated''"
| "ObservationKind_str ObsAttestationPublished = ''attestation_published''"
| "ObservationKind_str ObsAttestationIncluded = ''attestation_included''"
| "ObservationKind_str ObsBlockProposed = ''block_proposed''"
| "ObservationKind_str ObsReorg = ''reorg''"
| "ObservationKind_str ObsPeerCountSampled = ''peer_count_sampled''"
| "ObservationKind_str ObsEngineCall = ''engine_call''"
| "ObservationKind_str ObsHostSampled = ''host_sampled''"
| "ObservationKind_str ObsClockSampled = ''clock_sampled''"
| "ObservationKind_str ObsCollectionCompleted = ''collection_completed''"
| "ObservationKind_str ObsNetworkBaselineSampled = ''network_baseline_sampled''"
| "ObservationKind_str ObsPayloadAttested = ''payload_attested''"
| "ObservationKind_str (ObsOther s) = s"

definition ObservationKinds :: "ObservationKind list" where
  "ObservationKinds =
     [ObsSlotStart, ObsDutyAssigned, ObsBlockSeen, ObsBlockSkipped, ObsHeadUpdated,
      ObsAttestationPublished, ObsAttestationIncluded, ObsBlockProposed, ObsReorg,
      ObsPeerCountSampled, ObsEngineCall, ObsHostSampled, ObsClockSampled,
      ObsCollectionCompleted, ObsNetworkBaselineSampled, ObsPayloadAttested]"

fun ObservationKind_Valid :: "ObservationKind \<Rightarrow> bool" where
  "ObservationKind_Valid (ObsOther _) = False"
| "ObservationKind_Valid _ = True"

datatype AttrKey =
    AttrBlockRoot | AttrProposerIndex | AttrValidatorIndex | AttrEngineMethod | AttrDurationMS
  | AttrPeerCount | AttrMetric | AttrValue | AttrInclusionDelay | AttrHeadCorrect
  | AttrTargetCorrect | AttrBlockArrivalP50MS | AttrBlockArrivalP90MS | AttrSampleCount
  | AttrPayloadPresent | AttrPTCVotes | AttrOther string

fun AttrKey_str :: "AttrKey \<Rightarrow> string" where
  "AttrKey_str AttrBlockRoot = ''block_root''"
| "AttrKey_str AttrProposerIndex = ''proposer_index''"
| "AttrKey_str AttrValidatorIndex = ''validator_index''"
| "AttrKey_str AttrEngineMethod = ''engine_method''"
| "AttrKey_str AttrDurationMS = ''duration_ms''"
| "AttrKey_str AttrPeerCount = ''peer_count''"
| "AttrKey_str AttrMetric = ''metric''"
| "AttrKey_str AttrValue = ''value''"
| "AttrKey_str AttrInclusionDelay = ''inclusion_delay''"
| "AttrKey_str AttrHeadCorrect = ''head_correct''"
| "AttrKey_str AttrTargetCorrect = ''target_correct''"
| "AttrKey_str AttrBlockArrivalP50MS = ''block_arrival_p50_ms''"
| "AttrKey_str AttrBlockArrivalP90MS = ''block_arrival_p90_ms''"
| "AttrKey_str AttrSampleCount = ''sample_count''"
| "AttrKey_str AttrPayloadPresent = ''payload_present''"
| "AttrKey_str AttrPTCVotes = ''ptc_votes''"
| "AttrKey_str (AttrOther s) = s"

definition EngineMethodNewPayload :: string where
  "EngineMethodNewPayload = ''newPayload''"

definition EngineMethodForkchoiceUpdated :: string where
  "EngineMethodForkchoiceUpdated = ''forkchoiceUpdated''"

definition AttrKeys :: "AttrKey list" where
  "AttrKeys =
     [AttrBlockArrivalP50MS, AttrBlockArrivalP90MS, AttrBlockRoot, AttrDurationMS,
      AttrEngineMethod, AttrHeadCorrect, AttrInclusionDelay, AttrMetric, AttrPeerCount,
      AttrProposerIndex, AttrSampleCount, AttrTargetCorrect, AttrValidatorIndex, AttrValue]"

fun AttrKey_PermittedFor :: "AttrKey \<Rightarrow> ObservationKind \<Rightarrow> bool" where
  "AttrKey_PermittedFor a ObsDutyAssigned = (a = AttrValidatorIndex)"
| "AttrKey_PermittedFor a ObsCollectionCompleted = (a = AttrValidatorIndex)"
| "AttrKey_PermittedFor a ObsBlockSeen = (a = AttrBlockRoot \<or> a = AttrProposerIndex)"
| "AttrKey_PermittedFor a ObsHeadUpdated = (a = AttrBlockRoot)"
| "AttrKey_PermittedFor a ObsAttestationPublished = (a = AttrValidatorIndex \<or> a = AttrBlockRoot)"
| "AttrKey_PermittedFor a ObsBlockProposed = (a = AttrValidatorIndex \<or> a = AttrBlockRoot)"
| "AttrKey_PermittedFor a ObsAttestationIncluded =
     (a \<in> {AttrValidatorIndex, AttrInclusionDelay, AttrBlockRoot, AttrHeadCorrect, AttrTargetCorrect})"
| "AttrKey_PermittedFor a ObsPeerCountSampled = (a = AttrPeerCount)"
| "AttrKey_PermittedFor a ObsEngineCall =
     (a = AttrEngineMethod \<or> a = AttrDurationMS \<or> a = AttrSampleCount)"
| "AttrKey_PermittedFor a ObsHostSampled = (a = AttrMetric \<or> a = AttrValue)"
| "AttrKey_PermittedFor a ObsClockSampled = (a = AttrValue)"
| "AttrKey_PermittedFor a ObsNetworkBaselineSampled =
     (a = AttrBlockArrivalP50MS \<or> a = AttrBlockArrivalP90MS \<or> a = AttrSampleCount)"
| "AttrKey_PermittedFor a ObsPayloadAttested = (a = AttrPayloadPresent \<or> a = AttrPTCVotes)"
| "AttrKey_PermittedFor a ObsSlotStart = False"
| "AttrKey_PermittedFor a ObsBlockSkipped = False"
| "AttrKey_PermittedFor a ObsReorg = False"
| "AttrKey_PermittedFor a (ObsOther _) = False"

section \<open>Observations\<close>

type_synonym attrs = "(AttrKey \<times> string) list"

record Observation =
  obs_Slot :: slot
  obs_Kind :: ObservationKind
  obs_At :: gotime
  obs_ClockOffset :: duration
  obs_ClockMeasured :: bool
  obs_ClockSampleAt :: gotime
  obs_Source :: SourceID
  obs_Attrs :: attrs

definition attrs_wf :: "attrs \<Rightarrow> bool" where
  "attrs_wf as \<longleftrightarrow> distinct (map fst as)"

fun sourcePermittedFor :: "SourceID \<Rightarrow> ObservationKind \<Rightarrow> bool" where
  "sourcePermittedFor s ObsSlotStart = (s = SourceDerived)"
| "sourcePermittedFor s ObsCollectionCompleted = (s = SourceDerived)"
| "sourcePermittedFor s ObsDutyAssigned = (s = SourceBeaconAPI)"
| "sourcePermittedFor s ObsBlockSkipped = (s = SourceBeaconAPI)"
| "sourcePermittedFor s ObsHeadUpdated = (s = SourceBeaconAPI)"
| "sourcePermittedFor s ObsAttestationPublished = (s = SourceBeaconAPI)"
| "sourcePermittedFor s ObsAttestationIncluded = (s = SourceBeaconAPI)"
| "sourcePermittedFor s ObsBlockProposed = (s = SourceBeaconAPI)"
| "sourcePermittedFor s ObsReorg = (s = SourceBeaconAPI)"
| "sourcePermittedFor s ObsPayloadAttested = (s = SourceBeaconAPI)"
| "sourcePermittedFor s ObsBlockSeen = (s = SourceBeaconAPI \<or> s = SourcePromScrape)"
| "sourcePermittedFor s ObsPeerCountSampled = (s = SourceBeaconAPI \<or> s = SourcePromScrape)"
| "sourcePermittedFor s ObsEngineCall = (s = SourcePromScrape)"
| "sourcePermittedFor s ObsHostSampled = (s = SourceHostMetrics)"
| "sourcePermittedFor s ObsClockSampled = (s = SourceClock)"
| "sourcePermittedFor s ObsNetworkBaselineSampled =
     (s = SourceXatu \<or> s = SourcePromScrape \<or> s = SourceBeaconAPI)"
| "sourcePermittedFor s (ObsOther _) = False"

definition maxObservationAttrValueBytes :: nat where
  "maxObservationAttrValueBytes = 256"

text \<open>\<open>float64(time.Duration(1<<63-1)) / float64(time.Millisecond)\<close>\<close>

definition maxMilliseconds :: f64 where
  "maxMilliseconds = f_div (f_of_int int64_max) (f_of_int Millisecond)"

definition is_uint :: "string \<Rightarrow> bool" where
  "is_uint v \<longleftrightarrow> ParseUint v \<noteq> None"

definition is_positive_uint :: "string \<Rightarrow> bool" where
  "is_positive_uint v \<longleftrightarrow> (case ParseUint v of None \<Rightarrow> False | Some n \<Rightarrow> n \<noteq> 0)"

definition is_float_where :: "(f64 \<Rightarrow> bool) \<Rightarrow> string \<Rightarrow> bool" where
  "is_float_where ok v \<longleftrightarrow> (case ParseFloat v of None \<Rightarrow> False | Some f \<Rightarrow> f_finite f \<and> ok f)"

definition is_root :: "string \<Rightarrow> bool" where
  "is_root v \<longleftrightarrow> length v = 66 \<and> HasPrefix v ''0x'' \<and> hex_DecodeString (drop 2 v) \<noteq> None"

fun validateObservationAttr :: "AttrKey \<Rightarrow> string \<Rightarrow> domain_error option" where
  "validateObservationAttr AttrProposerIndex v =
     check (\<not> is_uint v) (ErrText ''must be an unsigned integer'')"
| "validateObservationAttr AttrValidatorIndex v =
     check (\<not> is_uint v) (ErrText ''must be an unsigned integer'')"
| "validateObservationAttr AttrInclusionDelay v =
     check (\<not> is_positive_uint v) (ErrText ''must be a positive integer'')"
| "validateObservationAttr AttrSampleCount v =
     check (\<not> is_positive_uint v) (ErrText ''must be a positive integer'')"
| "validateObservationAttr AttrPTCVotes v =
     check (\<not> is_positive_uint v) (ErrText ''must be a positive integer'')"
| "validateObservationAttr AttrDurationMS v =
     check (\<not> is_float_where (\<lambda>f. \<not> f_lt f (FFin 0) \<and> \<not> f_lt maxMilliseconds f) v)
       (ErrText ''must be a finite non-negative duration in milliseconds'')"
| "validateObservationAttr AttrBlockArrivalP50MS v =
     check (\<not> is_float_where (\<lambda>f. \<not> f_lt f (FFin 0) \<and> \<not> f_lt maxMilliseconds f) v)
       (ErrText ''must be a finite non-negative duration in milliseconds'')"
| "validateObservationAttr AttrBlockArrivalP90MS v =
     check (\<not> is_float_where (\<lambda>f. \<not> f_lt f (FFin 0) \<and> \<not> f_lt maxMilliseconds f) v)
       (ErrText ''must be a finite non-negative duration in milliseconds'')"
| "validateObservationAttr AttrPeerCount v =
     check (\<not> is_float_where (\<lambda>f. \<not> f_lt f (FFin 0)) v)
       (ErrText ''must be a finite non-negative number'')"
| "validateObservationAttr AttrValue v =
     check (\<not> is_float_where (\<lambda>f. True) v) (ErrText ''must be a finite number'')"
| "validateObservationAttr AttrEngineMethod v =
     check (v \<noteq> EngineMethodNewPayload \<and> v \<noteq> EngineMethodForkchoiceUpdated)
       (ErrText ''must be newPayload or forkchoiceUpdated'')"
| "validateObservationAttr AttrBlockRoot v =
     check (\<not> is_root v) (ErrText ''must be a 32-byte 0x-prefixed hex root'')"
| "validateObservationAttr _ v = None"

text \<open>One iteration of the attribute loop of \<open>Validate\<close>; every failure wraps \<open>ErrInvalidAttr\<close>.\<close>

definition validate_attr :: "ObservationKind \<Rightarrow> AttrKey \<times> string \<Rightarrow> domain_error option" where
  "validate_attr kind kv =
     (case kv of (key, value) \<Rightarrow> first_error
        [check (\<not> AttrKey_PermittedFor key kind) ErrInvalidAttr,
         check (value = []) ErrInvalidAttr,
         check (length value > maxObservationAttrValueBytes) ErrInvalidAttr,
         check (key \<in> {AttrHeadCorrect, AttrTargetCorrect, AttrPayloadPresent} \<and>
                value \<noteq> ''true'' \<and> value \<noteq> ''false'') ErrInvalidAttr,
         check (validateObservationAttr key value \<noteq> None) ErrInvalidAttr])"

text \<open>The clock metadata checks, shared word for word by observations and metric samples.\<close>

definition validate_clock :: "bool \<Rightarrow> duration \<Rightarrow> gotime \<Rightarrow> domain_error option" where
  "validate_clock measured offset sampleAt =
     (if measured then first_error
        [check (IsZero sampleAt) ErrInvalidClock, check (t_loc sampleAt \<noteq> UTC) ErrInvalidClock]
      else check (offset \<noteq> 0 \<or> \<not> IsZero sampleAt) ErrInvalidClock)"

definition Observation_Validate :: "Observation \<Rightarrow> domain_error option" where
  "Observation_Validate ob = first_error
     [check (\<not> ObservationKind_Valid (obs_Kind ob)) ErrInvalidKind,
      check (IsZero (obs_At ob)) ErrMissingTimestamp,
      check (t_loc (obs_At ob) \<noteq> UTC) ErrNotUTC,
      check (SourceID_str (obs_Source ob) = []) ErrMissingSource,
      check (\<not> SourceID_Valid (obs_Source ob)) ErrMissingSource,
      check (\<not> sourcePermittedFor (obs_Source ob) (obs_Kind ob)) ErrInvalidSource,
      validate_clock (obs_ClockMeasured ob) (obs_ClockOffset ob) (obs_ClockSampleAt ob),
      first_error (map (validate_attr (obs_Kind ob)) (obs_Attrs ob))]"

definition lower_root :: "AttrKey \<times> string \<Rightarrow> AttrKey \<times> string" where
  "lower_root kv = (if fst kv = AttrBlockRoot then (fst kv, ToLower (snd kv)) else kv)"

definition NewObservation :: "Observation \<Rightarrow> domain_error + Observation" where
  "NewObservation draft =
     (case Observation_Validate draft of
        Some e \<Rightarrow> Inl e
      | None \<Rightarrow> Inr (draft\<lparr>obs_Attrs := map lower_root (obs_Attrs draft)\<rparr>))"

definition Observation_Attr :: "Observation \<Rightarrow> AttrKey \<Rightarrow> string option" where
  "Observation_Attr ob key = map_of (obs_Attrs ob) key"

definition Observation_Offset :: "Observation \<Rightarrow> gotime \<Rightarrow> duration" where
  "Observation_Offset ob slotStart = Sub (obs_At ob) slotStart"

section \<open>Facts about validation\<close>

lemma ObservationKinds_complete: "set ObservationKinds = {k. ObservationKind_Valid k}"
proof -
  have "k \<in> set ObservationKinds \<longleftrightarrow> ObservationKind_Valid k" for k
    by (cases k) (simp_all add: ObservationKinds_def)
  then show ?thesis by auto
qed

lemma validate_attr_error: "validate_attr kind kv \<in> {None, Some ErrInvalidAttr}"
  by (cases kv) (auto simp: validate_attr_def simp del: not_None_eq dest!: first_error_Some
      intro: option.exhaust)

lemma validate_attrs_result:
  "first_error (map (validate_attr kind) as) =
     (if \<forall>kv \<in> set as. validate_attr kind kv = None then None else Some ErrInvalidAttr)"
proof (induction as)
  case (Cons kv as)
  then show ?case using validate_attr_error [of kind kv]
    by (cases "validate_attr kind kv") (simp_all add: first_error.simps)
qed simp

lemma validate_attrs_None:
  "first_error (map (validate_attr kind) as) = None \<longleftrightarrow> (\<forall>kv \<in> set as. validate_attr kind kv = None)"
  by (simp add: validate_attrs_result)

text \<open>A valid observation, field by field.\<close>

lemma Observation_ValidateD:
  assumes "Observation_Validate ob = None"
  shows "ObservationKind_Valid (obs_Kind ob)" "\<not> IsZero (obs_At ob)" "t_loc (obs_At ob) = UTC"
    "SourceID_Valid (obs_Source ob)" "sourcePermittedFor (obs_Source ob) (obs_Kind ob)"
    "obs_ClockMeasured ob \<Longrightarrow> \<not> IsZero (obs_ClockSampleAt ob) \<and> t_loc (obs_ClockSampleAt ob) = UTC"
    "\<not> obs_ClockMeasured ob \<Longrightarrow> obs_ClockOffset ob = 0 \<and> IsZero (obs_ClockSampleAt ob)"
    "kv \<in> set (obs_Attrs ob) \<Longrightarrow> validate_attr (obs_Kind ob) kv = None"
  using assms
  by (auto simp: Observation_Validate_def validate_clock_def validate_attrs_None split: if_splits)

lemma Observation_Attr_valid:
  assumes "Observation_Validate ob = None" and "Observation_Attr ob key = Some v"
  shows "AttrKey_PermittedFor key (obs_Kind ob)" "validateObservationAttr key v = None"
    "key \<in> {AttrHeadCorrect, AttrTargetCorrect, AttrPayloadPresent} \<Longrightarrow> v = ''true'' \<or> v = ''false''"
proof -
  have "(key, v) \<in> set (obs_Attrs ob)"
    using assms(2) by (auto simp: Observation_Attr_def dest: map_of_SomeD)
  with assms(1) have *: "validate_attr (obs_Kind ob) (key, v) = None" by (rule Observation_ValidateD)
  then show "AttrKey_PermittedFor key (obs_Kind ob)" "validateObservationAttr key v = None"
    by (simp_all add: validate_attr_def)
  from * show "v = ''true'' \<or> v = ''false''"
    if "key \<in> {AttrHeadCorrect, AttrTargetCorrect, AttrPayloadPresent}"
    using that by (auto simp: validate_attr_def)
qed

lemma is_float_whereD:
  assumes "is_float_where ok v" and "ParseFloat v = Some f"
  shows "f_finite f" "ok f"
  using assms by (auto simp: is_float_where_def)

lemma is_root_ToLower:
  assumes "is_root v"
  shows "is_root (ToLower v)"
proof -
  have "take 2 (ToLower v) = map lower_char (take 2 v)" by (simp add: ToLower_def take_map)
  also have "take 2 v = ''0x''" using assms by (simp add: is_root_def HasPrefix_def numeral_2_eq_2)
  finally have "HasPrefix (ToLower v) ''0x''" by (simp add: HasPrefix_def lower_char_def numeral_2_eq_2)
  moreover have "drop 2 (ToLower v) = ToLower (drop 2 v)" by (simp add: ToLower_def drop_map)
  ultimately show ?thesis using assms by (simp add: is_root_def hex_DecodeString_ToLower)
qed

text \<open>Lower-casing a root keeps an attribute valid, so the constructor's result validates again.\<close>

lemma validate_attr_lower_root:
  assumes "validate_attr kind kv = None"
  shows "validate_attr kind (lower_root kv) = None"
proof (cases "fst kv = AttrBlockRoot")
  case True
  then obtain v where kv: "kv = (AttrBlockRoot, v)" by (cases kv) auto
  with assms have "is_root v" by (simp add: validate_attr_def)
  then have "is_root (ToLower v)" by (rule is_root_ToLower)
  with assms kv show ?thesis by (auto simp: validate_attr_def lower_root_def ToLower_def)
next
  case False
  with assms show ?thesis by (simp add: lower_root_def)
qed

lemma NewObservation_valid:
  assumes "NewObservation draft = Inr ob"
  shows "Observation_Validate ob = None"
proof -
  from assms have v: "Observation_Validate draft = None"
    and ob: "ob = draft\<lparr>obs_Attrs := map lower_root (obs_Attrs draft)\<rparr>"
    by (auto simp: NewObservation_def split: option.splits)
  have "\<forall>kv \<in> set (obs_Attrs draft). validate_attr (obs_Kind draft) (lower_root kv) = None"
    using Observation_ValidateD(8) [OF v] by (blast intro: validate_attr_lower_root)
  with v show ?thesis by (simp add: ob Observation_Validate_def validate_attrs_None del: map_map)
qed

lemma lower_root_idem [simp]: "lower_root (lower_root kv) = lower_root kv"
  by (simp add: lower_root_def)

lemma map_of_lower_root:
  "map_of (map lower_root as) key =
     (if key = AttrBlockRoot then map_option ToLower (map_of as key) else map_of as key)"
  by (induction as) (auto simp: lower_root_def)

section \<open>Properties\<close>

text \<open>
  Whatever order Go's map iteration visits the attributes in, \<open>Observation.Validate\<close>
  answers with the same verdict and the same sentinel error.
\<close>

lemma Observation_Validate_order_independent:
  assumes "mset as = mset (obs_Attrs ob)"
  shows "Observation_Validate (ob\<lparr>obs_Attrs := as\<rparr>) = Observation_Validate ob"
proof -
  have "set as = set (obs_Attrs ob)" using assms by (metis set_mset_mset)
  then show ?thesis by (simp add: Observation_Validate_def validate_attrs_result first_error.simps)
qed

text \<open>
  \<open>NewObservation\<close> either reports exactly the error \<open>Validate\<close> finds, or returns a copy
  that validates, is a fixed point of the constructor, keeps every attribute but the block root
  and carries the block root in lower case.
\<close>

lemma NewObservation_canonical:
  "(case NewObservation draft of
      Inl e \<Rightarrow> Observation_Validate draft = Some e
    | Inr ob \<Rightarrow> Observation_Validate draft = None \<and> Observation_Validate ob = None \<and>
        NewObservation ob = Inr ob \<and>
        Observation_Attr ob AttrBlockRoot = map_option ToLower (Observation_Attr draft AttrBlockRoot) \<and>
        (\<forall>key. key = AttrBlockRoot \<or> Observation_Attr ob key = Observation_Attr draft key))"
proof (cases "NewObservation draft")
  case (Inl e)
  then show ?thesis by (auto simp: NewObservation_def split: option.splits)
next
  case (Inr ob)
  then have v: "Observation_Validate draft = None"
    and ob: "ob = draft\<lparr>obs_Attrs := map lower_root (obs_Attrs draft)\<rparr>"
    by (auto simp: NewObservation_def split: option.splits)
  have "Observation_Validate ob = None" using Inr by (rule NewObservation_valid)
  with Inr v show ?thesis
    by (auto simp: NewObservation_def Observation_Attr_def map_of_lower_root ob comp_def)
qed

end
