(* ===== verification/Sample.thy ===== *)
theory Sample
  imports Observation
begin

text \<open>
  \<open>internal/domain/sample.go\<close>: metric samples, the network baseline, and the decoding of a
  baseline from the observation that carries it in storage and in corpus files.
\<close>

section \<open>Metric samples\<close>

datatype Component = ComponentEL | ComponentCL | ComponentVC | ComponentHost | ComponentOther string

fun Component_str :: "Component \<Rightarrow> string" where
  "Component_str ComponentEL = ''el''"
| "Component_str ComponentCL = ''cl''"
| "Component_str ComponentVC = ''vc''"
| "Component_str ComponentHost = ''host''"
| "Component_str (ComponentOther s) = s"

fun Component_Valid :: "Component \<Rightarrow> bool" where
  "Component_Valid (ComponentOther _) = False"
| "Component_Valid _ = True"

record MetricSample =
  ms_At :: gotime
  ms_Component :: Component
  ms_Name :: string
  ms_Value :: f64
  ms_ClockOffset :: duration
  ms_ClockMeasured :: bool
  ms_ClockSampleAt :: gotime
  ms_Source :: SourceID

definition maxMetricNameBytes :: nat where
  "maxMetricNameBytes = 128"

fun sampleSourcePermittedFor :: "SourceID \<Rightarrow> Component \<Rightarrow> bool" where
  "sampleSourcePermittedFor SourcePromScrape c = (c = ComponentEL \<or> c = ComponentCL \<or> c = ComponentVC)"
| "sampleSourcePermittedFor SourceHostMetrics c = (c = ComponentHost)"
| "sampleSourcePermittedFor SourceBeaconAPI c = (c = ComponentCL)"
| "sampleSourcePermittedFor SourceDerived c = True"
| "sampleSourcePermittedFor _ c = False"

definition MetricSample_Validate :: "MetricSample \<Rightarrow> domain_error option" where
  "MetricSample_Validate m = first_error
     [check (ms_Name m = []) ErrInvalidKind,
      check (length (ms_Name m) > maxMetricNameBytes) (ErrText ''invalid sample: metric name is too long''),
      check (\<not> Component_Valid (ms_Component m)) (ErrText ''invalid sample: unknown component''),
      check (IsZero (ms_At m)) ErrMissingTimestamp,
      check (t_loc (ms_At m) \<noteq> UTC) ErrNotUTC,
      check (\<not> SourceID_Valid (ms_Source m)) ErrMissingSource,
      check (\<not> sampleSourcePermittedFor (ms_Source m) (ms_Component m)) ErrInvalidSource,
      check (\<not> f_finite (ms_Value m)) (ErrText ''invalid sample: value must be finite''),
      validate_clock (ms_ClockMeasured m) (ms_ClockOffset m) (ms_ClockSampleAt m)]"

lemma MetricSample_ValidateD:
  assumes "MetricSample_Validate m = None"
  shows "ms_Name m \<noteq> []" "Component_Valid (ms_Component m)" "\<not> IsZero (ms_At m)"
    "t_loc (ms_At m) = UTC" "SourceID_Valid (ms_Source m)" "f_finite (ms_Value m)"
    "sampleSourcePermittedFor (ms_Source m) (ms_Component m)"
    "ms_ClockMeasured m \<Longrightarrow> \<not> IsZero (ms_ClockSampleAt m) \<and> t_loc (ms_ClockSampleAt m) = UTC"
  using assms by (auto simp: MetricSample_Validate_def validate_clock_def split: if_splits)

section \<open>The network baseline\<close>

record NetworkBaseline =
  nb_Slot :: slot
  nb_BlockArrivalP50 :: duration
  nb_BlockArrivalP90 :: duration
  nb_SampleCount :: int
  nb_Source :: SourceID

definition NetworkBaseline_Validate :: "NetworkBaseline \<Rightarrow> domain_error option" where
  "NetworkBaseline_Validate n = first_error
     [check (nb_SampleCount n \<le> 0) (ErrText ''invalid baseline: sample_count''),
      check (nb_BlockArrivalP50 n < 0 \<or> nb_BlockArrivalP90 n < 0)
        (ErrText ''invalid baseline: arrival percentiles must be non-negative''),
      check (nb_BlockArrivalP50 n > nb_BlockArrivalP90 n) (ErrText ''invalid baseline: p50 exceeds p90''),
      check (\<not> SourceID_Valid (nb_Source n)) ErrMissingSource,
      check (nb_Source n \<noteq> SourceXatu \<and> nb_Source n \<noteq> SourcePromScrape \<and> nb_Source n \<noteq> SourceBeaconAPI)
        ErrInvalidSource]"

text \<open>
  The conversion of milliseconds to a \<open>Duration\<close>. When the product does not fit in 64 bits the
  language leaves the result to the platform: \<open>oob\<close> stands for that result (the least \<open>int64\<close> on
  amd64, the greatest on arm64).
\<close>

definition ms_to_duration :: "int \<Rightarrow> f64 \<Rightarrow> duration" where
  "ms_to_duration oob v =
     (case f_to_int64 (f_mul v (f_of_int Millisecond)) of Some d \<Rightarrow> d | None \<Rightarrow> oob)"

definition baselineDurationAttr :: "int \<Rightarrow> Observation \<Rightarrow> AttrKey \<Rightarrow> domain_error + duration" where
  "baselineDurationAttr oob ob key =
     (case Observation_Attr ob key of
        None \<Rightarrow> Inl (ErrText ''network baseline is missing an attribute'')
      | Some text \<Rightarrow>
          (case ParseFloat text of
             None \<Rightarrow> Inl (ErrText ''network baseline attribute is invalid'')
           | Some v \<Rightarrow>
               if f_lt v (FFin 0) \<or> \<not> f_finite v
               then Inl (ErrText ''network baseline attribute is invalid'')
               else if f_lt maxMilliseconds v
               then Inl (ErrText ''network baseline attribute overflows time.Duration'')
               else Inr (ms_to_duration oob v)))"

definition NetworkBaselineFromObservation :: "int \<Rightarrow> Observation \<Rightarrow> domain_error + NetworkBaseline" where
  "NetworkBaselineFromObservation oob ob =
     (if obs_Kind ob \<noteq> ObsNetworkBaselineSampled
      then Inl (ErrText ''observation kind is not a network baseline'')
      else case baselineDurationAttr oob ob AttrBlockArrivalP50MS of
        Inl e \<Rightarrow> Inl e
      | Inr p50 \<Rightarrow>
          (case baselineDurationAttr oob ob AttrBlockArrivalP90MS of
             Inl e \<Rightarrow> Inl e
           | Inr p90 \<Rightarrow>
               (case Observation_Attr ob AttrSampleCount of
                  None \<Rightarrow> Inl (ErrText ''network baseline is missing an attribute'')
                | Some countText \<Rightarrow>
                    (case ParseInt 32 countText of
                       None \<Rightarrow> Inl (ErrText ''network baseline attribute is invalid'')
                     | Some cnt \<Rightarrow>
                         if cnt \<le> 0 then Inl (ErrText ''network baseline attribute is invalid'')
                         else
                           (let baseline = \<lparr>nb_Slot = obs_Slot ob, nb_BlockArrivalP50 = p50,
                                  nb_BlockArrivalP90 = p90, nb_SampleCount = cnt,
                                  nb_Source = obs_Source ob\<rparr>
                            in case NetworkBaseline_Validate baseline of
                                 Some e \<Rightarrow> Inl e
                               | None \<Rightarrow> Inr baseline)))))"

lemma NetworkBaseline_ValidateD:
  assumes "NetworkBaseline_Validate n = None"
  shows "0 < nb_SampleCount n" "0 \<le> nb_BlockArrivalP50 n" "nb_BlockArrivalP50 n \<le> nb_BlockArrivalP90 n"
    "SourceID_Valid (nb_Source n)"
    "nb_Source n \<in> {SourceXatu, SourcePromScrape, SourceBeaconAPI}"
  using assms by (auto simp: NetworkBaseline_Validate_def)

section \<open>The edge of the millisecond range\<close>

text \<open>
  The limit the validators compare against is the double nearest to \<open>2^63 / 10^6\<close>. One step of the
  double grid below it the product still fits into 64 bits; at the limit itself it rounds to
  \<open>2^63\<close>, one more than the greatest duration.
\<close>

lemma fround_int64_max: "fround 9223372036854775807 = FFin 9223372036854775808"
proof -
  have "round_half_even (9223372036854775807 / 1024) = 9007199254740992"
    by (rule round_half_even_unique) simp
  then show ?thesis using fround_evalI [of 62 9223372036854775807 9007199254740992] by simp
qed

lemma maxMilliseconds_eq: "maxMilliseconds = FFin (4722366482869645 / 512)"
proof -
  have "round_half_even (9223372036854775808 / 1000000 * 512) = 4722366482869645"
    by (rule round_half_even_unique) simp
  then have "fround (9223372036854775808 / 1000000) = FFin (4722366482869645 / 512)"
    using fround_evalI [of 43 "9223372036854775808 / 1000000" 4722366482869645]
    by (simp add: power_int_minus_divide)
  then show ?thesis
    using fround_int64_max
    by (simp add: maxMilliseconds_def f_of_int_exact) (simp add: f_of_int_def int64_max_def)
qed

lemma maxMilliseconds_product: "f_mul maxMilliseconds (f_of_int 1000000) = FFin 9223372036854775808"
proof -
  have "round_half_even (4722366482869645 / 512 * 1000000 / 1024) = 9007199254740992"
    by (rule round_half_even_unique) simp
  then have "fround (4722366482869645 / 512 * 1000000) = FFin 9223372036854775808"
    using fround_evalI [of 62 "4722366482869645 / 512 * 1000000" 9007199254740992]
    by simp
  then show ?thesis by (simp add: maxMilliseconds_eq f_of_int_exact)
qed

end
