(* ===== verification/Timeline.thy ===== *)
theory Timeline
  imports Sample
begin

text \<open>
  \<open>internal/domain/timeline.go\<close>: the complete input of the analysis of one slot, its validation,
  and the queries the rules ask of it. The interface \<open>observation_lookup\<close> collects what every
  query that picks one observation promises; \<open>First\<close> and \<open>Last\<close> are its instances here.
\<close>

section \<open>Timelines and their validation\<close>

record Timeline =
  tl_Slot :: slot
  tl_SlotStart :: gotime
  tl_Schedule :: SlotSchedule
  tl_Duty :: "Duty option"
  tl_Observations :: "Observation list"
  tl_Reorgs :: "Observation list"
  tl_Samples :: "MetricSample list"
  tl_Network :: "NetworkBaseline option"
  tl_CollectionComplete :: bool

definition precedes_previous :: "Observation option \<Rightarrow> Observation \<Rightarrow> bool" where
  "precedes_previous prev ob = (case prev of None \<Rightarrow> False | Some p \<Rightarrow> Before (obs_At ob) (obs_At p))"

fun validate_observations :: "slot \<Rightarrow> Observation option \<Rightarrow> Observation list \<Rightarrow> domain_error option" where
  "validate_observations slot prev [] = None"
| "validate_observations slot prev (ob # rest) =
     (case first_error
        [Observation_Validate ob,
         check (obs_Slot ob \<noteq> slot) ErrSlotMismatch,
         check (precedes_previous prev ob) ErrUnsorted] of
        Some e \<Rightarrow> Some e
      | None \<Rightarrow> validate_observations slot (Some ob) rest)"

fun validate_reorgs :: "slot \<Rightarrow> Observation option \<Rightarrow> Observation list \<Rightarrow> domain_error option" where
  "validate_reorgs slot prev [] = None"
| "validate_reorgs slot prev (reorg # rest) =
     (case first_error
        [Observation_Validate reorg,
         check (obs_Kind reorg \<noteq> ObsReorg) (ErrText ''timeline reorg has another kind''),
         check (obs_Slot reorg \<le> slot \<or> obs_Slot reorg > Slot_LastAttestationInclusionSlot slot)
           (ErrText ''timeline reorg is outside its inclusion window''),
         check (precedes_previous prev reorg) ErrUnsorted] of
        Some e \<Rightarrow> Some e
      | None \<Rightarrow> validate_reorgs slot (Some reorg) rest)"

definition completions :: "Timeline \<Rightarrow> Observation list" where
  "completions t = filter (\<lambda>ob. obs_Kind ob = ObsCollectionCompleted) (tl_Observations t)"

definition validate_duty :: "slot \<Rightarrow> Duty option \<Rightarrow> domain_error option" where
  "validate_duty slot duty =
     (case duty of
        None \<Rightarrow> None
      | Some d \<Rightarrow> first_error [Duty_Validate d, check (duty_Slot d \<noteq> slot) ErrSlotMismatch])"

text \<open>The completion marker of an attester duty may not precede the end of the inclusion window.\<close>

definition validate_completion :: "Timeline \<Rightarrow> domain_error option" where
  "validate_completion t =
     (if length (completions t) = 1 \<and> (case tl_Duty t of None \<Rightarrow> False | Some d \<Rightarrow> duty_Kind d = DutyAttester)
      then first_error
        [check (Slot_LastAttestationInclusionSlot (tl_Slot t) - tl_Slot t > SlotsPerEpoch * 2 - 1)
           (ErrText ''timeline has an invalid inclusion window''),
         check (Before (obs_At (last (completions t)))
                  (Slot_CollectionWindowEnd (tl_Slot t) (tl_SlotStart t)
                     (sched_SecondsPerSlot (tl_Schedule t))))
           (ErrText ''timeline has collection_completed before inclusion window ended'')]
      else None)"

definition validate_network :: "slot \<Rightarrow> NetworkBaseline option \<Rightarrow> domain_error option" where
  "validate_network slot network =
     (case network of
        None \<Rightarrow> None
      | Some n \<Rightarrow> first_error [NetworkBaseline_Validate n, check (nb_Slot n \<noteq> slot) ErrSlotMismatch])"

definition Timeline_Validate :: "Timeline \<Rightarrow> domain_error option" where
  "Timeline_Validate t = first_error
     [check (IsZero (tl_SlotStart t)) ErrMissingTimestamp,
      check (t_loc (tl_SlotStart t) \<noteq> UTC) ErrNotUTC,
      SlotSchedule_Validate (tl_Schedule t),
      validate_duty (tl_Slot t) (tl_Duty t),
      validate_observations (tl_Slot t) None (tl_Observations t),
      check (length (completions t) > 1) (ErrText ''timeline has several collection_completed observations''),
      check (tl_CollectionComplete t \<noteq> (length (completions t) = 1))
        (ErrText ''timeline collection_complete disagrees with its observations''),
      validate_completion t,
      first_error (map MetricSample_Validate (tl_Samples t)),
      validate_reorgs (tl_Slot t) None (tl_Reorgs t),
      validate_network (tl_Slot t) (tl_Network t)]"

definition NewTimeline :: "Timeline \<Rightarrow> domain_error + Timeline" where
  "NewTimeline draft = (case Timeline_Validate draft of Some e \<Rightarrow> Inl e | None \<Rightarrow> Inr draft)"

section \<open>Queries\<close>

definition Timeline_First :: "Timeline \<Rightarrow> ObservationKind \<Rightarrow> Observation option" where
  "Timeline_First t kind = List.find (\<lambda>ob. obs_Kind ob = kind) (tl_Observations t)"

definition Timeline_Last :: "Timeline \<Rightarrow> ObservationKind \<Rightarrow> Observation option" where
  "Timeline_Last t kind = List.find (\<lambda>ob. obs_Kind ob = kind) (rev (tl_Observations t))"

definition Timeline_Has :: "Timeline \<Rightarrow> ObservationKind \<Rightarrow> bool" where
  "Timeline_Has t kind \<longleftrightarrow> Timeline_First t kind \<noteq> None"

definition Timeline_Count :: "Timeline \<Rightarrow> ObservationKind \<Rightarrow> nat" where
  "Timeline_Count t kind = foldl (\<lambda>n ob. if obs_Kind ob = kind then n + 1 else n) 0 (tl_Observations t)"

definition abs_offset :: "duration \<Rightarrow> duration" where
  "abs_offset offset =
     (if offset = int64_min then int64_max else if offset < 0 then wrap64 (- offset) else offset)"

fun max_abs_loop :: "(duration \<times> bool) \<Rightarrow> Observation list \<Rightarrow> duration \<times> bool" where
  "max_abs_loop acc [] = acc"
| "max_abs_loop (worst, found) (ob # rest) =
     (if \<not> obs_ClockMeasured ob then max_abs_loop (worst, found) rest
      else let offset = abs_offset (obs_ClockOffset ob)
           in if \<not> found \<or> offset > worst then max_abs_loop (offset, True) rest
              else max_abs_loop (worst, found) rest)"

definition Timeline_MaxAbsClockOffset :: "Timeline \<Rightarrow> duration \<times> bool" where
  "Timeline_MaxAbsClockOffset t = max_abs_loop (0, False) (tl_Observations t)"

fun sample_value_loop ::
  "Component \<Rightarrow> string \<Rightarrow> (f64 \<times> gotime) option \<Rightarrow> MetricSample list \<Rightarrow> (f64 \<times> gotime) option" where
  "sample_value_loop c name best [] = best"
| "sample_value_loop c name best (m # rest) =
     (if ms_Component m \<noteq> c \<or> ms_Name m \<noteq> name then sample_value_loop c name best rest
      else case best of
        None \<Rightarrow> sample_value_loop c name (Some (ms_Value m, ms_At m)) rest
      | Some (v, bestAt) \<Rightarrow>
          if After (ms_At m) bestAt then sample_value_loop c name (Some (ms_Value m, ms_At m)) rest
          else sample_value_loop c name best rest)"

definition Timeline_SampleValue :: "Timeline \<Rightarrow> Component \<Rightarrow> string \<Rightarrow> f64 option" where
  "Timeline_SampleValue t c name = map_option fst (sample_value_loop c name None (tl_Samples t))"

definition Timeline_AttestationDeadline :: "Timeline \<Rightarrow> gotime" where
  "Timeline_AttestationDeadline t = SlotSchedule_AttestationDeadlineAt (tl_Schedule t) (tl_SlotStart t)"

section \<open>What a valid timeline guarantees\<close>

lemma validate_observations_None:
  assumes "validate_observations slot prev obs = None"
  shows "(\<forall>ob \<in> set obs. Observation_Validate ob = None \<and> obs_Slot ob = slot) \<and>
    sorted_wrt (\<lambda>a b. \<not> Before (obs_At b) (obs_At a)) ((case prev of None \<Rightarrow> [] | Some p \<Rightarrow> [p]) @ obs)"
  using assms
proof (induction obs arbitrary: prev)
  case Nil
  then show ?case by (cases prev) auto
next
  case (Cons ob rest)
  then have "Observation_Validate ob = None" "obs_Slot ob = slot" "\<not> precedes_previous prev ob"
    and rest: "validate_observations slot (Some ob) rest = None"
    by (auto split: option.splits)
  with Cons.IH [OF rest] show ?case
    by (cases prev) (auto simp: precedes_previous_def Before_def)
qed

lemma validate_reorgs_None:
  assumes "validate_reorgs slot prev obs = None" and "ob \<in> set obs"
  shows "Observation_Validate ob = None \<and> obs_Kind ob = ObsReorg \<and> slot < obs_Slot ob \<and>
    obs_Slot ob \<le> Slot_LastAttestationInclusionSlot slot"
  using assms by (induction obs arbitrary: prev) (auto split: option.splits)

lemma Timeline_ValidateD:
  assumes "Timeline_Validate t = None"
  shows "\<not> IsZero (tl_SlotStart t)" "t_loc (tl_SlotStart t) = UTC"
    "SlotSchedule_Validate (tl_Schedule t) = None"
    "ob \<in> set (tl_Observations t) \<Longrightarrow> Observation_Validate ob = None"
    "ob \<in> set (tl_Observations t) \<Longrightarrow> obs_Slot ob = tl_Slot t"
    "m \<in> set (tl_Samples t) \<Longrightarrow> MetricSample_Validate m = None"
    "ob \<in> set (tl_Reorgs t) \<Longrightarrow> Observation_Validate ob = None"
    "tl_Network t = Some n \<Longrightarrow> NetworkBaseline_Validate n = None"
    "sorted_wrt (\<lambda>a b. \<not> Before (obs_At b) (obs_At a)) (tl_Observations t)"
    "tl_CollectionComplete t = (length (completions t) = 1)" "length (completions t) \<le> 1"
    "tl_Duty t = Some d \<Longrightarrow> DutyKind_Valid (duty_Kind d)"
proof -
  have vo: "validate_observations (tl_Slot t) None (tl_Observations t) = None"
    and vr: "validate_reorgs (tl_Slot t) None (tl_Reorgs t) = None"
    and vs: "first_error (map MetricSample_Validate (tl_Samples t)) = None"
    using assms by (simp_all add: Timeline_Validate_def)
  show "ob \<in> set (tl_Observations t) \<Longrightarrow> Observation_Validate ob = None"
    "ob \<in> set (tl_Observations t) \<Longrightarrow> obs_Slot ob = tl_Slot t"
    "sorted_wrt (\<lambda>a b. \<not> Before (obs_At b) (obs_At a)) (tl_Observations t)"
    using validate_observations_None [OF vo] by auto
  show "ob \<in> set (tl_Reorgs t) \<Longrightarrow> Observation_Validate ob = None"
    using validate_reorgs_None [OF vr] by blast
  show "m \<in> set (tl_Samples t) \<Longrightarrow> MetricSample_Validate m = None"
    using vs by (simp add: first_error_None)
  show "\<not> IsZero (tl_SlotStart t)" "t_loc (tl_SlotStart t) = UTC"
    "SlotSchedule_Validate (tl_Schedule t) = None"
    "tl_Network t = Some n \<Longrightarrow> NetworkBaseline_Validate n = None"
    "tl_CollectionComplete t = (length (completions t) = 1)" "length (completions t) \<le> 1"
    "tl_Duty t = Some d \<Longrightarrow> DutyKind_Valid (duty_Kind d)"
    using assms
    by (auto simp: Timeline_Validate_def validate_network_def validate_duty_def Duty_Validate_def
        split: option.splits)
qed

section \<open>The interface of observation queries\<close>

locale observation_lookup =
  fixes look :: "Timeline \<Rightarrow> Observation option" and kind :: ObservationKind
  assumes look_in: "look t = Some ob \<Longrightarrow> ob \<in> set (tl_Observations t)"
    and look_kind: "look t = Some ob \<Longrightarrow> obs_Kind ob = kind"
begin

lemma look_valid:
  assumes "Timeline_Validate t = None" and "look t = Some ob"
  shows "Observation_Validate ob = None"
  using assms look_in Timeline_ValidateD(4) by blast

lemma look_At:
  assumes "Timeline_Validate t = None" and "look t = Some ob"
  shows "\<not> IsZero (obs_At ob)" "t_loc (obs_At ob) = UTC" "SourceID_Valid (obs_Source ob)"
  using Observation_ValidateD [OF look_valid [OF assms]] by auto

lemma look_source:
  assumes "Timeline_Validate t = None" and "look t = Some ob"
  shows "sourcePermittedFor (obs_Source ob) kind"
  using Observation_ValidateD(5) [OF look_valid [OF assms]] look_kind [OF assms(2)] by simp

lemma look_has:
  assumes "look t = Some ob"
  shows "Timeline_Has t kind"
  using look_in [OF assms] look_kind [OF assms]
  by (auto simp: Timeline_Has_def Timeline_First_def find_None_iff)

end

interpretation tl_first: observation_lookup "\<lambda>t. Timeline_First t k" k for k
  by unfold_locales (auto simp: Timeline_First_def dest: find_SomeD)

interpretation tl_last: observation_lookup "\<lambda>t. Timeline_Last t k" k for k
  by unfold_locales (auto simp: Timeline_Last_def dest: find_rev_SomeD)

lemma Timeline_Has_iff: "Timeline_Has t k \<longleftrightarrow> (\<exists>ob \<in> set (tl_Observations t). obs_Kind ob = k)"
  by (auto simp: Timeline_Has_def Timeline_First_def find_None_iff)

lemma Timeline_Last_None: "Timeline_Last t k = None \<longleftrightarrow> \<not> Timeline_Has t k"
  by (simp add: Timeline_Last_def Timeline_Has_def Timeline_First_def find_rev_None)

lemma Timeline_First_None: "Timeline_First t k = None \<longleftrightarrow> \<not> Timeline_Has t k"
  by (simp add: Timeline_Has_def)

end
