(* ===== verification/GoSort.thy ===== *)
theory GoSort
  imports GoFloat
begin

text \<open>
  Go's \<open>sort.SliceStable\<close> and \<open>sort.Float64s\<close>. The locale \<open>stable_order\<close> is the interface of a comparator:
  one that orders by a key sorts stably by that key, and a permutation of the input sorts to the
  same list whenever the key tells the elements apart.
\<close>

section \<open>Stable sorting by a comparator\<close>

fun insert_before :: "('a \<Rightarrow> 'a \<Rightarrow> bool) \<Rightarrow> 'a \<Rightarrow> 'a list \<Rightarrow> 'a list" where
  "insert_before lt x [] = [x]"
| "insert_before lt x (y # ys) = (if lt y x then y # insert_before lt x ys else x # y # ys)"

definition SliceStable :: "('a \<Rightarrow> 'a \<Rightarrow> bool) \<Rightarrow> 'a list \<Rightarrow> 'a list" where
  "SliceStable lt xs = foldr (insert_before lt) xs []"

fun fin_value :: "f64 \<Rightarrow> rat" where
  "fin_value (FFin q) = q"
| "fin_value _ = 0"

text \<open>\<open>sort.Float64s\<close> on numbers: equal floats are the same value, so stability is immaterial.\<close>

definition Float64s :: "f64 list \<Rightarrow> f64 list" where
  "Float64s xs = SliceStable f_lt xs"

lemma SliceStable_same_elements: "mset (SliceStable lt xs) = mset xs"
proof -
  have ins: "mset (insert_before lt x ys) = add_mset x (mset ys)" for x ys by (induction ys) auto
  show ?thesis by (induction xs) (simp_all add: SliceStable_def ins)
qed

section \<open>The interface of a comparator\<close>

locale stable_order =
  fixes lt :: "'a \<Rightarrow> 'a \<Rightarrow> bool" and key :: "'a \<Rightarrow> 'k :: linorder" and dom :: "'a set"
  assumes lt_key: "a \<in> dom \<Longrightarrow> b \<in> dom \<Longrightarrow> lt a b \<longleftrightarrow> key a < key b"
begin

lemma insert_before_insort:
  assumes "x \<in> dom" "set ys \<subseteq> dom"
  shows "insert_before lt x ys = insort_key key x ys"
  using assms by (induction ys) (auto simp: lt_key)

lemma SliceStable_sort_key:
  assumes "set xs \<subseteq> dom"
  shows "SliceStable lt xs = sort_key key xs"
  using assms
proof (induction xs)
  case (Cons x xs)
  then have "SliceStable lt (x # xs) = insert_before lt x (sort_key key xs)" by (simp add: SliceStable_def)
  also have "\<dots> = insort_key key x (sort_key key xs)" using Cons.prems by (intro insert_before_insort) auto
  finally show ?case by simp
qed (simp add: SliceStable_def)

lemma SliceStable_mset:
  assumes "set xs \<subseteq> dom"
  shows "mset (SliceStable lt xs) = mset xs"
  by (simp add: SliceStable_sort_key [OF assms])

lemma SliceStable_perm:
  assumes "mset xs = mset ys" "set xs \<subseteq> dom" "inj_on key (set xs)"
  shows "SliceStable lt xs = SliceStable lt ys"
proof -
  have "set ys = set xs" using assms(1) by (metis set_mset_mset)
  moreover have "sort_key key xs = sort_key key ys"
    using assms(1,3) by (intro sort_key_inj_key_eq) simp_all
  ultimately show ?thesis using assms(2) by (simp add: SliceStable_sort_key)
qed

end

interpretation float_order: stable_order f_lt fin_value "{x. f_finite x}"
  by unfold_locales (auto simp: f_finite_iff)

lemma Float64s_sorted:
  assumes "\<forall>x \<in> set xs. f_finite x"
  shows "Float64s xs = sort_key fin_value xs"
  unfolding Float64s_def using assms by (intro float_order.SliceStable_sort_key) auto

end
