(* ===== verification/Assembler.thy ===== *)
theory Assembler
  imports Timeline GoSort "HOL-Library.Product_Lexorder" "HOL-Library.List_Lexorder" "HOL-Library.Char_ord"
begin

text \<open>
  \<open>internal/timeline\<close>: the assembler that files observations, samples, duties and baselines as they
  arrive and builds the timeline of a slot (\<open>assembler.go\<close>), and the replay of a recorded scenario
  (\<open>replay.go\<close>). Both comparators interpret the interface \<open>stable_order\<close> of stable sorting, so the
  arrival order does not matter.
\<close>

section \<open>The order of observations and samples\<close>

definition encode_attr :: "string \<Rightarrow> string \<Rightarrow> string" where
  "encode_attr key v =
     FormatUint (length key) @ '':'' @ key @ FormatUint (length v) @ '':'' @ v"

text \<open>Keys are visited in the byte order of their text.\<close>

definition encodeAttrs :: "attrs \<Rightarrow> string" where
  "encodeAttrs as =
     concat (map (\<lambda>(k, v). encode_attr (AttrKey_str k) v) (sort_key (\<lambda>(k, v). AttrKey_str k) as))"

definition obs_less :: "Observation \<Rightarrow> Observation \<Rightarrow> bool" where
  "obs_less a b =
     (if \<not> time_Equal (obs_At a) (obs_At b) then Before (obs_At a) (obs_At b)
      else if ObservationKind_str (obs_Kind a) \<noteq> ObservationKind_str (obs_Kind b)
        then ObservationKind_str (obs_Kind a) < ObservationKind_str (obs_Kind b)
      else if SourceID_str (obs_Source a) \<noteq> SourceID_str (obs_Source b)
        then SourceID_str (obs_Source a) < SourceID_str (obs_Source b)
      else if encodeAttrs (obs_Attrs a) \<noteq> encodeAttrs (obs_Attrs b)
        then encodeAttrs (obs_Attrs a) < encodeAttrs (obs_Attrs b)
      else if obs_ClockMeasured a \<noteq> obs_ClockMeasured b then \<not> obs_ClockMeasured a
      else if obs_ClockOffset a \<noteq> obs_ClockOffset b then obs_ClockOffset a < obs_ClockOffset b
      else Before (obs_ClockSampleAt a) (obs_ClockSampleAt b))"

definition sortObservations :: "Observation list \<Rightarrow> Observation list" where
  "sortObservations obs = SliceStable obs_less obs"

text \<open>
  The comparator of samples. Its \<open>Float64bits\<close> test separates the two zeros of the format, which the
  model of \<open>float64\<close> does not distinguish, so it never decides here.
\<close>

definition sample_less :: "MetricSample \<Rightarrow> MetricSample \<Rightarrow> bool" where
  "sample_less a b =
     (if \<not> time_Equal (ms_At a) (ms_At b) then Before (ms_At a) (ms_At b)
      else if Component_str (ms_Component a) \<noteq> Component_str (ms_Component b)
        then Component_str (ms_Component a) < Component_str (ms_Component b)
      else if ms_Name a \<noteq> ms_Name b then ms_Name a < ms_Name b
      else if SourceID_str (ms_Source a) \<noteq> SourceID_str (ms_Source b)
        then SourceID_str (ms_Source a) < SourceID_str (ms_Source b)
      else if \<not> f_eq (ms_Value a) (ms_Value b) then f_lt (ms_Value a) (ms_Value b)
      else if ms_ClockMeasured a \<noteq> ms_ClockMeasured b then \<not> ms_ClockMeasured a
      else if ms_ClockOffset a \<noteq> ms_ClockOffset b then ms_ClockOffset a < ms_ClockOffset b
      else Before (ms_ClockSampleAt a) (ms_ClockSampleAt b))"

definition sortSamples :: "MetricSample list \<Rightarrow> MetricSample list" where
  "sortSamples samples = SliceStable sample_less samples"

section \<open>The assembler\<close>

text \<open>
  The map of observations is an association list: its order stands for the order in which Go
  happens to iterate over the map.
\<close>

record Assembler =
  as_schedule :: SlotSchedule
  as_duties :: "slot \<rightharpoonup> Duty"
  as_observations :: "(slot \<times> Observation list) list"
  as_samples :: "MetricSample list"
  as_networks :: "slot \<rightharpoonup> NetworkBaseline"

definition NewAssembler :: "SlotSchedule \<Rightarrow> Assembler" where
  "NewAssembler schedule =
     \<lparr>as_schedule = schedule, as_duties = (\<lambda>_. None), as_observations = [], as_samples = [],
      as_networks = (\<lambda>_. None)\<rparr>"

definition SetNetwork :: "Assembler \<Rightarrow> NetworkBaseline \<Rightarrow> Assembler" where
  "SetNetwork a baseline = a\<lparr>as_networks := (as_networks a)(nb_Slot baseline \<mapsto> baseline)\<rparr>"

fun file_under :: "slot \<Rightarrow> Observation \<Rightarrow> (slot \<times> Observation list) list \<Rightarrow> (slot \<times> Observation list) list" where
  "file_under s ob [] = [(s, [ob])]"
| "file_under s ob ((s', obs) # rest) =
     (if s' = s then (s', obs @ [ob]) # rest else (s', obs) # file_under s ob rest)"

definition AddObservation :: "Assembler \<Rightarrow> Observation \<Rightarrow> Assembler" where
  "AddObservation a ob = a\<lparr>as_observations := file_under (obs_Slot ob) ob (as_observations a)\<rparr>"

definition AddSample :: "Assembler \<Rightarrow> MetricSample \<Rightarrow> Assembler" where
  "AddSample a s = a\<lparr>as_samples := as_samples a @ [s]\<rparr>"

definition SetDuty :: "Assembler \<Rightarrow> Duty \<Rightarrow> Assembler" where
  "SetDuty a d = a\<lparr>as_duties := (as_duties a)(duty_Slot d \<mapsto> d)\<rparr>"

definition observations_of :: "Assembler \<Rightarrow> slot \<Rightarrow> Observation list" where
  "observations_of a s = (case map_of (as_observations a) s of None \<Rightarrow> [] | Some obs \<Rightarrow> obs)"

definition window_reorgs :: "Assembler \<Rightarrow> slot \<Rightarrow> Observation list" where
  "window_reorgs a s =
     concat (map (\<lambda>(observedSlot, obs).
         if observedSlot \<le> s \<or> observedSlot > Slot_LastAttestationInclusionSlot s then []
         else filter (\<lambda>ob. obs_Kind ob = ObsReorg) obs) (as_observations a))"

definition build_draft :: "Assembler \<Rightarrow> slot \<Rightarrow> gotime \<Rightarrow> Timeline" where
  "build_draft a s slotStart =
     (let obs = sortObservations (observations_of a s)
      in \<lparr>tl_Slot = s, tl_SlotStart = slotStart, tl_Schedule = as_schedule a, tl_Duty = as_duties a s,
          tl_Observations = obs, tl_Reorgs = sortObservations (window_reorgs a s),
          tl_Samples = sortSamples (as_samples a), tl_Network = as_networks a s,
          tl_CollectionComplete = list_ex (\<lambda>ob. obs_Kind ob = ObsCollectionCompleted) obs\<rparr>)"

definition Build :: "Assembler \<Rightarrow> slot \<Rightarrow> gotime \<Rightarrow> domain_error + Timeline" where
  "Build a s slotStart = NewTimeline (build_draft a s slotStart)"

section \<open>Replay\<close>

datatype replay_error =
    NoObservations | NoSlotStart | ForeignSlot nat | BadBaseline domain_error | BadValidatorIndex | BadTimeline domain_error

definition foreign :: "slot \<Rightarrow> Observation \<Rightarrow> bool" where
  "foreign s ob \<longleftrightarrow> obs_Slot ob \<noteq> s \<and>
     (obs_Kind ob \<noteq> ObsReorg \<or> obs_Slot ob \<le> s \<or> obs_Slot ob > Slot_LastAttestationInclusionSlot s)"

fun first_foreign :: "slot \<Rightarrow> nat \<Rightarrow> Observation list \<Rightarrow> nat option" where
  "first_foreign s i [] = None"
| "first_foreign s i (ob # rest) = (if foreign s ob then Some i else first_foreign s (Suc i) rest)"

text \<open>
  The loop that files each observation: it also decodes a baseline, remembers the latest slot
  start and rebuilds the attester duty. \<open>oob\<close> is the platform's out-of-range conversion.
\<close>

fun replay_loop ::
  "int \<Rightarrow> slot \<Rightarrow> Assembler \<times> Observation option \<Rightarrow> Observation list \<Rightarrow> replay_error + Assembler \<times> Observation option" where
  "replay_loop oob s (a, start) [] = Inr (a, start)"
| "replay_loop oob s (a, start) (ob # rest) =
     (let a1 = AddObservation a ob
      in case (if obs_Kind ob = ObsNetworkBaselineSampled
               then (case NetworkBaselineFromObservation oob ob of
                       Inl e \<Rightarrow> Inl (BadBaseline e) | Inr b \<Rightarrow> Inr (SetNetwork a1 b))
               else Inr a1) of
           Inl e \<Rightarrow> Inl e
         | Inr a2 \<Rightarrow>
             (let start' = (if obs_Kind ob = ObsSlotStart then Some ob else start)
              in case (if obs_Kind ob = ObsDutyAssigned
                       then (case Observation_Attr ob AttrValidatorIndex of
                               None \<Rightarrow> Inr a2
                             | Some vi \<Rightarrow>
                                 (case ParseUint vi of
                                    None \<Rightarrow> Inl BadValidatorIndex
                                  | Some parsed \<Rightarrow>
                                      Inr (SetDuty a2 \<lparr>duty_Kind = DutyAttester, duty_Slot = s,
                                             duty_ValidatorIndex = of_nat parsed, duty_CommitteeIndex = 0\<rparr>)))
                       else Inr a2) of
                   Inl e \<Rightarrow> Inl e
                 | Inr a3 \<Rightarrow> replay_loop oob s (a3, start') rest))"

definition ReplayWithSamples ::
  "int \<Rightarrow> Observation list \<Rightarrow> MetricSample list \<Rightarrow> SlotSchedule \<Rightarrow> replay_error + Timeline" where
  "ReplayWithSamples oob observations samples schedule =
     (if observations = [] then Inl NoObservations
      else case List.find (\<lambda>ob. obs_Kind ob = ObsSlotStart) observations of
        None \<Rightarrow> Inl NoSlotStart
      | Some primary \<Rightarrow>
          (let s = obs_Slot primary
           in case first_foreign s 0 observations of
                Some i \<Rightarrow> Inl (ForeignSlot i)
              | None \<Rightarrow>
                  (case replay_loop oob s (foldl AddSample (NewAssembler schedule) samples, None) observations of
                     Inl e \<Rightarrow> Inl e
                   | Inr (a, None) \<Rightarrow> Inl NoSlotStart
                   | Inr (a, Some slotStart) \<Rightarrow>
                       (case Build a s (obs_At slotStart) of
                          Inl e \<Rightarrow> Inl (BadTimeline e) | Inr t \<Rightarrow> Inr t))))"

definition Replay :: "int \<Rightarrow> Observation list \<Rightarrow> SlotSchedule \<Rightarrow> replay_error + Timeline" where
  "Replay oob observations schedule = ReplayWithSamples oob observations [] schedule"

section \<open>The sort keys\<close>

text \<open>The comparators order by these keys, the fields in the order the code compares them.\<close>

definition obs_key :: "Observation \<Rightarrow> int \<times> string \<times> string \<times> string \<times> bool \<times> int \<times> int" where
  "obs_key ob =
     (t_ns (obs_At ob), ObservationKind_str (obs_Kind ob), SourceID_str (obs_Source ob), encodeAttrs (obs_Attrs ob),
      obs_ClockMeasured ob, obs_ClockOffset ob, t_ns (obs_ClockSampleAt ob))"

definition ms_key :: "MetricSample \<Rightarrow> int \<times> string \<times> string \<times> string \<times> rat \<times> bool \<times> int \<times> int" where
  "ms_key m =
     (t_ns (ms_At m), Component_str (ms_Component m), ms_Name m, SourceID_str (ms_Source m), fin_value (ms_Value m),
      ms_ClockMeasured m, ms_ClockOffset m, t_ns (ms_ClockSampleAt m))"

interpretation obs_order: stable_order obs_less obs_key UNIV
  by unfold_locales
    (auto simp: obs_less_def obs_key_def less_prod_def' time_Equal_def Before_def)

interpretation sample_order: stable_order sample_less ms_key "{m. f_finite (ms_Value m)}"
proof unfold_locales
  fix a b :: MetricSample
  assume "a \<in> {m. f_finite (ms_Value m)}" "b \<in> {m. f_finite (ms_Value m)}"
  then obtain p q where "ms_Value a = FFin p" "ms_Value b = FFin q" by (auto simp: f_finite_iff)
  then show "sample_less a b \<longleftrightarrow> ms_key a < ms_key b"
    by (auto simp: sample_less_def ms_key_def less_prod_def' time_Equal_def Before_def)
qed

section \<open>The encoding of attributes is injective\<close>

lemma FormatUint_inj: "FormatUint m = FormatUint n \<Longrightarrow> m = n"
  using FormatUint_digits by metis

text \<open>A length-prefixed field can be read back from the front of any text.\<close>

lemma length_prefix_inj:
  assumes "FormatUint m @ '':'' @ u = FormatUint n @ '':'' @ v"
  shows "m = n" "u = v"
proof -
  have colon: "takeWhile is_digit (FormatUint k @ '':'' @ w) = FormatUint k" for k w
    using FormatUint_digits [of k] by (simp add: takeWhile_append list_all_iff is_digit_def)
  have "FormatUint m = FormatUint n" using colon [of m u] colon [of n v] assms by simp
  then show "m = n" "u = v" using assms by (auto dest: FormatUint_inj)
qed

lemma encode_attr_inj:
  assumes "encode_attr k v @ x = encode_attr k' v' @ y"
  shows "k = k'" "v = v'" "x = y"
proof -
  from assms have "FormatUint (length k) @ '':'' @ (k @ FormatUint (length v) @ '':'' @ v @ x) =
      FormatUint (length k') @ '':'' @ (k' @ FormatUint (length v') @ '':'' @ v' @ y)"
    by (simp add: encode_attr_def)
  from length_prefix_inj [OF this]
  have k: "k = k'" and "FormatUint (length v) @ '':'' @ (v @ x) = FormatUint (length v') @ '':'' @ (v' @ y)" by auto
  from length_prefix_inj [OF this(2)] show "v = v'" "x = y" by auto
  show "k = k'" by (rule k)
qed

lemma concat_encode_inj:
  assumes "concat (map (\<lambda>(k, v). encode_attr k v) xs) = concat (map (\<lambda>(k, v). encode_attr k v) ys)"
  shows "xs = ys"
  using assms
proof (induction xs arbitrary: ys)
  case Nil
  then show ?case by (cases ys) (auto simp: encode_attr_def)
next
  case (Cons x xs)
  obtain k v where x: "x = (k, v)" by (cases x)
  show ?case
  proof (cases ys)
    case Nil
    with Cons.prems x show ?thesis by (auto simp: encode_attr_def)
  next
    case (Cons y ys')
    obtain k' v' where y: "y = (k', v')" by (cases y)
    from Cons.prems Cons x y have e: "encode_attr k v @ concat (map (\<lambda>(k, v). encode_attr k v) xs) =
        encode_attr k' v' @ concat (map (\<lambda>(k, v). encode_attr k v) ys')" by simp
    from encode_attr_inj [OF e] Cons.IH [of ys'] Cons x y show ?thesis by auto
  qed
qed

text \<open>Two attribute maps with the same encoding hold the same pairs, keys read as text.\<close>

lemma encodeAttrs_inj:
  assumes "encodeAttrs as = encodeAttrs bs"
  shows "(\<lambda>(k, v). (AttrKey_str k, v)) ` set as = (\<lambda>(k, v). (AttrKey_str k, v)) ` set bs"
proof -
  let ?f = "\<lambda>(k, v). (AttrKey_str k, v)"
  have enc: "encodeAttrs cs = concat (map (\<lambda>(k, v). encode_attr k v) (map ?f (sort_key (\<lambda>(k, v). AttrKey_str k) cs)))" for cs
    by (simp add: encodeAttrs_def comp_def case_prod_unfold)
  from assms have "map ?f (sort_key (\<lambda>(k, v). AttrKey_str k) as) = map ?f (sort_key (\<lambda>(k, v). AttrKey_str k) bs)"
    unfolding enc by (rule concat_encode_inj)
  then have "set (map ?f (sort_key (\<lambda>(k, v). AttrKey_str k) as)) = set (map ?f (sort_key (\<lambda>(k, v). AttrKey_str k) bs))"
    by (rule arg_cong)
  then show ?thesis by (simp only: set_map set_sort)
qed

section \<open>Arrival order does not matter\<close>

text \<open>
  A record is canonical when its attributes are listed by key, without repetition: the model's
  representative of a Go map, whose equality ignores order.
\<close>

definition attr_sorted :: "attrs \<Rightarrow> bool" where
  "attr_sorted as \<longleftrightarrow> sorted_wrt (\<lambda>x y. AttrKey_str (fst x) < AttrKey_str (fst y)) as \<and>
     (\<forall>(k, v) \<in> set as. \<forall>s. k \<noteq> AttrOther s)"

lemma AttrKey_str_inj:
  assumes "AttrKey_str k = AttrKey_str k'" "\<forall>s. k \<noteq> AttrOther s" "\<forall>s. k' \<noteq> AttrOther s"
  shows "k = k'"
  using assms by (cases k; cases k'; simp)

lemma attr_sorted_distinct: "attr_sorted as \<Longrightarrow> sorted_wrt (<) (map (AttrKey_str \<circ> fst) as)"
  by (simp add: attr_sorted_def sorted_wrt_map)

lemma attr_sorted_unique:
  assumes "attr_sorted as" "attr_sorted bs" "encodeAttrs as = encodeAttrs bs"
  shows "as = bs"
proof -
  let ?f = "\<lambda>(k, v). (AttrKey_str k, v)"
  have inj: "inj_on ?f (set as \<union> set bs)"
    using assms(1,2) by (auto simp: inj_on_def attr_sorted_def intro!: AttrKey_str_inj)
  have "?f ` set as = ?f ` set bs" by (rule encodeAttrs_inj [OF assms(3)])
  then have eq: "set as = set bs" using inj by (simp add: inj_on_image_eq_iff)
  have d: "distinct (map (AttrKey_str \<circ> fst) cs)" "sorted (map (AttrKey_str \<circ> fst) cs)" if "attr_sorted cs" for cs
    using attr_sorted_distinct [OF that] by (simp_all add: strict_sorted_iff)
  have "inj_on (AttrKey_str \<circ> fst) (set as \<union> set bs)"
    using d(1) [OF assms(1)] unfolding eq [symmetric] by (simp add: distinct_map)
  then show ?thesis using d [OF assms(1)] d [OF assms(2)] eq by (intro map_sorted_distinct_set_unique)
qed

definition canonical_obs :: "Observation \<Rightarrow> bool" where
  "canonical_obs ob \<longleftrightarrow> Observation_Validate ob = None \<and> attr_sorted (obs_Attrs ob) \<and> t_loc (obs_ClockSampleAt ob) = UTC"

definition canonical_sample :: "MetricSample \<Rightarrow> bool" where
  "canonical_sample m \<longleftrightarrow> MetricSample_Validate m = None \<and> t_loc (ms_ClockSampleAt m) = UTC"

lemma ObservationKind_str_inj:
  assumes "ObservationKind_str k = ObservationKind_str k'" "ObservationKind_Valid k" "ObservationKind_Valid k'"
  shows "k = k'"
  using assms by (cases k; cases k'; simp)

lemma SourceID_str_inj:
  assumes "SourceID_str k = SourceID_str k'" "SourceID_Valid k" "SourceID_Valid k'"
  shows "k = k'"
  using assms by (cases k; cases k'; simp)

lemma Component_str_inj:
  assumes "Component_str k = Component_str k'" "Component_Valid k" "Component_Valid k'"
  shows "k = k'"
  using assms by (cases k; cases k'; simp)

lemma gotime_eqI: "t_ns t = t_ns u \<Longrightarrow> t_loc t = UTC \<Longrightarrow> t_loc u = UTC \<Longrightarrow> t = u" for t u :: gotime
  by (cases t; cases u) simp

lemma obs_key_inj:
  assumes "canonical_obs a" "canonical_obs b" "obs_Slot a = obs_Slot b" "obs_key a = obs_key b"
  shows "a = b"
proof -
  have va: "Observation_Validate a = None" and vb: "Observation_Validate b = None"
    using assms(1,2) by (simp_all add: canonical_obs_def)
  note fa = Observation_ValidateD [OF va] and fb = Observation_ValidateD [OF vb]
  have "obs_Attrs a = obs_Attrs b"
    using attr_sorted_unique assms(1,2,4) by (simp add: canonical_obs_def obs_key_def)
  moreover have "obs_Kind a = obs_Kind b" using ObservationKind_str_inj fa(1) fb(1) assms(4) by (simp add: obs_key_def)
  moreover have "obs_Source a = obs_Source b" using SourceID_str_inj fa(4) fb(4) assms(4) by (simp add: obs_key_def)
  moreover have "obs_At a = obs_At b" using gotime_eqI fa(3) fb(3) assms(4) by (simp add: obs_key_def)
  moreover have "obs_ClockSampleAt a = obs_ClockSampleAt b"
    using gotime_eqI assms(1,2,4) by (simp add: obs_key_def canonical_obs_def)
  ultimately show ?thesis using assms(3,4) by (cases a; cases b) (simp add: obs_key_def)
qed

lemma ms_key_inj:
  assumes "canonical_sample a" "canonical_sample b" "ms_key a = ms_key b"
  shows "a = b"
proof -
  have va: "MetricSample_Validate a = None" and vb: "MetricSample_Validate b = None"
    using assms(1,2) by (simp_all add: canonical_sample_def)
  note fa = MetricSample_ValidateD [OF va] and fb = MetricSample_ValidateD [OF vb]
  obtain p q where "ms_Value a = FFin p" "ms_Value b = FFin q" using fa(6) fb(6) by (auto simp: f_finite_iff)
  then have "ms_Value a = ms_Value b" using assms(3) by (simp add: ms_key_def)
  moreover have "ms_Component a = ms_Component b" using Component_str_inj fa(2) fb(2) assms(3) by (simp add: ms_key_def)
  moreover have "ms_Source a = ms_Source b" using SourceID_str_inj fa(5) fb(5) assms(3) by (simp add: ms_key_def)
  moreover have "ms_At a = ms_At b" using gotime_eqI fa(4) fb(4) assms(3) by (simp add: ms_key_def)
  moreover have "ms_ClockSampleAt a = ms_ClockSampleAt b"
    using gotime_eqI assms by (simp add: ms_key_def canonical_sample_def)
  ultimately show ?thesis using assms(3) by (cases a; cases b) (simp add: ms_key_def)
qed

subsection \<open>What the assembler holds\<close>

lemma map_of_file_under:
  "map_of (file_under s ob al) s' =
     (if s' = s then Some ((case map_of al s of None \<Rightarrow> [] | Some obs \<Rightarrow> obs) @ [ob]) else map_of al s')"
  by (induction al) auto

lemma observations_of_adds:
  "observations_of (foldl AddObservation a xs) s = observations_of a s @ filter (\<lambda>ob. obs_Slot ob = s) xs"
  by (induction xs arbitrary: a) (auto simp: observations_of_def AddObservation_def map_of_file_under)

definition in_window :: "slot \<Rightarrow> slot \<Rightarrow> bool" where
  "in_window s s' \<longleftrightarrow> s < s' \<and> s' \<le> Slot_LastAttestationInclusionSlot s"

definition window_reorg :: "slot \<Rightarrow> Observation \<Rightarrow> bool" where
  "window_reorg s ob \<longleftrightarrow> in_window s (obs_Slot ob) \<and> obs_Kind ob = ObsReorg"

lemma window_reorgs_alt:
  "window_reorgs a s =
     concat (map (\<lambda>(s', obs). if in_window s s' then filter (\<lambda>ob. obs_Kind ob = ObsReorg) obs else []) (as_observations a))"
  unfolding window_reorgs_def in_window_def
  by (rule arg_cong [of _ _ concat], rule map_cong) (auto simp: not_le not_less)

lemma window_reorgs_add:
  "mset (window_reorgs (AddObservation a ob) s) =
     mset (window_reorgs a s) + (if window_reorg s ob then {#ob#} else {#})"
proof -
  have "mset (concat (map (\<lambda>(s', obs). if in_window s s' then filter (\<lambda>ob. obs_Kind ob = ObsReorg) obs else [])
          (file_under (obs_Slot ob) ob al))) =
        mset (concat (map (\<lambda>(s', obs). if in_window s s' then filter (\<lambda>ob. obs_Kind ob = ObsReorg) obs else []) al)) +
        (if window_reorg s ob then {#ob#} else {#})" for al
    by (induction al) (auto simp: window_reorg_def)
  then show ?thesis by (simp add: window_reorgs_alt AddObservation_def)
qed

lemma window_reorgs_adds:
  "mset (window_reorgs (foldl AddObservation a xs) s) = mset (window_reorgs a s) + mset (filter (window_reorg s) xs)"
  by (induction xs arbitrary: a) (simp_all add: window_reorgs_add)

lemma adds_sel [simp]:
  "as_schedule (foldl AddObservation a xs) = as_schedule a" "as_duties (foldl AddObservation a xs) = as_duties a"
  "as_samples (foldl AddObservation a xs) = as_samples a" "as_networks (foldl AddObservation a xs) = as_networks a"
  by (induction xs arbitrary: a) (simp_all add: AddObservation_def)

lemma adds_samples [simp]:
  "as_schedule (foldl AddSample a ms) = as_schedule a" "as_duties (foldl AddSample a ms) = as_duties a"
  "as_networks (foldl AddSample a ms) = as_networks a" "as_observations (foldl AddSample a ms) = as_observations a"
  "as_samples (foldl AddSample a ms) = as_samples a @ ms"
  by (induction ms arbitrary: a) (simp_all add: AddSample_def)

lemma samples_keep [simp]:
  "observations_of (foldl AddSample a ms) s = observations_of a s" "window_reorgs (foldl AddSample a ms) s = window_reorgs a s"
  by (simp_all add: observations_of_def window_reorgs_def)

lemma replay_loop_files:
  assumes "replay_loop oob s (a, start) obs = Inr (a', start')"
  shows "as_observations a' = as_observations (foldl AddObservation a obs)" "as_samples a' = as_samples a"
    "as_schedule a' = as_schedule a"
    "start' = (case List.find (\<lambda>ob. obs_Kind ob = ObsSlotStart) (rev obs) of None \<Rightarrow> start | Some ob \<Rightarrow> Some ob)"
proof -
  have add: "as_observations (foldl AddObservation b obs) = as_observations (foldl AddObservation c obs)"
    if "as_observations b = as_observations c" for b c and obs
    using that by (induction obs arbitrary: b c) (simp_all add: AddObservation_def)
  have find_snoc: "List.find P (xs @ [x]) = (case List.find P xs of None \<Rightarrow> (if P x then Some x else None) | Some y \<Rightarrow> Some y)"
    for P xs and x :: Observation
    by (induction xs) auto
  have "as_observations a' = as_observations (foldl AddObservation a obs) \<and> as_samples a' = as_samples a \<and>
      as_schedule a' = as_schedule a \<and>
      start' = (case List.find (\<lambda>ob. obs_Kind ob = ObsSlotStart) (rev obs) of None \<Rightarrow> start | Some ob \<Rightarrow> Some ob)"
    using assms
  proof (induction obs arbitrary: a start)
    case (Cons ob rest)
    then obtain b where loop: "replay_loop oob s (b, if obs_Kind ob = ObsSlotStart then Some ob else start) rest = Inr (a', start')"
      and b: "as_observations b = as_observations (AddObservation a ob)" "as_samples b = as_samples a"
        "as_schedule b = as_schedule a"
      by (auto simp: Let_def SetNetwork_def SetDuty_def AddObservation_def split: sum.splits if_splits option.splits)
    from Cons.IH [OF loop] b add [OF b(1)] show ?case by (auto simp: find_snoc split: option.splits)
  qed simp
  then show "as_observations a' = as_observations (foldl AddObservation a obs)" "as_samples a' = as_samples a"
    "as_schedule a' = as_schedule a"
    "start' = (case List.find (\<lambda>ob. obs_Kind ob = ObsSlotStart) (rev obs) of None \<Rightarrow> start | Some ob \<Rightarrow> Some ob)"
    by auto
qed

lemma first_foreign_None: "first_foreign s i obs = None \<longleftrightarrow> (\<forall>ob \<in> set obs. \<not> foreign s ob)"
  by (induction obs arbitrary: i) auto

lemma Build_facts:
  assumes "Build a s start = Inr t"
  shows "Timeline_Validate t = None \<and> tl_Slot t = s \<and> tl_SlotStart t = start \<and> tl_Duty t = as_duties a s \<and>
    tl_Schedule t = as_schedule a \<and>
    mset (tl_Observations t) = mset (observations_of a s) \<and> mset (tl_Reorgs t) = mset (window_reorgs a s) \<and>
    mset (tl_Samples t) = mset (as_samples a) \<and> sorted (map (\<lambda>ob. t_ns (obs_At ob)) (tl_Observations t))"
proof -
  have v: "Timeline_Validate t = None" and t: "t = build_draft a s start"
    using assms by (auto simp: Build_def NewTimeline_def split: option.splits)
  have "sorted (map (\<lambda>ob. t_ns (obs_At ob)) (tl_Observations t))"
    using Timeline_ValidateD(9) [OF v] by (simp add: sorted_wrt_map Before_def not_less)
  with v t show ?thesis
    by (simp add: build_draft_def Let_def sortObservations_def sortSamples_def SliceStable_same_elements)
qed

end
