(* ===== verification/Verdict.thy ===== *)
theory Verdict
  imports Sample
begin

text \<open>
  \<open>internal/domain/verdict.go\<close>: outcomes, reward flags, the cause taxonomy, evidence, and the
  validation every emitted verdict must pass.
\<close>

section \<open>Outcomes, flags, confidence\<close>

datatype Outcome = OutcomeNoDuty | OutcomeOK | OutcomeDegraded | OutcomeMissed | OutcomeOther string

fun Outcome_Valid :: "Outcome \<Rightarrow> bool" where
  "Outcome_Valid (OutcomeOther _) = False"
| "Outcome_Valid _ = True"

record RewardFlags =
  rf_TimelySource :: bool
  rf_TimelyTarget :: bool
  rf_TimelyHead :: bool

definition RewardFlags_AllEarned :: "RewardFlags \<Rightarrow> bool" where
  "RewardFlags_AllEarned r \<longleftrightarrow> rf_TimelySource r \<and> rf_TimelyTarget r \<and> rf_TimelyHead r"

definition RewardFlags_AnyEarned :: "RewardFlags \<Rightarrow> bool" where
  "RewardFlags_AnyEarned r \<longleftrightarrow> rf_TimelySource r \<or> rf_TimelyTarget r \<or> rf_TimelyHead r"

definition RewardFlags_Lost :: "RewardFlags \<Rightarrow> string list" where
  "RewardFlags_Lost r =
     (if \<not> rf_TimelySource r then [''timely_source''] else []) @
     (if \<not> rf_TimelyTarget r then [''timely_target''] else []) @
     (if \<not> rf_TimelyHead r then [''timely_head''] else [])"

datatype Confidence = ConfidenceHigh | ConfidenceMedium | ConfidenceLow | ConfidenceOther string

fun Confidence_Valid :: "Confidence \<Rightarrow> bool" where
  "Confidence_Valid (ConfidenceOther _) = False"
| "Confidence_Valid _ = True"

section \<open>The cause taxonomy\<close>

text \<open>\<open>CauseNone\<close> is Go's empty string.\<close>

datatype CauseID =
    CauseNone
  | CauseProposerMissed | CauseLateBlock | CausePayloadLate | CauseInclusionFailure
  | CauseP2PDegraded | CauseCLSlow | CauseELSlow | CauseELSlowSnapshot | CauseELSlowPruning
  | CauseELSlowDiskSaturation | CauseELSlowSyncing | CauseVCSlow | CauseVCDisconnected
  | CauseHostDiskIO | CauseHostCPUSteal | CauseHostMemoryPressure | CauseHostClockDrift
  | CauseInsufficientData | CauseNoRuleMatched
  | CauseOther string

fun CauseID_str :: "CauseID \<Rightarrow> string" where
  "CauseID_str CauseNone = []"
| "CauseID_str CauseProposerMissed = ''network.proposer_missed''"
| "CauseID_str CauseLateBlock = ''network.late_block''"
| "CauseID_str CausePayloadLate = ''network.payload_late''"
| "CauseID_str CauseInclusionFailure = ''network.inclusion_failure''"
| "CauseID_str CauseP2PDegraded = ''local.p2p_degraded''"
| "CauseID_str CauseCLSlow = ''local.cl_slow''"
| "CauseID_str CauseELSlow = ''local.el_slow''"
| "CauseID_str CauseELSlowSnapshot = ''local.el_slow.snapshot''"
| "CauseID_str CauseELSlowPruning = ''local.el_slow.pruning''"
| "CauseID_str CauseELSlowDiskSaturation = ''local.el_slow.disk_saturation''"
| "CauseID_str CauseELSlowSyncing = ''local.el_slow.syncing''"
| "CauseID_str CauseVCSlow = ''local.vc_slow''"
| "CauseID_str CauseVCDisconnected = ''local.vc_disconnected''"
| "CauseID_str CauseHostDiskIO = ''local.host.disk_io''"
| "CauseID_str CauseHostCPUSteal = ''local.host.cpu_steal''"
| "CauseID_str CauseHostMemoryPressure = ''local.host.memory_pressure''"
| "CauseID_str CauseHostClockDrift = ''local.host.clock_drift''"
| "CauseID_str CauseInsufficientData = ''unknown.insufficient_data''"
| "CauseID_str CauseNoRuleMatched = ''unknown.no_rule_matched''"
| "CauseID_str (CauseOther s) = s"

definition CauseIDs :: "CauseID list" where
  "CauseIDs =
     [CauseProposerMissed, CauseLateBlock, CausePayloadLate, CauseInclusionFailure,
      CauseP2PDegraded, CauseCLSlow, CauseELSlow, CauseELSlowSyncing, CauseELSlowSnapshot,
      CauseELSlowPruning, CauseELSlowDiskSaturation, CauseVCDisconnected, CauseVCSlow,
      CauseHostDiskIO, CauseHostCPUSteal, CauseHostMemoryPressure, CauseHostClockDrift,
      CauseInsufficientData, CauseNoRuleMatched]"

fun CauseID_Valid :: "CauseID \<Rightarrow> bool" where
  "CauseID_Valid CauseNone = False"
| "CauseID_Valid (CauseOther _) = False"
| "CauseID_Valid _ = True"

definition CauseID_IsSubCauseOf :: "CauseID \<Rightarrow> CauseID \<Rightarrow> bool" where
  "CauseID_IsSubCauseOf c parent =
     (if CauseID_str c = CauseID_str parent \<or> CauseID_str parent = [] then False
      else HasPrefix (CauseID_str c) (CauseID_str parent @ ''.''))"

section \<open>Evidence\<close>

datatype Unit = UnitMilliseconds | UnitPercent | UnitCount | UnitRatio | UnitOther string

fun Unit_Valid :: "Unit \<Rightarrow> bool" where
  "Unit_Valid (UnitOther _) = False"
| "Unit_Valid _ = True"

record Comparison =
  cmp_Label :: string
  cmp_Observed :: f64
  cmp_Expected :: f64
  cmp_Unit :: Unit

definition Comparison_Validate :: "Comparison \<Rightarrow> domain_error option" where
  "Comparison_Validate c = first_error
     [check (blank (cmp_Label c)) ErrEmptyStatement,
      check (\<not> Unit_Valid (cmp_Unit c)) (ErrText ''comparison: unknown unit''),
      check (\<not> f_finite (cmp_Observed c) \<or> \<not> f_finite (cmp_Expected c))
        (ErrText ''comparison: observed and expected values must be finite'')]"

record Evidence =
  ev_At :: gotime
  ev_Offset :: duration
  ev_Statement :: string
  ev_Source :: SourceID
  ev_Comparison :: "Comparison option"

definition Evidence_Validate :: "Evidence \<Rightarrow> domain_error option" where
  "Evidence_Validate e = first_error
     [check (blank (ev_Statement e)) ErrEmptyStatement,
      check (IsZero (ev_At e)) ErrMissingTimestamp,
      check (t_loc (ev_At e) \<noteq> UTC) ErrNotUTC,
      check (\<not> SourceID_Valid (ev_Source e)) ErrMissingSource,
      (case ev_Comparison e of None \<Rightarrow> None | Some c \<Rightarrow> Comparison_Validate c)]"

section \<open>Verdicts\<close>

record Verdict =
  v_Slot :: slot
  v_Outcome :: Outcome
  v_Flags :: "RewardFlags option"
  v_Cause :: CauseID
  v_SubCause :: CauseID
  v_Confidence :: Confidence
  v_Evidence :: "Evidence list"
  v_Remediation :: "string list"
  v_EngineVersion :: string
  v_TaxonomyVersion :: string

definition Verdict_validateCause :: "Verdict \<Rightarrow> domain_error option" where
  "Verdict_validateCause v =
     (if v_Outcome v = OutcomeNoDuty
      then first_error
        [check (CauseID_str (v_Cause v) \<noteq> []) ErrInvalidCause,
         check (CauseID_str (v_SubCause v) \<noteq> []) ErrInvalidCause]
      else if v_Outcome v = OutcomeOK \<and> CauseID_str (v_Cause v) = []
      then check (CauseID_str (v_SubCause v) \<noteq> []) ErrInvalidCause
      else if \<not> CauseID_Valid (v_Cause v) then Some ErrInvalidCause
      else if CauseID_str (v_SubCause v) = [] then None
      else if \<not> CauseID_Valid (v_SubCause v) then Some ErrInvalidCause
      else if \<not> CauseID_IsSubCauseOf (v_SubCause v) (v_Cause v) then Some ErrInvalidCause
      else None)"

definition Verdict_validateFlags :: "Verdict \<Rightarrow> domain_error option" where
  "Verdict_validateFlags v =
     (case v_Flags v of
        None \<Rightarrow> check (v_Outcome v = OutcomeDegraded) ErrInvalidOutcome
      | Some f \<Rightarrow>
          (case v_Outcome v of
             OutcomeNoDuty \<Rightarrow> Some ErrInvalidOutcome
           | OutcomeOK \<Rightarrow> check (\<not> RewardFlags_AllEarned f) ErrInvalidOutcome
           | OutcomeDegraded \<Rightarrow> first_error
               [check (RewardFlags_AllEarned f) ErrInvalidOutcome,
                check (\<not> RewardFlags_AnyEarned f) ErrInvalidOutcome]
           | OutcomeMissed \<Rightarrow> check (RewardFlags_AnyEarned f) ErrInvalidOutcome
           | OutcomeOther _ \<Rightarrow> None))"

definition Verdict_Validate :: "Verdict \<Rightarrow> domain_error option" where
  "Verdict_Validate v = first_error
     [check (\<not> Outcome_Valid (v_Outcome v)) ErrInvalidOutcome,
      Verdict_validateCause v,
      Verdict_validateFlags v,
      check (\<not> Confidence_Valid (v_Confidence v)) ErrInvalidConfidence,
      check (v_Evidence v = []) ErrNoEvidence,
      first_error (map Evidence_Validate (v_Evidence v)),
      check (v_EngineVersion v = []) ErrMissingVersion,
      check (v_TaxonomyVersion v = []) ErrMissingVersion]"

definition NewVerdict :: "Verdict \<Rightarrow> domain_error + Verdict" where
  "NewVerdict draft =
     (let out = (if v_TaxonomyVersion draft = [] then draft\<lparr>v_TaxonomyVersion := TaxonomyVersion\<rparr> else draft)
      in case Verdict_Validate out of Some e \<Rightarrow> Inl e | None \<Rightarrow> Inr out)"

definition Verdict_ReportedCause :: "Verdict \<Rightarrow> CauseID" where
  "Verdict_ReportedCause v = (if CauseID_str (v_SubCause v) \<noteq> [] then v_SubCause v else v_Cause v)"

definition Verdict_IsUnknown :: "Verdict \<Rightarrow> bool" where
  "Verdict_IsUnknown v \<longleftrightarrow> v_Cause v = CauseInsufficientData \<or> v_Cause v = CauseNoRuleMatched"

text \<open>Go's zero value of a verdict, which a rule's composite literal starts from.\<close>

definition empty_verdict :: Verdict where
  "empty_verdict =
     \<lparr>v_Slot = 0, v_Outcome = OutcomeOther [], v_Flags = None, v_Cause = CauseNone,
      v_SubCause = CauseNone, v_Confidence = ConfidenceOther [], v_Evidence = [],
      v_Remediation = [], v_EngineVersion = [], v_TaxonomyVersion = []\<rparr>"

definition mk_evidence :: "gotime \<Rightarrow> string \<Rightarrow> SourceID \<Rightarrow> Comparison option \<Rightarrow> Evidence" where
  "mk_evidence t statement source cmp =
     \<lparr>ev_At = t, ev_Offset = 0, ev_Statement = statement, ev_Source = source, ev_Comparison = cmp\<rparr>"

text \<open>The draft a rule returns: cause, confidence, evidence and remediation; the engine fills the rest.\<close>

definition mk_draft :: "CauseID \<Rightarrow> Confidence \<Rightarrow> Evidence list \<Rightarrow> string list \<Rightarrow> Verdict" where
  "mk_draft cause confidence evidence remediation =
     empty_verdict\<lparr>v_Cause := cause, v_Confidence := confidence, v_Evidence := evidence,
       v_Remediation := remediation\<rparr>"

lemma mk_evidence_sel [simp]:
  "ev_At (mk_evidence t s src c) = t" "ev_Statement (mk_evidence t s src c) = s"
  "ev_Source (mk_evidence t s src c) = src" "ev_Comparison (mk_evidence t s src c) = c"
  by (simp_all add: mk_evidence_def)

lemma mk_draft_sel [simp]:
  "v_Cause (mk_draft c conf ev rm) = c" "v_SubCause (mk_draft c conf ev rm) = CauseNone"
  "v_Confidence (mk_draft c conf ev rm) = conf" "v_Evidence (mk_draft c conf ev rm) = ev"
  "v_Remediation (mk_draft c conf ev rm) = rm" "v_TaxonomyVersion (mk_draft c conf ev rm) = []"
  "v_EngineVersion (mk_draft c conf ev rm) = []"
  by (simp_all add: mk_draft_def empty_verdict_def)

end
