(* ===== verification/RuleSupport.thy ===== *)
theory RuleSupport
  imports Timeline Verdict
begin

text \<open>
  \<open>internal/rca/rules\<close>: the thresholds (\<open>config.go\<close>), the latency-budget decomposition
  (\<open>stages.go\<close>) and the helpers the rules share (\<open>helpers.go\<close>).
\<close>

section \<open>Thresholds\<close>

record Config =
  cfg_Dominance :: f64
  cfg_ClockOffsetMax :: duration
  cfg_ClockSampleMaxAge :: duration
  cfg_NetworkDeviation :: duration
  cfg_EngineSpikeMultiplier :: f64
  cfg_PeerCountMin :: f64
  cfg_IOWaitPct :: f64
  cfg_CPUStealPct :: f64
  cfg_PSIMemAvg10 :: f64

definition DefaultConfig :: Config where
  "DefaultConfig =
     \<lparr>cfg_Dominance = FFin (1 / 2), cfg_ClockOffsetMax = 100 * Millisecond,
      cfg_ClockSampleMaxAge = 2 * Minute, cfg_NetworkDeviation = 750 * Millisecond,
      cfg_EngineSpikeMultiplier = FFin 3, cfg_PeerCountMin = FFin 40, cfg_IOWaitPct = FFin 20,
      cfg_CPUStealPct = FFin 5, cfg_PSIMemAvg10 = FFin 10\<rparr>"

definition outside :: "f64 \<Rightarrow> f64 \<Rightarrow> f64 \<Rightarrow> bool" where
  "outside lo hi v \<longleftrightarrow> f_lt v lo \<or> f_lt hi v"

definition Config_Validate :: "Config \<Rightarrow> string option" where
  "Config_Validate c = first_error
     [check (\<not> f_finite (cfg_Dominance c)) ''dominance must be finite'',
      check (\<not> f_finite (cfg_EngineSpikeMultiplier c)) ''engine spike multiplier must be finite'',
      check (\<not> f_finite (cfg_PeerCountMin c)) ''peer count min must be finite'',
      check (\<not> f_finite (cfg_IOWaitPct c)) ''iowait pct must be finite'',
      check (\<not> f_finite (cfg_CPUStealPct c)) ''cpu steal pct must be finite'',
      check (\<not> f_finite (cfg_PSIMemAvg10 c)) ''psi memory avg10 must be finite'',
      check (outside (fround (1 / 2)) (fround (9 / 10)) (cfg_Dominance c))
        ''dominance must be between 0.5 and 0.9'',
      check (cfg_ClockOffsetMax c < 10 * Millisecond \<or> cfg_ClockOffsetMax c > Second)
        ''clock offset max must be between 10ms and 1s'',
      check (cfg_ClockSampleMaxAge c < 30 * Second \<or> cfg_ClockSampleMaxAge c > 10 * Minute)
        ''clock sample max age must be between 30s and 10m'',
      check (cfg_NetworkDeviation c < 50 * Millisecond \<or> cfg_NetworkDeviation c > 5 * Second)
        ''network deviation must be between 50ms and 5s'',
      check (outside (fround (11 / 10)) (FFin 20) (cfg_EngineSpikeMultiplier c))
        ''engine spike multiplier must be between 1.1 and 20'',
      check (outside (FFin 1) (FFin 500) (cfg_PeerCountMin c)) ''peer count min must be between 1 and 500'',
      check (outside (FFin 0) (FFin 100) (cfg_IOWaitPct c)) ''iowait pct must be between 0 and 100'',
      check (outside (FFin 0) (FFin 100) (cfg_CPUStealPct c)) ''cpu steal pct must be between 0 and 100'',
      check (outside (FFin 0) (FFin 100) (cfg_PSIMemAvg10 c)) ''psi memory avg10 must be between 0 and 100'']"

section \<open>Stages of the latency budget\<close>

record Stages =
  st_Propagation :: duration
  st_Validation :: duration
  st_Signing :: duration
  st_HasPropagation :: bool
  st_HasValidation :: bool
  st_HasSigning :: bool

fun total_loop :: "duration \<Rightarrow> (duration \<times> bool) list \<Rightarrow> duration" where
  "total_loop acc [] = acc"
| "total_loop acc ((value, known) # rest) =
     (if \<not> known then total_loop acc rest
      else if value > 0 \<and> acc > int64_max - value then int64_max
      else total_loop (wrap64 (acc + value)) rest)"

definition Stages_Total :: "Stages \<Rightarrow> duration" where
  "Stages_Total s = total_loop 0
     [(st_Propagation s, st_HasPropagation s), (st_Validation s, st_HasValidation s),
      (st_Signing s, st_HasSigning s)]"

text \<open>A stage's duration when its endpoints are known.\<close>

fun stage_value :: "Stages \<Rightarrow> Stage \<Rightarrow> duration option" where
  "stage_value s StagePropagation = (if st_HasPropagation s then Some (st_Propagation s) else None)"
| "stage_value s StageValidation = (if st_HasValidation s then Some (st_Validation s) else None)"
| "stage_value s StageSigning = (if st_HasSigning s then Some (st_Signing s) else None)"
| "stage_value s (StageOther _) = None"

definition Stages_Share :: "Stages \<Rightarrow> Stage \<Rightarrow> f64 option" where
  "Stages_Share s stage =
     (let tot = Stages_Total s
      in if tot \<le> 0 then None
         else map_option (\<lambda>v. f_div (f_of_int v) (f_of_int tot)) (stage_value s stage))"

definition known_stages :: "Stages \<Rightarrow> nat" where
  "known_stages s =
     (if st_HasPropagation s then 1 else 0) + (if st_HasValidation s then 1 else 0) +
     (if st_HasSigning s then 1 else 0)"

fun dominant_loop :: "Stages \<Rightarrow> (Stage \<times> f64) option \<Rightarrow> Stage list \<Rightarrow> (Stage \<times> f64) option" where
  "dominant_loop s best [] = best"
| "dominant_loop s best (stage # rest) =
     (case Stages_Share s stage of
        None \<Rightarrow> dominant_loop s best rest
      | Some share \<Rightarrow>
          if (case best of None \<Rightarrow> True | Some (_, bestShare) \<Rightarrow> f_lt bestShare share)
          then dominant_loop s (Some (stage, share)) rest
          else dominant_loop s best rest)"

definition Stages_Dominant :: "Stages \<Rightarrow> Config \<Rightarrow> Stage option" where
  "Stages_Dominant s cfg =
     (if known_stages s < 2 then None
      else case dominant_loop s None domain_Stages of
        None \<Rightarrow> None
      | Some (best, bestShare) \<Rightarrow> if f_lt bestShare (cfg_Dominance cfg) then None else Some best)"

definition timedBlockSeen :: "Timeline \<Rightarrow> Observation option" where
  "timedBlockSeen t =
     List.find (\<lambda>ob. obs_Kind ob = ObsBlockSeen \<and> obs_Source ob = SourcePromScrape) (tl_Observations t)"

definition no_stages :: Stages where
  "no_stages =
     \<lparr>st_Propagation = 0, st_Validation = 0, st_Signing = 0, st_HasPropagation = False,
      st_HasValidation = False, st_HasSigning = False\<rparr>"

definition ComputeStages :: "Timeline \<Rightarrow> Stages" where
  "ComputeStages t =
     (case timedBlockSeen t of
        None \<Rightarrow> no_stages
      | Some blockSeen \<Rightarrow>
          if Before (obs_At blockSeen) (tl_SlotStart t) then no_stages
          else
            (let s = no_stages\<lparr>st_Propagation := Sub (obs_At blockSeen) (tl_SlotStart t),
                               st_HasPropagation := True\<rparr>;
                 published = Timeline_First t ObsAttestationPublished
             in case Timeline_First t ObsHeadUpdated of
                  Some headUpdated \<Rightarrow>
                    if Before (obs_At headUpdated) (obs_At blockSeen) then s
                    else
                      (let s' = s\<lparr>st_Validation := Sub (obs_At headUpdated) (obs_At blockSeen),
                                  st_HasValidation := True\<rparr>
                       in case published of
                            Some p \<Rightarrow>
                              if Before (obs_At p) (obs_At headUpdated) then s'
                              else s'\<lparr>st_Signing := Sub (obs_At p) (obs_At headUpdated), st_HasSigning := True\<rparr>
                          | None \<Rightarrow> s')
                | None \<Rightarrow>
                    (case published of
                       Some p \<Rightarrow>
                         if Before (obs_At p) (obs_At blockSeen) then s
                         else s\<lparr>st_Validation := Sub (obs_At p) (obs_At blockSeen), st_HasValidation := True\<rparr>
                     | None \<Rightarrow> s)))"

section \<open>Helpers\<close>

definition postPropagationDominant :: "Timeline \<Rightarrow> Config \<Rightarrow> bool" where
  "postPropagationDominant t cfg \<longleftrightarrow> Stages_Dominant (ComputeStages t) cfg = Some StageValidation"

definition attestation_budget :: "Timeline \<Rightarrow> duration" where
  "attestation_budget t = Sub (Timeline_AttestationDeadline t) (tl_SlotStart t)"

definition propagationOverspent :: "Timeline \<Rightarrow> Config \<Rightarrow> Stages \<times> bool" where
  "propagationOverspent t cfg =
     (let stages = ComputeStages t
      in if \<not> st_HasPropagation stages \<or> st_Propagation stages \<le> attestation_budget t
         then (stages, False)
         else if st_HasValidation stages \<or> st_HasSigning stages
         then (stages, Stages_Dominant stages cfg = Some StagePropagation)
         else (stages, True))"

record engineCall =
  ec_at :: gotime
  ec_method :: string
  ec_count :: nat
  ec_durationMS :: f64

definition parse_engine_call :: "Observation \<Rightarrow> engineCall option" where
  "parse_engine_call ob =
     (if obs_Kind ob \<noteq> ObsEngineCall \<or> obs_Source ob \<noteq> SourcePromScrape then None
      else case Observation_Attr ob AttrEngineMethod of
        None \<Rightarrow> None
      | Some method \<Rightarrow>
          (case Observation_Attr ob AttrDurationMS of
             None \<Rightarrow> None
           | Some durationStr \<Rightarrow>
               (case ParseFloat durationStr of
                  None \<Rightarrow> None
                | Some dur \<Rightarrow>
                    if f_lt dur (FFin 0) \<or> \<not> f_finite dur then None
                    else if method \<noteq> EngineMethodNewPayload \<and> method \<noteq> EngineMethodForkchoiceUpdated then None
                    else
                      (case Observation_Attr ob AttrSampleCount of
                         None \<Rightarrow> None
                       | Some countStr \<Rightarrow>
                           (case ParseUint countStr of
                              None \<Rightarrow> None
                            | Some n \<Rightarrow>
                                if n = 0 then None
                                else Some \<lparr>ec_at = obs_At ob, ec_method = method, ec_count = n,
                                           ec_durationMS = dur\<rparr>)))))"

definition engineCalls :: "Timeline \<Rightarrow> engineCall list" where
  "engineCalls t = List.map_filter parse_engine_call (tl_Observations t)"

definition completeEngineCalls :: "Timeline \<Rightarrow> engineCall list \<times> bool" where
  "completeEngineCalls t =
     (let calls = engineCalls t;
          n = (\<lambda>m. length (filter (\<lambda>c. ec_method c = m) calls))
      in if length calls \<noteq> 2 then (calls, False)
         else (calls, n EngineMethodNewPayload = 1 \<and> n EngineMethodForkchoiceUpdated = 1))"

definition dutyHasObservableLoss :: "Timeline \<Rightarrow> bool" where
  "dutyHasObservableLoss t =
     (case tl_Duty t of
        None \<Rightarrow> False
      | Some d \<Rightarrow>
          if duty_Kind d = DutyProposer then \<not> Timeline_Has t ObsBlockProposed
          else case Timeline_Last t ObsAttestationIncluded of
            None \<Rightarrow> True
          | Some included \<Rightarrow>
              (case Observation_Attr included AttrInclusionDelay of
                 None \<Rightarrow> True
               | Some delayStr \<Rightarrow>
                   if ParseUint delayStr \<noteq> Some 1 then True
                   else Observation_Attr included AttrHeadCorrect \<noteq> Some ''true'' \<or>
                        Observation_Attr included AttrTargetCorrect \<noteq> Some ''true''))"

text \<open>
  The final conversion of \<open>engineCallTotal\<close> is only specified when it fits in 64 bits, and then
  \<open>f_to_int64\<close> yields it; \<open>engineCallTotal_converts\<close> below shows that it always does.
\<close>

definition engine_total_ms :: "engineCall list \<Rightarrow> f64" where
  "engine_total_ms calls = foldl (\<lambda>acc c. f_add acc (ec_durationMS c)) (FFin 0) calls"

definition engineCallTotal :: "engineCall list \<Rightarrow> duration" where
  "engineCallTotal calls =
     (let totalMS = engine_total_ms calls
      in if (case totalMS of FInf _ \<Rightarrow> True | _ \<Rightarrow> False) \<or> f_le maxMilliseconds totalMS then int64_max
         else the (f_to_int64 (f_mul totalMS (f_of_int Millisecond))))"

text \<open>A measured value together with the instant and the source that make it evidence.\<close>

definition observed_value :: "Observation \<Rightarrow> AttrKey \<Rightarrow> (f64 \<times> gotime \<times> SourceID) option" where
  "observed_value ob key =
     (case Observation_Attr ob key of
        None \<Rightarrow> None
      | Some s \<Rightarrow> map_option (\<lambda>v. (v, obs_At ob, obs_Source ob)) (ParseFloat s))"

definition last_sample :: "Component \<Rightarrow> string \<Rightarrow> Timeline \<Rightarrow> (f64 \<times> gotime \<times> SourceID) option" where
  "last_sample c name t =
     map_option (\<lambda>m. (ms_Value m, ms_At m, ms_Source m))
       (List.find (\<lambda>m. ms_Component m = c \<and> ms_Name m = name) (rev (tl_Samples t)))"

definition hostSampleFact :: "Timeline \<Rightarrow> string \<Rightarrow> string \<Rightarrow> (f64 \<times> gotime \<times> SourceID) option" where
  "hostSampleFact t obsMetricName sampleMetricName =
     (case find_map (\<lambda>ob.
        if obs_Kind ob \<noteq> ObsHostSampled then None
        else if Observation_Attr ob AttrMetric \<noteq> Some obsMetricName then None
        else observed_value ob AttrValue) (rev (tl_Observations t)) of
        Some found \<Rightarrow> Some found
      | None \<Rightarrow> last_sample ComponentHost sampleMetricName t)"

definition metricCLPeerCount :: string where
  "metricCLPeerCount = ''cl_peer_count''"

definition peerCountFact :: "Timeline \<Rightarrow> (f64 \<times> gotime \<times> SourceID) option" where
  "peerCountFact t =
     (case find_map (\<lambda>ob.
        if obs_Kind ob \<noteq> ObsPeerCountSampled then None
        else observed_value ob AttrPeerCount) (rev (tl_Observations t)) of
        Some found \<Rightarrow> Some found
      | None \<Rightarrow> last_sample ComponentCL metricCLPeerCount t)"

section \<open>The budget decomposition is sound\<close>

definition stages_ok :: "Stages \<Rightarrow> bool" where
  "stages_ok s \<longleftrightarrow> (\<forall>stage v. stage_value s stage = Some v \<longrightarrow> 0 \<le> v \<and> in_int64 v)"

lemma stages_okI:
  assumes "st_HasPropagation s \<Longrightarrow> 0 \<le> st_Propagation s \<and> in_int64 (st_Propagation s)"
    and "st_HasValidation s \<Longrightarrow> 0 \<le> st_Validation s \<and> in_int64 (st_Validation s)"
    and "st_HasSigning s \<Longrightarrow> 0 \<le> st_Signing s \<and> in_int64 (st_Signing s)"
  shows "stages_ok s"
  unfolding stages_ok_def
proof (intro allI impI)
  fix stage v assume "stage_value s stage = Some v"
  then show "0 \<le> v \<and> in_int64 v" using assms by (cases stage) (auto split: if_splits)
qed

lemma ComputeStages_ok: "stages_ok (ComputeStages t)"
  unfolding ComputeStages_def Let_def
  by (rule stages_okI) (auto simp: no_stages_def split: option.splits if_splits)

lemma total_loop_sum:
  assumes "0 \<le> acc" "acc \<le> int64_max" and "\<forall>(v, known) \<in> set xs. known \<longrightarrow> 0 \<le> v \<and> in_int64 v"
  shows "total_loop acc xs = min int64_max (acc + sum_list (map fst (filter snd xs)))"
  using assms
proof (induction xs arbitrary: acc)
  case (Cons x xs)
  obtain v known where x: "x = (v, known)" by (cases x)
  have pos: "0 \<le> sum_list (map fst (filter snd xs))"
    using Cons.prems(3) by (intro sum_list_nonneg) auto
  show ?case
  proof (cases "known \<and> \<not> (v > 0 \<and> acc > int64_max - v)")
    case True
    then have "in_int64 (acc + v)" "0 \<le> v" using Cons.prems x by (auto simp: int64_defs)
    with True Cons.IH [of "acc + v"] Cons.prems x show ?thesis
      by (auto simp: int64_defs add.assoc)
  next
    case False
    then show ?thesis using Cons.IH [of acc] Cons.prems x pos by (auto simp: int64_defs)
  qed
qed simp

definition known_sum :: "Stages \<Rightarrow> int" where
  "known_sum s = (if st_HasPropagation s then st_Propagation s else 0) +
     (if st_HasValidation s then st_Validation s else 0) + (if st_HasSigning s then st_Signing s else 0)"

lemma stages_okD:
  assumes "stages_ok s"
  shows "st_HasPropagation s \<Longrightarrow> 0 \<le> st_Propagation s \<and> in_int64 (st_Propagation s)"
    "st_HasValidation s \<Longrightarrow> 0 \<le> st_Validation s \<and> in_int64 (st_Validation s)"
    "st_HasSigning s \<Longrightarrow> 0 \<le> st_Signing s \<and> in_int64 (st_Signing s)"
  using assms [unfolded stages_ok_def, rule_format, of StagePropagation "st_Propagation s"]
    assms [unfolded stages_ok_def, rule_format, of StageValidation "st_Validation s"]
    assms [unfolded stages_ok_def, rule_format, of StageSigning "st_Signing s"] by simp_all

lemma Stages_Total_sum:
  assumes "stages_ok s"
  shows "Stages_Total s = min int64_max (known_sum s)"
  using stages_okD [OF assms]
  by (subst Stages_Total_def, subst total_loop_sum) (auto simp: int64_defs known_sum_def)

lemma stage_le_total:
  assumes "stages_ok s" and "stage_value s stage = Some v"
  shows "0 \<le> v" "v \<le> Stages_Total s" "in_int64 (Stages_Total s)"
  using stages_okD [OF assms(1)] assms(2)
  by (cases stage; force simp: Stages_Total_sum [OF assms(1)] known_sum_def int64_defs split: if_splits)+

lemma f_of_int_int64:
  assumes "in_int64 n"
  shows "\<exists>q. f_of_int n = FFin q"
  using fround_bounded [of "of_int n" 63] assms by (auto simp: int64_defs f_of_int_def abs_le_iff)

lemma f_of_int_ratio:
  assumes "0 \<le> v" "v \<le> n" "0 < n" "in_int64 n"
  shows "\<exists>a b. f_of_int v = FFin a \<and> f_of_int n = FFin b \<and> 0 \<le> a \<and> a \<le> b \<and> 1 \<le> b"
proof -
  have "in_int64 v" using assms by (auto simp: int64_defs)
  with assms(4) obtain a b where ab: "f_of_int v = FFin a" "f_of_int n = FFin b"
    using f_of_int_int64 by blast
  moreover have "f_le (f_of_int 0) (f_of_int v)" "f_le (f_of_int v) (f_of_int n)" "f_le (f_of_int 1) (f_of_int n)"
    using assms by (auto intro!: f_of_int_mono)
  ultimately show ?thesis by (simp add: f_of_int_exact)
qed

lemma Stages_Share_unit:
  assumes "stages_ok s" and "Stages_Share s stage = Some share"
  shows "\<exists>r. share = FFin r \<and> 0 \<le> r \<and> r \<le> 1"
proof -
  obtain v where v: "stage_value s stage = Some v" "0 < Stages_Total s"
    and share: "share = f_div (f_of_int v) (f_of_int (Stages_Total s))"
    using assms(2) by (auto simp: Stages_Share_def Let_def split: if_splits)
  obtain a b where ab: "f_of_int v = FFin a" "f_of_int (Stages_Total s) = FFin b" "0 \<le> a" "a \<le> b" "1 \<le> b"
    using f_of_int_ratio [of v "Stages_Total s"] stage_le_total [OF assms(1) v(1)] v(2) by blast
  then have "0 \<le> a / b" "a / b \<le> 1" by simp_all
  then obtain r where "fround (a / b) = FFin r" "0 \<le> r" "r \<le> 1" using fround_err_unit by blast
  with ab share show ?thesis by auto
qed

subsection \<open>Dominance\<close>

lemma f_le_refl: "f_finite a \<Longrightarrow> f_le a a"
  by (cases a) auto

definition better :: "Stages \<Rightarrow> (Stage \<times> f64) option \<Rightarrow> bool" where
  "better s best = (case best of None \<Rightarrow> True | Some (st, sh) \<Rightarrow> Stages_Share s st = Some sh)"

lemma better_simps [simp]:
  "better s None" "better s (Some (st, sh)) \<longleftrightarrow> Stages_Share s st = Some sh"
  by (simp_all add: better_def)

lemma dominant_loop_from:
  assumes "better s best" and "dominant_loop s best xs = Some (st, sh)"
  shows "Stages_Share s st = Some sh"
  using assms
proof (induction xs arbitrary: best)
  case (Cons x xs)
  obtain best' where "better s best'" "dominant_loop s best' xs = Some (st, sh)"
    using Cons.prems by (cases best) (force split: option.splits if_splits)+
  then show ?case by (rule Cons.IH)
qed simp

lemma f_le_trans: "f_le a b \<Longrightarrow> f_le b c \<Longrightarrow> f_le a c"
  by (cases a; cases b; cases c) auto

lemma dominant_loop_max:
  assumes "stages_ok s" and "better s best" and "dominant_loop s best xs = Some (st, sh)"
  shows "(\<forall>b bs. best = Some (b, bs) \<longrightarrow> f_le bs sh) \<and>
    (\<forall>st' \<in> set xs. \<forall>sh'. Stages_Share s st' = Some sh' \<longrightarrow> f_le sh' sh)"
  using assms(2,3)
proof (induction xs arbitrary: best)
  case Nil
  then show ?case using Stages_Share_unit [OF assms(1)] by (fastforce intro: f_le_refl)
next
  case (Cons x xs)
  show ?case
  proof (cases "Stages_Share s x")
    case None
    with Cons show ?thesis by auto
  next
    case (Some share)
    define best' where "best' = (if (case best of None \<Rightarrow> True | Some (_, bs) \<Rightarrow> f_lt bs share)
      then Some (x, share) else best)"
    have loop: "dominant_loop s best' xs = Some (st, sh)" and ok: "better s best'"
      using Cons.prems Some by (auto simp: best'_def better_def split: option.splits if_splits)
    have fin: "\<exists>q. share = FFin q" using Stages_Share_unit [OF assms(1) Some] by blast
    have "\<exists>b' bs'. best' = Some (b', bs') \<and> f_le share bs' \<and> (\<forall>b bs. best = Some (b, bs) \<longrightarrow> f_le bs bs')"
      using Cons.prems(1) fin Stages_Share_unit [OF assms(1)]
      by (fastforce simp: best'_def better_def split: option.splits if_splits)
    then obtain b' bs' where b: "best' = Some (b', bs')" "f_le share bs'" "\<forall>b bs. best = Some (b, bs) \<longrightarrow> f_le bs bs'"
      by blast
    with Cons.IH [OF ok loop] have "f_le bs' sh" by blast
    with b Cons.IH [OF ok loop] Some show ?thesis by (auto intro: f_le_trans)
  qed
qed

lemma Stages_DominantD:
  assumes "stages_ok s" and "Stages_Dominant s cfg = Some st"
  obtains sh where "Stages_Share s st = Some sh" "\<not> f_lt sh (cfg_Dominance cfg)" "2 \<le> known_stages s"
    "\<forall>st' sh'. Stages_Share s st' = Some sh' \<longrightarrow> f_le sh' sh"
proof -
  obtain sh where loop: "dominant_loop s None domain_Stages = Some (st, sh)"
    and sh: "\<not> f_lt sh (cfg_Dominance cfg)" and k: "\<not> known_stages s < 2"
    using assms(2) by (auto simp: Stages_Dominant_def split: if_splits option.splits)
  have b: "better s None" by simp
  have "f_le sh' sh" if "Stages_Share s st' = Some sh'" for st' sh'
  proof -
    have "st' \<in> set domain_Stages"
      using that by (cases st') (auto simp: domain_Stages_def Stages_Share_def Let_def split: if_splits)
    with dominant_loop_max [OF assms(1) b loop] that show ?thesis by blast
  qed
  with that [OF dominant_loop_from [OF b loop] sh] k show thesis by auto
qed

lemma half_from_share:
  fixes v n :: int
  assumes "0 \<le> v" "v \<le> n" "0 < n" "n < 2 ^ 53" and "\<not> f_lt (f_div (f_of_int v) (f_of_int n)) (FFin d)" "1 / 2 \<le> d"
  shows "n \<le> 2 * v"
proof -
  have ex: "f_of_int v = FFin (of_int v)" "f_of_int n = FFin (of_int n)"
    using assms by (simp_all add: f_of_int_exact)
  have "0 \<le> (of_int v :: rat) / of_int n" "(of_int v :: rat) / of_int n \<le> 1" using assms by simp_all
  then obtain r where r: "fround (of_int v / of_int n) = FFin r" "\<bar>r - of_int v / of_int n\<bar> \<le> 1 / 2 ^ 54"
    using fround_err_unit by blast
  have "1 / 2 \<le> r" using assms(3,5,6) ex r(1) by simp
  then have q: "1 / 2 - 1 / 2 ^ 54 \<le> (of_int v :: rat) / of_int n" using r(2) by linarith
  have n: "(0 :: rat) < of_int n" "(of_int n :: rat) < 2 ^ 53"
    using assms(3,4) by (simp, metis (mono_tags) of_int_less_iff of_int_numeral of_int_power)
  have "(1 / 2 - 1 / 2 ^ 54) * of_int n \<le> (of_int v :: rat)" using q n(1) by (simp add: pos_le_divide_eq)
  then have "(of_int n :: rat) - 1 < 2 * of_int v" using n(2) by (simp add: algebra_simps)
  then have "n - 1 < 2 * v" by linarith
  then show ?thesis by simp
qed

subsection \<open>Engine call totals\<close>

lemma fmag_below_max:
  assumes "0 < x" and "fmag x < 4722366482869645 / 512"
  shows "fmag x \<le> 4722366482869644 / 512"
proof -
  have L: "fmag (4722366482869645 / 512) = 4722366482869645 / 512"
    and P: "fmag (4722366482869644 / 512) = 4722366482869644 / 512"
    using fmag_dyadic [of 4722366482869645 9] fmag_dyadic [of 4722366482869644 9] by simp_all
  consider "x \<le> 4722366482869644 / 512" | "4722366482869645 / 512 \<le> x"
    | "4722366482869644 / 512 < x" "x < 4722366482869645 / 512" by linarith
  then show ?thesis
  proof cases
    case 1
    then show ?thesis using fmag_mono [OF assms(1)] P by fastforce
  next
    case 2
    then show ?thesis using fmag_mono [of "4722366482869645 / 512" x] L assms(2) by simp
  next
    case 3
    have "ilog2 x = 43" using 3 by (intro ilog2_unique) simp_all
    then have e: "fexp x = - 9" by (simp add: fexp_def)
    then have k: "fmag x = of_int (round_half_even (x * 512)) / 512"
      by (simp add: fmag_def power_int_minus_divide)
    with assms(2) have "(of_int (round_half_even (x * 512)) :: rat) < of_int 4722366482869645" by simp
    then have "round_half_even (x * 512) \<le> 4722366482869644" by (simp only: of_int_less_iff)
    with k show ?thesis by simp
  qed
qed

lemma ms_product_in_range:
  assumes "0 \<le> p" and "p \<le> 4722366482869644 / 512"
  shows "\<exists>d. f_to_int64 (f_mul (FFin p) (f_of_int 1000000)) = Some d \<and> 0 \<le> d"
proof -
  have "round_half_even (4722366482869644 / 512 * 1000000 / 1024) = 9007199254740990"
    by (rule round_half_even_unique) simp
  then have top: "fround (4722366482869644 / 512 * 1000000) = FFin 9223372036854773760"
    using fround_evalI [of 62 "4722366482869644 / 512 * 1000000" 9007199254740990] by simp
  have "f_le (FFin 0) (fround (p * 1000000))" using assms by (intro fround_nonneg) simp
  moreover have "f_le (fround (p * 1000000)) (FFin 9223372036854773760)"
    using assms unfolding top [symmetric] by (intro fround_mono) simp
  ultimately obtain q where q: "fround (p * 1000000) = FFin q" "0 \<le> q" "q \<le> 9223372036854773760"
    by (cases "fround (p * 1000000)") auto
  then have "0 \<le> \<lfloor>q\<rfloor>" "\<lfloor>q\<rfloor> \<le> 9223372036854773760" by (simp_all add: floor_le_iff)
  then show ?thesis using q by (simp add: f_of_int_exact f_trunc_def int64_defs)
qed

definition nonneg_call :: "engineCall \<Rightarrow> bool" where
  "nonneg_call c \<longleftrightarrow> (\<exists>q. ec_durationMS c = FFin q \<and> 0 \<le> q)"

definition rounded_sum :: "f64 \<Rightarrow> bool" where
  "rounded_sum f \<longleftrightarrow> f = FInf False \<or> f = FFin 0 \<or> (\<exists>x > 0. f = FFin (fmag x))"

lemma rounded_sum_add:
  assumes "rounded_sum f" and "0 \<le> q"
  shows "rounded_sum (f_add f (FFin q))"
proof (cases f)
  case (FFin p)
  then have "0 \<le> p" using assms(1) by (auto simp: rounded_sum_def fmag_nonneg)
  then have "p + q = 0 \<or> 0 < p + q" using assms(2) by linarith
  then show ?thesis using FFin by (auto simp: rounded_sum_def fround_def Let_def)
qed (use assms in \<open>auto simp: rounded_sum_def\<close>)

lemma engine_total_rounded:
  assumes "\<forall>c \<in> set calls. nonneg_call c" and "rounded_sum acc"
  shows "rounded_sum (foldl (\<lambda>acc c. f_add acc (ec_durationMS c)) acc calls)"
  using assms by (induction calls arbitrary: acc) (auto simp: nonneg_call_def rounded_sum_add)

text \<open>The conversion at the end of \<open>engineCallTotal\<close> never leaves the range of a duration.\<close>

lemma engineCallTotal_converts:
  assumes "\<forall>c \<in> set calls. nonneg_call c"
  shows "engineCallTotal calls = int64_max \<or>
    (\<exists>d. f_to_int64 (f_mul (engine_total_ms calls) (f_of_int 1000000)) = Some d \<and> 0 \<le> d \<and>
         engineCallTotal calls = d)"
proof -
  have r: "rounded_sum (engine_total_ms calls)"
    unfolding engine_total_ms_def using assms by (intro engine_total_rounded) (auto simp: rounded_sum_def)
  show ?thesis
  proof (cases "engine_total_ms calls")
    case (FFin p)
    show ?thesis
    proof (cases "4722366482869645 / 512 \<le> p")
      case False
      then have "0 \<le> p" "p \<le> 4722366482869644 / 512"
        using r FFin fmag_below_max by (auto simp: rounded_sum_def fmag_nonneg)
      from ms_product_in_range [OF this] FFin False show ?thesis
        by (auto simp: engineCallTotal_def maxMilliseconds_eq Let_def)
    qed (simp add: engineCallTotal_def maxMilliseconds_eq FFin)
  qed (use r in \<open>auto simp: rounded_sum_def engineCallTotal_def Let_def\<close>)
qed

lemma f_to_int64_range: "f_to_int64 f = Some d \<Longrightarrow> in_int64 d"
  by (cases f) (auto split: if_splits)

lemma engineCallTotal_range:
  assumes "\<forall>c \<in> set calls. nonneg_call c"
  shows "0 \<le> engineCallTotal calls" "in_int64 (engineCallTotal calls)"
  using engineCallTotal_converts [OF assms] by (auto simp: int64_defs dest: f_to_int64_range)

section \<open>Measured facts of a valid timeline\<close>

interpretation block_seen: observation_lookup timedBlockSeen ObsBlockSeen
  by unfold_locales (auto simp: timedBlockSeen_def dest: find_SomeD)

lemma parse_engine_call_facts:
  assumes "parse_engine_call ob = Some c"
  shows "nonneg_call c" "ec_at c = obs_At ob" "0 < ec_count c"
    "ec_method c = EngineMethodNewPayload \<or> ec_method c = EngineMethodForkchoiceUpdated"
proof -
  have "\<exists>q. f = FFin q \<and> 0 \<le> q" if "\<not> f_lt f (FFin 0)" "f_finite f" for f
    using that by (cases f) auto
  then show "nonneg_call c" "ec_at c = obs_At ob" "0 < ec_count c"
    "ec_method c = EngineMethodNewPayload \<or> ec_method c = EngineMethodForkchoiceUpdated"
    using assms
    by (auto simp: parse_engine_call_def nonneg_call_def split: if_splits option.splits)
qed

lemma engineCalls_facts:
  assumes "c \<in> set (engineCalls t)"
  shows "nonneg_call c" "\<exists>ob \<in> set (tl_Observations t). ec_at c = obs_At ob"
    "ec_method c = EngineMethodNewPayload \<or> ec_method c = EngineMethodForkchoiceUpdated"
  using assms parse_engine_call_facts
  by (fastforce simp: engineCalls_def List.map_filter_def)+

text \<open>A measured fact that may stand as evidence: finite, with a proper instant and source.\<close>

definition good_fact :: "f64 \<times> gotime \<times> SourceID \<Rightarrow> bool" where
  "good_fact f \<longleftrightarrow> (case f of (v, t, src) \<Rightarrow>
     f_finite v \<and> \<not> IsZero t \<and> t_loc t = UTC \<and> SourceID_Valid src)"

lemma observed_value_good:
  assumes "Observation_Validate ob = None" and "key \<in> {AttrValue, AttrPeerCount}"
    and "observed_value ob key = Some f"
  shows "good_fact f"
proof -
  obtain s v where s: "Observation_Attr ob key = Some s" "ParseFloat s = Some v" "f = (v, obs_At ob, obs_Source ob)"
    using assms(3) by (auto simp: observed_value_def split: option.splits)
  have "validateObservationAttr key s = None" using Observation_Attr_valid(2) [OF assms(1) s(1)] .
  then have "f_finite v" using assms(2) s(2) by (auto dest: is_float_whereD)
  then show ?thesis using s(3) Observation_ValidateD [OF assms(1)] by (simp add: good_fact_def)
qed

lemma last_sample_good:
  assumes "Timeline_Validate t = None" and "last_sample c name t = Some f"
  shows "good_fact f"
proof -
  obtain m where m: "m \<in> set (tl_Samples t)" "f = (ms_Value m, ms_At m, ms_Source m)"
    using assms(2) by (auto simp: last_sample_def dest: find_rev_SomeD)
  then show ?thesis
    using MetricSample_ValidateD [OF Timeline_ValidateD(6) [OF assms(1) m(1)]] by (simp add: good_fact_def)
qed

lemma fact_good:
  assumes "Timeline_Validate t = None" and "key \<in> {AttrValue, AttrPeerCount}"
    and "\<And>ob f. g ob = Some f \<Longrightarrow> observed_value ob key = Some f"
    and "(case find_map g (rev (tl_Observations t)) of Some f \<Rightarrow> Some f | None \<Rightarrow> last_sample c name t) = Some f"
  shows "good_fact f"
proof (cases "find_map g (rev (tl_Observations t))")
  case None
  then show ?thesis using assms(1,4) by (simp add: last_sample_good)
next
  case (Some f')
  then obtain ob where ob: "ob \<in> set (tl_Observations t)" "g ob = Some f'"
    using find_map_SomeD [OF Some] by auto
  have "observed_value ob key = Some f" using assms(3) [OF ob(2)] assms(4) Some by simp
  then show ?thesis using Timeline_ValidateD(4) [OF assms(1) ob(1)] assms(2) by (rule observed_value_good [rotated 2])
qed

lemma hostSampleFact_good:
  assumes "Timeline_Validate t = None" and "hostSampleFact t n1 n2 = Some f"
  shows "good_fact f"
  using assms(2) unfolding hostSampleFact_def
  by (rule fact_good [OF assms(1), rotated 2, where key = AttrValue]) (auto split: if_splits)

lemma peerCountFact_good:
  assumes "Timeline_Validate t = None" and "peerCountFact t = Some f"
  shows "good_fact f"
  using assms(2) unfolding peerCountFact_def
  by (rule fact_good [OF assms(1), rotated 2, where key = AttrPeerCount]) (auto split: if_splits)

lemma sample_value_loop_finite:
  assumes "\<forall>m \<in> set ms. f_finite (ms_Value m)" and "\<forall>v a. best = Some (v, a) \<longrightarrow> f_finite v"
    and "sample_value_loop c name best ms = Some (v, a)"
  shows "f_finite v"
  using assms
proof (induction ms arbitrary: best)
  case (Cons m ms)
  obtain best' where "\<forall>v a. best' = Some (v, a) \<longrightarrow> f_finite v" "sample_value_loop c name best' ms = Some (v, a)"
    using Cons.prems by (cases best) (force split: if_splits option.splits)+
  then show ?case using Cons.IH Cons.prems(1) by auto
qed auto

lemma Timeline_SampleValue_finite:
  assumes "Timeline_Validate t = None" and "Timeline_SampleValue t c name = Some v"
  shows "f_finite v"
  using assms(2) sample_value_loop_finite [of "tl_Samples t" None c name v]
    MetricSample_ValidateD(6) [OF Timeline_ValidateD(6) [OF assms(1)]]
  by (auto simp: Timeline_SampleValue_def)

lemma attestation_budget_eq:
  assumes "Timeline_Validate t = None"
  shows "attestation_budget t = sched_AttestationDeadline (tl_Schedule t)"
  using SlotSchedule_deadline_in_int64(1) [OF Timeline_ValidateD(3) [OF assms]]
  by (simp add: attestation_budget_def Timeline_AttestationDeadline_def SlotSchedule_AttestationDeadlineAt_def)

lemma propagation_facts:
  assumes "st_HasPropagation (ComputeStages t)"
  obtains ob where "timedBlockSeen t = Some ob" "\<not> Before (obs_At ob) (tl_SlotStart t)"
    "st_Propagation (ComputeStages t) = Sub (obs_At ob) (tl_SlotStart t)"
  using assms unfolding ComputeStages_def Let_def
  by (auto simp: no_stages_def split: option.splits if_splits)

lemma propagationOverspent_fst [simp]: "fst (propagationOverspent t cfg) = ComputeStages t"
  by (simp add: propagationOverspent_def Let_def)

lemma propagationOverspent_snd:
  assumes "snd (propagationOverspent t cfg)"
  shows "st_HasPropagation (ComputeStages t)" "attestation_budget t < st_Propagation (ComputeStages t)"
  using assms by (auto simp: propagationOverspent_def Let_def split: if_splits)

end
