(* ===== verification/RuleContract.thy ===== *)
theory RuleContract
  imports RuleSupport
begin

text \<open>
  The contract between the rules of \<open>internal/rca/rules\<close> and the engine of \<open>internal/rca\<close>
  (\<open>Rule\<close> in \<open>order.go\<close>): on an analysable timeline a rule that matches hands over a draft whose
  cause, confidence and evidence pass \<open>Verdict.Validate\<close>. Every rule interprets the locale
  \<open>rule_contract\<close> in its own theory; the engine relies on nothing else.
\<close>

section \<open>Inputs of an analysis\<close>

text \<open>
  The Go types bound every duration by 64 bits; the model's durations are integers, so the bound
  on the fields a rule copies into evidence is stated here.
\<close>

definition durations_typed :: "Timeline \<Rightarrow> bool" where
  "durations_typed t \<longleftrightarrow>
     (\<forall>ob \<in> set (tl_Observations t). in_int64 (obs_ClockOffset ob)) \<and>
     (\<forall>m \<in> set (tl_Samples t). in_int64 (ms_ClockOffset m)) \<and>
     (\<forall>n. tl_Network t = Some n \<longrightarrow> in_int64 (nb_BlockArrivalP50 n) \<and> in_int64 (nb_BlockArrivalP90 n))"

text \<open>
  A valid timeline whose slot starts after the zero instant of Go's \<open>time.Time\<close> (1 January of
  year 1), as every slot of a chain does.
\<close>

definition analysable :: "Timeline \<Rightarrow> bool" where
  "analysable t \<longleftrightarrow> Timeline_Validate t = None \<and> 0 < t_ns (tl_SlotStart t) \<and> durations_typed t"

lemma analysableD:
  assumes "analysable t"
  shows "Timeline_Validate t = None" "0 < t_ns (tl_SlotStart t)" "durations_typed t"
    "\<not> IsZero (tl_SlotStart t)" "t_loc (tl_SlotStart t) = UTC"
  using assms Timeline_ValidateD by (auto simp: analysable_def)

lemma Config_ValidateD:
  assumes "Config_Validate c = None"
  shows "f_finite (cfg_Dominance c)" "f_finite (cfg_EngineSpikeMultiplier c)" "f_finite (cfg_PeerCountMin c)"
    "f_finite (cfg_IOWaitPct c)" "f_finite (cfg_CPUStealPct c)" "f_finite (cfg_PSIMemAvg10 c)"
    "0 < cfg_ClockOffsetMax c" "in_int64 (cfg_ClockOffsetMax c)"
    "0 < cfg_ClockSampleMaxAge c" "in_int64 (cfg_ClockSampleMaxAge c)"
    "\<exists>d. cfg_Dominance c = FFin d \<and> 1 / 2 \<le> d" "\<exists>d. cfg_EngineSpikeMultiplier c = FFin d \<and> 1 \<le> d"
proof -
  show "f_finite (cfg_Dominance c)" "f_finite (cfg_EngineSpikeMultiplier c)" "f_finite (cfg_PeerCountMin c)"
    "f_finite (cfg_IOWaitPct c)" "f_finite (cfg_CPUStealPct c)" "f_finite (cfg_PSIMemAvg10 c)"
    using assms by (simp_all add: Config_Validate_def)
  show "0 < cfg_ClockOffsetMax c" "in_int64 (cfg_ClockOffsetMax c)"
    "0 < cfg_ClockSampleMaxAge c" "in_int64 (cfg_ClockSampleMaxAge c)"
    using assms by (simp_all add: Config_Validate_def int64_defs)
  have "fround (1 / 2) = FFin (1 / 2)" using fround_dyadic [of 1 1] by simp
  then show "\<exists>d. cfg_Dominance c = FFin d \<and> 1 / 2 \<le> d"
    using assms by (cases "cfg_Dominance c") (auto simp: Config_Validate_def outside_def)
  have "f_le (fround 1) (fround (11 / 10))" by (rule fround_mono) simp
  moreover have "fround 1 = FFin 1" by (rule fround_numeral)
  moreover have "\<not> f_lt (cfg_EngineSpikeMultiplier c) (fround (11 / 10))" "f_finite (cfg_EngineSpikeMultiplier c)"
    using assms by (simp_all add: Config_Validate_def outside_def)
  ultimately show "\<exists>d. cfg_EngineSpikeMultiplier c = FFin d \<and> 1 \<le> d"
    by (cases "cfg_EngineSpikeMultiplier c"; cases "fround (11 / 10)") auto
qed

section \<open>Drafts\<close>

definition visible :: "string \<Rightarrow> bool" where
  "visible s \<longleftrightarrow> s \<noteq> [] \<and> 33 \<le> (of_char (hd s) :: nat) \<and> (of_char (hd s) :: nat) \<le> 127"

lemma visible_append [simp]: "visible s \<Longrightarrow> visible (s @ u)"
  by (cases s) (auto simp: visible_def)

lemma visible_not_blank: "visible s \<Longrightarrow> \<not> blank s"
  by (cases s) (auto simp: visible_def not_blank_Cons)

definition mk_cmp :: "string \<Rightarrow> f64 \<Rightarrow> f64 \<Rightarrow> Unit \<Rightarrow> Comparison option" where
  "mk_cmp label observed expected u =
     Some \<lparr>cmp_Label = label, cmp_Observed = observed, cmp_Expected = expected, cmp_Unit = u\<rparr>"

definition cmp_ok :: "Comparison option \<Rightarrow> bool" where
  "cmp_ok c = (case c of None \<Rightarrow> True | Some c \<Rightarrow> Comparison_Validate c = None)"

lemma cmp_ok_simps [simp]:
  "cmp_ok None"
  "visible l \<Longrightarrow> Unit_Valid u \<Longrightarrow> f_finite ob \<Longrightarrow> f_finite ex \<Longrightarrow> cmp_ok (mk_cmp l ob ex u)"
  by (simp_all add: cmp_ok_def mk_cmp_def Comparison_Validate_def visible_not_blank)

definition instant_ok :: "gotime \<Rightarrow> bool" where
  "instant_ok t \<longleftrightarrow> \<not> IsZero t \<and> t_loc t = UTC"

definition evidence_ok :: "Evidence \<Rightarrow> bool" where
  "evidence_ok e \<longleftrightarrow> Evidence_Validate e = None"

lemma evidence_okI [simp]:
  assumes "instant_ok t" "visible s" "SourceID_Valid src" "cmp_ok c"
  shows "evidence_ok (mk_evidence t s src c)"
  using assms
  by (auto simp: evidence_ok_def Evidence_Validate_def instant_ok_def cmp_ok_def visible_not_blank
      split: option.splits)

definition draft_ok :: "Verdict \<Rightarrow> bool" where
  "draft_ok v \<longleftrightarrow> CauseID_Valid (v_Cause v) \<and> v_SubCause v = CauseNone \<and> Confidence_Valid (v_Confidence v) \<and>
     v_Evidence v \<noteq> [] \<and> list_all evidence_ok (v_Evidence v) \<and> v_TaxonomyVersion v = []"

lemma draft_ok_mk [simp]:
  "draft_ok (mk_draft c conf ev rm) \<longleftrightarrow>
     CauseID_Valid c \<and> Confidence_Valid conf \<and> ev \<noteq> [] \<and> list_all evidence_ok ev"
  by (simp add: draft_ok_def)

section \<open>The contract\<close>

locale rule_contract =
  fixes evaluate :: "Timeline \<Rightarrow> Config \<Rightarrow> Verdict option" and causes :: "CauseID set"
  assumes draft: "analysable t \<Longrightarrow> Config_Validate cfg = None \<Longrightarrow> evaluate t cfg = Some v \<Longrightarrow> draft_ok v"
    and cause: "evaluate t cfg = Some v \<Longrightarrow> v_Cause v \<in> causes"
    and named: "causes \<subseteq> {c. CauseID_Valid c}"
begin

lemma cause_valid: "evaluate t cfg = Some v \<Longrightarrow> CauseID_Valid (v_Cause v)"
  using cause named by blast

lemma evidence_valid:
  assumes "analysable t" "Config_Validate cfg = None" "evaluate t cfg = Some v" "e \<in> set (v_Evidence v)"
  shows "Evidence_Validate e = None"
  using draft [OF assms(1-3)] assms(4) by (auto simp: draft_ok_def list_all_iff evidence_ok_def)

lemma never_other_cause: "c \<notin> causes \<Longrightarrow> evaluate t cfg = Some v \<Longrightarrow> v_Cause v \<noteq> c"
  using cause by blast

end

section \<open>Instants a rule may cite\<close>

lemma slot_start_ok [simp]: "analysable t \<Longrightarrow> instant_ok (tl_SlotStart t)"
  using analysableD by (simp add: instant_ok_def)

lemma first_ok [simp]: "analysable t \<Longrightarrow> Timeline_First t k = Some ob \<Longrightarrow> instant_ok (obs_At ob)"
  using tl_first.look_At [OF analysableD(1)] by (simp add: instant_ok_def)

lemma last_ok [simp]: "analysable t \<Longrightarrow> Timeline_Last t k = Some ob \<Longrightarrow> instant_ok (obs_At ob)"
  using tl_last.look_At [OF analysableD(1)] by (simp add: instant_ok_def)

lemma observation_ok: "analysable t \<Longrightarrow> ob \<in> set (tl_Observations t) \<Longrightarrow> instant_ok (obs_At ob)"
  using Observation_ValidateD [OF Timeline_ValidateD(4) [OF analysableD(1)]] by (simp add: instant_ok_def)

lemma engine_call_ok [simp]: "analysable t \<Longrightarrow> c \<in> set (engineCalls t) \<Longrightarrow> instant_ok (ec_at c)"
  using engineCalls_facts(2) [of c t] observation_ok by auto

lemma arrival_ok [simp]:
  assumes "analysable t" "st_HasPropagation (ComputeStages t)"
  shows "instant_ok (Add (tl_SlotStart t) (st_Propagation (ComputeStages t)))"
proof -
  have "0 \<le> st_Propagation (ComputeStages t)"
    using stages_okD(1) [OF ComputeStages_ok assms(2)] by simp
  then show ?thesis using analysableD [OF assms(1)] by (simp add: instant_ok_def IsZero_def)
qed

lemma propagation_int64 [simp]:
  "st_HasPropagation (ComputeStages t) \<Longrightarrow> in_int64 (st_Propagation (ComputeStages t))"
  using stages_okD(1) [OF ComputeStages_ok] by blast

lemma validation_int64 [simp]:
  "st_HasValidation (ComputeStages t) \<Longrightarrow> in_int64 (st_Validation (ComputeStages t))"
  using stages_okD(2) [OF ComputeStages_ok] by blast

lemma budget_int64 [simp]: "in_int64 (attestation_budget t)"
  by (simp add: attestation_budget_def)

lemma good_fact_iff [simp]: "good_fact (v, t, src) \<longleftrightarrow> f_finite v \<and> instant_ok t \<and> SourceID_Valid src"
  by (auto simp: good_fact_def instant_ok_def)

end
