(* ===== verification/RulesData.thy ===== *)
theory RulesData
  imports RuleContract "HOL-Library.AList" "HOL-Library.List_Lexorder" "HOL-Library.Char_ord"
begin

text \<open>
  The rules that decide whether a timeline can be read at all, and the two network causes that do
  not need local timing: R-010 (\<open>r010_data_completeness.go\<close>), R-011 (\<open>r011_clock_trust.go\<close>),
  R-100 (\<open>r100_proposer_missed.go\<close>) and R-120 (\<open>r120_payload_late.go\<close>).
\<close>

section \<open>R-010: data completeness\<close>

definition text_window_open :: string where
  "text_window_open = ''the collector did not record successful completion of the full observation and inclusion window, so missing evidence cannot be interpreted''"

definition text_no_reward_flags :: string where
  "text_no_reward_flags = ''the included attestation lacks canonical head/target verification, so its reward flags cannot be determined''"

definition DataCompleteness_Evaluate :: "Timeline \<Rightarrow> Config \<Rightarrow> Verdict option" where
  "DataCompleteness_Evaluate t cfg =
     (if tl_Duty t \<noteq> None \<and> (\<not> tl_CollectionComplete t \<or> \<not> Timeline_Has t ObsCollectionCompleted)
      then Some (mk_draft CauseInsufficientData ConfidenceLow
        [mk_evidence (tl_SlotStart t) text_window_open SourceDerived None]
        [''wait for collection to finish; if the window already elapsed, inspect collector errors and recollect rather than interpreting missing observations''])
      else case Timeline_Last t ObsAttestationIncluded of
        None \<Rightarrow> None
      | Some included \<Rightarrow>
          if Observation_Attr included AttrHeadCorrect = None \<or> Observation_Attr included AttrTargetCorrect = None
          then Some (mk_draft CauseInsufficientData ConfidenceLow
            [mk_evidence (obs_At included) text_no_reward_flags SourceDerived None]
            [''regenerate or recollect the slot with a collector that records head_correct and target_correct''])
          else None)"

section \<open>R-011: clock trust\<close>

definition requiresClockTrust :: "ObservationKind \<Rightarrow> bool" where
  "requiresClockTrust kind \<longleftrightarrow>
     kind \<noteq> ObsSlotStart \<and> kind \<noteq> ObsDutyAssigned \<and> kind \<noteq> ObsBlockSkipped \<and> kind \<noteq> ObsClockSampled \<and>
     kind \<noteq> ObsCollectionCompleted \<and> kind \<noteq> ObsNetworkBaselineSampled"

definition absDuration :: "duration \<Rightarrow> duration" where
  "absDuration v = (if v = int64_min then int64_max else if v < 0 then - v else v)"

definition insufficientClock :: "Timeline \<Rightarrow> gotime \<Rightarrow> string \<Rightarrow> Verdict" where
  "insufficientClock t instant statement =
     mk_draft CauseInsufficientData ConfidenceLow
       [mk_evidence (if IsZero instant then tl_SlotStart t else instant) statement SourceDerived None]
       [''configure whymiss watch with an NTP server and verify that clock samples remain fresh'']"

text \<open>
  The clock provenance that both loops of the rule inspect. A loop either returns a verdict early
  (\<open>Inl\<close>) or goes on with the worst offset seen so far (\<open>Inr\<close>).
\<close>

definition stale :: "Config \<Rightarrow> duration \<Rightarrow> bool" where
  "stale cfg age \<longleftrightarrow> cfg_ClockSampleMaxAge cfg \<le> 0 \<or> age > cfg_ClockSampleMaxAge cfg"

definition worse :: "gotime \<times> duration \<Rightarrow> gotime \<Rightarrow> duration \<Rightarrow> gotime \<times> duration" where
  "worse acc sampleAt offset =
     (case acc of (worstAt, worstOffset) \<Rightarrow>
        if IsZero worstAt \<or> offset > worstOffset then (sampleAt, offset) else (worstAt, worstOffset))"

definition text_obs_unmeasured :: "Observation \<Rightarrow> string" where
  "text_obs_unmeasured ob = ''no clock offset was measured for '' @ ObservationKind_str (obs_Kind ob) @
     '', so timing-based attribution is unavailable''"

definition text_obs_stale :: "Observation \<Rightarrow> duration \<Rightarrow> Config \<Rightarrow> string" where
  "text_obs_stale ob age cfg = ''the clock sample attached to '' @ ObservationKind_str (obs_Kind ob) @ '' is '' @
     Duration_String age @ '' old, exceeding the '' @ Duration_String (cfg_ClockSampleMaxAge cfg) @
     '' freshness limit''"

fun observation_clock_loop ::
  "Timeline \<Rightarrow> Config \<Rightarrow> gotime \<times> duration \<Rightarrow> Observation list \<Rightarrow> Verdict + gotime \<times> duration" where
  "observation_clock_loop t cfg acc [] = Inr acc"
| "observation_clock_loop t cfg acc (ob # rest) =
     (if \<not> requiresClockTrust (obs_Kind ob) then observation_clock_loop t cfg acc rest
      else if \<not> obs_ClockMeasured ob then Inl (insufficientClock t (obs_At ob) (text_obs_unmeasured ob))
      else let age = absDuration (Sub (obs_At ob) (obs_ClockSampleAt ob))
           in if stale cfg age then Inl (insufficientClock t (obs_At ob) (text_obs_stale ob age cfg))
              else observation_clock_loop t cfg
                     (worse acc (obs_ClockSampleAt ob) (absDuration (obs_ClockOffset ob))) rest)"

definition sample_key :: "MetricSample \<Rightarrow> string" where
  "sample_key m = Component_str (ms_Component m) @ [CHR 0x00] @ ms_Name m"

text \<open>The map of the latest sample per component and name, and the order its keys are visited in.\<close>

definition latest_step :: "MetricSample \<Rightarrow> (string \<times> MetricSample) list \<Rightarrow> (string \<times> MetricSample) list" where
  "latest_step m latest =
     (if ms_Source m = SourceDerived then latest
      else case map_of latest (sample_key m) of
        Some current \<Rightarrow>
          if After (ms_At m) (ms_At current) then AList.update (sample_key m) m latest else latest
      | None \<Rightarrow> AList.update (sample_key m) m latest)"

definition latest_samples :: "MetricSample list \<Rightarrow> (string \<times> MetricSample) list" where
  "latest_samples samples = fold latest_step samples []"

definition text_sample_unmeasured :: "MetricSample \<Rightarrow> string" where
  "text_sample_unmeasured m = ''no clock offset was measured for sample '' @ ms_Name m @
     '', so timing-based attribution is unavailable''"

definition text_sample_stale :: "MetricSample \<Rightarrow> duration \<Rightarrow> Config \<Rightarrow> string" where
  "text_sample_stale m age cfg = ''the clock sample attached to metric '' @ ms_Name m @ '' is '' @
     Duration_String age @ '' old, exceeding the '' @ Duration_String (cfg_ClockSampleMaxAge cfg) @
     '' freshness limit''"

fun sample_clock_loop ::
  "Timeline \<Rightarrow> Config \<Rightarrow> gotime \<times> duration \<Rightarrow> MetricSample list \<Rightarrow> Verdict + gotime \<times> duration" where
  "sample_clock_loop t cfg acc [] = Inr acc"
| "sample_clock_loop t cfg acc (m # rest) =
     (if \<not> ms_ClockMeasured m then Inl (insufficientClock t (ms_At m) (text_sample_unmeasured m))
      else let age = absDuration (Sub (ms_At m) (ms_ClockSampleAt m))
           in if stale cfg age then Inl (insufficientClock t (ms_At m) (text_sample_stale m age cfg))
              else sample_clock_loop t cfg
                     (worse acc (ms_ClockSampleAt m) (absDuration (ms_ClockOffset m))) rest)"

definition samples_in_key_order :: "MetricSample list \<Rightarrow> MetricSample list" where
  "samples_in_key_order samples =
     (let latest = latest_samples samples
      in map (\<lambda>key. the (map_of latest key)) (sort (map fst latest)))"

definition text_clock_drift :: "duration \<Rightarrow> Config \<Rightarrow> string" where
  "text_clock_drift worstOffset cfg = ''measured clock offset of '' @ Duration_String worstOffset @ '' exceeds the '' @
     Duration_String (cfg_ClockOffsetMax cfg) @
     '' trust threshold; all downstream timing-based reasoning is unavailable''"

definition ClockTrust_Evaluate :: "Timeline \<Rightarrow> Config \<Rightarrow> Verdict option" where
  "ClockTrust_Evaluate t cfg =
     (case observation_clock_loop t cfg (time_zero, 0) (tl_Observations t) of
        Inl v \<Rightarrow> Some v
      | Inr acc \<Rightarrow>
          (case sample_clock_loop t cfg acc (samples_in_key_order (tl_Samples t)) of
             Inl v \<Rightarrow> Some v
           | Inr (worstAt, worstOffset) \<Rightarrow>
               if IsZero worstAt \<or> worstOffset \<le> cfg_ClockOffsetMax cfg then None
               else Some (mk_draft CauseHostClockDrift ConfidenceHigh
                 [mk_evidence worstAt (text_clock_drift worstOffset cfg) SourceClock
                    (mk_cmp ''clock offset'' (to_ms worstOffset) (to_ms (cfg_ClockOffsetMax cfg)) UnitMilliseconds)]
                 [''install and enable chrony or systemd-timesyncd'',
                  ''verify with `chronyc tracking`''])))"

section \<open>R-100: the proposer missed its slot\<close>

definition text_skipped :: string where
  "text_skipped = ''a fully synced beacon node confirmed that the canonical chain skipped this slot''"

definition text_included_on_skip :: string where
  "text_included_on_skip = ''the attester's own attestation for this duty was included on chain, so the local attestation path was working while the slot was skipped''"

definition text_skip_ambiguous :: string where
  "text_skip_ambiguous = ''no attestation_published and no attestation_included observation exists for this duty, so the skip cannot be shown to be the whole reason the duty was lost '' @ em_dash @
     '' an attester publishes and is included normally on a skipped slot''"

definition text_skip_needs :: "Timeline \<Rightarrow> string" where
  "text_skip_needs t = ''attributing this slot needs evidence the local path was alive at the '' @
     Duration_String (attestation_budget t) @
     '' deadline, which a skipped slot cannot supply: with no block there is no block_seen or head_updated to measure the beacon node against''"

definition ProposerMissed_Evaluate :: "Timeline \<Rightarrow> Config \<Rightarrow> Verdict option" where
  "ProposerMissed_Evaluate t cfg =
     (if (case tl_Duty t of None \<Rightarrow> True | Some d \<Rightarrow> duty_Kind d \<noteq> DutyAttester) then None
      else case Timeline_First t ObsBlockSkipped of
        None \<Rightarrow> None
      | Some skipped \<Rightarrow>
          if Timeline_Has t ObsBlockSeen \<or> Timeline_Has t ObsHeadUpdated \<or> Timeline_Has t ObsBlockProposed then None
          else
            (let skipEvidence = mk_evidence (obs_At skipped) text_skipped SourceBeaconAPI None
             in case Timeline_Last t ObsAttestationIncluded of
                  Some included \<Rightarrow>
                    Some (mk_draft CauseProposerMissed ConfidenceHigh
                      [skipEvidence, mk_evidence (obs_At included) text_included_on_skip SourceBeaconAPI None] [])
                | None \<Rightarrow>
                    if Timeline_Has t ObsAttestationPublished then None
                    else Some (mk_draft CauseInsufficientData ConfidenceLow
                      [skipEvidence,
                       mk_evidence (tl_SlotStart t) text_skip_ambiguous SourceDerived None,
                       mk_evidence (tl_SlotStart t) (text_skip_needs t) SourceDerived None]
                      [''check whether the validator client was running and connected at this slot; a canonical skip does not explain a missing attestation'',
                       ''confirm the validator client logs show an attestation attempt for this slot, which is the one fact this timeline cannot supply''])))"

section \<open>R-120: the payload was late\<close>

definition ptcMajorityVotes :: int where
  "ptcMajorityVotes = 2"

definition text_ptc :: "int \<Rightarrow> string" where
  "text_ptc votes = ''the payload-timeliness committee reported the execution payload was not present in time for this slot, across '' @
     FormatInt votes @ '' vote(s)''"

definition text_payload_due :: "Timeline \<Rightarrow> gotime \<Rightarrow> string" where
  "text_payload_due t deadline = ''the payload was due '' @ Duration_String (Sub deadline (tl_SlotStart t)) @
     '' into the slot, at '' @ format_clock (in_UTC deadline) @ '', under the timing model this node reported''"

text \<open>Indexing a Go map with an absent key gives the empty string.\<close>

definition attr_or_empty :: "Observation \<Rightarrow> AttrKey \<Rightarrow> string" where
  "attr_or_empty ob key = (case map_of (obs_Attrs ob) key of None \<Rightarrow> [] | Some s \<Rightarrow> s)"

definition PayloadLate_Evaluate :: "Timeline \<Rightarrow> Config \<Rightarrow> Verdict option" where
  "PayloadLate_Evaluate t cfg =
     (case SlotSchedule_PayloadRevealDeadlineAt (tl_Schedule t) (tl_SlotStart t) of
        None \<Rightarrow> None
      | Some deadline \<Rightarrow>
          if Timeline_Has t ObsBlockSkipped then None
          else if \<not> dutyHasObservableLoss t then None
          else case Timeline_Last t ObsPayloadAttested of
            None \<Rightarrow> None
          | Some attested \<Rightarrow>
              if attr_or_empty attested AttrPayloadPresent \<noteq> ''false'' then None
              else case Atoi (attr_or_empty attested AttrPTCVotes) of
                None \<Rightarrow> None
              | Some votes \<Rightarrow>
                  if votes < 1 then None
                  else Some (mk_draft CausePayloadLate
                    (if votes \<ge> ptcMajorityVotes then ConfidenceHigh else ConfidenceMedium)
                    [mk_evidence (obs_At attested) (text_ptc votes) SourceBeaconAPI None,
                     mk_evidence (tl_SlotStart t) (text_payload_due t deadline) SourceDerived
                       (mk_cmp ''payload reveal deadline'' (FFin 0) (to_ms (Sub deadline (tl_SlotStart t)))
                          UnitMilliseconds)]
                    [''nothing to change locally: the execution payload for this slot is the builder's to reveal, and the committee found it was not there in time'',
                     ''if this repeats across many slots, the network's builders are struggling rather than your node '' @ em_dash @
                       '' compare against a second beacon node before changing anything'']))"

section \<open>The texts are evidence\<close>

lemma texts_visible [simp]:
  "visible text_window_open" "visible text_no_reward_flags" "visible (text_obs_unmeasured ob)"
  "visible (text_obs_stale ob age cfg)" "visible (text_sample_unmeasured m)"
  "visible (text_sample_stale m age cfg)" "visible (text_clock_drift d cfg)" "visible text_skipped"
  "visible text_included_on_skip" "visible text_skip_ambiguous" "visible (text_skip_needs t)"
  "visible (text_ptc votes)" "visible (text_payload_due t deadline)"
  by (simp_all add: visible_def text_window_open_def text_no_reward_flags_def text_obs_unmeasured_def
      text_obs_stale_def text_sample_unmeasured_def text_sample_stale_def text_clock_drift_def
      text_skipped_def text_included_on_skip_def text_skip_ambiguous_def text_skip_needs_def
      text_ptc_def text_payload_due_def)

section \<open>Every draft of these rules is well formed\<close>

interpretation r010: rule_contract DataCompleteness_Evaluate "{CauseInsufficientData}"
  by unfold_locales
    (auto simp: DataCompleteness_Evaluate_def split: if_splits option.splits)

interpretation r100: rule_contract ProposerMissed_Evaluate "{CauseProposerMissed, CauseInsufficientData}"
  by unfold_locales
    (auto simp: ProposerMissed_Evaluate_def Let_def split: if_splits option.splits)

interpretation r120: rule_contract PayloadLate_Evaluate "{CausePayloadLate}"
proof unfold_locales
  fix t cfg v
  assume "analysable t" "PayloadLate_Evaluate t cfg = Some v"
  then show "draft_ok v"
    by (auto simp: PayloadLate_Evaluate_def visible_def [of "''payload reveal deadline''"]
        split: if_splits option.splits)
qed (auto simp: PayloadLate_Evaluate_def split: if_splits option.splits)

text \<open>R-011: both loops keep the worst offset a proper instant with a 64-bit magnitude.\<close>

definition worst_ok :: "gotime \<times> duration \<Rightarrow> bool" where
  "worst_ok acc \<longleftrightarrow> (case acc of (worstAt, worstOffset) \<Rightarrow>
     IsZero worstAt \<or> t_loc worstAt = UTC \<and> in_int64 worstOffset)"

lemma worst_ok_worse:
  assumes "worst_ok acc" "instant_ok sampleAt" "in_int64 offset"
  shows "worst_ok (worse acc sampleAt offset)"
  using assms by (auto simp: worst_ok_def worse_def instant_ok_def split: prod.splits)

lemma absDuration_int64 [simp]: "in_int64 v \<Longrightarrow> in_int64 (absDuration v)"
  by (auto simp: absDuration_def int64_defs)

lemma absDuration_abs: "in_int64 v \<Longrightarrow> absDuration v = min int64_max \<bar>v\<bar>"
  by (auto simp: absDuration_def int64_defs)

lemma insufficientClock_ok [simp]:
  "analysable t \<Longrightarrow> instant_ok instant \<Longrightarrow> visible s \<Longrightarrow> draft_ok (insufficientClock t instant s)"
  by (simp add: insufficientClock_def)

lemma observation_clock_loop_ok:
  assumes "analysable t" "set obs \<subseteq> set (tl_Observations t)" "worst_ok acc"
  shows "case observation_clock_loop t cfg acc obs of Inl v \<Rightarrow> draft_ok v | Inr acc' \<Rightarrow> worst_ok acc'"
  using assms(2,3)
proof (induction obs arbitrary: acc)
  case (Cons ob rest)
  have v: "Observation_Validate ob = None" and o: "in_int64 (obs_ClockOffset ob)"
    using Cons.prems(1) analysableD(3) [OF assms(1)] Timeline_ValidateD(4) [OF analysableD(1) [OF assms(1)]]
    by (auto simp: durations_typed_def)
  have "worst_ok (worse acc (obs_ClockSampleAt ob) (absDuration (obs_ClockOffset ob)))" if "obs_ClockMeasured ob"
    using Observation_ValidateD(6) [OF v that] o Cons.prems(2) by (intro worst_ok_worse) (auto simp: instant_ok_def)
  with Cons show ?case
    using observation_ok [OF assms(1), of ob] assms(1) by (auto simp: Let_def)
qed simp

lemma set_update_subset: "set (AList.update k v al) \<subseteq> insert (k, v) (set al)"
  by (induction al) auto

lemma latest_step_inv:
  assumes "snd ` set latest \<subseteq> S" "m \<in> S" "distinct (map fst latest)"
  shows "snd ` set (latest_step m latest) \<subseteq> S" "distinct (map fst (latest_step m latest))"
proof -
  have "snd ` set (AList.update (sample_key m) m latest) \<subseteq> S"
    using image_mono [OF set_update_subset [of "sample_key m" m latest], of snd] assms(1,2) by auto
  then show "snd ` set (latest_step m latest) \<subseteq> S" "distinct (map fst (latest_step m latest))"
    using assms distinct_update [OF assms(3)] by (simp_all add: latest_step_def split: option.splits)
qed

lemma latest_fold_inv:
  assumes "snd ` set latest \<subseteq> S" "set xs \<subseteq> S" "distinct (map fst latest)"
  shows "snd ` set (fold latest_step xs latest) \<subseteq> S \<and> distinct (map fst (fold latest_step xs latest))"
  using assms
proof (induction xs arbitrary: latest)
  case (Cons x xs)
  then show ?case using latest_step_inv [of latest S x] by (metis fold_simps(2) insert_subset list.simps(15))
qed simp

lemma latest_samples_inv:
  "snd ` set (latest_samples samples) \<subseteq> set samples" "distinct (map fst (latest_samples samples))"
  using latest_fold_inv [of "[]" "set samples" samples] by (auto simp: latest_samples_def)

lemma samples_in_key_order_set: "set (samples_in_key_order samples) \<subseteq> set samples"
proof
  fix m assume "m \<in> set (samples_in_key_order samples)"
  then obtain k m' where "(k, m') \<in> set (latest_samples samples)" "m = the (map_of (latest_samples samples) k)"
    by (auto simp: samples_in_key_order_def Let_def)
  then show "m \<in> set samples" using latest_samples_inv [of samples] by force
qed

lemma sample_clock_loop_ok:
  assumes "analysable t" "set ms \<subseteq> set (tl_Samples t)" "worst_ok acc"
  shows "case sample_clock_loop t cfg acc ms of Inl v \<Rightarrow> draft_ok v | Inr acc' \<Rightarrow> worst_ok acc'"
  using assms(2,3)
proof (induction ms arbitrary: acc)
  case (Cons m rest)
  have v: "MetricSample_Validate m = None" and o: "in_int64 (ms_ClockOffset m)"
    using Cons.prems(1) analysableD(3) [OF assms(1)] Timeline_ValidateD(6) [OF analysableD(1) [OF assms(1)]]
    by (auto simp: durations_typed_def)
  have "worst_ok (worse acc (ms_ClockSampleAt m) (absDuration (ms_ClockOffset m)))" if "ms_ClockMeasured m"
    using MetricSample_ValidateD(8) [OF v that] o Cons.prems(2) by (intro worst_ok_worse) (auto simp: instant_ok_def)
  moreover have "instant_ok (ms_At m)" using MetricSample_ValidateD [OF v] by (simp add: instant_ok_def)
  ultimately show ?case using Cons assms(1) by (auto simp: Let_def)
qed simp

lemma clock_loop_causes:
  "observation_clock_loop t cfg acc obs = Inl v \<Longrightarrow> v_Cause v = CauseInsufficientData"
  "sample_clock_loop t cfg acc ms = Inl v \<Longrightarrow> v_Cause v = CauseInsufficientData"
proof -
  show "observation_clock_loop t cfg acc obs = Inl v \<Longrightarrow> v_Cause v = CauseInsufficientData"
    by (induction t cfg acc obs rule: observation_clock_loop.induct)
      (simp_all add: insufficientClock_def Let_def split: if_splits, auto)
  show "sample_clock_loop t cfg acc ms = Inl v \<Longrightarrow> v_Cause v = CauseInsufficientData"
    by (induction t cfg acc ms rule: sample_clock_loop.induct)
      (simp_all add: insufficientClock_def Let_def split: if_splits, auto)
qed

interpretation r011: rule_contract ClockTrust_Evaluate "{CauseInsufficientData, CauseHostClockDrift}"
proof unfold_locales
  fix t cfg v
  assume t: "analysable t" and cfg: "Config_Validate cfg = None" and v: "ClockTrust_Evaluate t cfg = Some v"
  have w0: "worst_ok (time_zero, 0)" by (simp add: worst_ok_def)
  show "draft_ok v"
  proof (cases "observation_clock_loop t cfg (time_zero, 0) (tl_Observations t)")
    case (Inl v')
    then show ?thesis using observation_clock_loop_ok [OF t subset_refl w0, of cfg] v
      by (simp add: ClockTrust_Evaluate_def)
  next
    case (Inr acc)
    then have "worst_ok acc" using observation_clock_loop_ok [OF t subset_refl w0, of cfg] by simp
    then have "case sample_clock_loop t cfg acc (samples_in_key_order (tl_Samples t)) of
        Inl v \<Rightarrow> draft_ok v | Inr acc' \<Rightarrow> worst_ok acc'"
      by (rule sample_clock_loop_ok [OF t samples_in_key_order_set])
    with Inr v Config_ValidateD(8) [OF cfg] show ?thesis
      by (auto simp: ClockTrust_Evaluate_def worst_ok_def instant_ok_def visible_def [of "''clock offset''"]
          split: sum.splits if_splits)
  qed
qed (auto simp: ClockTrust_Evaluate_def dest: clock_loop_causes split: sum.splits if_splits)

end
