(* ===== verification/RulesTiming.thy ===== *)
theory RulesTiming
  imports RuleContract
begin

text \<open>
  The rules that attribute a lost duty to a timed stage: R-110 (\<open>r110_network_late_block.go\<close>),
  R-200 (\<open>r200_p2p_degraded.go\<close>), R-300 (\<open>r300_el_slow.go\<close>), R-310 (\<open>r310_cl_slow.go\<close>), R-400
  (\<open>r400_vc_disconnected.go\<close>) and R-410 (\<open>r410_vc_slow.go\<close>).
\<close>

section \<open>R-110: the block was late everywhere\<close>

definition text_no_baseline :: "Stages \<Rightarrow> string" where
  "text_no_baseline stages = ''local block arrival at +'' @ Duration_String (st_Propagation stages) @
     '' exhausted the attestation budget, but no network baseline exists to distinguish network-wide lateness from local propagation''"

definition text_local_late :: "duration \<Rightarrow> duration \<Rightarrow> string" where
  "text_local_late arrival deadline = ''local block arrival at +'' @ Duration_String arrival @ '' exceeded the +'' @
     Duration_String deadline @ '' attestation deadline''"

definition text_network_p50 :: "NetworkBaseline \<Rightarrow> duration \<Rightarrow> string" where
  "text_network_p50 n deviation = ''network p50 was +'' @ Duration_String (nb_BlockArrivalP50 n) @ '' (p90 +'' @
     Duration_String (nb_BlockArrivalP90 n) @ ''), within '' @ Duration_String deviation @ '' of local arrival''"

definition baseline_confidence :: "NetworkBaseline \<Rightarrow> Confidence" where
  "baseline_confidence n = (if nb_SampleCount n < 10 then ConfidenceMedium else ConfidenceHigh)"

definition NetworkLateBlock_Evaluate :: "Timeline \<Rightarrow> Config \<Rightarrow> Verdict option" where
  "NetworkLateBlock_Evaluate t cfg =
     (case propagationOverspent t cfg of (stages, propagationLate) \<Rightarrow>
        if \<not> propagationLate then None
        else case tl_Network t of
          None \<Rightarrow>
            Some (mk_draft CauseInsufficientData ConfidenceLow
              [mk_evidence (tl_SlotStart t) (text_no_baseline stages) SourcePromScrape None]
              [''enable the opt-in network baseline to distinguish network-wide lateness from local propagation''])
        | Some n \<Rightarrow>
            (let arrival = st_Propagation stages;
                 networkP50 = nb_BlockArrivalP50 n;
                 deadline = attestation_budget t
             in if arrival \<le> deadline \<or> networkP50 \<le> deadline then None
                else
                  (let d = wrap64 (arrival - networkP50);
                       deviation = (if d < 0 then wrap64 (- d) else d)
                   in if deviation \<ge> cfg_NetworkDeviation cfg then None
                      else Some (mk_draft CauseLateBlock (baseline_confidence n)
                        [mk_evidence (Add (tl_SlotStart t) arrival) (text_local_late arrival deadline) SourceDerived
                           (mk_cmp ''local block arrival vs attestation deadline'' (to_ms arrival) (to_ms deadline)
                              UnitMilliseconds),
                         mk_evidence (tl_SlotStart t) (text_network_p50 n deviation) (nb_Source n)
                           (mk_cmp ''local block arrival vs network p50'' (to_ms arrival) (to_ms networkP50)
                              UnitMilliseconds)]
                        []))))"

section \<open>R-200: peering was degraded\<close>

definition text_overspent :: "duration \<Rightarrow> duration \<Rightarrow> string" where
  "text_overspent arrival deadline = ''local block propagation consumed '' @ Duration_String arrival @
     '', exceeding the '' @ Duration_String deadline @ '' attestation budget''"

definition text_network_timely :: "NetworkBaseline \<Rightarrow> string" where
  "text_network_timely n = ''the independent network p50 was timely at +'' @ Duration_String (nb_BlockArrivalP50 n) @
     '' (p90 +'' @ Duration_String (nb_BlockArrivalP90 n) @ '')''"

definition text_peers :: "f64 \<Rightarrow> Config \<Rightarrow> string" where
  "text_peers peerCount cfg = ''connected peer count '' @ format_fixed 0 peerCount @
     '' was below the configured minimum '' @ format_fixed 0 (cfg_PeerCountMin cfg)"

definition P2PDegraded_Evaluate :: "Timeline \<Rightarrow> Config \<Rightarrow> Verdict option" where
  "P2PDegraded_Evaluate t cfg =
     (case propagationOverspent t cfg of (stages, propagationSlow) \<Rightarrow>
        if \<not> propagationSlow then None
        else case tl_Network t of
          None \<Rightarrow> None
        | Some n \<Rightarrow>
            (let deadline = attestation_budget t
             in if nb_BlockArrivalP50 n > deadline then None
                else case peerCountFact t of
                  None \<Rightarrow> None
                | Some (peerCount, peerAt, peerSource) \<Rightarrow>
                    if f_le (cfg_PeerCountMin cfg) peerCount then None
                    else Some (mk_draft CauseP2PDegraded (baseline_confidence n)
                      [mk_evidence (Add (tl_SlotStart t) (st_Propagation stages))
                         (text_overspent (st_Propagation stages) deadline) SourcePromScrape
                         (mk_cmp ''local block arrival vs attestation deadline'' (to_ms (st_Propagation stages))
                            (to_ms deadline) UnitMilliseconds),
                       mk_evidence (tl_SlotStart t) (text_network_timely n) (nb_Source n)
                         (mk_cmp ''network p50 vs attestation deadline'' (to_ms (nb_BlockArrivalP50 n))
                            (to_ms deadline) UnitMilliseconds),
                       mk_evidence peerAt (text_peers peerCount cfg) peerSource
                         (mk_cmp ''connected peers'' peerCount (cfg_PeerCountMin cfg) UnitCount)]
                      [''confirm inbound TCP/UDP ports are open and forwarded (typically 30303 EL / 9000 CL '' @ em_dash @
                         '' verify against your own config)'',
                       ''raise the target peer count in your consensus client configuration''])))"

section \<open>R-300: the execution client was slow\<close>

definition metricELEngineCallsP99MS :: string where
  "metricELEngineCallsP99MS = ''el_engine_calls_p99_ms''"

definition head_after_deadline :: "Timeline \<Rightarrow> bool" where
  "head_after_deadline t =
     (case Timeline_First t ObsHeadUpdated of
        None \<Rightarrow> False
      | Some head \<Rightarrow> After (obs_At head) (Timeline_AttestationDeadline t))"

text \<open>R-300 and R-310 cite each Engine API method in the same words.\<close>

definition text_engine_call :: "engineCall \<Rightarrow> string" where
  "text_engine_call c = ''execution client's '' @ FormatUint (ec_count c) @ '' '' @ ec_method c @
     '' call(s) totaled '' @ format_fixed 2 (ec_durationMS c) @ ''ms in the canonical-head window''"

definition engine_call_evidence :: "engineCall \<Rightarrow> Evidence" where
  "engine_call_evidence c =
     mk_evidence (ec_at c) (text_engine_call c) SourcePromScrape
       (mk_cmp (ec_method c @ '' duration'') (ec_durationMS c) (FFin 0) UnitMilliseconds)"

definition text_engine_total :: "duration \<Rightarrow> f64 \<Rightarrow> string" where
  "text_engine_total tot baselineMS = ''Engine API calls totaled '' @ Duration_String tot @ '' against a '' @
     format_fixed 2 baselineMS @ ''ms rolling p99 and consumed at least half of validation''"

definition ELSlow_Evaluate :: "Timeline \<Rightarrow> Config \<Rightarrow> Verdict option" where
  "ELSlow_Evaluate t cfg =
     (if \<not> head_after_deadline t then None
      else
        (let stages = ComputeStages t
         in if Stages_Dominant stages cfg \<noteq> Some StageValidation \<or> \<not> st_HasValidation stages then None
            else
              (case completeEngineCalls t of (calls, isComplete) \<Rightarrow>
                 if \<not> isComplete then None
                 else
                   (let tot = engineCallTotal calls
                    in if tot < go_div (st_Validation stages) 2 then None
                       else case Timeline_SampleValue t ComponentEL metricELEngineCallsP99MS of
                         None \<Rightarrow> None
                       | Some baselineMS \<Rightarrow>
                           if f_le baselineMS (FFin 0) then None
                           else
                             (let thresholdMS = f_mul (cfg_EngineSpikeMultiplier cfg) baselineMS
                              in if f_le (to_ms tot) thresholdMS then None
                                 else Some (mk_draft CauseELSlow ConfidenceMedium
                                   (map engine_call_evidence calls @
                                    [mk_evidence (ec_at (last calls)) (text_engine_total tot baselineMS) SourceDerived
                                       (mk_cmp ''Engine API total vs spike threshold'' (to_ms tot) thresholdMS
                                          UnitMilliseconds)])
                                   [''check the execution client version against the latest release'',
                                    ''inspect execution-client logs and host I/O telemetry for the exact canonical-head window before assigning a sub-cause'']))))))"

section \<open>R-310: the consensus client was slow\<close>

definition text_validation_share :: "Stages \<Rightarrow> f64 \<Rightarrow> string" where
  "text_validation_share stages share = ''consensus validation consumed '' @ Duration_String (st_Validation stages) @
     '' and '' @ format_fixed 2 (f_mul share (FFin 100)) @ ''% of known stage time''"

definition text_engine_minor :: "duration \<Rightarrow> Stages \<Rightarrow> string" where
  "text_engine_minor engineTotal stages = ''sampled Engine API time ('' @ Duration_String engineTotal @
     '') accounted for less than half of the '' @ Duration_String (st_Validation stages) @ '' validation span''"

text \<open>\<open>share, _ := stages.Share(stage)\<close>: zero when the share is unknown.\<close>

definition share_or_zero :: "Stages \<Rightarrow> Stage \<Rightarrow> f64" where
  "share_or_zero s stage = (case Stages_Share s stage of None \<Rightarrow> FFin 0 | Some x \<Rightarrow> x)"

definition clSlowVerdict :: "Timeline \<Rightarrow> Config \<Rightarrow> Stages \<Rightarrow> engineCall list \<Rightarrow> duration \<Rightarrow> Verdict option" where
  "clSlowVerdict t cfg stages calls engineTotal =
     (let share = share_or_zero stages StageValidation
      in Some (mk_draft CauseCLSlow ConfidenceMedium
        ([mk_evidence (tl_SlotStart t) (text_validation_share stages share) SourceDerived
            (mk_cmp ''validation stage share'' share (cfg_Dominance cfg) UnitRatio)] @
         map engine_call_evidence calls @
         [mk_evidence (ec_at (last calls)) (text_engine_minor engineTotal stages) SourceDerived
            (mk_cmp ''Engine API total vs half of validation'' (to_ms engineTotal)
               (to_ms (go_div (st_Validation stages) 2)) UnitMilliseconds)])
        [''check the consensus client version against the latest release'',
         ''review consensus client logs for the slot window'']))"

definition CLSlow_Evaluate :: "Timeline \<Rightarrow> Config \<Rightarrow> Verdict option" where
  "CLSlow_Evaluate t cfg =
     (if \<not> head_after_deadline t then None
      else
        (case completeEngineCalls t of (calls, isComplete) \<Rightarrow>
           if \<not> isComplete then None
           else
             (let engineTotal = engineCallTotal calls;
                  stages = ComputeStages t
              in if st_HasValidation stages \<and> postPropagationDominant t cfg \<and>
                    engineTotal < go_div (st_Validation stages) 2
                 then clSlowVerdict t cfg stages calls engineTotal
                 else None)))"

section \<open>R-400 and R-410: the validator client\<close>

definition text_vc_silent :: string where
  "text_vc_silent = ''the beacon node updated head before the deadline, but no attestation_published or attestation_included observation exists '' @ em_dash @
     '' the validator client never produced an attestation''"

definition VCDisconnected_Evaluate :: "Timeline \<Rightarrow> Config \<Rightarrow> Verdict option" where
  "VCDisconnected_Evaluate t cfg =
     (if Timeline_Has t ObsAttestationPublished \<or> Timeline_Has t ObsAttestationIncluded then None
      else case timedBlockSeen t of
        None \<Rightarrow> None
      | Some blockSeen \<Rightarrow>
          if \<not> Before (obs_At blockSeen) (Timeline_AttestationDeadline t) then None
          else case Timeline_First t ObsHeadUpdated of
            None \<Rightarrow> None
          | Some head \<Rightarrow>
              if \<not> Before (obs_At head) (Timeline_AttestationDeadline t) then None
              else case Timeline_First t ObsCollectionCompleted of
                None \<Rightarrow> None
              | Some completed \<Rightarrow>
                  Some (mk_draft CauseVCDisconnected ConfidenceMedium
                    [mk_evidence (obs_At completed) text_vc_silent SourceDerived None]
                    [''check the validator client process is running and its beacon-node endpoint is correct'',
                     ''if using multiple beacon nodes, verify fallback ordering behaved as intended'']))"

definition text_vc_slow :: "Timeline \<Rightarrow> duration \<Rightarrow> duration \<Rightarrow> string" where
  "text_vc_slow t headOffset publishOffset = ''the canonical head updated at +'' @ Duration_String headOffset @
     '', before the attestation deadline (+'' @ Duration_String (sched_AttestationDeadline (tl_Schedule t)) @
     ''), but the attestation was not published until +'' @ Duration_String publishOffset @ '', after it''"

definition VCSlow_Evaluate :: "Timeline \<Rightarrow> Config \<Rightarrow> Verdict option" where
  "VCSlow_Evaluate t cfg =
     (case (timedBlockSeen t, Timeline_First t ObsHeadUpdated, Timeline_First t ObsAttestationPublished) of
        (Some blockSeen, Some head, Some published) \<Rightarrow>
          (let deadline = Timeline_AttestationDeadline t
           in if \<not> Before (obs_At blockSeen) deadline \<or> \<not> Before (obs_At head) deadline \<or>
                 \<not> After (obs_At published) deadline then None
              else if Stages_Dominant (ComputeStages t) cfg \<noteq> Some StageSigning then None
              else Some (mk_draft CauseVCSlow ConfidenceMedium
                [mk_evidence (obs_At published)
                   (text_vc_slow t (Sub (obs_At head) (tl_SlotStart t)) (Sub (obs_At published) (tl_SlotStart t)))
                   SourceBeaconAPI None]
                [''if using a remote signer (Web3Signer or similar), measure its latency '' @ em_dash @
                   '' it is frequently the culprit and rarely monitored'',
                 ''check for CPU contention on the validator client host'',
                 ''confirm validator client and beacon node clocks agree'']))
      | _ \<Rightarrow> None)"

section \<open>Every draft of these rules is well formed\<close>

lemma timing_texts_visible [simp]:
  "visible (text_no_baseline s)" "visible (text_local_late a d)" "visible (text_network_p50 n d)"
  "visible (text_overspent a d)" "visible (text_network_timely n)" "visible (text_peers peers cfg)"
  "visible (text_engine_call c)" "visible (text_engine_total d b)" "visible (text_validation_share s x)"
  "visible (text_engine_minor d s)" "visible text_vc_silent" "visible (text_vc_slow t h p)"
  by (simp_all add: visible_def text_no_baseline_def text_local_late_def text_network_p50_def
      text_overspent_def text_network_timely_def text_peers_def text_engine_call_def text_engine_total_def
      text_validation_share_def text_engine_minor_def text_vc_silent_def text_vc_slow_def)

lemma labels_visible [simp]:
  "visible ''local block arrival vs attestation deadline''" "visible ''local block arrival vs network p50''"
  "visible ''network p50 vs attestation deadline''" "visible ''connected peers''"
  "visible ''Engine API total vs spike threshold''" "visible ''validation stage share''"
  "visible ''Engine API total vs half of validation''"
  "visible EngineMethodNewPayload" "visible EngineMethodForkchoiceUpdated"
  by (simp_all add: visible_def EngineMethodNewPayload_def EngineMethodForkchoiceUpdated_def)

lemma baseline_confidence_valid [simp]: "Confidence_Valid (baseline_confidence n)"
  by (simp add: baseline_confidence_def)

lemma baseline_ok:
  assumes "analysable t" "tl_Network t = Some n"
  shows "SourceID_Valid (nb_Source n)" "in_int64 (nb_BlockArrivalP50 n)"
  using NetworkBaseline_ValidateD(4) [OF Timeline_ValidateD(8) [OF analysableD(1) [OF assms(1)] assms(2)]]
    analysableD(3) [OF assms(1)] assms(2) by (auto simp: durations_typed_def)

interpretation r110: rule_contract NetworkLateBlock_Evaluate "{CauseInsufficientData, CauseLateBlock}"
proof unfold_locales
  fix t cfg v
  assume "analysable t" "NetworkLateBlock_Evaluate t cfg = Some v"
  then show "draft_ok v"
    by (auto simp: NetworkLateBlock_Evaluate_def case_prod_beta Let_def baseline_ok propagationOverspent_snd
        split: if_splits option.splits)
qed (auto simp: NetworkLateBlock_Evaluate_def Let_def split: prod.splits if_splits option.splits)

interpretation r200: rule_contract P2PDegraded_Evaluate "{CauseP2PDegraded}"
proof unfold_locales
  fix t cfg v
  assume t: "analysable t" and cfg: "Config_Validate cfg = None" and v: "P2PDegraded_Evaluate t cfg = Some v"
  have "good_fact f" if "peerCountFact t = Some f" for f
    using analysableD(1) [OF t] that by (rule peerCountFact_good)
  with t v Config_ValidateD(3) [OF cfg] show "draft_ok v"
    by (auto simp: P2PDegraded_Evaluate_def case_prod_beta Let_def baseline_ok propagationOverspent_snd
        split: if_splits option.splits)
qed (auto simp: P2PDegraded_Evaluate_def Let_def split: prod.splits if_splits option.splits)

text \<open>The two Engine calls a slot must have, and the totals a draft cites.\<close>

lemma completeEngineCallsD:
  assumes "completeEngineCalls t = (calls, True)"
  shows "calls = engineCalls t" "calls \<noteq> []" "length calls = 2"
  using assms by (auto simp: completeEngineCalls_def Let_def split: if_splits)

lemma engine_evidence_ok:
  assumes "analysable t" "completeEngineCalls t = (calls, True)"
  shows "list_all evidence_ok (map engine_call_evidence calls)" "instant_ok (ec_at (last calls))"
    "in_int64 (engineCallTotal calls)"
proof -
  note c = completeEngineCallsD [OF assms(2)]
  have "evidence_ok (engine_call_evidence e)" if "e \<in> set (engineCalls t)" for e
    using engineCalls_facts [OF that] assms(1) that
    by (auto simp: engine_call_evidence_def nonneg_call_def observation_ok)
  with c(1) show "list_all evidence_ok (map engine_call_evidence calls)" by (auto simp: list_all_iff)
  show "instant_ok (ec_at (last calls))" using assms(1) c by (simp add: last_in_set)
  show "in_int64 (engineCallTotal calls)"
    using engineCallTotal_range(2) [of calls] engineCalls_facts(1) c(1) by blast
qed

lemma go_div_half_int64 [simp]: "in_int64 v \<Longrightarrow> in_int64 (go_div v 2)"
  using go_div_abs [of 2 v] by (auto simp: int64_defs go_div_def sgn_if)

lemma threshold_finite:
  assumes "f_finite b" "\<not> f_le b (FFin 0)" "cfg_EngineSpikeMultiplier cfg = FFin m" "1 \<le> m"
    and "f_finite x" "\<not> f_le x (f_mul (cfg_EngineSpikeMultiplier cfg) b)"
  shows "f_finite (f_mul (cfg_EngineSpikeMultiplier cfg) b)"
proof -
  obtain q p where "b = FFin q" "x = FFin p" "0 < q" using assms by (auto simp: f_finite_iff)
  then show ?thesis using assms fround_pos_cases [of "m * q"] by (auto split: if_splits)
qed

interpretation r300: rule_contract ELSlow_Evaluate "{CauseELSlow}"
proof unfold_locales
  fix t cfg v
  assume t: "analysable t" and cfg: "Config_Validate cfg = None" and v: "ELSlow_Evaluate t cfg = Some v"
  obtain m where m: "cfg_EngineSpikeMultiplier cfg = FFin m" "1 \<le> m" using Config_ValidateD(12) [OF cfg] by blast
  from v obtain calls b where c: "completeEngineCalls t = (calls, True)"
    and b: "Timeline_SampleValue t ComponentEL metricELEngineCallsP99MS = Some b" "\<not> f_le b (FFin 0)"
      "\<not> f_le (to_ms (engineCallTotal calls)) (f_mul (cfg_EngineSpikeMultiplier cfg) b)"
    and v': "v_Cause v = CauseELSlow" "v_SubCause v = CauseNone" "v_Confidence v = ConfidenceMedium"
      "v_TaxonomyVersion v = []"
      "v_Evidence v = map engine_call_evidence calls @
        [mk_evidence (ec_at (last calls)) (text_engine_total (engineCallTotal calls) b) SourceDerived
          (mk_cmp ''Engine API total vs spike threshold'' (to_ms (engineCallTotal calls))
            (f_mul (cfg_EngineSpikeMultiplier cfg) b) UnitMilliseconds)]"
    by (auto simp: ELSlow_Evaluate_def Let_def split: prod.splits if_splits option.splits)
  have "f_finite (f_mul (cfg_EngineSpikeMultiplier cfg) b)"
    using threshold_finite [OF _ b(2) m _ b(3)] engine_evidence_ok(3) [OF t c]
      Timeline_SampleValue_finite [OF analysableD(1) [OF t] b(1)] by simp
  with engine_evidence_ok [OF t c] v' show "draft_ok v" by (simp add: draft_ok_def)
qed (auto simp: ELSlow_Evaluate_def Let_def split: prod.splits if_splits option.splits)

lemma share_or_zero_finite [simp]: "f_finite (share_or_zero (ComputeStages t) stage)"
  using Stages_Share_unit [OF ComputeStages_ok] by (force simp: share_or_zero_def split: option.splits)

interpretation r310: rule_contract CLSlow_Evaluate "{CauseCLSlow}"
proof unfold_locales
  fix t cfg v
  assume t: "analysable t" and cfg: "Config_Validate cfg = None" and v: "CLSlow_Evaluate t cfg = Some v"
  from v obtain calls where c: "completeEngineCalls t = (calls, True)" and s: "st_HasValidation (ComputeStages t)"
    and v': "clSlowVerdict t cfg (ComputeStages t) calls (engineCallTotal calls) = Some v"
    by (auto simp: CLSlow_Evaluate_def Let_def split: prod.splits if_splits)
  with engine_evidence_ok [OF t c] t Config_ValidateD(1) [OF cfg] show "draft_ok v"
    by (auto simp: clSlowVerdict_def Let_def)
qed (auto simp: CLSlow_Evaluate_def clSlowVerdict_def Let_def split: prod.splits if_splits)

interpretation r400: rule_contract VCDisconnected_Evaluate "{CauseVCDisconnected}"
  by unfold_locales (auto simp: VCDisconnected_Evaluate_def split: if_splits option.splits)

interpretation r410: rule_contract VCSlow_Evaluate "{CauseVCSlow}"
  by unfold_locales (auto simp: VCSlow_Evaluate_def Let_def split: if_splits option.splits)

end
