(* ===== verification/RulesTerminal.thy ===== *)
theory RulesTerminal
  imports RulesTiming
begin

text \<open>
  The last rules of the order: R-500 (\<open>r500_inclusion_failure.go\<close>), R-600
  (\<open>r600_host_fallback.go\<close>) and the unconditional R-999 (\<open>r999_catch_all.go\<close>).
\<close>

section \<open>R-500: published in time, never included\<close>

definition text_reorg :: "Observation \<Rightarrow> string" where
  "text_reorg ob = ''a chain reorganisation was observed at slot '' @ FormatUint (unat (obs_Slot ob)) @
     '' within the inclusion window; it is context, not proof that this attestation was removed''"

definition reorgContextEvidence :: "Observation \<Rightarrow> Evidence" where
  "reorgContextEvidence ob = mk_evidence (obs_At ob) (text_reorg ob) (obs_Source ob) None"

definition text_head_uncompared :: string where
  "text_head_uncompared = ''the attestation was published on time but its voted head could not be compared with a canonical head observation''"

definition text_published_at :: "Timeline \<Rightarrow> Observation \<Rightarrow> string" where
  "text_published_at t published = ''attestation_published exists at +'' @
     Duration_String (Sub (obs_At published) (tl_SlotStart t)) @ '', before the attestation deadline''"

definition text_window_closed :: string where
  "text_window_closed = ''the complete inclusion window closed with no attestation_included observation''"

definition text_voted :: "string \<Rightarrow> string" where
  "text_voted votedRoot = ''the attestation voted for canonical head root '' @ votedRoot"

text \<open>
  The root comparison: \<open>None\<close> when one of the two roots or the head itself is missing. In Go the
  zero observation stands for a missing head and has no attributes.
\<close>

definition compared_roots :: "Timeline \<Rightarrow> Observation \<Rightarrow> (Observation \<times> string \<times> string) option" where
  "compared_roots t published =
     (case (Observation_Attr published AttrBlockRoot, Timeline_First t ObsHeadUpdated) of
        (Some publishedRoot, Some head) \<Rightarrow>
          map_option (\<lambda>headRoot. (head, publishedRoot, headRoot)) (Observation_Attr head AttrBlockRoot)
      | _ \<Rightarrow> None)"

definition InclusionFailure_Evaluate :: "Timeline \<Rightarrow> Config \<Rightarrow> Verdict option" where
  "InclusionFailure_Evaluate t cfg =
     (case Timeline_First t ObsAttestationPublished of
        None \<Rightarrow> None
      | Some published \<Rightarrow>
          if Timeline_Has t ObsAttestationIncluded then None
          else if \<not> Before (obs_At published) (Timeline_AttestationDeadline t) then None
          else case Timeline_First t ObsCollectionCompleted of
            None \<Rightarrow> None
          | Some completed \<Rightarrow>
              (case compared_roots t published of
                 None \<Rightarrow>
                   Some (mk_draft CauseInsufficientData ConfidenceLow
                     [mk_evidence (obs_At published) text_head_uncompared SourceDerived None]
                     [''inspect collector errors and recollect with canonical head-root evidence before attributing non-inclusion''])
               | Some (head, publishedRoot, headRoot) \<Rightarrow>
                   if publishedRoot \<noteq> headRoot then None
                   else Some (mk_draft CauseInclusionFailure ConfidenceMedium
                     ([mk_evidence (obs_At published) (text_published_at t published) SourceBeaconAPI None,
                       mk_evidence (obs_At completed) text_window_closed SourceDerived None,
                       mk_evidence (obs_At head) (text_voted publishedRoot) SourceBeaconAPI None] @
                      map reorgContextEvidence (filter (\<lambda>ob. obs_Kind ob = ObsReorg) (tl_Observations t)) @
                      map reorgContextEvidence (tl_Reorgs t))
                     [''verify inbound P2P ports are reachable, since poor connectivity reduces the chance an aggregator sees your attestation'',
                      ''if recurring, correlate with local.p2p_degraded frequency''])))"

section \<open>R-600: host pressure\<close>

definition hostVerdict ::
  "CauseID \<Rightarrow> string \<Rightarrow> f64 \<Rightarrow> f64 \<Rightarrow> gotime \<Rightarrow> SourceID \<Rightarrow> string list \<Rightarrow> Verdict" where
  "hostVerdict cause statement observed expected instant source remediation =
     mk_draft cause ConfidenceMedium
       [mk_evidence instant statement source (mk_cmp (CauseID_str cause) observed expected UnitPercent)]
       remediation"

definition text_iowait :: "f64 \<Rightarrow> Config \<Rightarrow> string" where
  "text_iowait v cfg = ''host I/O pressure (PSI some avg10 '' @ format_fixed 2 v @ ''%) exceeded the '' @
     format_fixed 2 (cfg_IOWaitPct cfg) @ ''% threshold''"

definition text_steal :: "f64 \<Rightarrow> Config \<Rightarrow> string" where
  "text_steal v cfg = ''CPU steal time ('' @ format_fixed 2 v @ ''% over the latest sampling interval) exceeded the '' @
     format_fixed 2 (cfg_CPUStealPct cfg) @ ''% threshold''"

definition text_memory :: "f64 \<Rightarrow> Config \<Rightarrow> string" where
  "text_memory v cfg = ''memory pressure (PSI some avg10 '' @ format_fixed 2 v @ ''%) exceeded the '' @
     format_fixed 2 (cfg_PSIMemAvg10 cfg) @ ''% threshold''"

text \<open>One \<open>if\<close> of the rule: the newest fact of a metric, when it lies above its threshold.\<close>

definition pressure :: "Timeline \<Rightarrow> string \<Rightarrow> string \<Rightarrow> f64 \<Rightarrow> (f64 \<times> gotime \<times> SourceID) option" where
  "pressure t obsMetricName sampleMetricName threshold =
     (case hostSampleFact t obsMetricName sampleMetricName of
        None \<Rightarrow> None
      | Some (v, instant, source) \<Rightarrow> if f_lt threshold v then Some (v, instant, source) else None)"

definition HostFallback_Evaluate :: "Timeline \<Rightarrow> Config \<Rightarrow> Verdict option" where
  "HostFallback_Evaluate t cfg =
     (if \<not> dutyHasObservableLoss t then None
      else case pressure t ''iowait_pct'' ''host_iowait_pct'' (cfg_IOWaitPct cfg) of
        Some (v, instant, source) \<Rightarrow>
          Some (hostVerdict CauseHostDiskIO (text_iowait v cfg) v (cfg_IOWaitPct cfg) instant source
            [''identify the process generating the I/O; if it is the execution client, this is really local.el_slow.disk_saturation and the taxonomy should be reviewed'',
             ''if it is something else, move that workload off the staking box''])
      | None \<Rightarrow>
          (case pressure t ''cpu_steal_pct'' ''host_cpu_steal_pct'' (cfg_CPUStealPct cfg) of
             Some (v, instant, source) \<Rightarrow>
               Some (hostVerdict CauseHostCPUSteal (text_steal v cfg) v (cfg_CPUStealPct cfg) instant source
                 [''this is a noisy-neighbour problem and is not fixable in software '' @ em_dash @
                    '' move to dedicated hardware or a provider with committed CPU''])
           | None \<Rightarrow>
               (case pressure t ''mem_pressure_pct'' ''host_mem_pressure_pct'' (cfg_PSIMemAvg10 cfg) of
                  Some (v, instant, source) \<Rightarrow>
                    Some (hostVerdict CauseHostMemoryPressure (text_memory v cfg) v (cfg_PSIMemAvg10 cfg) instant source
                      [''add RAM or reduce the client cache settings'',
                       ''never run a validator on a box that swaps''])
                | None \<Rightarrow> None)))"

section \<open>R-999: the catch-all\<close>

definition text_untimed :: string where
  "text_untimed = ''no stage of this duty was timed: block arrival was never measured, so propagation, validation, and signing durations are all unknown and no timing rule could be evaluated''"

definition text_polled :: string where
  "text_polled = ''the Beacon API's polled block_seen records when the collector noticed the block, not when it arrived, and is deliberately not used as a stage boundary''"

definition text_gap :: string where
  "text_gap = ''data was complete and trustworthy, yet no rule in the ordered sequence matched '' @ em_dash @
     '' this is a taxonomy gap, not an operator problem''"

definition completion_or_start :: "Timeline \<Rightarrow> gotime" where
  "completion_or_start t =
     (case Timeline_First t ObsCollectionCompleted of Some completed \<Rightarrow> obs_At completed | None \<Rightarrow> tl_SlotStart t)"

text \<open>The evidence of one stage: its duration and its share, or that neither is known.\<close>

definition stage_evidence :: "Timeline \<Rightarrow> Stages \<Rightarrow> Stage \<Rightarrow> Evidence list" where
  "stage_evidence t stages stage =
     (case stage_value stages stage of
        None \<Rightarrow>
          [mk_evidence (tl_SlotStart t)
             (Stage_str stage @ '' stage duration and share were unavailable because its timing boundary was not observed'')
             SourceDerived None]
      | Some v \<Rightarrow>
          (let share = share_or_zero stages stage
           in [mk_evidence (tl_SlotStart t) (Stage_str stage @ '' stage duration was '' @ Duration_String v) SourceDerived
                 (mk_cmp (Stage_str stage @ '' duration'') (to_ms v) (to_ms (Stages_Total stages)) UnitMilliseconds),
               mk_evidence (tl_SlotStart t)
                 (Stage_str stage @ '' stage accounted for '' @ format_fixed 2 (f_mul share (FFin 100)) @
                    ''% of known stage time'') SourceDerived
                 (mk_cmp (Stage_str stage @ '' share'') share (FFin 1) UnitRatio)]))"

definition CatchAll_Evaluate :: "Timeline \<Rightarrow> Config \<Rightarrow> Verdict option" where
  "CatchAll_Evaluate t cfg =
     (let stages = ComputeStages t;
          verdictAt = completion_or_start t
      in if dutyHasObservableLoss t \<and> \<not> st_HasPropagation stages \<and> \<not> st_HasValidation stages \<and>
            \<not> st_HasSigning stages
         then Some (mk_draft CauseInsufficientData ConfidenceLow
           [mk_evidence verdictAt text_untimed SourceDerived None,
            mk_evidence (tl_SlotStart t) text_polled SourceDerived None]
           [''set --cl-metrics-api to the consensus client's Prometheus endpoint so block arrival is measured rather than polled; without it no timing-based cause can be attributed'',
            ''set --baseline-beacon-api as well if you need network-wide lateness told apart from local lateness '' @ em_dash @
              '' any independent node you can reach will do, and --baseline-metrics-api on top of it is optional (ADR-0025)''])
         else Some (mk_draft CauseNoRuleMatched ConfidenceLow
           (mk_evidence verdictAt text_gap SourceDerived None #
            concat (map (stage_evidence t stages) [StagePropagation, StageValidation, StageSigning]))
           [''this is a taxonomy gap and a project bug, not an operator problem '' @ em_dash @
              '' file an issue with this timeline attached; every occurrence should become a corpus scenario'']))"

section \<open>Every draft of these rules is well formed\<close>

lemma terminal_texts_visible [simp]:
  "visible (text_reorg ob)" "visible text_head_uncompared" "visible (text_published_at t p)"
  "visible text_window_closed" "visible (text_voted r)" "visible (text_iowait v cfg)"
  "visible (text_steal v cfg)" "visible (text_memory v cfg)" "visible text_untimed" "visible text_polled"
  "visible text_gap"
  by (simp_all add: visible_def text_reorg_def text_head_uncompared_def text_published_at_def
      text_window_closed_def text_voted_def text_iowait_def text_steal_def text_memory_def text_untimed_def
      text_polled_def text_gap_def)

lemma host_causes_visible [simp]:
  "visible ''local.host.disk_io''" "visible ''local.host.cpu_steal''" "visible ''local.host.memory_pressure''"
  by (simp_all add: visible_def)

lemma reorg_evidence_ok:
  assumes "analysable t" and "ob \<in> set (tl_Observations t) \<union> set (tl_Reorgs t)"
  shows "evidence_ok (reorgContextEvidence ob)"
proof -
  have "Observation_Validate ob = None"
    using assms Timeline_ValidateD(4,7) [OF analysableD(1) [OF assms(1)]] by blast
  from Observation_ValidateD [OF this] show ?thesis
    by (auto simp: reorgContextEvidence_def instant_ok_def intro!: evidence_okI)
qed

interpretation r500: rule_contract InclusionFailure_Evaluate "{CauseInsufficientData, CauseInclusionFailure}"
proof unfold_locales
  fix t cfg v
  assume t: "analysable t" and v: "InclusionFailure_Evaluate t cfg = Some v"
  have "instant_ok (obs_At head)" if "compared_roots t p = Some (head, r1, r2)" for p head r1 r2
    using that first_ok [OF t] by (auto simp: compared_roots_def split: option.splits)
  with t v reorg_evidence_ok [OF t] show "draft_ok v"
    by (auto simp: InclusionFailure_Evaluate_def list_all_iff split: if_splits option.splits)
qed (auto simp: InclusionFailure_Evaluate_def split: if_splits option.splits)

lemma pressure_good:
  assumes "analysable t" and "pressure t n1 n2 threshold = Some f"
  shows "good_fact f"
  using assms hostSampleFact_good [OF analysableD(1) [OF assms(1)], of n1 n2 f]
  by (auto simp: pressure_def split: option.splits if_splits)

interpretation r600: rule_contract HostFallback_Evaluate
  "{CauseHostDiskIO, CauseHostCPUSteal, CauseHostMemoryPressure}"
proof unfold_locales
  fix t cfg v
  assume t: "analysable t" and cfg: "Config_Validate cfg = None" and v: "HostFallback_Evaluate t cfg = Some v"
  have hv: "draft_ok (hostVerdict c s x y i src rm)"
    if "good_fact (x, i, src)" "visible s" "f_finite y" "c \<in> {CauseHostDiskIO, CauseHostCPUSteal, CauseHostMemoryPressure}"
    for c s x y i src rm
    using that by (auto simp: hostVerdict_def)
  from v show "draft_ok v"
    by (auto simp: HostFallback_Evaluate_def Config_ValidateD [OF cfg]
        intro!: hv dest: pressure_good [OF t] split: if_splits option.splits)
qed (auto simp: HostFallback_Evaluate_def hostVerdict_def split: if_splits option.splits)

lemma stage_evidence_ok:
  assumes "analysable t" and "stage \<in> set domain_Stages"
  shows "list_all evidence_ok (stage_evidence t (ComputeStages t) stage)"
proof -
  have vis: "visible (Stage_str stage)" using assms(2) by (auto simp: domain_Stages_def visible_def)
  have "in_int64 v \<and> in_int64 (Stages_Total (ComputeStages t))"
    if "stage_value (ComputeStages t) stage = Some v" for v
    using stage_le_total [OF ComputeStages_ok that] by (auto simp: int64_defs)
  with assms(1) vis show ?thesis by (auto simp: stage_evidence_def Let_def split: option.splits)
qed

interpretation r999: rule_contract CatchAll_Evaluate "{CauseInsufficientData, CauseNoRuleMatched}"
proof unfold_locales
  fix t cfg v
  assume t: "analysable t" and v: "CatchAll_Evaluate t cfg = Some v"
  have "instant_ok (completion_or_start t)"
    using t by (auto simp: completion_or_start_def split: option.splits)
  moreover have "list_all evidence_ok (stage_evidence t (ComputeStages t) StagePropagation)"
    "list_all evidence_ok (stage_evidence t (ComputeStages t) StageValidation)"
    "list_all evidence_ok (stage_evidence t (ComputeStages t) StageSigning)"
    using stage_evidence_ok [OF t] by (simp_all add: domain_Stages_def)
  ultimately show "draft_ok v"
    using t v by (auto simp: CatchAll_Evaluate_def Let_def split: if_splits)
qed (auto simp: CatchAll_Evaluate_def Let_def split: if_splits)

end
