(* ===== verification/Engine.thy ===== *)
theory Engine
  imports RulesData RulesTerminal
begin

text \<open>
  \<open>internal/rca\<close>: what happened to the duty (\<open>outcome.go\<close>), the order of the rules
  (\<open>rules/order.go\<close>) and the engine that runs them (\<open>engine.go\<close>). The locale \<open>rule_sequence\<close>
  states what the engine needs of a rule order; its interpretation on \<open>Order\<close> rests on the
  contracts the rules interpret.
\<close>

section \<open>Outcome\<close>

definition timelySourceMaxInclusionDelay :: nat where
  "timelySourceMaxInclusionDelay = 5"

definition inclusion_flags :: "Observation \<Rightarrow> RewardFlags" where
  "inclusion_flags included =
     (let delay = (case Observation_Attr included AttrInclusionDelay of None \<Rightarrow> None | Some s \<Rightarrow> ParseUint s);
          matchingTarget = (Observation_Attr included AttrTargetCorrect = Some ''true'')
      in \<lparr>rf_TimelySource = (case delay of None \<Rightarrow> False | Some d \<Rightarrow> d \<le> timelySourceMaxInclusionDelay),
          rf_TimelyTarget = (delay \<noteq> None \<and> matchingTarget),
          rf_TimelyHead = (delay = Some 1 \<and> matchingTarget \<and>
            Observation_Attr included AttrHeadCorrect = Some ''true'')\<rparr>)"

definition deriveOutcome :: "Timeline \<Rightarrow> Outcome \<times> RewardFlags option" where
  "deriveOutcome t =
     (case tl_Duty t of
        None \<Rightarrow> (OutcomeNoDuty, None)
      | Some d \<Rightarrow>
          if duty_Kind d = DutyProposer
          then (if Timeline_Has t ObsBlockProposed then OutcomeOK else OutcomeMissed, None)
          else case Timeline_Last t ObsAttestationIncluded of
            None \<Rightarrow> (OutcomeMissed, None)
          | Some included \<Rightarrow>
              (let flags = inclusion_flags included
               in (if RewardFlags_AllEarned flags then OutcomeOK else OutcomeDegraded, Some flags)))"

section \<open>The rule order\<close>

record Rule =
  rule_ID :: string
  rule_Evaluate :: "Timeline \<Rightarrow> Config \<Rightarrow> Verdict option"

definition Order :: "Rule list" where
  "Order =
     [\<lparr>rule_ID = ''R-010'', rule_Evaluate = DataCompleteness_Evaluate\<rparr>,
      \<lparr>rule_ID = ''R-011'', rule_Evaluate = ClockTrust_Evaluate\<rparr>,
      \<lparr>rule_ID = ''R-100'', rule_Evaluate = ProposerMissed_Evaluate\<rparr>,
      \<lparr>rule_ID = ''R-120'', rule_Evaluate = PayloadLate_Evaluate\<rparr>,
      \<lparr>rule_ID = ''R-110'', rule_Evaluate = NetworkLateBlock_Evaluate\<rparr>,
      \<lparr>rule_ID = ''R-200'', rule_Evaluate = P2PDegraded_Evaluate\<rparr>,
      \<lparr>rule_ID = ''R-300'', rule_Evaluate = ELSlow_Evaluate\<rparr>,
      \<lparr>rule_ID = ''R-310'', rule_Evaluate = CLSlow_Evaluate\<rparr>,
      \<lparr>rule_ID = ''R-400'', rule_Evaluate = VCDisconnected_Evaluate\<rparr>,
      \<lparr>rule_ID = ''R-410'', rule_Evaluate = VCSlow_Evaluate\<rparr>,
      \<lparr>rule_ID = ''R-500'', rule_Evaluate = InclusionFailure_Evaluate\<rparr>,
      \<lparr>rule_ID = ''R-600'', rule_Evaluate = HostFallback_Evaluate\<rparr>,
      \<lparr>rule_ID = ''R-999'', rule_Evaluate = CatchAll_Evaluate\<rparr>]"

section \<open>The engine\<close>

definition EngineVersion :: string where
  "EngineVersion = ''0.15.0''"

definition text_project_bug :: string where
  "text_project_bug = ''this is a taxonomy gap and a project bug, not an operator problem '' @ em_dash @
     '' file an issue with this timeline attached''"

definition text_invalid_verdict :: "domain_error \<Rightarrow> string" where
  "text_invalid_verdict e = ''a matching rule produced an invalid verdict ('' @ domain_error_Error e @ '') '' @ em_dash @
     '' this is an engine bug, not an attribution''"

definition safeFallback :: "Timeline \<Rightarrow> Outcome \<Rightarrow> RewardFlags option \<Rightarrow> domain_error \<Rightarrow> Verdict" where
  "safeFallback t outcome flags err =
     (let v = \<lparr>v_Slot = tl_Slot t, v_Outcome = outcome, v_Flags = flags, v_Cause = CauseNoRuleMatched,
               v_SubCause = CauseNone, v_Confidence = ConfidenceLow,
               v_Evidence = [mk_evidence (tl_SlotStart t) (text_invalid_verdict err) SourceDerived None],
               v_Remediation = [text_project_bug], v_EngineVersion = EngineVersion,
               v_TaxonomyVersion = TaxonomyVersion\<rparr>
      in if outcome = OutcomeNoDuty then v\<lparr>v_Cause := CauseNone, v_Flags := None\<rparr> else v)"

definition stamp :: "Timeline \<Rightarrow> Verdict \<Rightarrow> Outcome \<Rightarrow> RewardFlags option \<Rightarrow> Verdict" where
  "stamp t draft outcome flags =
     draft\<lparr>v_Slot := tl_Slot t, v_Outcome := outcome, v_Flags := flags, v_EngineVersion := EngineVersion,
       v_Evidence := map (\<lambda>e. e\<lparr>ev_Offset := Sub (ev_At e) (tl_SlotStart t)\<rparr>) (v_Evidence draft)\<rparr>"

definition finish :: "Timeline \<Rightarrow> Verdict \<Rightarrow> Outcome \<Rightarrow> RewardFlags option \<Rightarrow> Verdict" where
  "finish t draft outcome flags =
     (case NewVerdict (stamp t draft outcome flags) of
        Inl err \<Rightarrow> safeFallback t outcome flags err
      | Inr v \<Rightarrow> v)"

definition text_no_duty :: string where
  "text_no_duty = ''no attester or proposer duty was assigned for this slot''"

definition text_clean :: string where
  "text_clean = ''duty fulfilled with every reward flag earned, and no rule found a problem''"

definition text_no_match :: string where
  "text_no_match = ''no rule in the ordered sequence matched, including the unconditional catch-all '' @ em_dash @
     '' this is an engine bug''"

definition no_duty_draft :: "Timeline \<Rightarrow> Verdict" where
  "no_duty_draft t =
     mk_draft CauseNone ConfidenceHigh [mk_evidence (tl_SlotStart t) text_no_duty SourceDerived None] []"

definition clean_draft :: "Timeline \<Rightarrow> Verdict" where
  "clean_draft t =
     mk_draft CauseNone ConfidenceHigh [mk_evidence (completion_or_start t) text_clean SourceDerived None] []"

definition defensive_draft :: "Timeline \<Rightarrow> Verdict" where
  "defensive_draft t =
     mk_draft CauseNoRuleMatched ConfidenceLow
       [mk_evidence (tl_SlotStart t) text_no_match SourceDerived None] [text_project_bug]"

fun analyze_loop :: "Timeline \<Rightarrow> Config \<Rightarrow> Outcome \<Rightarrow> RewardFlags option \<Rightarrow> Rule list \<Rightarrow> Verdict" where
  "analyze_loop t cfg outcome flags [] = finish t (defensive_draft t) outcome flags"
| "analyze_loop t cfg outcome flags (r # rest) =
     (case rule_Evaluate r t cfg of
        None \<Rightarrow> analyze_loop t cfg outcome flags rest
      | Some draft \<Rightarrow>
          if outcome = OutcomeOK \<and> v_Cause draft = CauseNoRuleMatched
          then finish t (clean_draft t) outcome flags
          else finish t draft outcome flags)"

definition analyze :: "Timeline \<Rightarrow> Config \<Rightarrow> Rule list \<Rightarrow> Verdict" where
  "analyze t cfg ordered =
     (case deriveOutcome t of (outcome, flags) \<Rightarrow>
        if outcome = OutcomeNoDuty then finish t (no_duty_draft t) outcome None
        else analyze_loop t cfg outcome flags ordered)"

definition Analyze :: "Timeline \<Rightarrow> Config \<Rightarrow> Verdict" where
  "Analyze t cfg = analyze t cfg Order"

section \<open>Stamped drafts\<close>

lemma engine_texts_visible [simp]:
  "visible text_no_duty" "visible text_clean" "visible text_no_match" "visible (text_invalid_verdict e)"
  by (simp_all add: visible_def text_no_duty_def text_clean_def text_no_match_def text_invalid_verdict_def)

lemma stamp_sel [simp]:
  "v_Slot (stamp t d o' f) = tl_Slot t" "v_Outcome (stamp t d o' f) = o'" "v_Flags (stamp t d o' f) = f"
  "v_Cause (stamp t d o' f) = v_Cause d" "v_SubCause (stamp t d o' f) = v_SubCause d"
  "v_Confidence (stamp t d o' f) = v_Confidence d" "v_EngineVersion (stamp t d o' f) = EngineVersion"
  "v_TaxonomyVersion (stamp t d o' f) = v_TaxonomyVersion d" "v_Remediation (stamp t d o' f) = v_Remediation d"
  "v_Evidence (stamp t d o' f) = map (\<lambda>e. e\<lparr>ev_Offset := Sub (ev_At e) (tl_SlotStart t)\<rparr>) (v_Evidence d)"
  by (simp_all add: stamp_def)

lemma Evidence_Validate_offset [simp]: "Evidence_Validate (e\<lparr>ev_Offset := d\<rparr>) = Evidence_Validate e"
  by (simp add: Evidence_Validate_def)

text \<open>The flags an outcome may carry: exactly what \<open>validateFlags\<close> accepts.\<close>

definition flags_fit :: "Outcome \<Rightarrow> RewardFlags option \<Rightarrow> bool" where
  "flags_fit outcome flags \<longleftrightarrow> Verdict_validateFlags (empty_verdict\<lparr>v_Outcome := outcome, v_Flags := flags\<rparr>) = None"

lemma validateFlags_cong:
  assumes "v_Outcome v = v_Outcome w" "v_Flags v = v_Flags w"
  shows "Verdict_validateFlags v = Verdict_validateFlags w"
  using assms by (cases "v_Flags w"; cases "v_Outcome w") (simp_all add: Verdict_validateFlags_def)

lemma validateFlags_fit: "Verdict_validateFlags v = None \<longleftrightarrow> flags_fit (v_Outcome v) (v_Flags v)"
  unfolding flags_fit_def by (subst validateFlags_cong [of v]) simp_all

text \<open>What a draft must have for the outcome at hand: a cause, or none when nothing was owed or lost.\<close>

definition cause_fit :: "Outcome \<Rightarrow> CauseID \<Rightarrow> bool" where
  "cause_fit outcome c \<longleftrightarrow>
     (if c = CauseNone then outcome = OutcomeNoDuty \<or> outcome = OutcomeOK
      else outcome \<noteq> OutcomeNoDuty \<and> CauseID_Valid c)"

definition body_ok :: "Verdict \<Rightarrow> bool" where
  "body_ok v \<longleftrightarrow> v_SubCause v = CauseNone \<and> Confidence_Valid (v_Confidence v) \<and>
     v_Evidence v \<noteq> [] \<and> list_all evidence_ok (v_Evidence v) \<and> v_TaxonomyVersion v = []"

lemma draft_ok_body: "draft_ok v \<longleftrightarrow> CauseID_Valid (v_Cause v) \<and> body_ok v"
  by (auto simp: draft_ok_def body_ok_def)

lemma body_ok_mk [simp]:
  "body_ok (mk_draft c conf ev rm) \<longleftrightarrow> Confidence_Valid conf \<and> ev \<noteq> [] \<and> list_all evidence_ok ev"
  by (simp add: body_ok_def)

lemma CauseID_str_empty: "CauseID_Valid c \<Longrightarrow> CauseID_str c \<noteq> []"
  by (cases c) simp_all

lemma validateCause_fit:
  assumes "cause_fit (v_Outcome v) (v_Cause v)" "v_SubCause v = CauseNone"
  shows "Verdict_validateCause v = None"
  using assms by (auto simp: Verdict_validateCause_def cause_fit_def CauseID_str_empty split: if_splits)

lemma stamped_validate:
  assumes "body_ok d" "Outcome_Valid o'" "cause_fit o' (v_Cause d)"
  shows "Verdict_Validate ((stamp t d o' f)\<lparr>v_TaxonomyVersion := TaxonomyVersion\<rparr>) =
    Verdict_validateFlags (stamp t d o' f)"
proof -
  let ?v = "(stamp t d o' f)\<lparr>v_TaxonomyVersion := TaxonomyVersion\<rparr>"
  have "Verdict_validateCause ?v = None" by (rule validateCause_fit) (use assms in \<open>auto simp: body_ok_def\<close>)
  moreover have "first_error (map Evidence_Validate (v_Evidence ?v)) = None"
    using assms(1) by (auto simp: first_error_None body_ok_def list_all_iff evidence_ok_def)
  moreover have "Verdict_validateFlags ?v = Verdict_validateFlags (stamp t d o' f)"
    by (rule validateFlags_cong) simp_all
  ultimately show ?thesis
    using assms
    by (cases "Verdict_validateFlags (stamp t d o' f)")
      (auto simp: Verdict_Validate_def body_ok_def EngineVersion_def TaxonomyVersion_def)
qed

lemma validateFlags_error: "Verdict_validateFlags v = Some e \<Longrightarrow> e = ErrInvalidOutcome"
  by (auto simp: Verdict_validateFlags_def split: option.splits Outcome.splits)

text \<open>A well-formed draft survives \<open>finish\<close> exactly when the flags fit the outcome.\<close>

lemma finish_ok:
  assumes "body_ok d" "Outcome_Valid o'" "cause_fit o' (v_Cause d)" "flags_fit o' f"
  shows "finish t d o' f = (stamp t d o' f)\<lparr>v_TaxonomyVersion := TaxonomyVersion\<rparr>"
    and "Verdict_Validate (finish t d o' f) = None"
proof -
  have "Verdict_Validate ((stamp t d o' f)\<lparr>v_TaxonomyVersion := TaxonomyVersion\<rparr>) = None"
    using assms(4) by (simp add: stamped_validate [OF assms(1-3)] validateFlags_fit)
  then show "finish t d o' f = (stamp t d o' f)\<lparr>v_TaxonomyVersion := TaxonomyVersion\<rparr>"
    and "Verdict_Validate (finish t d o' f) = None"
    using assms(1) by (simp_all add: finish_def NewVerdict_def body_ok_def)
qed

lemma finish_unfit:
  assumes "body_ok d" "Outcome_Valid o'" "cause_fit o' (v_Cause d)" "\<not> flags_fit o' f" "o' \<noteq> OutcomeNoDuty"
  shows "finish t d o' f = safeFallback t o' f ErrInvalidOutcome"
    and "Verdict_Validate (finish t d o' f) = Some ErrInvalidOutcome"
proof -
  have flags: "Verdict_validateFlags (stamp t d o' f) = Some ErrInvalidOutcome"
    using assms(4) validateFlags_error [of "stamp t d o' f"] validateFlags_fit [of "stamp t d o' f"]
    by (cases "Verdict_validateFlags (stamp t d o' f)") auto
  then show fin: "finish t d o' f = safeFallback t o' f ErrInvalidOutcome"
    using stamped_validate [OF assms(1-3), of t f] assms(1)
    by (simp add: finish_def NewVerdict_def body_ok_def)
  have "Verdict_validateFlags (safeFallback t o' f ErrInvalidOutcome) = Verdict_validateFlags (stamp t d o' f)"
    using assms(5) by (intro validateFlags_cong) (simp_all add: safeFallback_def)
  with flags fin show "Verdict_Validate (finish t d o' f) = Some ErrInvalidOutcome"
    using assms(2,5)
    by (auto simp: Verdict_Validate_def Verdict_validateCause_def safeFallback_def)
qed

section \<open>The outcome and its flags\<close>

text \<open>An attestation that is on chain but earned nothing: no readable delay, or too late and off target.\<close>

definition earned_nothing :: "Timeline \<Rightarrow> bool" where
  "earned_nothing t \<longleftrightarrow>
     (case snd (deriveOutcome t) of None \<Rightarrow> False | Some f \<Rightarrow> \<not> RewardFlags_AnyEarned f)"

lemma AllEarned_AnyEarned: "RewardFlags_AllEarned f \<Longrightarrow> RewardFlags_AnyEarned f"
  by (simp add: RewardFlags_AllEarned_def RewardFlags_AnyEarned_def)

lemma deriveOutcome_facts:
  assumes "deriveOutcome t = (o', f)"
  shows "Outcome_Valid o'" "o' = OutcomeNoDuty \<longleftrightarrow> tl_Duty t = None"
    "tl_Duty t = None \<Longrightarrow> f = None"
    "tl_Duty t \<noteq> None \<Longrightarrow> flags_fit o' f \<longleftrightarrow> \<not> earned_nothing t"
  using assms AllEarned_AnyEarned
  by (auto simp: deriveOutcome_def flags_fit_def Verdict_validateFlags_def earned_nothing_def Let_def
      split: option.splits if_splits)

lemma earned_nothing_degraded: "earned_nothing t \<Longrightarrow> fst (deriveOutcome t) = OutcomeDegraded"
  using AllEarned_AnyEarned
  by (auto simp: earned_nothing_def deriveOutcome_def Let_def split: option.splits if_splits)

section \<open>What the engine needs of a rule order\<close>

locale rule_sequence =
  fixes ordered :: "Rule list"
  assumes drafts: "r \<in> set ordered \<Longrightarrow> analysable t \<Longrightarrow> Config_Validate cfg = None \<Longrightarrow>
      rule_Evaluate r t cfg = Some v \<Longrightarrow> draft_ok v"
    and total_order: "\<exists>r \<in> set ordered. rule_Evaluate r t cfg \<noteq> None"
begin

text \<open>The first rule that matches, and the draft it hands over.\<close>

definition first_match :: "Timeline \<Rightarrow> Config \<Rightarrow> Verdict" where
  "first_match t cfg = the (find_map (\<lambda>r. rule_Evaluate r t cfg) ordered)"

lemma find_map_first_match: "find_map (\<lambda>r. rule_Evaluate r t cfg) ordered = Some (first_match t cfg)"
  using total_order [of t cfg] by (auto simp: first_match_def find_map_None)

definition reported :: "Timeline \<Rightarrow> Config \<Rightarrow> Verdict" where
  "reported t cfg =
     (if fst (deriveOutcome t) = OutcomeOK \<and> v_Cause (first_match t cfg) = CauseNoRuleMatched
      then clean_draft t else first_match t cfg)"

lemma analyze_loop_find:
  assumes "find_map (\<lambda>r. rule_Evaluate r t cfg) rs = Some draft"
  shows "analyze_loop t cfg o' f rs =
    finish t (if o' = OutcomeOK \<and> v_Cause draft = CauseNoRuleMatched then clean_draft t else draft) o' f"
  using assms by (induction rs) (auto split: option.splits)

lemma analyze_reported:
  assumes "tl_Duty t \<noteq> None"
  shows "analyze t cfg ordered = finish t (reported t cfg) (fst (deriveOutcome t)) (snd (deriveOutcome t))"
  using assms deriveOutcome_facts(2) [of t "fst (deriveOutcome t)" "snd (deriveOutcome t)"]
  by (auto simp: analyze_def case_prod_beta analyze_loop_find [OF find_map_first_match] reported_def)

lemma reported_ok:
  assumes "analysable t" "Config_Validate cfg = None" "tl_Duty t \<noteq> None"
  shows "body_ok (reported t cfg)" "cause_fit (fst (deriveOutcome t)) (v_Cause (reported t cfg))"
proof -
  have d: "draft_ok (first_match t cfg)"
    using find_map_SomeD [OF find_map_first_match [of t cfg]] drafts [OF _ assms(1,2)] by blast
  have "instant_ok (completion_or_start t)"
    using assms(1) by (auto simp: completion_or_start_def split: option.splits)
  then have c: "body_ok (clean_draft t)" "v_Cause (clean_draft t) = CauseNone" by (simp_all add: clean_draft_def)
  have "fst (deriveOutcome t) \<noteq> OutcomeNoDuty" using deriveOutcome_facts(2) [of t] assms(3) by (metis prod.collapse)
  with d c show "body_ok (reported t cfg)" "cause_fit (fst (deriveOutcome t)) (v_Cause (reported t cfg))"
    by (auto simp: reported_def draft_ok_body cause_fit_def)
qed

lemma analyze_valid:
  assumes "analysable t" "Config_Validate cfg = None"
  shows "Verdict_Validate (analyze t cfg ordered) = (if earned_nothing t then Some ErrInvalidOutcome else None)"
proof (cases "tl_Duty t")
  case None
  then have "flags_fit OutcomeNoDuty None" by (simp add: flags_fit_def Verdict_validateFlags_def empty_verdict_def)
  then have "Verdict_Validate (finish t (no_duty_draft t) OutcomeNoDuty None) = None"
    using assms(1) by (intro finish_ok(2)) (simp_all add: no_duty_draft_def cause_fit_def)
  with None show ?thesis by (simp add: analyze_def deriveOutcome_def earned_nothing_def)
next
  case (Some d)
  let ?o = "fst (deriveOutcome t)" and ?f = "snd (deriveOutcome t)"
  have "deriveOutcome t = (?o, ?f)" by simp
  from deriveOutcome_facts [OF this] Some
  have o: "Outcome_Valid ?o" "?o \<noteq> OutcomeNoDuty" "flags_fit ?o ?f \<longleftrightarrow> \<not> earned_nothing t" by auto
  show ?thesis
    using finish_ok(2) [OF reported_ok(1) o(1) reported_ok(2), OF assms _ assms, of ?f t]
      finish_unfit(2) [OF reported_ok(1) o(1) reported_ok(2), OF assms _ assms, of ?f t] o Some
    by (simp add: analyze_reported)
qed

lemma analyze_stamps:
  assumes "analysable t" "Config_Validate cfg = None" "tl_Duty t \<noteq> None" "\<not> earned_nothing t"
  shows "analyze t cfg ordered =
    (stamp t (reported t cfg) (fst (deriveOutcome t)) (snd (deriveOutcome t)))\<lparr>v_TaxonomyVersion := TaxonomyVersion\<rparr>"
proof -
  have "deriveOutcome t = (fst (deriveOutcome t), snd (deriveOutcome t))" by simp
  from deriveOutcome_facts [OF this] assms show ?thesis
    by (simp add: analyze_reported finish_ok(1) [OF reported_ok(1) _ reported_ok(2)])
qed

lemma analyze_fallback:
  assumes "analysable t" "Config_Validate cfg = None" "earned_nothing t"
  shows "analyze t cfg ordered =
    safeFallback t (fst (deriveOutcome t)) (snd (deriveOutcome t)) ErrInvalidOutcome"
proof -
  have "tl_Duty t \<noteq> None" using assms(3) by (cases "tl_Duty t") (auto simp: earned_nothing_def deriveOutcome_def)
  moreover have "deriveOutcome t = (fst (deriveOutcome t), snd (deriveOutcome t))" by simp
  ultimately show ?thesis using deriveOutcome_facts [of t "fst (deriveOutcome t)" "snd (deriveOutcome t)"] assms
    by (simp add: analyze_reported finish_unfit(1) [OF reported_ok(1) _ reported_ok(2)])
qed

end

interpretation engine: rule_sequence Order
proof unfold_locales
  have "list_all (\<lambda>r. \<forall>v. rule_Evaluate r t cfg = Some v \<longrightarrow> draft_ok v) Order"
    if "analysable t" "Config_Validate cfg = None" for t cfg
    by (simp add: Order_def r010.draft [OF that] r011.draft [OF that] r100.draft [OF that] r110.draft [OF that]
        r120.draft [OF that] r200.draft [OF that] r300.draft [OF that] r310.draft [OF that] r400.draft [OF that]
        r410.draft [OF that] r500.draft [OF that] r600.draft [OF that] r999.draft [OF that])
  then show "draft_ok v" if "r \<in> set Order" "analysable t" "Config_Validate cfg = None" "rule_Evaluate r t cfg = Some v"
    for r t cfg v
    using that by (auto simp: list_all_iff)
  have "CatchAll_Evaluate t cfg \<noteq> None" for t cfg by (simp add: CatchAll_Evaluate_def Let_def)
  then show "\<exists>r \<in> set Order. rule_Evaluate r t cfg \<noteq> None" for t cfg by (simp add: Order_def)
qed

end
