(* ===== verification/Examples.thy ===== *)
theory Examples
  imports Engine
begin

text \<open>
  Concrete timelines of slot 100 of a mainnet schedule, on which the properties of the analysis
  are witnessed: a healthy duty, a skipped slot, a drifting clock, a late block, and an attestation
  that reached the chain too late and off target.
\<close>

definition ex_start :: gotime where
  "ex_start = \<lparr>t_ns = 63800000000000000000, t_loc = UTC\<rparr>"

definition ex_obs :: "ObservationKind \<Rightarrow> SourceID \<Rightarrow> duration \<Rightarrow> attrs \<Rightarrow> Observation" where
  "ex_obs kind src offset as =
     \<lparr>obs_Slot = 100, obs_Kind = kind, obs_At = Add ex_start offset, obs_ClockOffset = 0,
      obs_ClockMeasured = True, obs_ClockSampleAt = Add ex_start offset, obs_Source = src, obs_Attrs = as\<rparr>"

definition ex_timeline :: "Observation list \<Rightarrow> NetworkBaseline option \<Rightarrow> Timeline" where
  "ex_timeline obs network =
     \<lparr>tl_Slot = 100, tl_SlotStart = ex_start, tl_Schedule = MainnetPreEPBS,
      tl_Duty = Some \<lparr>duty_Kind = DutyAttester, duty_Slot = 100, duty_ValidatorIndex = 7, duty_CommitteeIndex = 1\<rparr>,
      tl_Observations = obs @ [ex_obs ObsCollectionCompleted SourceDerived 720000000000 []],
      tl_Reorgs = [], tl_Samples = [], tl_Network = network, tl_CollectionComplete = True\<rparr>"

definition ex_included :: "string \<Rightarrow> string \<Rightarrow> string \<Rightarrow> Observation" where
  "ex_included delay head target =
     ex_obs ObsAttestationIncluded SourceBeaconAPI 24000000000
       [(AttrInclusionDelay, delay), (AttrHeadCorrect, head), (AttrTargetCorrect, target)]"

definition ex_healthy :: Timeline where
  "ex_healthy = ex_timeline
     [ex_obs ObsBlockSeen SourcePromScrape 1000000000 [], ex_obs ObsHeadUpdated SourceBeaconAPI 2000000000 [],
      ex_obs ObsAttestationPublished SourceBeaconAPI 3000000000 [], ex_included ''1'' ''true'' ''true''] None"

definition ex_signing :: Timeline where
  "ex_signing = ex_timeline
     [ex_obs ObsBlockSeen SourcePromScrape 1000000000 [], ex_obs ObsHeadUpdated SourceBeaconAPI 2000000000 [],
      ex_obs ObsAttestationPublished SourceBeaconAPI 8000000000 [], ex_included ''2'' ''false'' ''true''] None"

definition ex_off_target :: Timeline where
  "ex_off_target = ex_timeline
     [ex_obs ObsBlockSeen SourcePromScrape 1000000000 [], ex_included ''7'' ''false'' ''false''] None"

definition ex_skipped :: Timeline where
  "ex_skipped = ex_timeline
     [ex_obs ObsBlockSkipped SourceBeaconAPI 12000000000 [], ex_included ''2'' ''false'' ''true''] None"

definition ex_drift :: Timeline where
  "ex_drift = ex_timeline
     [(ex_obs ObsBlockSeen SourcePromScrape 1000000000 [])\<lparr>obs_ClockOffset := - 250000000\<rparr>,
      ex_included ''2'' ''false'' ''true''] None"

definition ex_late :: Timeline where
  "ex_late = ex_timeline
     [ex_obs ObsBlockSeen SourcePromScrape 9000000000 [], ex_included ''2'' ''false'' ''true'']
     (Some \<lparr>nb_Slot = 100, nb_BlockArrivalP50 = 8800000000, nb_BlockArrivalP90 = 9500000000, nb_SampleCount = 40,
            nb_Source = SourceXatu\<rparr>)"

definition ex_peers :: Timeline where
  "ex_peers = (ex_timeline
     [ex_obs ObsBlockSeen SourcePromScrape 9000000000 [], ex_included ''2'' ''false'' ''true'']
     (Some \<lparr>nb_Slot = 100, nb_BlockArrivalP50 = 1000000000, nb_BlockArrivalP90 = 1500000000, nb_SampleCount = 40,
            nb_Source = SourceXatu\<rparr>))
     \<lparr>tl_Samples := [\<lparr>ms_At = ex_start, ms_Component = ComponentCL, ms_Name = ''cl_peer_count'', ms_Value = FFin 5,
        ms_ClockOffset = 0, ms_ClockMeasured = True, ms_ClockSampleAt = ex_start, ms_Source = SourceBeaconAPI\<rparr>]\<rparr>"

lemmas ex_defs =
  ex_peers_def ex_signing_def ex_healthy_def ex_off_target_def ex_skipped_def ex_drift_def ex_late_def ex_timeline_def ex_included_def
  ex_obs_def ex_start_def

lemma ex_window_end:
  "Slot_LastAttestationInclusionSlot 100 = 159"
  "Slot_CollectionWindowEnd 100 s 12000000000 = Add s 720000000000"
  by (simp_all add: Slot_CollectionWindowEnd_def slot_defs wrap64_def)

lemma ex_MainnetPreEPBS [simp]:
  "SlotSchedule_Validate MainnetPreEPBS = None" "sched_SecondsPerSlot MainnetPreEPBS = 12000000000"
  "sched_AttestationDeadline MainnetPreEPBS = 4000000000" "sched_PayloadRevealDeadline MainnetPreEPBS = 0"
  by (simp_all add: SlotSchedule_Validate_def MainnetPreEPBS_def maxSupportedSlotDuration_def)

lemma ex_delays [simp]:
  "ParseUint ''1'' = Some 1" "ParseUint ''2'' = Some 2" "ParseUint ''7'' = Some 7"
  by (simp_all add: ParseUint_def digits_val_def digit_val_def is_digit_def)

lemmas ex_validate = error_then_None SlotsPerEpoch_def
  Timeline_Validate_def validate_duty_def Duty_Validate_def validate_network_def validate_completion_def
  completions_def Observation_Validate_def validate_clock_def validate_attr_def precedes_previous_def
  MetricSample_Validate_def NetworkBaseline_Validate_def IsZero_def Before_def is_positive_uint_def
  maxObservationAttrValueBytes_def maxMetricNameBytes_def

lemma ex_analysable [simp]:
  "analysable ex_healthy" "analysable ex_off_target" "analysable ex_skipped" "analysable ex_drift" "analysable ex_late"
  "analysable ex_peers"
  by (simp_all add: analysable_def durations_typed_def ex_defs ex_validate ex_window_end int64_defs)

lemma ex_config [simp]: "Config_Validate DefaultConfig = None"
proof -
  have half: "fround (1 / 2) = FFin (1 / 2)" using fround_dyadic [of 1 1] by simp
  have "f_le (fround (1 / 2)) (fround (9 / 10))" "f_le (fround (11 / 10)) (fround 3)"
    by (rule fround_mono, simp)+
  then have "\<not> f_lt (fround (9 / 10)) (FFin (1 / 2))" "\<not> f_lt (FFin 3) (fround (11 / 10))"
    using half f_lt_not_le by (force, fastforce simp: fround_numeral)
  with half show ?thesis by (simp add: Config_Validate_def DefaultConfig_def outside_def)
qed

lemmas ex_eval = ex_defs Timeline_First_def Timeline_Last_def Timeline_Has_def Observation_Attr_def
  time_defs deriveOutcome_def inclusion_flags_def earned_nothing_def RewardFlags_AnyEarned_def
  RewardFlags_AllEarned_def timelySourceMaxInclusionDelay_def Let_def

lemma ex_duty [simp]:
  "tl_Duty (ex_timeline obs n) = Some \<lparr>duty_Kind = DutyAttester, duty_Slot = 100, duty_ValidatorIndex = 7, duty_CommitteeIndex = 1\<rparr>"
  by (simp add: ex_timeline_def)

lemma ex_earned [simp]:
  "\<not> earned_nothing ex_healthy" "earned_nothing ex_off_target" "\<not> earned_nothing ex_skipped"
  "\<not> earned_nothing ex_drift" "\<not> earned_nothing ex_late"
  by (simp_all add: ex_eval)

lemma ex_outcome [simp]:
  "fst (deriveOutcome ex_healthy) = OutcomeOK" "fst (deriveOutcome ex_off_target) = OutcomeDegraded"
  "fst (deriveOutcome ex_skipped) = OutcomeDegraded" "fst (deriveOutcome ex_drift) = OutcomeDegraded"
  "fst (deriveOutcome ex_late) = OutcomeDegraded"
  by (simp_all add: ex_eval)

lemma ex_stages:
  "ComputeStages ex_late =
     \<lparr>st_Propagation = 9000000000, st_Validation = 0, st_Signing = 0, st_HasPropagation = True,
      st_HasValidation = False, st_HasSigning = False\<rparr>"
  "ComputeStages ex_peers =
     \<lparr>st_Propagation = 9000000000, st_Validation = 0, st_Signing = 0, st_HasPropagation = True,
      st_HasValidation = False, st_HasSigning = False\<rparr>"
  "ComputeStages ex_healthy =
     \<lparr>st_Propagation = 1000000000, st_Validation = 1000000000, st_Signing = 1000000000, st_HasPropagation = True,
      st_HasValidation = True, st_HasSigning = True\<rparr>"
  "ComputeStages ex_signing =
     \<lparr>st_Propagation = 1000000000, st_Validation = 1000000000, st_Signing = 6000000000, st_HasPropagation = True,
      st_HasValidation = True, st_HasSigning = True\<rparr>"
  by (simp_all add: ComputeStages_def timedBlockSeen_def no_stages_def ex_eval Sub_def clamp64_def int64_defs)

lemma ex_budget: "attestation_budget ex_late = 4000000000" "attestation_budget ex_peers = 4000000000"
  using attestation_budget_eq [OF analysableD(1) [OF ex_analysable(5)]]
    attestation_budget_eq [OF analysableD(1) [OF ex_analysable(6)]]
  by (simp_all add: ex_late_def ex_peers_def ex_timeline_def)

lemma ex_peer_fact: "peerCountFact ex_peers = Some (FFin 5, ex_start, SourceBeaconAPI)"
  by (simp add: peerCountFact_def last_sample_def metricCLPeerCount_def ex_defs)

lemma ex_network:
  "tl_Network ex_late = Some \<lparr>nb_Slot = 100, nb_BlockArrivalP50 = 8800000000, nb_BlockArrivalP90 = 9500000000,
     nb_SampleCount = 40, nb_Source = SourceXatu\<rparr>"
  "tl_Network ex_peers = Some \<lparr>nb_Slot = 100, nb_BlockArrivalP50 = 1000000000, nb_BlockArrivalP90 = 1500000000,
     nb_SampleCount = 40, nb_Source = SourceXatu\<rparr>"
  "sched_AttestationDeadline (tl_Schedule ex_late) = 4000000000"
  "sched_AttestationDeadline (tl_Schedule ex_peers) = 4000000000"
  by (simp_all add: ex_late_def ex_peers_def ex_timeline_def)

lemma ex_thresholds:
  "cfg_NetworkDeviation DefaultConfig = 750000000" "cfg_PeerCountMin DefaultConfig = FFin 40"
  "cfg_Dominance DefaultConfig = FFin (1 / 2)" "cfg_ClockOffsetMax DefaultConfig = 100000000"
  by (simp_all add: DefaultConfig_def)

end
