(* ===== verification/Assembly.thy ===== *)
theory Assembly
  imports Assembler Examples
begin

text \<open>
  The properties of timeline assembly and replay (\<open>internal/timeline\<close>): the arrival order of facts is
  irrelevant, with the one exception of reorganisations that tie in every compared field; a timeline
  that is built holds exactly what was filed; and a replayed scenario is a valid timeline of its slot.
\<close>

text \<open>
  Property C29: the timeline does not depend on the order in which facts arrive. Feeding an empty
  assembler the same valid observations and samples in any two orders builds the same timeline (or
  the same error), as long as reorganisations of different slots differ in a compared field.
\<close>

theorem Build_arrival_order:
  assumes "as_observations a = []" "as_samples a = []"
    and "mset xs = mset ys" "\<forall>ob \<in> set xs. canonical_obs ob"
    and "mset ms = mset ns" "\<forall>m \<in> set ms. canonical_sample m"
    and "inj_on obs_key {ob \<in> set xs. window_reorg s ob}"
  shows "Build (foldl AddSample (foldl AddObservation a xs) ms) s start =
    Build (foldl AddSample (foldl AddObservation a ys) ns) s start"
proof -
  have none: "observations_of a s = []" "window_reorgs a s = []"
    using assms(1) by (simp_all add: observations_of_def window_reorgs_def)
  let ?own = "filter (\<lambda>ob. obs_Slot ob = s)"
  have "inj_on obs_key (set (?own xs))"
    using assms(4) by (auto simp: inj_on_def intro!: obs_key_inj)
  then have o: "sortObservations (?own xs) = sortObservations (?own ys)"
    unfolding sortObservations_def using assms(3) by (intro obs_order.SliceStable_perm) auto
  let ?wx = "window_reorgs (foldl AddObservation a xs) s" and ?wy = "window_reorgs (foldl AddObservation a ys) s"
  have wm: "mset ?wx = mset (filter (window_reorg s) xs)" "mset ?wy = mset (filter (window_reorg s) ys)"
    by (simp_all add: window_reorgs_adds none)
  have "set ?wx = {ob \<in> set xs. window_reorg s ob}" using mset_eq_setD [OF wm(1)] by auto
  then have w: "sortObservations ?wx = sortObservations ?wy"
    unfolding sortObservations_def using assms(3,7) wm by (intro obs_order.SliceStable_perm) auto
  have "inj_on ms_key (set ms)" "set ms \<subseteq> {m. f_finite (ms_Value m)}"
    using assms(6) MetricSample_ValidateD(6) by (auto simp: inj_on_def canonical_sample_def intro!: ms_key_inj)
  then have m: "sortSamples ms = sortSamples ns"
    unfolding sortSamples_def using assms(5) by (intro sample_order.SliceStable_perm)
  show ?thesis
    using o w m by (simp add: Build_def build_draft_def observations_of_adds none assms(2))
qed

theorem Build_arrival_order_witness:
  "Build (foldl AddSample (foldl AddObservation (NewAssembler MainnetPreEPBS)
      [ex_obs ObsBlockSeen SourcePromScrape 5 [], ex_obs ObsHeadUpdated SourceBeaconAPI 5 []]) []) 100 ex_start =
   Build (foldl AddSample (foldl AddObservation (NewAssembler MainnetPreEPBS)
      [ex_obs ObsHeadUpdated SourceBeaconAPI 5 [], ex_obs ObsBlockSeen SourcePromScrape 5 []]) []) 100 ex_start"
proof (rule Build_arrival_order)
  show "\<forall>ob \<in> set [ex_obs ObsBlockSeen SourcePromScrape 5 [], ex_obs ObsHeadUpdated SourceBeaconAPI 5 []]. canonical_obs ob"
    by (simp add: canonical_obs_def attr_sorted_def ex_obs_def ex_start_def ex_validate)
qed (auto simp: NewAssembler_def inj_on_def window_reorg_def ex_obs_def)

text \<open>
  Reorganisations escape that guarantee. The comparator does not look at the slot, so two
  reorganisations of different slots seen at the same instant tie, and the order in which Go iterates
  over its map of slots decides: two assemblers holding the same map yield two different timelines.
\<close>

lemma reorg_ties_follow_map_order:
  "\<exists>a b t u. map_of (as_observations a) = map_of (as_observations b) \<and>
     as_schedule a = as_schedule b \<and> as_duties a = as_duties b \<and> as_samples a = as_samples b \<and>
     as_networks a = as_networks b \<and>
     Build a 100 ex_start = Inr t \<and> Build b 100 ex_start = Inr u \<and> tl_Reorgs t \<noteq> tl_Reorgs u"
proof -
  define r :: "slot \<Rightarrow> Observation" where "r s = (ex_obs ObsReorg SourceBeaconAPI 5 [])\<lparr>obs_Slot := s\<rparr>" for s
  define a where "a = (NewAssembler MainnetPreEPBS)\<lparr>as_observations := [(101, [r 101]), (102, [r 102])]\<rparr>"
  define b where "b = (NewAssembler MainnetPreEPBS)\<lparr>as_observations := [(102, [r 102]), (101, [r 101])]\<rparr>"
  have less: "\<not> obs_less (r x) (r y)" for x y by (simp add: obs_less_def r_def time_Equal_def Before_def ex_obs_def)
  have kind: "obs_Kind (r x) = ObsReorg" for x by (simp add: r_def ex_obs_def)
  have draft: "build_draft ((NewAssembler MainnetPreEPBS)\<lparr>as_observations := [(x, [r x]), (y, [r y])]\<rparr>) 100 ex_start =
      \<lparr>tl_Slot = 100, tl_SlotStart = ex_start, tl_Schedule = MainnetPreEPBS, tl_Duty = None, tl_Observations = [],
       tl_Reorgs = [r x, r y], tl_Samples = [], tl_Network = None, tl_CollectionComplete = False\<rparr>"
    if "x \<in> {101, 102}" "y \<in> {101, 102}" for x y
    using that by (auto simp: build_draft_def observations_of_def window_reorgs_def sortObservations_def
        SliceStable_def sortSamples_def NewAssembler_def ex_window_end less kind)
  have valid: "Timeline_Validate \<lparr>tl_Slot = 100, tl_SlotStart = ex_start, tl_Schedule = MainnetPreEPBS, tl_Duty = None,
       tl_Observations = [], tl_Reorgs = [r x, r y], tl_Samples = [], tl_Network = None, tl_CollectionComplete = False\<rparr> = None"
    if "x \<in> {101, 102}" "y \<in> {101, 102}" for x y
    using that by (auto simp: ex_validate ex_start_def r_def ex_obs_def ex_window_end)
  have "Build a 100 ex_start = Inr (build_draft a 100 ex_start)" "Build b 100 ex_start = Inr (build_draft b 100 ex_start)"
    by (simp_all add: Build_def NewTimeline_def a_def b_def draft valid)
  moreover have "tl_Reorgs (build_draft a 100 ex_start) = [r 101, r 102]" "tl_Reorgs (build_draft b 100 ex_start) = [r 102, r 101]"
    by (simp_all add: a_def b_def draft)
  moreover have "r 101 \<noteq> r 102" by (auto simp: r_def dest: arg_cong [of _ _ obs_Slot])
  moreover have "map_of (as_observations a) = map_of (as_observations b)" by (auto simp: a_def b_def)
  ultimately show ?thesis
    by (intro exI [of _ a] exI [of _ b] exI [of _ "build_draft a 100 ex_start"] exI [of _ "build_draft b 100 ex_start"])
      (simp add: a_def b_def)
qed

text \<open>
  A replayed scenario is a valid timeline of the slot its first \<open>slot_start\<close> names, starts
  at the instant of its last one, and holds every recorded observation: those of the slot as its
  observations, the others, all reorganisations of the inclusion window, as its reorganisations.
\<close>

lemma Replay_contents:
  assumes "ReplayWithSamples oob obs samples schedule = Inr t"
  shows "Timeline_Validate t = None \<and> tl_Schedule t = schedule \<and>
    mset (tl_Observations t) + mset (tl_Reorgs t) = mset obs \<and> mset (tl_Samples t) = mset samples \<and>
    (\<exists>ob. List.find (\<lambda>ob. obs_Kind ob = ObsSlotStart) obs = Some ob \<and> tl_Slot t = obs_Slot ob) \<and>
    (\<exists>ob. List.find (\<lambda>ob. obs_Kind ob = ObsSlotStart) (rev obs) = Some ob \<and> tl_SlotStart t = obs_At ob)"
proof -
  obtain p a q where p: "List.find (\<lambda>ob. obs_Kind ob = ObsSlotStart) obs = Some p"
    and f: "first_foreign (obs_Slot p) 0 obs = None"
    and loop: "replay_loop oob (obs_Slot p) (foldl AddSample (NewAssembler schedule) samples, None) obs = Inr (a, Some q)"
    and b: "Build a (obs_Slot p) (obs_At q) = Inr t"
    using assms by (auto simp: ReplayWithSamples_def Let_def split: if_splits option.splits sum.splits)
  let ?s = "obs_Slot p" and ?a0 = "foldl AddSample (NewAssembler schedule) samples"
  note files = replay_loop_files [OF loop]
  have empty: "observations_of ?a0 ?s = []" "window_reorgs ?a0 ?s = []"
    by (simp_all add: observations_of_def window_reorgs_def NewAssembler_def)
  have o: "observations_of a ?s = filter (\<lambda>ob. obs_Slot ob = ?s) obs"
    and w: "mset (window_reorgs a ?s) = mset (filter (window_reorg ?s) obs)"
    using files(1) observations_of_adds [of ?a0 obs ?s] window_reorgs_adds [of ?a0 obs ?s] empty
    by (simp_all add: observations_of_def window_reorgs_def)
  have "window_reorg ?s ob \<longleftrightarrow> obs_Slot ob \<noteq> ?s" if "ob \<in> set obs" for ob
    using f that by (auto simp: first_foreign_None foreign_def window_reorg_def in_window_def)
  then have "filter (window_reorg ?s) obs = filter (\<lambda>ob. obs_Slot ob \<noteq> ?s) obs" by (intro filter_cong) auto
  then have "mset (filter (\<lambda>ob. obs_Slot ob = ?s) obs) + mset (filter (window_reorg ?s) obs) = mset obs"
    by (simp add: multiset_partition [symmetric])
  with Build_facts [OF b] o w files p show ?thesis
    by (auto simp: NewAssembler_def split: option.splits)
qed

lemma slot_start_replays:
  "ReplayWithSamples 0 [ex_obs ObsSlotStart SourceDerived 0 []] [] MainnetPreEPBS =
     Inr (build_draft (AddObservation (NewAssembler MainnetPreEPBS) (ex_obs ObsSlotStart SourceDerived 0 [])) 100 ex_start)"
proof -
  let ?o = "ex_obs ObsSlotStart SourceDerived 0 []"
  let ?a = "AddObservation (NewAssembler MainnetPreEPBS) ?o"
  have o: "obs_Kind ?o = ObsSlotStart" "obs_Slot ?o = 100" "obs_At ?o = ex_start"
    by (simp_all add: ex_obs_def ex_start_def Add_def)
  have "Timeline_Validate (build_draft ?a 100 ex_start) = None"
    by (simp add: build_draft_def observations_of_def window_reorgs_def sortObservations_def SliceStable_def sortSamples_def
        NewAssembler_def AddObservation_def ex_obs_def) (simp add: ex_validate ex_start_def)
  then show ?thesis by (simp add: ReplayWithSamples_def o foreign_def Build_def NewTimeline_def)
qed

end
