(* ===== verification/StoreTime.thy ===== *)
theory StoreTime
  imports GoStd "HOL-Library.Monad_Syntax"
begin

text \<open>
  The text form of a stored instant: \<open>timeLayout\<close> of \<open>internal/store/time.go\<close>, a fixed-width RFC 3339 layout
  with nine fractional digits. \<open>Format\<close> and \<open>Parse\<close> follow the library on this layout. The store orders and
  filters rows by comparing these texts byte by byte, which is sound exactly because the order of the texts is
  the order of the instants; that, and the round trip, are shown here for the years 1 to 9999.
\<close>

section \<open>The calendar\<close>

definition leap_year :: "int \<Rightarrow> bool" where
  "leap_year y \<longleftrightarrow> y mod 4 = 0 \<and> (y mod 100 \<noteq> 0 \<or> y mod 400 = 0)"

definition month_lengths :: "int \<Rightarrow> nat list" where
  "month_lengths y = [31, if leap_year y then 29 else 28, 31, 30, 31, 30, 31, 31, 30, 31, 30, 31]"

text \<open>Days from 1 January of year 1 to 1 January of the year.\<close>

definition days_before_year :: "int \<Rightarrow> int" where
  "days_before_year y = (let k = y - 1 in 365 * k + k div 4 - k div 100 + k div 400)"

text \<open>Year and day of the year, by the cycles of 400, 100, 4 and 1 years as the library cuts them.\<close>

definition civil_of_days :: "int \<Rightarrow> int \<times> nat" where
  "civil_of_days d =
     (let n400 = d div 146097; d1 = d mod 146097;
          n100 = d1 div 36524 - d1 div 36524 div 4; d2 = d1 - 36524 * n100;
          n4 = d2 div 1461; d3 = d2 mod 1461;
          n1 = d3 div 365 - d3 div 365 div 4
      in (400 * n400 + 100 * n100 + 4 * n4 + n1 + 1, nat (d3 - 365 * n1)))"

fun month_of :: "nat list \<Rightarrow> nat \<Rightarrow> nat \<times> nat" where
  "month_of [] d = (1, d + 1)"
| "month_of (l # ls) d =
     (if d < l then (1, d + 1) else (let (m, dd) = month_of ls (d - l) in (m + 1, dd)))"

section \<open>Format\<close>

text \<open>\<open>appendInt(b, x, width)\<close>.\<close>

definition appendInt :: "int \<Rightarrow> nat \<Rightarrow> string" where
  "appendInt x w = (if x < 0 then ''-'' else []) @ pad_zeros w (FormatUint (nat \<bar>x\<bar>))"

text \<open>\<open>t.Format(timeLayout)\<close> of an instant in UTC.\<close>

definition format_timeLayout :: "gotime \<Rightarrow> string" where
  "format_timeLayout t =
     (let (y, yday) = civil_of_days (t_ns t div 86400000000000);
          (m, d) = month_of (month_lengths y) yday;
          r = nat (t_ns t mod 86400000000000)
      in appendInt y 4 @ ''-'' @ appendInt (int m) 2 @ ''-'' @ appendInt (int d) 2 @ ''T'' @
         appendInt (int (r div 3600000000000)) 2 @ '':'' @ appendInt (int (r div 60000000000 mod 60)) 2 @ '':'' @
         appendInt (int (r div 1000000000 mod 60)) 2 @ ''.'' @ appendInt (int (r mod 1000000000)) 9 @ ''Z'')"

section \<open>Parse\<close>

definition getnum :: "bool \<Rightarrow> string \<Rightarrow> (nat \<times> string) option" where
  "getnum fixed s =
     (case s of
        a # b # r \<Rightarrow>
          if \<not> is_digit a then None
          else if is_digit b then Some (digits_val [a, b], r)
          else if fixed then None else Some (digits_val [a], b # r)
      | [a] \<Rightarrow> if is_digit a \<and> \<not> fixed then Some (digits_val [a], []) else None
      | [] \<Rightarrow> None)"

definition expect :: "char \<Rightarrow> string \<Rightarrow> string option" where
  "expect c s = (case s of x # r \<Rightarrow> if x = c then Some r else None | [] \<Rightarrow> None)"

definition parse_year :: "string \<Rightarrow> (nat \<times> string) option" where
  "parse_year s =
     (if length s < 4 \<or> \<not> list_all is_digit (take 4 s) then None else Some (digits_val (take 4 s), drop 4 s))"

text \<open>Ten bytes: a point or a comma and nine characters that \<open>atoi\<close> reads, a sign included.\<close>

definition parse_frac :: "string \<Rightarrow> (nat \<times> string) option" where
  "parse_frac s =
     (if length s < 10 \<or> hd s \<notin> {CHR ''.'', CHR '',''} then None
      else let field = take 9 (tl s);
               digits = (if hd field \<in> {CHR ''+'', CHR ''-''} then tl field else field)
           in if \<not> list_all is_digit digits then None
              else if hd field = CHR ''-'' \<and> digits_val digits \<noteq> 0 then None
              else Some (digits_val digits, drop 10 s))"

text \<open>The zone: \<open>Z\<close>, or a signed offset in hours and minutes; the offset in seconds.\<close>

definition parse_zone :: "string \<Rightarrow> (int \<times> string) option" where
  "parse_zone s =
     (if s \<noteq> [] \<and> hd s = CHR ''Z'' then Some (0, tl s)
      else if length s < 6 \<or> s ! 3 \<noteq> CHR '':'' then None
      else case (getnum True (take 2 (drop 1 s)), getnum True (take 2 (drop 4 s))) of
        (Some (hr, _), Some (mm, _)) \<Rightarrow>
          if hr > 24 \<or> mm > 60 then None
          else if hd s = CHR ''+'' then Some (int ((hr * 60 + mm) * 60), drop 6 s)
          else if hd s = CHR ''-'' then Some (- int ((hr * 60 + mm) * 60), drop 6 s)
          else None
      | _ \<Rightarrow> None)"

definition instant_of :: "int \<Rightarrow> nat \<Rightarrow> nat \<Rightarrow> nat \<Rightarrow> nat \<Rightarrow> nat \<Rightarrow> nat \<Rightarrow> int" where
  "instant_of y m d h mi sec ns =
     ((days_before_year y + int (sum_list (take (m - 1) (month_lengths y)) + d - 1)) * 86400 +
      int (h * 3600 + mi * 60 + sec)) * 1000000000 + int ns"

text \<open>\<open>time.Parse(timeLayout, s)\<close> read in UTC, as every caller does.\<close>

definition parse_timeLayout :: "string \<Rightarrow> gotime option" where
  "parse_timeLayout s0 = do {
     (y, s1) \<leftarrow> parse_year s0; s2 \<leftarrow> expect CHR ''-'' s1;
     (m, s3) \<leftarrow> getnum True s2; s4 \<leftarrow> (if m = 0 \<or> m > 12 then None else expect CHR ''-'' s3);
     (d, s5) \<leftarrow> getnum True s4; s6 \<leftarrow> expect CHR ''T'' s5;
     (h, s7) \<leftarrow> getnum False s6; s8 \<leftarrow> (if h \<ge> 24 then None else expect CHR '':'' s7);
     (mi, s9) \<leftarrow> getnum True s8; s10 \<leftarrow> (if mi \<ge> 60 then None else expect CHR '':'' s9);
     (sec, s11) \<leftarrow> getnum True s10;
     (ns, s12) \<leftarrow> (if sec \<ge> 60 then None else parse_frac s11);
     (off, s13) \<leftarrow> parse_zone s12;
     (if s13 \<noteq> [] \<or> d < 1 \<or> d > month_lengths (int y) ! (m - 1) then None
      else Some \<lparr>t_ns = instant_of (int y) m d h mi sec ns - off * 1000000000, t_loc = UTC\<rparr>)
   }"

section \<open>The calendar is consistent\<close>

definition year_length :: "int \<Rightarrow> int" where
  "year_length y = (if leap_year y then 366 else 365)"

lemma year_length_pos: "0 < year_length y"
  by (simp add: year_length_def)

lemma sum_month_lengths: "int (sum_list (month_lengths y)) = year_length y"
  by (simp add: month_lengths_def year_length_def)

lemma div_step:
  fixes y n :: int
  assumes "0 < n"
  shows "y div n = (y - 1) div n + (if y mod n = 0 then 1 else 0)"
proof (cases "y mod n = 0")
  case True
  then have "y - 1 = n * (y div n - 1) + (n - 1)" using div_mult_mod_eq [of y n] by (simp add: algebra_simps)
  then show ?thesis using True assms int_div_pos_eq [of "y - 1" n "y div n - 1" "n - 1"] by simp
next
  case False
  then have "0 \<le> y mod n - 1" using pos_mod_sign [OF assms, of y] by linarith
  moreover have "y - 1 = n * (y div n) + (y mod n - 1)" using mult_div_mod_eq [of n y] by linarith
  moreover have "y mod n - 1 < n" using pos_mod_bound [OF assms, of y] by linarith
  ultimately show ?thesis using False int_div_pos_eq [of "y - 1" n "y div n" "y mod n - 1"] by simp
qed

lemma leap_count:
  fixes y :: int
  assumes "y4 = k4 + (if b4 then 1 else 0)" "y100 = k100 + (if b100 then 1 else 0)" "y400 = k400 + (if b400 then 1 else 0)"
    "b400 \<Longrightarrow> b100" "b100 \<Longrightarrow> b4"
  shows "365 * y + y4 - y100 + y400 = 365 * (y - 1) + k4 - k100 + k400 + (if b4 \<and> (\<not> b100 \<or> b400) then 366 else 365)"
  using assms by (cases b4; cases b100; cases b400) simp_all

lemma days_before_year_Suc: "days_before_year (y + 1) = days_before_year y + year_length y"
  unfolding days_before_year_def year_length_def leap_year_def Let_def add_diff_cancel
  by (rule leap_count [OF div_step div_step div_step]; (rule zero_less_numeral)?)
    (use dvd_trans [of 100 400 y] dvd_trans [of 4 100 y] in \<open>simp_all only: mod_eq_0_iff_dvd dvd_numeral_simp, simp_all\<close>)

lemma days_before_year_mono:
  assumes "y < y'"
  shows "days_before_year y + year_length y \<le> days_before_year y'"
  using assms
proof (induction y' rule: int_gr_induct)
  case base
  show ?case by (simp add: days_before_year_Suc)
next
  case (step i)
  then show ?case by (simp add: days_before_year_Suc year_length_def)
qed

text \<open>Four periods of length \<open>L\<close> and one spare day, which the last period takes.\<close>

lemma cut_cycle:
  fixes x L :: int
  defines "n \<equiv> x div L - x div L div 4"
  assumes "0 \<le> x" "x \<le> 4 * L" "1 < L"
  shows "0 \<le> n" "n \<le> 3" "0 \<le> x - L * n" "x - L * n \<le> L" "n < 3 \<Longrightarrow> x - L * n < L"
proof -
  define q where "q = x div L"
  have "0 \<le> q" "q \<le> 4" using assms zdiv_mono1 [of x "4 * L" L] by (auto simp: q_def pos_imp_zdiv_nonneg_iff)
  moreover have "L * q \<le> x" "x < L * q + L"
    using assms(4) mult_div_mod_eq [of L x] pos_mod_bound [of L x] pos_mod_sign [of L x] unfolding q_def by linarith+
  moreover have "n = q - q div 4" by (simp add: n_def q_def)
  moreover have "q \<in> {0, 1, 2, 3, 4}" using \<open>0 \<le> q\<close> \<open>q \<le> 4\<close> by auto
  ultimately show "0 \<le> n" "n \<le> 3" "0 \<le> x - L * n" "x - L * n \<le> L" "n < 3 \<Longrightarrow> x - L * n < L"
    using assms by auto
qed

lemma leap_year_last_day:
  assumes "y = 400 * a + 100 * b + 4 * c + 4" "0 \<le> b" "b \<le> 3" "0 \<le> c" "c < 24 \<or> c = 24 \<and> b = 3"
  shows "leap_year y"
proof (cases "c = 24")
  case True
  then have "y = 400 * (a + 1)" using assms by simp
  then have "y mod 400 = 0" "y mod 4 = 0" by (simp, presburger)
  then show ?thesis by (simp add: leap_year_def)
next
  case False
  have "y = 100 * (4 * a + b) + (4 * c + 4)" using assms(1) by simp
  then have "y mod 100 = 4 * c + 4" by (rule int_mod_pos_eq) (use assms False in auto)
  moreover have "y mod 4 = 0" unfolding assms(1) by presburger
  ultimately show ?thesis using assms(4) by (simp add: leap_year_def)
qed

lemma civil_of_days_correct:
  assumes "civil_of_days d = (y, yday)"
  shows "d = days_before_year y + int yday" and "int yday < year_length y"
proof -
  define a where "a = d div 146097"
  define d1 where "d1 = d mod 146097"
  define b where "b = d1 div 36524 - d1 div 36524 div 4"
  define d2 where "d2 = d1 - 36524 * b"
  define c where "c = d2 div 1461"
  define d3 where "d3 = d2 mod 1461"
  define e where "e = d3 div 365 - d3 div 365 div 4"
  have yy: "y = 400 * a + 100 * b + 4 * c + e + 1" "yday = nat (d3 - 365 * e)"
    using assms unfolding civil_of_days_def Let_def a_def b_def c_def d1_def d2_def d3_def e_def prod.inject by blast+
  have d1: "0 \<le> d1" "d1 \<le> 4 * 36524" using pos_mod_bound [of 146097 d] by (simp_all add: d1_def)
  have b: "0 \<le> b" "b \<le> 3" "0 \<le> d2" "d2 \<le> 36524" "b < 3 \<Longrightarrow> d2 < 36524"
    unfolding d2_def b_def by (rule cut_cycle; use d1 in simp)+
  have d3: "d2 = 1461 * c + d3" "0 \<le> d3" "d3 < 1461" by (simp_all add: c_def d3_def)
  have c: "0 \<le> c" "c \<le> 24" "c = 24 \<Longrightarrow> d3 = 1460 \<Longrightarrow> b = 3" using b d3 by linarith+
  have e: "0 \<le> e" "e \<le> 3" "0 \<le> d3 - 365 * e" "d3 - 365 * e \<le> 365" "e < 3 \<Longrightarrow> d3 - 365 * e < 365"
    unfolding e_def by (rule cut_cycle; use d3 in simp)+
  have q: "(y - 1) div 4 = 100 * a + 25 * b + c" "(y - 1) div 100 = 4 * a + b" "(y - 1) div 400 = a"
    by (rule int_div_pos_eq [where r = e] int_div_pos_eq [where r = "4 * c + e"]
        int_div_pos_eq [where r = "100 * b + 4 * c + e"]; use b c e yy(1) in simp)+
  have "d = 146097 * a + d1" by (simp add: a_def d1_def)
  then show "d = days_before_year y + int yday"
    using d3(1) e(3) unfolding days_before_year_def Let_def q yy(2) d2_def by (simp add: yy(1))
  have "leap_year y" if "\<not> d3 - 365 * e < 365"
  proof -
    have "e = 3" "d3 = 1460" using that e d3 by linarith+
    with c b(1,2) yy(1) show ?thesis by (intro leap_year_last_day [of y a b c]) auto
  qed
  then have "leap_year y \<or> d3 - 365 * e < 365" by blast
  moreover have "int yday = d3 - 365 * e" using e(3) by (simp add: yy(2))
  ultimately show "int yday < year_length y" using e(4) unfolding year_length_def by (auto split: if_split)
qed

lemma month_of_correct:
  assumes "d < sum_list ls" "month_of ls d = (m, dd)"
  shows "1 \<le> m" "m \<le> length ls" "1 \<le> dd" "dd \<le> ls ! (m - 1)" "sum_list (take (m - 1) ls) + dd - 1 = d"
proof -
  have "1 \<le> m \<and> m \<le> length ls \<and> 1 \<le> dd \<and> dd \<le> ls ! (m - 1) \<and> sum_list (take (m - 1) ls) + dd - 1 = d"
    using assms
  proof (induction ls d arbitrary: m rule: month_of.induct)
    case (2 l ls d)
    show ?case
    proof (cases "d < l")
      case False
      then obtain m' where "m = m' + 1" "month_of ls (d - l) = (m', dd)"
        using "2.prems"(2) by (auto split: prod.splits)
      moreover have "d - l < sum_list ls" using "2.prems"(1) False by simp
      ultimately show ?thesis using "2.IH" [OF False, of m'] False by (auto simp: take_Cons' nth_Cons')
    qed (use "2.prems" in auto)
  qed simp
  then show "1 \<le> m" "m \<le> length ls" "1 \<le> dd" "dd \<le> ls ! (m - 1)" "sum_list (take (m - 1) ls) + dd - 1 = d" by auto
qed

lemma month_of_mono:
  assumes "d < d'" "d' < sum_list ls" "month_of ls d = (m, dd)" "month_of ls d' = (m', dd')"
  shows "m < m' \<or> m = m' \<and> dd < dd'"
  using assms
proof (induction ls arbitrary: d d' m m')
  case (Cons l ls)
  show ?case
  proof (cases "d < l")
    case True
    show ?thesis
    proof (cases "d' < l")
      case False
      moreover from this have "d' - l < sum_list ls" using Cons.prems(2) by simp
      ultimately show ?thesis using True Cons.prems(3,4) by (auto split: prod.splits dest: month_of_correct(1))
    qed (use True Cons.prems in auto)
  next
    case False
    then obtain k k' where "m = k + 1" "m' = k' + 1" "month_of ls (d - l) = (k, dd)" "month_of ls (d' - l) = (k', dd')"
      using Cons.prems by (auto split: prod.splits)
    with Cons.IH [of "d - l" "d' - l" k k'] Cons.prems False show ?thesis by auto
  qed
qed simp

section \<open>Order of the text\<close>

lemma appendInt_fixed: "0 < w \<Longrightarrow> n < 10 ^ w \<Longrightarrow> appendInt (int n) w = fixed_digits w n"
  by (simp add: appendInt_def pad_FormatUint)

text \<open>Texts of equal length compare by their first part, then by the rest.\<close>

lemma append_less_append:
  fixes x x' :: "'a :: linorder list"
  assumes "length x = length x'"
  shows "x @ y < x' @ y' \<longleftrightarrow> x < x' \<or> x = x' \<and> y < y'"
  using assms by (induction x x' rule: list_induct2) auto

lemma digit_char_less: "a < 10 \<Longrightarrow> b < 10 \<Longrightarrow> digit_char a < digit_char b \<longleftrightarrow> a < b"
  by (simp add: digit_char_def less_char_def)

lemma div_mod_less: "n < n' \<Longrightarrow> n div k < n' div k \<or> n div k = n' div k \<and> n mod k < n' mod k" for n n' k :: nat
  by (metis div_le_mono div_mult_mod_eq le_neq_implies_less nat_add_left_cancel_less order_less_imp_le)

lemma fixed_digits_less: "n < n' \<Longrightarrow> n' < 10 ^ w \<Longrightarrow> fixed_digits w n < fixed_digits w n'"
proof (induction w arbitrary: n n')
  case (Suc w)
  note div_mod_less [OF Suc.prems(1), of 10]
  moreover have "n' div 10 < 10 ^ w" using Suc.prems(2) by (simp add: less_mult_imp_div_less mult.commute)
  ultimately show ?case using Suc.IH by (auto simp: append_less_append digit_char_less)
qed simp

lemma field_less:
  assumes "n < 10 ^ w" "n' < 10 ^ w" "n < n' \<or> n = n' \<and> x < x'"
  shows "fixed_digits w n @ x < fixed_digits w n' @ x'"
  using assms by (auto simp: append_less_append fixed_digits_less)

section \<open>Instants of the years 1 to 9999\<close>

definition storable_time :: "gotime \<Rightarrow> bool" where
  "storable_time t \<longleftrightarrow> 0 \<le> t_ns t \<and> t_ns t < 3652059 * 86400000000000 \<and> t_loc t = UTC"

definition date_text :: "nat \<Rightarrow> nat \<Rightarrow> nat \<Rightarrow> string" where
  "date_text y m d = fixed_digits 4 y @ CHR ''-'' # fixed_digits 2 m @ CHR ''-'' # fixed_digits 2 d @ ''T''"

definition clock_text :: "nat \<Rightarrow> string" where
  "clock_text r = fixed_digits 2 (r div 3600000000000) @ CHR '':'' # fixed_digits 2 (r div 60000000000 mod 60) @ CHR '':'' #
     fixed_digits 2 (r div 1000000000 mod 60) @ CHR ''.'' # fixed_digits 9 (r mod 1000000000) @ ''Z''"

lemma date_text_length [simp]: "length (date_text y m d) = 11"
  by (simp add: date_text_def)

lemma month_lengths_props: "length (month_lengths y) = 12" "m < 12 \<Longrightarrow> month_lengths y ! m \<le> 31"
proof -
  show "length (month_lengths y) = 12" by (simp add: month_lengths_def)
  moreover have "\<forall>l \<in> set (month_lengths y). l \<le> 31" by (simp add: month_lengths_def)
  ultimately show "m < 12 \<Longrightarrow> month_lengths y ! m \<le> 31" by (metis nth_mem)
qed

lemma storable_year:
  assumes "civil_of_days d = (y, yday)" "0 \<le> d" "d < 3652059"
  shows "1 \<le> y" "y \<le> 9999"
proof -
  have yrs: "days_before_year 1 = 0" "days_before_year 10000 = 3652059" by (simp_all add: days_before_year_def)
  note c = civil_of_days_correct [OF assms(1)] yrs
  show "1 \<le> y" using c assms(2) days_before_year_mono [of y 1] by linarith
  have "\<not> 10000 < y" using c assms(3) days_before_year_mono [of 10000 y] year_length_pos [of 10000] by linarith
  moreover have "y \<noteq> 10000" using c assms(3) by auto
  ultimately show "y \<le> 9999" by linarith
qed

lemma format_fields:
  assumes "storable_time t" "civil_of_days (t_ns t div 86400000000000) = (y, yday)" "month_of (month_lengths y) yday = (m, d)"
  shows "format_timeLayout t = date_text (nat y) m d @ clock_text (nat (t_ns t mod 86400000000000))"
    and "1 \<le> y" "y \<le> 9999" "1 \<le> m" "m \<le> 12" "1 \<le> d" "d \<le> month_lengths y ! (m - 1)" "d \<le> 31"
    and "sum_list (take (m - 1) (month_lengths y)) + d - 1 = yday"
proof -
  have "0 \<le> t_ns t div 86400000000000" "t_ns t div 86400000000000 < 3652059"
    using assms(1) zdiv_mono1 [of "t_ns t" "3652059 * 86400000000000 - 1" 86400000000000]
    by (simp_all add: storable_time_def pos_imp_zdiv_nonneg_iff)
  note y = storable_year [OF assms(2) this]
  have "yday < sum_list (month_lengths y)"
    using civil_of_days_correct(2) [OF assms(2)] sum_month_lengths [of y] by linarith
  note m = month_of_correct [OF this assms(3)]
  have m12: "m \<le> 12" using m(2) by (simp add: month_lengths_props)
  then have d31: "d \<le> 31" using m(1,4) month_lengths_props(2) [of "m - 1" y] by linarith
  define r where "r = nat (t_ns t mod 86400000000000)"
  have r: "r < 86400000000000" using pos_mod_bound [of 86400000000000 "t_ns t"] by (simp add: r_def nat_less_iff)
  have h: "r div 3600000000000 < 100" using r by (simp add: div_less_iff_less_mult)
  obtain y' where y': "y = int y'" "y' < 10000" using y by (intro that [of "nat y"]) auto
  show "format_timeLayout t = date_text (nat y) m d @ clock_text (nat (t_ns t mod 86400000000000))"
    using y' m12 d31 h unfolding r_def [symmetric]
    by (simp add: format_timeLayout_def assms(2,3) [unfolded y'(1)] date_text_def clock_text_def appendInt_fixed r_def [symmetric])
  show "1 \<le> y" "y \<le> 9999" "1 \<le> m" "m \<le> 12" "1 \<le> d" "d \<le> month_lengths y ! (m - 1)" "d \<le> 31"
    "sum_list (take (m - 1) (month_lengths y)) + d - 1 = yday"
    using y m m12 d31 by auto
qed

section \<open>Text order is time order\<close>

lemma clock_units:
  fixes r :: nat
  shows "r div 60000000000 = r div 1000000000 div 60" "r div 3600000000000 = r div 1000000000 div 60 div 60"
  by (simp_all add: div_mult2_eq [symmetric])

lemma clock_lex:
  fixes S S' n n' :: nat
  assumes "S < S' \<or> S = S' \<and> n < n'"
  shows "S div 60 div 60 < S' div 60 div 60 \<or> S div 60 div 60 = S' div 60 div 60 \<and>
    (S div 60 mod 60 < S' div 60 mod 60 \<or> S div 60 mod 60 = S' div 60 mod 60 \<and>
     (S mod 60 < S' mod 60 \<or> S mod 60 = S' mod 60 \<and> n < n'))"
  using assms
proof (elim disjE conjE)
  assume "S < S'"
  then consider "S div 60 < S' div 60" | "S div 60 = S' div 60" "S mod 60 < S' mod 60" using div_mod_less by blast
  then show ?thesis
  proof cases
    case 1
    then show ?thesis using div_mod_less by blast
  next
    case 2
    then show ?thesis by (simp only:) blast
  qed
next
  assume "S = S'" "n < n'"
  then show ?thesis by (simp only:) blast
qed

lemma clock_fields_less:
  assumes "h < h' \<or> h = h' \<and> (mi < mi' \<or> mi = mi' \<and> (s < s' \<or> s = s' \<and> ns < ns'))"
    "h < 10 ^ 2" "h' < 10 ^ 2" "mi < 100" "mi' < 100" "s < 100" "s' < 100" "ns < 1000000000" "ns' < 1000000000"
  shows "fixed_digits 2 h @ CHR '':'' # fixed_digits 2 mi @ CHR '':'' # fixed_digits 2 s @ CHR ''.'' # fixed_digits 9 ns @ ''Z'' <
    fixed_digits 2 h' @ CHR '':'' # fixed_digits 2 mi' @ CHR '':'' # fixed_digits 2 s' @ CHR ''.'' # fixed_digits 9 ns' @ ''Z''"
  using assms by (intro field_less) (auto intro!: field_less)

lemma clock_text_less:
  assumes "r < r'" "r' < 86400000000000"
  shows "clock_text r < clock_text r'"
proof -
  have h: "r div 3600000000000 < 10 ^ 2" "r' div 3600000000000 < 10 ^ 2"
    using assms by (simp_all add: div_less_iff_less_mult)
  have lex: "r div 3600000000000 < r' div 3600000000000 \<or> r div 3600000000000 = r' div 3600000000000 \<and>
      (r div 60000000000 mod 60 < r' div 60000000000 mod 60 \<or> r div 60000000000 mod 60 = r' div 60000000000 mod 60 \<and>
       (r div 1000000000 mod 60 < r' div 1000000000 mod 60 \<or> r div 1000000000 mod 60 = r' div 1000000000 mod 60 \<and>
        r mod 1000000000 < r' mod 1000000000))"
    unfolding clock_units
    by (rule clock_lex [OF div_mod_less [OF assms(1)]])
  show ?thesis unfolding clock_text_def
    by (rule clock_fields_less [OF lex]; (rule h)?) (simp_all add: order_less_trans [OF mod_less_divisor])
qed

lemma date_text_less:
  assumes "y < y' \<or> y = y' \<and> (m < m' \<or> m = m' \<and> d < d')" "y' < 10000" "m < 100" "m' < 100" "d < 100" "d' < 100"
  shows "date_text y m d < date_text y' m' d'"
  using assms unfolding date_text_def by (intro field_less) (auto intro!: field_less)

lemma format_timeLayout_less:
  assumes t: "storable_time t" and t': "storable_time t'" and less: "t_ns t < t_ns t'"
  shows "format_timeLayout t < format_timeLayout t'"
proof -
  let ?D = "86400000000000 :: int"
  obtain y yday m d y' yday' m' d' where
    e: "civil_of_days (t_ns t div ?D) = (y, yday)" "month_of (month_lengths y) yday = (m, d)"
    and e': "civil_of_days (t_ns t' div ?D) = (y', yday')" "month_of (month_lengths y') yday' = (m', d')"
    by (metis surj_pair)
  note f = format_fields [OF t e] and f' = format_fields [OF t' e']
  note c = civil_of_days_correct [OF e(1)] and c' = civil_of_days_correct [OF e'(1)]
  have "t_ns t div ?D \<le> t_ns t' div ?D" using less by (simp add: zdiv_mono1)
  then consider "t_ns t div ?D < t_ns t' div ?D" | "t_ns t div ?D = t_ns t' div ?D" by linarith
  then show ?thesis
  proof cases
    case 1
    then have "y < y' \<or> y = y' \<and> yday < yday'"
      using c c' days_before_year_mono [of y' y] by (cases y y' rule: linorder_cases) auto
    moreover have "m < m' \<or> m = m' \<and> d < d'" if "y = y'" "yday < yday'"
      using month_of_mono [OF that(2) _ _ e'(2)] e(2) that(1) c'(2) sum_month_lengths [of y'] by auto
    ultimately have "date_text (nat y) m d < date_text (nat y') m' d'"
      using f f' by (intro date_text_less) auto
    then show ?thesis by (simp add: f(1) f'(1) append_less_append)
  next
    case 2
    then have "t_ns t mod ?D < t_ns t' mod ?D" using less mult_div_mod_eq [of ?D "t_ns t"] mult_div_mod_eq [of ?D "t_ns t'"] by linarith
    then have "clock_text (nat (t_ns t mod ?D)) < clock_text (nat (t_ns t' mod ?D))"
      using pos_mod_bound [of ?D "t_ns t'"] by (intro clock_text_less) (auto simp: nat_less_iff)
    moreover have "date_text (nat y) m d = date_text (nat y') m' d'" using 2 e e' by simp
    ultimately show ?thesis by (simp add: f(1) f'(1) append_less_append)
  qed
qed

text \<open>
  Property C36: for the years 1 to 9999 the byte order of the stored texts is the order of the instants, and two texts
  are equal only for the same instant; so \<open>ORDER BY at\<close> and \<open>WHERE at < ?\<close> of the store's queries compare times.
\<close>

theorem timeLayout_orders_time:
  assumes "storable_time t" "storable_time t'"
  shows "(format_timeLayout t < format_timeLayout t') = Before t t' \<and>
    (format_timeLayout t = format_timeLayout t') = (t = t')"
proof (intro conjI)
  note less = format_timeLayout_less [OF assms] format_timeLayout_less [OF assms(2,1)]
  have eq: "t = t'" if "t_ns t = t_ns t'" using that assms by (simp add: storable_time_def)
  show "(format_timeLayout t < format_timeLayout t') = Before t t'"
    using less by (cases "t_ns t" "t_ns t'" rule: linorder_cases) (auto simp: Before_def dest: eq)
  show "(format_timeLayout t = format_timeLayout t') = (t = t')"
    using less by (cases "t_ns t" "t_ns t'" rule: linorder_cases) (auto dest: eq)
qed

theorem timeLayout_orders_time_witness:
  "format_timeLayout \<lparr>t_ns = 63823075200000000000, t_loc = UTC\<rparr> < format_timeLayout \<lparr>t_ns = 63823075200600000000, t_loc = UTC\<rparr>"
  using timeLayout_orders_time [of "\<lparr>t_ns = 63823075200000000000, t_loc = UTC\<rparr>" "\<lparr>t_ns = 63823075200600000000, t_loc = UTC\<rparr>"]
  by (simp add: storable_time_def Before_def)

section \<open>Reading back\<close>

lemma getnum_fixed: "n < 100 \<Longrightarrow> getnum fixed (fixed_digits 2 n @ s) = Some (n, s)"
  by (simp add: getnum_def numeral_2_eq_2 digits_val_def)

lemma parse_year_fixed: "n < 10000 \<Longrightarrow> parse_year (fixed_digits 4 n @ s) = Some (n, s)"
  by (simp add: parse_year_def fixed_digits_val)

lemma parse_frac_fixed:
  assumes "n < 1000000000"
  shows "parse_frac (CHR ''.'' # fixed_digits 9 n @ s) = Some (n, s)"
proof -
  have "fixed_digits 9 n \<noteq> []" using fixed_digits_props(1) [of 9 n] by (metis length_0_conv zero_neq_numeral)
  then have "is_digit (hd (fixed_digits 9 n))" using fixed_digits_props(2) [of 9 n] by (metis hd_in_set list_all_iff)
  then have "hd (fixed_digits 9 n) \<notin> {CHR ''+'', CHR ''-''}" using is_digit_not_sign by auto
  then show ?thesis using assms by (simp add: parse_frac_def fixed_digits_val Let_def)
qed

lemma parse_fields:
  assumes "y < 10000" "1 \<le> m" "m \<le> 12" "1 \<le> d" "d \<le> month_lengths (int y) ! (m - 1)" "d \<le> 31" "h < 24" "mi < 60" "sec < 60"
    "ns < 1000000000"
  shows "parse_timeLayout (date_text y m d @ fixed_digits 2 h @ CHR '':'' # fixed_digits 2 mi @ CHR '':'' # fixed_digits 2 sec @
      CHR ''.'' # fixed_digits 9 ns @ ''Z'') = Some \<lparr>t_ns = instant_of (int y) m d h mi sec ns, t_loc = UTC\<rparr>"
  using assms
  by (simp add: parse_timeLayout_def date_text_def parse_year_fixed expect_def getnum_fixed parse_frac_fixed parse_zone_def)

lemma parse_format_timeLayout:
  assumes "storable_time t"
  shows "parse_timeLayout (format_timeLayout t) = Some t"
proof -
  let ?D = "86400000000000 :: int"
  obtain y yday m d where e: "civil_of_days (t_ns t div ?D) = (y, yday)" "month_of (month_lengths y) yday = (m, d)"
    by (metis surj_pair)
  note f = format_fields [OF assms e]
  define r where "r = nat (t_ns t mod ?D)"
  have r: "r < 86400000000000" "int r = t_ns t mod ?D"
    using pos_mod_bound [of ?D "t_ns t"] by (simp_all add: r_def nat_less_iff)
  obtain y' where y': "y = int y'" "y' < 10000" using f(2,3) by (intro that [of "nat y"]) auto
  have h: "r div 3600000000000 < 24" using r(1) by (simp add: div_less_iff_less_mult)
  have "instant_of y m d (r div 3600000000000) (r div 60000000000 mod 60) (r div 1000000000 mod 60) (r mod 1000000000) = t_ns t"
  proof -
    have "r div 3600000000000 * 3600 + r div 60000000000 mod 60 * 60 + r div 1000000000 mod 60 = r div 1000000000"
      unfolding clock_units using div_mult_mod_eq [of "r div 1000000000 div 60" 60] div_mult_mod_eq [of "r div 1000000000" 60]
      by linarith
    moreover have "int (r div 1000000000) * 1000000000 + int (r mod 1000000000) = int r"
      by (metis div_mult_mod_eq of_nat_add of_nat_mult of_nat_numeral)
    moreover have "t_ns t = t_ns t div ?D * ?D + int r" by (simp add: r(2))
    ultimately show ?thesis
      unfolding instant_of_def f(9) civil_of_days_correct(1) [OF e(1), symmetric] by (simp add: algebra_simps)
  qed
  moreover have "parse_timeLayout (format_timeLayout t) = Some \<lparr>t_ns = instant_of y m d (r div 3600000000000)
      (r div 60000000000 mod 60) (r div 1000000000 mod 60) (r mod 1000000000), t_loc = UTC\<rparr>"
    using f(4-8) h y' unfolding f(1) r_def [symmetric] clock_text_def y'(1) nat_int by (intro parse_fields) simp_all
  ultimately show ?thesis using assms by (simp add: storable_time_def)
qed

end
