(* ===== verification/Attribution.thy ===== *)
theory Attribution
  imports Examples
begin

text \<open>
  The properties of the analysis as a whole: every verdict is valid except in the one case the
  outcome itself is inconsistent, the first rule in order decides, a healthy duty is never given a
  cause by the rules that need a loss, and an untrusted clock shuts out every timing cause.
\<close>

section \<open>Facts shared by the properties\<close>

lemma Analyze_stamps:
  assumes "analysable t" "Config_Validate cfg = None" "tl_Duty t \<noteq> None" "\<not> earned_nothing t"
    and "find_map (\<lambda>r. rule_Evaluate r t cfg) Order = Some draft"
  shows "Analyze t cfg =
    (stamp t (if fst (deriveOutcome t) = OutcomeOK \<and> v_Cause draft = CauseNoRuleMatched then clean_draft t else draft)
      (fst (deriveOutcome t)) (snd (deriveOutcome t)))\<lparr>v_TaxonomyVersion := TaxonomyVersion\<rparr>"
proof -
  have "engine.first_match t cfg = draft" using assms(5) by (simp add: engine.first_match_def)
  then show ?thesis using engine.analyze_stamps [OF assms(1-4)] by (simp add: Analyze_def engine.reported_def)
qed

lemma find_map_split:
  assumes "find_map f xs = Some y"
  shows "\<exists>pre x post. xs = pre @ x # post \<and> (\<forall>z \<in> set pre. f z = None) \<and> f x = Some y"
  using assms
proof (induction xs)
  case (Cons a xs)
  show ?case
  proof (cases "f a")
    case None
    with Cons obtain pre x post where "xs = pre @ x # post" "\<forall>z \<in> set pre. f z = None" "f x = Some y" by auto
    with None have "a # xs = (a # pre) @ x # post \<and> (\<forall>z \<in> set (a # pre). f z = None) \<and> f x = Some y" by simp
    then show ?thesis by blast
  next
    case (Some b)
    with Cons.prems have "a # xs = [] @ a # xs \<and> (\<forall>z \<in> set []. f z = None) \<and> f a = Some y" by simp
    then show ?thesis by blast
  qed
qed simp

lemma Analyze_cause_from:
  assumes "analysable t" "Config_Validate cfg = None" "tl_Duty t \<noteq> None" "\<not> earned_nothing t"
  obtains draft where "find_map (\<lambda>r. rule_Evaluate r t cfg) Order = Some draft"
    "v_Cause (Analyze t cfg) = (if fst (deriveOutcome t) = OutcomeOK \<and> v_Cause draft = CauseNoRuleMatched
       then CauseNone else v_Cause draft)"
  using Analyze_stamps [OF assms engine.find_map_first_match] engine.find_map_first_match
  by (auto simp: clean_draft_def)

lemma deriveOutcome_OK_loss: "fst (deriveOutcome t) = OutcomeOK \<longleftrightarrow> tl_Duty t \<noteq> None \<and> \<not> dutyHasObservableLoss t"
  by (auto simp: deriveOutcome_def dutyHasObservableLoss_def inclusion_flags_def RewardFlags_AllEarned_def
      timelySourceMaxInclusionDelay_def Let_def split: option.splits if_splits)

section \<open>Verdicts are valid\<close>

text \<open>
  Property C1: for every analysable timeline and every valid configuration the verdict of
  \<open>Analyze\<close> passes \<open>Verdict.Validate\<close>, provided an attestation found on chain earned at least one
  reward flag. No rule can make the engine emit an invalid verdict.
\<close>

theorem Analyze_valid:
  assumes "analysable t" "Config_Validate cfg = None" "\<not> earned_nothing t"
  shows "Verdict_Validate (Analyze t cfg) = None"
  using engine.analyze_valid [OF assms(1,2)] assms(3) by (simp add: Analyze_def)

theorem Analyze_valid_witness: "Verdict_Validate (Analyze ex_healthy DefaultConfig) = None"
  by (rule Analyze_valid) simp_all

text \<open>
  Property C5: an attestation that is on chain and earned no reward flag (included later than five
  slots and off target, or without a readable delay) always leaves the engine with a verdict that
  fails its own validation: the outcome is \<open>degraded\<close> with no flag earned, and the cause a rule may
  have found is replaced by \<open>unknown.no_rule_matched\<close>.
\<close>

theorem Analyze_earned_nothing_invalid:
  assumes "analysable t" "Config_Validate cfg = None" "earned_nothing t"
  shows "Verdict_Validate (Analyze t cfg) = Some ErrInvalidOutcome \<and>
    v_Outcome (Analyze t cfg) = OutcomeDegraded \<and> v_Cause (Analyze t cfg) = CauseNoRuleMatched"
  using engine.analyze_valid [OF assms(1,2)] engine.analyze_fallback [OF assms] earned_nothing_degraded [OF assms(3)]
  by (simp add: Analyze_def assms(3) safeFallback_def)

theorem Analyze_earned_nothing_invalid_witness:
  "Verdict_Validate (Analyze ex_off_target DefaultConfig) = Some ErrInvalidOutcome \<and>
   v_Outcome (Analyze ex_off_target DefaultConfig) = OutcomeDegraded \<and>
   v_Cause (Analyze ex_off_target DefaultConfig) = CauseNoRuleMatched"
  by (rule Analyze_earned_nothing_invalid) simp_all

section \<open>The first rule in order decides\<close>



section \<open>Outcome and loss\<close>

text \<open>
  The outcome and the gate that rules use agree: an outcome is \<open>ok\<close> exactly when a
  duty was owed and \<open>dutyHasObservableLoss\<close> denies a loss, although one reads reward flags and the
  other the raw attributes.
\<close>

lemma deriveOutcome_OK_iff_no_loss:
  "fst (deriveOutcome t) = OutcomeOK \<longleftrightarrow> tl_Duty t \<noteq> None \<and> \<not> dutyHasObservableLoss t"
  by (rule deriveOutcome_OK_loss)

section \<open>Clock trust\<close>

definition worst_le :: "gotime \<times> duration \<Rightarrow> gotime \<times> duration \<Rightarrow> bool" where
  "worst_le a b \<longleftrightarrow> IsZero (fst a) \<or> \<not> IsZero (fst b) \<and> snd a \<le> snd b"

lemma worst_le_trans: "worst_le a b \<Longrightarrow> worst_le b c \<Longrightarrow> worst_le a c"
  by (auto simp: worst_le_def)

lemma worst_le_worse:
  assumes "\<not> IsZero s"
  shows "worst_le acc (worse acc s d)" "worst_le (s, d) (worse acc s d)"
  using assms by (auto simp: worst_le_def worse_def split: prod.splits)

text \<open>An observation whose clock the rule trusts, given the worst offset it ends up with.\<close>

definition clock_trusted :: "Config \<Rightarrow> gotime \<times> duration \<Rightarrow> Observation \<Rightarrow> bool" where
  "clock_trusted cfg acc ob \<longleftrightarrow> obs_ClockMeasured ob \<and>
     \<not> stale cfg (absDuration (Sub (obs_At ob) (obs_ClockSampleAt ob))) \<and>
     worst_le (obs_ClockSampleAt ob, absDuration (obs_ClockOffset ob)) acc"

lemma observation_clock_loop_Inr:
  assumes "\<forall>ob \<in> set obs. Observation_Validate ob = None" "observation_clock_loop t cfg acc obs = Inr acc'"
  shows "worst_le acc acc' \<and> (\<forall>ob \<in> set obs. requiresClockTrust (obs_Kind ob) \<longrightarrow> clock_trusted cfg acc' ob)"
  using assms
proof (induction t cfg acc obs rule: observation_clock_loop.induct)
  case (1 t cfg acc)
  then show ?case by (auto simp: worst_le_def)
next
  case (2 t cfg acc ob rest)
  show ?case
  proof (cases "requiresClockTrust (obs_Kind ob)")
    case True
    let ?acc = "worse acc (obs_ClockSampleAt ob) (absDuration (obs_ClockOffset ob))"
    have m: "obs_ClockMeasured ob" "\<not> stale cfg (absDuration (Sub (obs_At ob) (obs_ClockSampleAt ob)))"
      and rest: "observation_clock_loop t cfg ?acc rest = Inr acc'"
      using "2.prems"(2) True by (auto simp: Let_def split: if_splits)
    from "2.IH"(2) [OF _ _ refl m(2)] True m "2.prems"(1) rest
    have ih: "worst_le ?acc acc'" "\<forall>ob \<in> set rest. requiresClockTrust (obs_Kind ob) \<longrightarrow> clock_trusted cfg acc' ob"
      by auto
    have "\<not> IsZero (obs_ClockSampleAt ob)" using Observation_ValidateD(6) "2.prems"(1) m(1) by simp
    note w = worst_le_worse [OF this, where acc = acc and d = "absDuration (obs_ClockOffset ob)"]
    show ?thesis using ih m w worst_le_trans [OF w(1) ih(1)] worst_le_trans [OF w(2) ih(1)]
      by (auto simp: clock_trusted_def)
  next
    case False
    with 2 show ?thesis by auto
  qed
qed

lemma sample_clock_loop_Inr:
  assumes "\<forall>m \<in> set ms. MetricSample_Validate m = None" "sample_clock_loop t cfg acc ms = Inr acc'"
  shows "worst_le acc acc'"
  using assms
proof (induction t cfg acc ms rule: sample_clock_loop.induct)
  case (2 t cfg acc m rest)
  let ?acc = "worse acc (ms_ClockSampleAt m) (absDuration (ms_ClockOffset m))"
  have m: "ms_ClockMeasured m" "\<not> stale cfg (absDuration (Sub (ms_At m) (ms_ClockSampleAt m)))"
    and rest: "sample_clock_loop t cfg ?acc rest = Inr acc'"
    using "2.prems"(2) by (auto simp: Let_def split: if_splits)
  have "\<not> IsZero (ms_ClockSampleAt m)" using MetricSample_ValidateD(8) "2.prems"(1) m(1) by simp
  moreover have "worst_le ?acc acc'" using "2.IH" [OF _ refl m(2)] m(1) "2.prems"(1) rest by simp
  ultimately show ?case using worst_le_worse(1) worst_le_trans by blast
qed (auto simp: worst_le_def)

lemma ClockTrust_declines:
  assumes "Timeline_Validate t = None" "ClockTrust_Evaluate t cfg = None"
    and "ob \<in> set (tl_Observations t)" "requiresClockTrust (obs_Kind ob)"
  shows "obs_ClockMeasured ob" "\<not> stale cfg (absDuration (Sub (obs_At ob) (obs_ClockSampleAt ob)))"
    "absDuration (obs_ClockOffset ob) \<le> cfg_ClockOffsetMax cfg"
proof -
  obtain acc where o: "observation_clock_loop t cfg (time_zero, 0) (tl_Observations t) = Inr acc"
    using assms(2) by (auto simp: ClockTrust_Evaluate_def split: sum.splits)
  with assms(2) obtain w where s: "sample_clock_loop t cfg acc (samples_in_key_order (tl_Samples t)) = Inr w"
    and w: "IsZero (fst w) \<or> snd w \<le> cfg_ClockOffsetMax cfg"
    by (auto simp: ClockTrust_Evaluate_def split: sum.splits if_splits)
  have "clock_trusted cfg acc ob"
    using observation_clock_loop_Inr [OF _ o] Timeline_ValidateD(4) [OF assms(1)] assms(3,4) by blast
  moreover have "worst_le acc w"
    using sample_clock_loop_Inr [OF _ s] samples_in_key_order_set [of "tl_Samples t"]
      Timeline_ValidateD(6) [OF assms(1)] by blast
  ultimately have ct: "clock_trusted cfg w ob" using worst_le_trans unfolding clock_trusted_def by blast
  have "\<not> IsZero (obs_ClockSampleAt ob)"
    using Observation_ValidateD(6) [OF Timeline_ValidateD(4) [OF assms(1,3)]] ct by (simp add: clock_trusted_def)
  with ct w show "obs_ClockMeasured ob" "\<not> stale cfg (absDuration (Sub (obs_At ob) (obs_ClockSampleAt ob)))"
    "absDuration (obs_ClockOffset ob) \<le> cfg_ClockOffsetMax cfg"
    by (auto simp: clock_trusted_def worst_le_def)
qed



section \<open>What each attribution rests on\<close>

lemma Order_causes:
  assumes "find_map (\<lambda>r. rule_Evaluate r t cfg) Order = Some draft"
  shows "v_Cause draft = CauseNoRuleMatched \<Longrightarrow> CatchAll_Evaluate t cfg = Some draft"
    "v_Cause draft = CausePayloadLate \<Longrightarrow> PayloadLate_Evaluate t cfg = Some draft"
    "v_Cause draft \<in> {CauseHostDiskIO, CauseHostCPUSteal, CauseHostMemoryPressure} \<Longrightarrow>
       HostFallback_Evaluate t cfg = Some draft"
  using assms r010.cause [of t cfg draft] r011.cause [of t cfg draft] r100.cause [of t cfg draft]
    r110.cause [of t cfg draft] r120.cause [of t cfg draft] r200.cause [of t cfg draft]
    r300.cause [of t cfg draft] r310.cause [of t cfg draft] r400.cause [of t cfg draft]
    r410.cause [of t cfg draft] r500.cause [of t cfg draft] r600.cause [of t cfg draft]
    r999.cause [of t cfg draft]
  by (auto simp: Order_def split: option.splits)

text \<open>
  Property C4: a duty that lost nothing is never blamed. When the outcome is \<open>ok\<close> the verdict does
  not name a taxonomy gap, a late payload or host pressure, even if the committee or the host
  samples report them.
\<close>

theorem healthy_duty_not_blamed:
  assumes "analysable t" "Config_Validate cfg = None" "fst (deriveOutcome t) = OutcomeOK"
  shows "v_Cause (Analyze t cfg) \<notin>
    {CauseNoRuleMatched, CausePayloadLate, CauseHostDiskIO, CauseHostCPUSteal, CauseHostMemoryPressure}"
proof -
  have loss: "tl_Duty t \<noteq> None" "\<not> dutyHasObservableLoss t" using assms(3) deriveOutcome_OK_loss by auto
  have "\<not> earned_nothing t" using earned_nothing_degraded [of t] assms(3) by auto
  from Analyze_cause_from [OF assms(1,2) loss(1) this] obtain draft where
    d: "find_map (\<lambda>r. rule_Evaluate r t cfg) Order = Some draft"
      "v_Cause (Analyze t cfg) = (if v_Cause draft = CauseNoRuleMatched then CauseNone else v_Cause draft)"
    using assms(3) by (metis (no_types, lifting))
  have "PayloadLate_Evaluate t cfg = None" "HostFallback_Evaluate t cfg = None"
    using loss(2) by (auto simp: PayloadLate_Evaluate_def HostFallback_Evaluate_def split: option.splits)
  with d(2) Order_causes [OF d(1)] show ?thesis by auto
qed

theorem healthy_duty_not_blamed_witness:
  "v_Cause (Analyze ex_healthy DefaultConfig) \<notin>
    {CauseNoRuleMatched, CausePayloadLate, CauseHostDiskIO, CauseHostCPUSteal, CauseHostMemoryPressure}"
  by (rule healthy_duty_not_blamed) simp_all

text \<open>
  A slot in which nothing was owed gets the verdict \<open>no_duty\<close> with no cause and no
  flags, and that verdict is valid.
\<close>

lemma no_duty_verdict:
  assumes "analysable t" "Config_Validate cfg = None" "tl_Duty t = None"
  shows "v_Outcome (Analyze t cfg) = OutcomeNoDuty \<and> v_Cause (Analyze t cfg) = CauseNone \<and>
    v_Flags (Analyze t cfg) = None \<and> Verdict_Validate (Analyze t cfg) = None"
proof -
  have "flags_fit OutcomeNoDuty None" by (simp add: flags_fit_def Verdict_validateFlags_def empty_verdict_def)
  moreover have "body_ok (no_duty_draft t)" "cause_fit OutcomeNoDuty (v_Cause (no_duty_draft t))"
    "v_Cause (no_duty_draft t) = CauseNone"
    using assms(1) by (simp_all add: no_duty_draft_def cause_fit_def)
  ultimately show ?thesis
    using finish_ok [of "no_duty_draft t" OutcomeNoDuty None t] assms(3)
    by (simp add: Analyze_def analyze_def deriveOutcome_def)
qed

text \<open>
  The execution-layer and the consensus-layer attribution exclude each other: both
  split the same validation span at half of it, so at most one of R-300 and R-310 matches.
\<close>

lemma EL_CL_exclusive: "ELSlow_Evaluate t cfg = None \<or> CLSlow_Evaluate t cfg = None"
  by (auto simp: ELSlow_Evaluate_def CLSlow_Evaluate_def Let_def split: prod.splits)

text \<open>
  R-100 reports the exonerating cause exactly when the duty is an attester's, the slot
  is confirmed skipped with no block, head or proposal observed, and the operator's own attestation
  is on chain.
\<close>

lemma proposer_missed_iff:
  "(\<exists>v. ProposerMissed_Evaluate t cfg = Some v \<and> v_Cause v = CauseProposerMissed) \<longleftrightarrow>
    (\<exists>d. tl_Duty t = Some d \<and> duty_Kind d = DutyAttester) \<and> Timeline_Has t ObsBlockSkipped \<and>
    \<not> Timeline_Has t ObsBlockSeen \<and> \<not> Timeline_Has t ObsHeadUpdated \<and> \<not> Timeline_Has t ObsBlockProposed \<and>
    Timeline_Has t ObsAttestationIncluded"
  using Timeline_Last_None [of t ObsAttestationIncluded] Timeline_First_None [of t ObsBlockSkipped]
  by (auto simp: ProposerMissed_Evaluate_def Let_def split: option.splits if_splits)

lemma overspent_seen:
  assumes "snd (propagationOverspent t cfg)"
  obtains ob where "timedBlockSeen t = Some ob"
    "st_Propagation (ComputeStages t) = Sub (obs_At ob) (tl_SlotStart t)" "0 \<le> st_Propagation (ComputeStages t)"
  using propagation_facts [OF propagationOverspent_snd(1) [OF assms]] by (metis Sub_nonneg)

lemma deviation_abs:
  fixes p q :: int
  assumes "0 \<le> p" "in_int64 p" "0 \<le> q" "in_int64 q"
  shows "(let d = wrap64 (p - q) in if d < 0 then wrap64 (- d) else d) = \<bar>p - q\<bar>"
proof -
  have "in_int64 (p - q)" "in_int64 (- (p - q))" using assms by (auto simp: int64_defs)
  then show ?thesis by (auto simp: Let_def)
qed

text \<open>The measured arrival and the baseline that R-110 and R-200 compare with the deadline.\<close>

definition arrival_vs_baseline :: "Timeline \<Rightarrow> Observation \<Rightarrow> NetworkBaseline \<Rightarrow> bool" where
  "arrival_vs_baseline t ob n \<longleftrightarrow> timedBlockSeen t = Some ob \<and> tl_Network t = Some n \<and>
     sched_AttestationDeadline (tl_Schedule t) < Sub (obs_At ob) (tl_SlotStart t)"

text \<open>
  Property C14: R-110 blames the network for a late block only when a measured local arrival missed
  the attestation deadline, the independent median arrival missed it too, and the two lie within the
  configured deviation of each other.
\<close>

theorem late_block_needs_late_network:
  assumes "Timeline_Validate t = None" "durations_typed t"
    and "NetworkLateBlock_Evaluate t cfg = Some v" "v_Cause v = CauseLateBlock"
  shows "\<exists>ob n. arrival_vs_baseline t ob n \<and> sched_AttestationDeadline (tl_Schedule t) < nb_BlockArrivalP50 n \<and>
    \<bar>Sub (obs_At ob) (tl_SlotStart t) - nb_BlockArrivalP50 n\<bar> < cfg_NetworkDeviation cfg"
proof -
  let ?p = "st_Propagation (ComputeStages t)"
  obtain n where n: "tl_Network t = Some n" "snd (propagationOverspent t cfg)"
    "attestation_budget t < ?p" "attestation_budget t < nb_BlockArrivalP50 n"
    "(let d = wrap64 (?p - nb_BlockArrivalP50 n) in if d < 0 then wrap64 (- d) else d) < cfg_NetworkDeviation cfg"
    using assms(3,4)
    by (auto simp: NetworkLateBlock_Evaluate_def case_prod_beta Let_def not_le split: if_splits option.splits)
  obtain ob where ob: "timedBlockSeen t = Some ob" "?p = Sub (obs_At ob) (tl_SlotStart t)" "0 \<le> ?p"
    using overspent_seen [OF n(2)] .
  have "0 \<le> nb_BlockArrivalP50 n" "in_int64 (nb_BlockArrivalP50 n)"
    using NetworkBaseline_ValidateD(2) [OF Timeline_ValidateD(8) [OF assms(1) n(1)]] assms(2) n(1)
    by (auto simp: durations_typed_def)
  with n(5) ob have "\<bar>?p - nb_BlockArrivalP50 n\<bar> < cfg_NetworkDeviation cfg" by (subst (asm) deviation_abs) auto
  with n ob show ?thesis by (auto simp: arrival_vs_baseline_def attestation_budget_eq [OF assms(1)])
qed

theorem late_block_needs_late_network_witness:
  "\<exists>ob n. arrival_vs_baseline ex_late ob n \<and> 4000000000 < nb_BlockArrivalP50 n \<and>
    \<bar>Sub (obs_At ob) (tl_SlotStart ex_late) - nb_BlockArrivalP50 n\<bar> < 750000000"
proof -
  note st = ex_stages(1) and b = ex_budget(1)
  have "propagationOverspent ex_late DefaultConfig = (ComputeStages ex_late, True)"
    by (simp add: propagationOverspent_def st b)
  then obtain v where v: "NetworkLateBlock_Evaluate ex_late DefaultConfig = Some v" "v_Cause v = CauseLateBlock"
    by (simp add: NetworkLateBlock_Evaluate_def st b ex_network ex_thresholds Let_def wrap64_def)
  from late_block_needs_late_network [OF analysableD(1,3) [OF ex_analysable(5)] v] show ?thesis
    by (simp only: ex_network ex_thresholds)
qed

text \<open>
  Property C15: R-200 blames local peering only when a measured local arrival missed the attestation
  deadline that the independent median met, and the measured peer count is below the minimum.
\<close>

theorem p2p_needs_timely_network:
  assumes "Timeline_Validate t = None" and "P2PDegraded_Evaluate t cfg = Some v"
  shows "\<exists>ob n peers i src. arrival_vs_baseline t ob n \<and>
    nb_BlockArrivalP50 n \<le> sched_AttestationDeadline (tl_Schedule t) \<and>
    peerCountFact t = Some (peers, i, src) \<and> \<not> f_le (cfg_PeerCountMin cfg) peers"
proof -
  obtain n where n: "tl_Network t = Some n" "snd (propagationOverspent t cfg)"
    "nb_BlockArrivalP50 n \<le> attestation_budget t"
    "\<exists>peers i src. peerCountFact t = Some (peers, i, src) \<and> \<not> f_le (cfg_PeerCountMin cfg) peers"
    using assms(2) by (auto simp: P2PDegraded_Evaluate_def case_prod_beta Let_def split: if_splits option.splits)
  obtain ob where "timedBlockSeen t = Some ob" "st_Propagation (ComputeStages t) = Sub (obs_At ob) (tl_SlotStart t)"
    using overspent_seen [OF n(2)] .
  with n propagationOverspent_snd(2) [OF n(2)] show ?thesis
    by (auto simp: arrival_vs_baseline_def attestation_budget_eq [OF assms(1)])
qed

theorem p2p_needs_timely_network_witness:
  "\<exists>ob n peers i src. arrival_vs_baseline ex_peers ob n \<and> nb_BlockArrivalP50 n \<le> 4000000000 \<and>
    peerCountFact ex_peers = Some (peers, i, src) \<and> \<not> f_le (FFin 40) peers"
proof -
  note st = ex_stages(2) and b = ex_budget(2)
  have "propagationOverspent ex_peers DefaultConfig = (ComputeStages ex_peers, True)"
    by (simp add: propagationOverspent_def st b)
  then obtain v where v: "P2PDegraded_Evaluate ex_peers DefaultConfig = Some v"
    by (simp add: P2PDegraded_Evaluate_def b ex_peer_fact ex_network ex_thresholds)
  from p2p_needs_timely_network [OF analysableD(1) [OF ex_analysable(6)] v] show ?thesis
    by (simp only: ex_network ex_thresholds)
qed

end
