(* ===== verification/GoHash.thy ===== *)
theory GoHash
  imports GoStd "HOL-Library.Word"
begin

text \<open>
  \<open>crypto/sha256\<close> as the corpus tools use it: the digest of a byte sequence (FIPS 180-4).
\<close>

unbundle bit_operations_syntax

section \<open>SHA-256\<close>

text \<open>
  The tables of the standard are the first 32 bits of the fractional parts of the cube roots of the first 64 primes, and of the
  square roots of the first eight: \<open>root_from k n b 0\<close> is the integral \<open>k\<close>-th root of \<open>n\<close>, found from bit \<open>b - 1\<close> downwards.
\<close>

fun root_from :: "nat \<Rightarrow> nat \<Rightarrow> nat \<Rightarrow> nat \<Rightarrow> nat" where
  "root_from k n 0 r = r"
| "root_from k n (Suc b) r = root_from k n b (if (r + 2 ^ b) ^ k \<le> n then r + 2 ^ b else r)"

definition sha_k :: "32 word list" where
  "sha_k = map (\<lambda>p. of_nat (root_from 3 (p * 2 ^ 96) 36 0)) (filter (\<lambda>n. list_all (\<lambda>d. n mod d \<noteq> 0) [2..<n]) [2..<312])"

definition sha_init :: "32 word list" where
  "sha_init = map (\<lambda>p. of_nat (root_from 2 (p * 2 ^ 64) 36 0)) [2, 3, 5, 7, 11, 13, 17, 19]"

definition rotr :: "nat \<Rightarrow> 32 word \<Rightarrow> 32 word" where
  "rotr n x = (drop_bit n x) OR (push_bit (32 - n) x)"

definition big_endian32 :: "nat list \<Rightarrow> 32 word" where
  "big_endian32 bs = foldl (\<lambda>acc b. push_bit 8 acc OR of_nat b) 0 bs"

definition sha_pad :: "nat list \<Rightarrow> nat list" where
  "sha_pad msg =
     (let zeros = (119 - length msg mod 64) mod 64;
          bits = 8 * length msg
      in msg @ [0x80] @ replicate zeros 0 @ map (\<lambda>i. bits div 256 ^ (7 - i) mod 256) [0..<8])"

fun chunks :: "nat \<Rightarrow> 'a list \<Rightarrow> 'a list list" where
  "chunks n [] = []"
| "chunks n (x # xs) = (if n = 0 then [] else take n (x # xs) # chunks n (drop n (x # xs)))"

text \<open>The message schedule: the last word first.\<close>

fun sha_extend :: "nat \<Rightarrow> 32 word list \<Rightarrow> 32 word list" where
  "sha_extend 0 w = w"
| "sha_extend (Suc n) w =
     (let w15 = w ! 14; w2 = w ! 1;
          s0 = rotr 7 w15 XOR rotr 18 w15 XOR drop_bit 3 w15;
          s1 = rotr 17 w2 XOR rotr 19 w2 XOR drop_bit 10 w2
      in sha_extend n ((w ! 15 + s0 + w ! 6 + s1) # w))"

definition sha_schedule :: "nat list \<Rightarrow> 32 word list" where
  "sha_schedule block = rev (sha_extend 48 (rev (map big_endian32 (chunks 4 block))))"

fun sha_round :: "32 word \<times> 32 word \<times> 32 word \<times> 32 word \<times> 32 word \<times> 32 word \<times> 32 word \<times> 32 word \<Rightarrow> 32 word \<times> 32 word \<Rightarrow>
  32 word \<times> 32 word \<times> 32 word \<times> 32 word \<times> 32 word \<times> 32 word \<times> 32 word \<times> 32 word" where
  "sha_round (a, b, c, d, e, f, g, h) (k, w) =
     (let s1 = rotr 6 e XOR rotr 11 e XOR rotr 25 e;
          ch = (e AND f) XOR (NOT e AND g);
          t1 = h + s1 + ch + k + w;
          s0 = rotr 2 a XOR rotr 13 a XOR rotr 22 a;
          maj = (a AND b) XOR (a AND c) XOR (b AND c);
          t2 = s0 + maj
      in (t1 + t2, a, b, c, d + t1, e, f, g))"

definition sha_block :: "32 word list \<Rightarrow> nat list \<Rightarrow> 32 word list" where
  "sha_block hs block =
     (case foldl sha_round (hs ! 0, hs ! 1, hs ! 2, hs ! 3, hs ! 4, hs ! 5, hs ! 6, hs ! 7) (zip sha_k (sha_schedule block)) of
        (a, b, c, d, e, f, g, h) \<Rightarrow> map2 (+) hs [a, b, c, d, e, f, g, h])"

definition Sum256 :: "nat list \<Rightarrow> nat list" where
  "Sum256 msg =
     concat (map (\<lambda>w. map (\<lambda>i. unat (drop_bit (24 - 8 * i) w) mod 256) [0..<4]) (foldl sha_block sha_init (chunks 64 (sha_pad msg))))"

lemma sha_block_length: "length hs = 8 \<Longrightarrow> length (sha_block hs block) = 8"
  by (simp add: sha_block_def split: prod.split)

lemma Sum256_length: "length (Sum256 msg) = 32"
proof -
  have "length hs = 8 \<Longrightarrow> length (foldl sha_block hs blocks) = 8" for hs blocks
    by (induction blocks arbitrary: hs) (simp_all add: sha_block_length)
  then have "length (foldl sha_block sha_init (chunks 64 (sha_pad msg))) = 8" by (simp add: sha_init_def)
  then show ?thesis by (simp add: Sum256_def length_concat comp_def sum_list_triv)
qed

lemma Sum256_bytes: "\<forall>b \<in> set (Sum256 msg). b < 256"
  by (simp add: Sum256_def)

end
