(* ===== verification/GoDuration.thy ===== *)
theory GoDuration
  imports GoFloat
begin

text \<open>
  \<open>time.ParseDuration\<close>: a signed sequence of decimal numbers with units. \<open>None\<close> stands for its errors. Accumulation is in
  \<open>uint64\<close> bounded by \<open>2\<^sup>6\<^sup>3\<close>; fractions are scaled in \<open>float64\<close>.
\<close>

definition two63 :: nat where "two63 = 9223372036854775808"

text \<open>\<open>leadingInt\<close>: the digits of a prefix, refused past \<open>2\<^sup>6\<^sup>3\<close>.\<close>

fun leadingInt :: "nat \<Rightarrow> string \<Rightarrow> (nat \<times> string) option" where
  "leadingInt x [] = Some (x, [])"
| "leadingInt x (c # s) =
     (if \<not> is_digit c then Some (x, c # s)
      else if x > two63 div 10 then None
      else let y = x * 10 + digit_val c in if y > two63 then None else leadingInt y s)"

text \<open>\<open>leadingFraction\<close>: digits past the precision of the accumulator are read and dropped; the scale is a power of ten.\<close>

fun leadingFraction :: "nat \<Rightarrow> f64 \<Rightarrow> bool \<Rightarrow> string \<Rightarrow> nat \<times> f64 \<times> string" where
  "leadingFraction x scale overflow [] = (x, scale, [])"
| "leadingFraction x scale overflow (c # s) =
     (if \<not> is_digit c then (x, scale, c # s)
      else if overflow then leadingFraction x scale True s
      else if x > (two63 - 1) div 10 then leadingFraction x scale True s
      else let y = x * 10 + digit_val c
           in if y > two63 then leadingFraction x scale True s
              else leadingFraction y (f_mul scale (FFin 10)) False s)"

text \<open>The units; the micro sign is the byte sequence C2 B5 or CE BC.\<close>

definition unitMap :: "(string \<times> nat) list" where
  "unitMap =
     [(''ns'', 1), (''us'', 1000), ([CHR 0xC2, CHR 0xB5, CHR ''s''], 1000), ([CHR 0xCE, CHR 0xBC, CHR ''s''], 1000),
      (''ms'', 1000000), (''s'', 1000000000), (''m'', 60000000000), (''h'', 3600000000000)]"

definition number_char :: "char \<Rightarrow> bool" where
  "number_char c \<longleftrightarrow> c = CHR ''.'' \<or> is_digit c"

text \<open>One number and its unit: the nanoseconds it stands for and the rest of the text.\<close>

definition duration_term :: "string \<Rightarrow> (nat \<times> string) option" where
  "duration_term s =
     (if s = [] \<or> \<not> number_char (hd s) then None
      else case leadingInt 0 s of
        None \<Rightarrow> None
      | Some (v, s1) \<Rightarrow>
          let pre = (length s1 \<noteq> length s);
              (f, scale, s2) = (if s1 \<noteq> [] \<and> hd s1 = CHR ''.'' then leadingFraction 0 (FFin 1) False (tl s1) else (0, FFin 1, s1));
              post = (s1 \<noteq> [] \<and> hd s1 = CHR ''.'' \<and> length s2 \<noteq> length (tl s1));
              u = takeWhile (\<lambda>c. \<not> number_char c) s2; s3 = dropWhile (\<lambda>c. \<not> number_char c) s2
          in if \<not> pre \<and> \<not> post then None
             else if u = [] then None
             else case map_of unitMap u of
               None \<Rightarrow> None
             | Some unit \<Rightarrow>
                 if v > two63 div unit then None
                 else if f > 0
                      then (case f_to_int64 (f_mul (f_of_int (int f)) (f_div (f_of_int (int unit)) scale)) of
                              None \<Rightarrow> None
                            | Some part \<Rightarrow> if v * unit + nat part > two63 then None else Some (v * unit + nat part, s3))
                      else Some (v * unit, s3))"

lemma leadingInt_shrinks: "leadingInt x s = Some (v, s') \<Longrightarrow> length s' \<le> length s"
  by (induction x s rule: leadingInt.induct) (auto simp: Let_def split: if_splits)

lemma leadingFraction_shrinks: "leadingFraction x scale overflow s = (f, scale', s') \<Longrightarrow> length s' \<le> length s"
  by (induction x scale overflow s rule: leadingFraction.induct) (auto simp: Let_def split: if_splits)

lemma duration_term_shrinks: "duration_term s = Some (v, s') \<Longrightarrow> length s' < length s"
proof -
  assume a: "duration_term s = Some (v, s')"
  then obtain w s1 where i: "leadingInt 0 s = Some (w, s1)" by (auto simp: duration_term_def split: if_splits option.splits)
  obtain f scale s2 where f: "(if s1 \<noteq> [] \<and> hd s1 = CHR ''.'' then leadingFraction 0 (FFin 1) False (tl s1) else (0, FFin 1, s1)) = (f, scale, s2)"
    by (metis prod_cases3)
  have "length s2 \<le> length s1" using f leadingFraction_shrinks [of 0 "FFin 1" False "tl s1"] by (auto split: if_splits intro: le_trans)
  moreover have "takeWhile (\<lambda>c. \<not> number_char c) s2 \<noteq> []" "s' = dropWhile (\<lambda>c. \<not> number_char c) s2"
    using a i f by (auto simp: duration_term_def Let_def split: if_splits option.splits)
  moreover have "length (takeWhile (\<lambda>c. \<not> number_char c) s2) + length (dropWhile (\<lambda>c. \<not> number_char c) s2) = length s2"
    by (metis length_append takeWhile_dropWhile_id)
  ultimately show ?thesis using leadingInt_shrinks [OF i] by (cases "takeWhile (\<lambda>c. \<not> number_char c) s2") auto
qed

function duration_loop :: "nat \<Rightarrow> string \<Rightarrow> nat option" where
  "duration_loop d s =
     (if s = [] then Some d
      else case duration_term s of
        None \<Rightarrow> None
      | Some (v, s') \<Rightarrow> if d + v > two63 then None else duration_loop (d + v) s')"
  by pat_completeness auto
termination by (relation "measure (\<lambda>(d, s). length s)") (auto dest: duration_term_shrinks)

declare duration_loop.simps [simp del]

lemma duration_loop_bound: "duration_loop d s = Some d' \<Longrightarrow> d \<le> two63 \<Longrightarrow> d' \<le> two63"
proof (induction d s rule: duration_loop.induct)
  case (1 d s)
  show ?case
  proof (cases "s = []")
    case True
    then show ?thesis using 1(2,3) by (simp add: duration_loop.simps [of d "[]"])
  next
    case False
    then obtain v s' where t: "duration_term s = Some (v, s')" "\<not> two63 < d + v" "duration_loop (d + v) s' = Some d'"
      using 1(2) by (auto simp: duration_loop.simps [of d s] split: option.splits if_splits)
    then show ?thesis using 1(1) [OF False t(1)] by simp
  qed
qed

definition ParseDuration :: "string \<Rightarrow> duration option" where
  "ParseDuration text =
     (let neg = (text \<noteq> [] \<and> hd text = CHR ''-'');
          s = (if text \<noteq> [] \<and> (hd text = CHR ''-'' \<or> hd text = CHR ''+'') then tl text else text)
      in if s = ''0'' then Some 0
         else if s = [] then None
         else case duration_loop 0 s of
           None \<Rightarrow> None
         | Some d \<Rightarrow> if neg then Some (- int d) else if d > two63 - 1 then None else Some (int d))"

lemma ParseDuration_in_int64:
  assumes "ParseDuration s = Some d"
  shows "in_int64 d"
proof -
  have "d = 0 \<or> (\<exists>r n. duration_loop 0 r = Some n \<and> (d = - int n \<or> d = int n \<and> \<not> n > two63 - 1))"
    using assms by (auto simp: ParseDuration_def Let_def split: if_splits option.splits)
  then show ?thesis using duration_loop_bound [of 0] by (auto simp: int64_defs two63_def)
qed

end
