(* ===== verification/Corpus.thy ===== *)
theory Corpus
  imports Assembly StoreTime Attribution GoHash GoDuration
begin

text \<open>
  The corpus tools: \<open>tools/corpusctl\<close>, which says whether a recorded scenario is well formed, and \<open>tools/eval\<close>, which replays
  the scenarios, compares each verdict with the label and applies the release policy. Files are arguments: the decoded
  manifest, the lines of a file as far as decoding tells them apart, and the bytes that are hashed.
\<close>

section \<open>Manifests\<close>

record clock_sample =
  cs_Server :: string
  cs_SampleAt :: gotime
  cs_Offset :: duration
  cs_RoundTrip :: duration

record manifest_schedule =
  msch_SecondsPerSlot :: string
  msch_AttestationDeadline :: string
  msch_AggregationDeadline :: string
  msch_PayloadRevealDeadline :: string
  msch_PTCDeadline :: string

record manifest =
  m_CorpusFormatVersion :: int
  m_GeneratorEngineVersion :: string
  m_ID :: string
  m_RecipeID :: string
  m_Origin :: string
  m_Description :: string
  m_Cause :: string
  m_SubCause :: string
  m_Confidence :: string
  m_Schedule :: "manifest_schedule option"
  m_Slot :: "64 word"
  m_ValidatorIndex :: "64 word"
  m_FaultKind :: string
  m_FaultTarget :: string
  m_Duration :: duration
  m_GeneratedAt :: gotime
  m_ClockSamples :: "clock_sample list"
  m_ObservationsSHA256 :: string
  m_SamplesSHA256 :: string

datatype corpus_error =
    BadManifest string | BadLine nat string | LineRejected nat domain_error | LineForeign nat slot | NotSorted nat | ScanFailed
  | EmptyScenario | ClockUnmeasured nat | ClockUnknown nat | BadChecksum | UnreadableFile string | MissingReadme

fun id_chars_ok :: "char option \<Rightarrow> string \<Rightarrow> bool" where
  "id_chars_ok prev [] = True"
| "id_chars_ok prev (c # s) =
     (if (of_char c < (97 :: nat) \<or> of_char c > (122 :: nat)) \<and> (of_char c < (48 :: nat) \<or> of_char c > (57 :: nat)) \<and> c \<noteq> CHR ''-'' then False
      else if c = CHR ''-'' \<and> prev = Some (CHR ''-'') then False
      else id_chars_ok (Some c) s)"

definition validCorpusID :: "string \<Rightarrow> bool" where
  "validCorpusID ident \<longleftrightarrow> \<not> (ident = [] \<or> hd ident = CHR ''-'' \<or> last ident = CHR ''-'') \<and> id_chars_ok None ident"

text \<open>A cause of the taxonomy by its text.\<close>

definition cause_of :: "string \<Rightarrow> CauseID" where
  "cause_of s = (case List.find (\<lambda>c. CauseID_str c = s) CauseIDs of Some c \<Rightarrow> c | None \<Rightarrow> if s = [] then CauseNone else CauseOther s)"

definition origin_check :: "manifest \<Rightarrow> corpus_error option" where
  "origin_check m =
     (if m_Origin m = [] \<or> m_Origin m = ''injected''
      then check (m_FaultKind m = [] \<or> m_FaultTarget m = [] \<or> m_Duration m \<le> 0) (BadManifest ''fault'')
      else if m_Origin m = ''observed''
      then check (m_FaultKind m \<noteq> [] \<or> m_FaultTarget m \<noteq> [] \<or> m_Duration m > 0) (BadManifest ''claimed fault'')
      else Some (BadManifest ''origin''))"

definition expect_check :: "manifest \<Rightarrow> corpus_error option" where
  "expect_check m = first_error
     [check (m_Cause m = []) (BadManifest ''expect.cause''),
      check (\<not> CauseID_Valid (cause_of (m_Cause m))) (BadManifest ''expect.cause''),
      check (m_SubCause m \<noteq> [] \<and> \<not> CauseID_Valid (cause_of (m_SubCause m))) (BadManifest ''expect.sub_cause''),
      check (m_SubCause m \<noteq> [] \<and> \<not> CauseID_IsSubCauseOf (cause_of (m_SubCause m)) (cause_of (m_Cause m))) (BadManifest ''expect.sub_cause''),
      check (m_Confidence m \<notin> {''high'', ''medium'', ''low''}) (BadManifest ''expect.confidence'')]"

definition validateManifest :: "manifest \<Rightarrow> string \<Rightarrow> corpus_error option" where
  "validateManifest m wantID = first_error
     [check (m_CorpusFormatVersion m \<noteq> 2) (BadManifest ''corpus_format_version''),
      check (m_GeneratorEngineVersion m = []) (BadManifest ''generator_engine_version''),
      check (m_ID m = []) (BadManifest ''id''),
      check (\<not> validCorpusID (m_ID m)) (BadManifest ''id''),
      check (m_ID m \<noteq> wantID) (BadManifest ''id''),
      check (m_RecipeID m \<noteq> [] \<and> \<not> validCorpusID (m_RecipeID m)) (BadManifest ''recipe_id''),
      check (m_Description m = []) (BadManifest ''description''),
      origin_check m,
      check (IsZero (m_GeneratedAt m)) (BadManifest ''generated_at''),
      check (m_ClockSamples m = []) (BadManifest ''clock_samples''),
      first_error (map (\<lambda>cs. check (cs_Server cs = [] \<or> IsZero (cs_SampleAt cs) \<or> cs_RoundTrip cs \<le> 0) (BadManifest ''clock_samples''))
        (m_ClockSamples m)),
      check (case hex_DecodeString (m_ObservationsSHA256 m) of None \<Rightarrow> True | Some bs \<Rightarrow> length bs \<noteq> 32) (BadManifest ''observations_sha256''),
      expect_check m]"

section \<open>Observation files\<close>

text \<open>\<open>RFC3339Nano\<close>: the stored layout with the trailing zeros of the fraction dropped.\<close>

definition format_RFC3339Nano :: "gotime \<Rightarrow> string" where
  "format_RFC3339Nano t =
     (let text = butlast (format_timeLayout t); frac = strip_zeros (drop (length text - 9) text); whole = take (length text - 10) text
      in whole @ (if frac = [] then [] else CHR ''.'' # frac) @ ''Z'')"

definition clockSampleKey :: "gotime \<Rightarrow> duration \<Rightarrow> string" where
  "clockSampleKey sampleAt offset = format_RFC3339Nano (in_UTC sampleAt) @ CHR 0x00 # Duration_String offset"

fun provenance_loop :: "string list \<Rightarrow> nat \<Rightarrow> Observation list \<Rightarrow> corpus_error option" where
  "provenance_loop known i [] = None"
| "provenance_loop known i (ob # obs) =
     (if \<not> obs_ClockMeasured ob then Some (ClockUnmeasured (i + 1))
      else if clockSampleKey (obs_ClockSampleAt ob) (obs_ClockOffset ob) \<notin> set known then Some (ClockUnknown (i + 1))
      else provenance_loop known (i + 1) obs)"

definition validateObservationProvenance :: "manifest \<Rightarrow> Observation list \<Rightarrow> corpus_error option" where
  "validateObservationProvenance m obs =
     provenance_loop (map (\<lambda>cs. clockSampleKey (cs_SampleAt cs) (cs_Offset cs)) (m_ClockSamples m)) 0 obs"

text \<open>A line of \<open>observations.jsonl\<close>: blank, undecodable, or a decoded observation.\<close>

datatype corpus_line = BlankLine | Undecodable | Decoded Observation

fun load_loop :: "slot \<Rightarrow> nat \<Rightarrow> corpus_line list \<Rightarrow> corpus_error + Observation list" where
  "load_loop s n [] = Inr []"
| "load_loop s n (line # rest) =
     (case line of
        BlankLine \<Rightarrow> load_loop s (n + 1) rest
      | Undecodable \<Rightarrow> Inl (BadLine n ''decode'')
      | Decoded draft \<Rightarrow>
          (case NewObservation draft of
             Inl e \<Rightarrow> Inl (LineRejected n e)
           | Inr ob \<Rightarrow>
               if obs_Slot ob \<noteq> s \<and> (obs_Kind ob \<noteq> ObsReorg \<or> obs_Slot ob \<le> s \<or> obs_Slot ob > Slot_LastAttestationInclusionSlot s)
               then Inl (LineForeign n (obs_Slot ob))
               else (case load_loop s (n + 1) rest of Inl e \<Rightarrow> Inl e | Inr out \<Rightarrow> Inr (ob # out))))"

fun sorted_check :: "nat \<Rightarrow> Observation list \<Rightarrow> corpus_error option" where
  "sorted_check i (a # b # rest) = (if Before (obs_At b) (obs_At a) then Some (NotSorted (i + 1)) else sorted_check (i + 1) (b # rest))"
| "sorted_check i _ = None"

definition loadObservations :: "corpus_line list \<Rightarrow> bool \<Rightarrow> slot \<Rightarrow> corpus_error + Observation list" where
  "loadObservations lines scanErr s =
     (case load_loop s 1 lines of
        Inl e \<Rightarrow> Inl e
      | Inr out \<Rightarrow> if scanErr then Inl ScanFailed else case sorted_check 1 out of Some e \<Rightarrow> Inl e | None \<Rightarrow> Inr out)"

section \<open>Scenarios\<close>

datatype file_read = Bytes "nat list" | NotExist | ReadError

record scenario_dir =
  sd_manifest :: "manifest option"
  sd_lines :: "corpus_line list option"
  sd_scanErr :: bool
  sd_observationBytes :: "nat list option"
  sd_samplesLoad :: bool
  sd_sampleBytes :: file_read
  sd_readme :: bool

definition samples_check :: "manifest \<Rightarrow> file_read \<Rightarrow> corpus_error option" where
  "samples_check m r =
     (case r of
        Bytes bs \<Rightarrow>
          if m_SamplesSHA256 m = [] then Some BadChecksum
          else check (hex_EncodeToString (Sum256 bs) \<noteq> m_SamplesSHA256 m) BadChecksum
      | NotExist \<Rightarrow> check (m_SamplesSHA256 m \<noteq> []) BadChecksum
      | ReadError \<Rightarrow> Some (UnreadableFile ''samples.jsonl''))"

definition validateScenario :: "scenario_dir \<Rightarrow> string \<Rightarrow> corpus_error + Observation list" where
  "validateScenario dir wantID =
     (case sd_manifest dir of
        None \<Rightarrow> Inl (UnreadableFile ''manifest.yaml'')
      | Some m \<Rightarrow>
          (case validateManifest m wantID of
             Some e \<Rightarrow> Inl e
           | None \<Rightarrow>
               (case (case sd_lines dir of None \<Rightarrow> Inl (UnreadableFile ''observations.jsonl'') | Some lines \<Rightarrow> loadObservations lines (sd_scanErr dir) (m_Slot m)) of
                  Inl e \<Rightarrow> Inl e
                | Inr obs \<Rightarrow>
                    if obs = [] then Inl EmptyScenario
                    else case validateObservationProvenance m obs of
                      Some e \<Rightarrow> Inl e
                    | None \<Rightarrow>
                        (case sd_observationBytes dir of
                           None \<Rightarrow> Inl (UnreadableFile ''observations.jsonl'')
                         | Some bs \<Rightarrow>
                             if hex_EncodeToString (Sum256 bs) \<noteq> m_ObservationsSHA256 m then Inl BadChecksum
                             else if \<not> sd_samplesLoad dir then Inl (UnreadableFile ''samples.jsonl'')
                             else (case samples_check m (sd_sampleBytes dir) of
                                     Some e \<Rightarrow> Inl e
                                   | None \<Rightarrow> if \<not> sd_readme dir then Inl MissingReadme else Inr obs)))))"

definition validateCorpus :: "(string \<times> scenario_dir) list \<Rightarrow> (string \<times> corpus_error) list option" where
  "validateCorpus dirs =
     (if dirs = [] then None
      else Some (concat (map (\<lambda>(name, dir). case validateScenario dir name of Inl e \<Rightarrow> [(name, e)] | Inr _ \<Rightarrow> []) dirs)))"

section \<open>Evaluation\<close>

datatype eval_error = EvManifest | EvObservations | EvSamples | EvSchedule string | EvReplay replay_error

text \<open>\<open>scheduleFrom\<close> field by field: what a field's text means, when it may be empty.\<close>

definition schedule_field :: "string \<Rightarrow> string \<Rightarrow> bool \<Rightarrow> eval_error + duration" where
  "schedule_field name raw may_be_empty =
     (if raw = [] then (if may_be_empty then Inr 0 else Inl (EvSchedule name))
      else case ParseDuration raw of None \<Rightarrow> Inl (EvSchedule name) | Some d \<Rightarrow> Inr d)"

definition scheduleFrom :: "manifest_schedule option \<Rightarrow> eval_error + SlotSchedule" where
  "scheduleFrom ms =
     (case ms of
        None \<Rightarrow> Inr MainnetPreEPBS
      | Some sch \<Rightarrow>
          (case schedule_field ''seconds_per_slot'' (msch_SecondsPerSlot sch) False of
             Inl e \<Rightarrow> Inl e
           | Inr sps \<Rightarrow>
          (case schedule_field ''attestation_deadline'' (msch_AttestationDeadline sch) False of
             Inl e \<Rightarrow> Inl e
           | Inr att \<Rightarrow>
          (case schedule_field ''aggregation_deadline'' (msch_AggregationDeadline sch) False of
             Inl e \<Rightarrow> Inl e
           | Inr agg \<Rightarrow>
          (case schedule_field ''payload_reveal_deadline'' (msch_PayloadRevealDeadline sch) True of
             Inl e \<Rightarrow> Inl e
           | Inr pay \<Rightarrow>
          (case schedule_field ''ptc_deadline'' (msch_PTCDeadline sch) True of
             Inl e \<Rightarrow> Inl e
           | Inr ptc \<Rightarrow>
               let s = \<lparr>sched_SecondsPerSlot = sps, sched_AttestationDeadline = att, sched_AggregationDeadline = agg,
                        sched_PayloadRevealDeadline = pay, sched_PTCDeadline = ptc\<rparr>
               in case SlotSchedule_Validate s of Some _ \<Rightarrow> Inl (EvSchedule ''schedule'') | None \<Rightarrow> Inr s))))))"

record result =
  r_id :: string
  r_want :: string
  r_got :: string
  r_wantConfidence :: string
  r_gotConfidence :: Confidence
  r_correct :: bool
  r_falseHigh :: bool
  r_observed :: bool

definition wanted_cause :: "manifest \<Rightarrow> string" where
  "wanted_cause m = (if m_SubCause m \<noteq> [] then m_SubCause m else m_Cause m)"

definition score :: "string \<Rightarrow> manifest \<Rightarrow> Verdict \<Rightarrow> result" where
  "score ident m v =
     (let want = wanted_cause m; got = CauseID_str (Verdict_ReportedCause v)
      in \<lparr>r_id = ident, r_want = want, r_got = got, r_wantConfidence = m_Confidence m, r_gotConfidence = v_Confidence v,
          r_correct = (want = got), r_falseHigh = (want \<noteq> got \<and> v_Confidence v = ConfidenceHigh), r_observed = (m_Origin m = ''observed'')\<rparr>)"

text \<open>A scenario's files as \<open>LoadObservations\<close> and \<open>LoadSamples\<close> read them.\<close>

record eval_dir =
  ed_id :: string
  ed_manifest :: "manifest option"
  ed_observations :: "Observation list option"
  ed_samples :: "MetricSample list option"

definition evalScenario :: "int \<Rightarrow> eval_dir \<Rightarrow> eval_error + result" where
  "evalScenario oob dir =
     (case ed_manifest dir of
        None \<Rightarrow> Inl EvManifest
      | Some m \<Rightarrow>
          (case ed_observations dir of
             None \<Rightarrow> Inl EvObservations
           | Some obs \<Rightarrow>
               (case ed_samples dir of
                  None \<Rightarrow> Inl EvSamples
                | Some samples \<Rightarrow>
                    (case scheduleFrom (m_Schedule m) of
                       Inl e \<Rightarrow> Inl e
                     | Inr schedule \<Rightarrow>
                         (case ReplayWithSamples oob obs samples schedule of
                            Inl e \<Rightarrow> Inl (EvReplay e)
                          | Inr t \<Rightarrow> Inr (score (ed_id dir) m (Analyze t DefaultConfig)))))))"

definition releaseAccuracyPercent :: nat where "releaseAccuracyPercent = 90"
definition releaseMinScenarios :: nat where "releaseMinScenarios = 50"

datatype gate_error = TooFewScenarios nat | NoAmbiguous | FalseHigh nat | LowAccuracy nat nat

definition ambiguous :: "result \<Rightarrow> bool" where
  "ambiguous r \<longleftrightarrow> HasPrefix (r_want r) ''unknown.''"

definition checkReleasePolicy :: "result list \<Rightarrow> gate_error option" where
  "checkReleasePolicy results =
     (if length results < releaseMinScenarios then Some (TooFewScenarios (length results))
      else let correct = length (filter r_correct results); falseHigh = length (filter r_falseHigh results)
           in if filter ambiguous results = [] then Some NoAmbiguous
              else if falseHigh > 0 then Some (FalseHigh falseHigh)
              else if correct * 100 < length results * releaseAccuracyPercent then Some (LowAccuracy correct (length results))
              else None)"

text \<open>The tally of the report: true positives, false positives and false negatives per label, and the headline.\<close>

record label =
  l_tp :: nat
  l_fp :: nat
  l_fn :: nat

definition zero_label :: label where "zero_label = \<lparr>l_tp = 0, l_fp = 0, l_fn = 0\<rparr>"

definition labelOf :: "(string \<rightharpoonup> label) \<Rightarrow> string \<Rightarrow> label" where
  "labelOf labels name = (case labels name of None \<Rightarrow> zero_label | Some l \<Rightarrow> l)"

definition tally :: "(string \<rightharpoonup> label) \<Rightarrow> result \<Rightarrow> (string \<rightharpoonup> label)" where
  "tally labels r =
     (if r_correct r then labels(r_want r \<mapsto> (labelOf labels (r_want r))\<lparr>l_tp := l_tp (labelOf labels (r_want r)) + 1\<rparr>)
      else let labels1 = labels(r_want r \<mapsto> (labelOf labels (r_want r))\<lparr>l_fn := l_fn (labelOf labels (r_want r)) + 1\<rparr>)
           in labels1(r_got r \<mapsto> (labelOf labels1 (r_got r))\<lparr>l_fp := l_fp (labelOf labels1 (r_got r)) + 1\<rparr>))"

record headline =
  h_correct :: nat
  h_total :: nat
  h_falseHigh :: nat
  h_ambiguous :: nat

definition headline_of :: "result list \<Rightarrow> headline" where
  "headline_of results =
     \<lparr>h_correct = length (filter r_correct results) - length (filter (\<lambda>r. r_observed r \<and> r_correct r) results),
      h_total = length results - length (filter r_observed results), h_falseHigh = length (filter r_falseHigh results),
      h_ambiguous = length (filter ambiguous results)\<rparr>"

definition percentOf :: "nat \<Rightarrow> nat \<Rightarrow> f64" where
  "percentOf part whole =
     (if whole = 0 then FFin 0 else f_mul (f_div (f_of_int (int part)) (f_of_int (int whole))) (FFin 100))"

definition run_eval :: "int \<Rightarrow> bool \<Rightarrow> eval_dir list \<Rightarrow> (eval_error + gate_error option) \<times> result list" where
  "run_eval oob gate dirs =
     (case List.find (\<lambda>d. isl (evalScenario oob d)) dirs of
        Some d \<Rightarrow> (Inl (projl (evalScenario oob d)), [])
      | None \<Rightarrow>
          let results = SliceStable (\<lambda>a b. r_id a < r_id b) (map (\<lambda>d. projr (evalScenario oob d)) dirs)
          in (Inr (if gate then checkReleasePolicy results else None), results))"

section \<open>What validation guarantees\<close>

lemma load_loop_ok:
  "load_loop s n lines = Inr out \<Longrightarrow> \<forall>ob \<in> set out. Observation_Validate ob = None \<and> \<not> foreign s ob"
proof (induction lines arbitrary: n out)
  case (Cons line rest)
  show ?case
  proof (cases line)
    case (Decoded draft)
    then obtain ob out' where ob: "NewObservation draft = Inr ob" "\<not> foreign s ob" "load_loop s (n + 1) rest = Inr out'" "out = ob # out'"
      using Cons.prems by (auto simp: foreign_def split: sum.splits if_splits)
    then show ?thesis using Cons.IH [OF ob(3)] NewObservation_valid [OF ob(1)] by simp
  qed (use Cons in \<open>auto\<close>)
qed simp

lemma sorted_check_None: "sorted_check i obs = None \<longleftrightarrow> adjacent (\<lambda>a b. \<not> Before (obs_At b) (obs_At a)) obs"
  by (induction i obs rule: sorted_check.induct) auto

lemma provenance_loop_None:
  "provenance_loop known i obs = None \<longleftrightarrow>
     (\<forall>ob \<in> set obs. obs_ClockMeasured ob \<and> clockSampleKey (obs_ClockSampleAt ob) (obs_ClockOffset ob) \<in> set known)"
  by (induction known i obs rule: provenance_loop.induct) auto

lemma replay_loop_errors: "replay_loop oob s st obs = Inl e \<Longrightarrow> e \<noteq> NoObservations \<and> (\<forall>i. e \<noteq> ForeignSlot i)"
  by (induction oob s st obs rule: replay_loop.induct) (auto simp: Let_def split: sum.splits option.splits if_splits)

lemma validateScenario_Inr:
  assumes "validateScenario dir ident = Inr obs"
  obtains m lines where "sd_manifest dir = Some m" "validateManifest m ident = None" "loadObservations lines (sd_scanErr dir) (m_Slot m) = Inr obs"
    "obs \<noteq> []" "validateObservationProvenance m obs = None"
    "\<exists>bs. sd_observationBytes dir = Some bs \<and> hex_EncodeToString (Sum256 bs) = m_ObservationsSHA256 m"
  using assms by (auto simp: validateScenario_def split: option.splits sum.splits if_splits)


section \<open>The report\<close>

lemma tally_labels:
  assumes "\<forall>r \<in> set rs. r_correct r = (r_want r = r_got r)"
  shows "labelOf (foldl tally labels rs) name =
    \<lparr>l_tp = l_tp (labelOf labels name) + length (filter (\<lambda>r. r_want r = name \<and> r_got r = name) rs),
     l_fp = l_fp (labelOf labels name) + length (filter (\<lambda>r. r_want r \<noteq> name \<and> r_got r = name) rs),
     l_fn = l_fn (labelOf labels name) + length (filter (\<lambda>r. r_want r = name \<and> r_got r \<noteq> name) rs)\<rparr>"
  using assms
proof (induction rs arbitrary: labels)
  case Nil
  then show ?case by (cases "labelOf labels name") simp
next
  case (Cons r rs)
  have "labelOf (tally labels r) name =
    \<lparr>l_tp = l_tp (labelOf labels name) + (if r_want r = name \<and> r_got r = name then 1 else 0),
     l_fp = l_fp (labelOf labels name) + (if r_want r \<noteq> name \<and> r_got r = name then 1 else 0),
     l_fn = l_fn (labelOf labels name) + (if r_want r = name \<and> r_got r \<noteq> name then 1 else 0)\<rparr>"
    using Cons.prems by (cases "labelOf labels name") (auto simp: tally_def labelOf_def zero_label_def Let_def split: if_splits option.splits)
  with Cons show ?case by simp
qed

lemma checkReleasePolicy_None:
  "checkReleasePolicy rs = None \<longleftrightarrow> 50 \<le> length rs \<and> (\<exists>r \<in> set rs. ambiguous r) \<and> (\<forall>r \<in> set rs. \<not> r_falseHigh r) \<and>
     90 * length rs \<le> 100 * length (filter r_correct rs)"
  by (auto simp: checkReleasePolicy_def releaseMinScenarios_def releaseAccuracyPercent_def Let_def filter_empty_conv)

text \<open>
  The report's counts are what precision and recall need. For every cause label, true positives are the scenarios
  that expected it and got it, false positives those that got it without expecting it, and false negatives those that expected
  it and got something else.
\<close>

lemma report_counts:
  assumes "list_all (\<lambda>r. r_correct r = (r_want r = r_got r)) rs"
  shows "labelOf (foldl tally Map.empty rs) name =
    \<lparr>l_tp = length (filter (\<lambda>r. r_want r = name \<and> r_got r = name) rs),
     l_fp = length (filter (\<lambda>r. r_want r \<noteq> name \<and> r_got r = name) rs),
     l_fn = length (filter (\<lambda>r. r_want r = name \<and> r_got r \<noteq> name) rs)\<rparr>"
  using tally_labels [of rs Map.empty name] assms by (simp add: list_all_iff labelOf_def zero_label_def)

definition scored :: "string \<Rightarrow> string \<Rightarrow> bool \<Rightarrow> result" where
  "scored want got observed =
     \<lparr>r_id = ''s'', r_want = want, r_got = got, r_wantConfidence = ''medium'', r_gotConfidence = ConfidenceMedium, r_correct = (want = got),
      r_falseHigh = False, r_observed = observed\<rparr>"

text \<open>
  Property C40: the release gate counts what the headline leaves out. On a corpus without observed records a passing gate means
  that the headline has at least 50 scenarios and 90% accuracy; with observed records the gate also passes on a corpus whose
  headline, which excludes them, is below both figures.
\<close>

theorem release_gate_counts_observed:
  "(\<forall>rs. checkReleasePolicy rs = None \<and> filter r_observed rs = [] \<longrightarrow>
      50 \<le> h_total (headline_of rs) \<and> 90 * h_total (headline_of rs) \<le> 100 * h_correct (headline_of rs)) \<and>
   (\<exists>rs. checkReleasePolicy rs = None \<and> list_all (\<lambda>r. r_correct r = (r_want r = r_got r)) rs \<and>
      h_total (headline_of rs) = 25 \<and> h_correct (headline_of rs) = 20)"
proof (intro conjI allI impI)
  fix rs assume a: "checkReleasePolicy rs = None \<and> filter r_observed rs = []"
  then have "filter (\<lambda>r. r_observed r \<and> r_correct r) rs = []" by (auto simp: filter_empty_conv)
  with a show "50 \<le> h_total (headline_of rs)" "90 * h_total (headline_of rs) \<le> 100 * h_correct (headline_of rs)"
    by (simp_all add: checkReleasePolicy_None headline_of_def)
next
  let ?rs = "replicate 20 (scored ''unknown.x'' ''unknown.x'' False) @ replicate 5 (scored ''a'' ''unknown.x'' False) @ replicate 25 (scored ''a'' ''a'' True)"
  have "checkReleasePolicy ?rs = None" by (simp add: checkReleasePolicy_None scored_def ambiguous_def HasPrefix_def)
  moreover have "list_all (\<lambda>r. r_correct r = (r_want r = r_got r)) ?rs" by (simp add: list_all_iff scored_def)
  moreover have "h_total (headline_of ?rs) = 25" "h_correct (headline_of ?rs) = 20" by (simp_all add: headline_of_def scored_def)
  ultimately show "\<exists>rs. checkReleasePolicy rs = None \<and> list_all (\<lambda>r. r_correct r = (r_want r = r_got r)) rs \<and>
      h_total (headline_of rs) = 25 \<and> h_correct (headline_of rs) = 20" by blast
qed

theorem release_gate_counts_observed_witness:
  "90 * h_total (headline_of (replicate 60 (scored ''unknown.x'' ''unknown.x'' False))) \<le>
     100 * h_correct (headline_of (replicate 60 (scored ''unknown.x'' ''unknown.x'' False))) \<and>
   (\<exists>rs. checkReleasePolicy rs = None \<and> h_total (headline_of rs) < 50)"
proof -
  have "checkReleasePolicy (replicate 60 (scored ''unknown.x'' ''unknown.x'' False)) = None"
    "filter r_observed (replicate 60 (scored ''unknown.x'' ''unknown.x'' False)) = []"
    by (simp_all add: checkReleasePolicy_None scored_def ambiguous_def HasPrefix_def)
  then show ?thesis using release_gate_counts_observed by force
qed

section \<open>A scenario\<close>

definition tiny_bytes :: "nat list" where "tiny_bytes = [123, 125, 10]"

definition tiny_manifest :: manifest where
  "tiny_manifest =
     \<lparr>m_CorpusFormatVersion = 2, m_GeneratorEngineVersion = ''1'', m_ID = ''a-1'', m_RecipeID = [], m_Origin = ''observed'', m_Description = ''d'',
      m_Cause = ''unknown.insufficient_data'', m_SubCause = [], m_Confidence = ''low'', m_Schedule = None, m_Slot = 100, m_ValidatorIndex = 7,
      m_FaultKind = [], m_FaultTarget = [], m_Duration = 0, m_GeneratedAt = ex_start,
      m_ClockSamples = [\<lparr>cs_Server = ''ntp'', cs_SampleAt = Add ex_start 0, cs_Offset = 0, cs_RoundTrip = 1\<rparr>],
      m_ObservationsSHA256 = hex_EncodeToString (Sum256 tiny_bytes), m_SamplesSHA256 = []\<rparr>"

definition tiny_dir :: scenario_dir where
  "tiny_dir =
     \<lparr>sd_manifest = Some tiny_manifest, sd_lines = Some [Decoded (ex_obs ObsSlotStart SourceDerived 0 []), BlankLine], sd_scanErr = False,
      sd_observationBytes = Some tiny_bytes, sd_samplesLoad = True, sd_sampleBytes = NotExist, sd_readme = True\<rparr>"

lemma tiny_valid: "validateScenario tiny_dir ''a-1'' = Inr [ex_obs ObsSlotStart SourceDerived 0 []]"
proof -
  have cause: "cause_of ''unknown.insufficient_data'' = CauseInsufficientData" by (simp add: cause_of_def CauseIDs_def)
  have "validateManifest tiny_manifest ''a-1'' = None"
    by (simp add: validateManifest_def tiny_manifest_def validCorpusID_def origin_check_def expect_check_def cause hex_DecodeString_hex Sum256_bytes Sum256_length
        IsZero_def ex_start_def)
  moreover have "NewObservation (ex_obs ObsSlotStart SourceDerived 0 []) = Inr (ex_obs ObsSlotStart SourceDerived 0 [])"
  proof -
    have "Observation_Validate (ex_obs ObsSlotStart SourceDerived 0 []) = None" by (simp add: ex_obs_def ex_start_def ex_validate)
    then show ?thesis by (simp add: NewObservation_def) (simp add: ex_obs_def)
  qed
  ultimately show ?thesis
    by (simp add: validateScenario_def tiny_dir_def loadObservations_def validateObservationProvenance_def samples_check_def)
      (simp add: tiny_manifest_def ex_obs_def check_def)
qed


end
