(* ===== verification/Store.thy ===== *)
theory Store
  imports StoreTime Sample "HOL-Library.Product_Lexorder"
begin

text \<open>
  The SQLite store (\<open>internal/store\<close>): the two tables with their primary keys, the writers of \<open>write.go\<close>, the readers
  of \<open>read.go\<close> and retention of \<open>retention.go\<close>. A table is the list of its rows in the order of their row ids; times are
  held as the text of \<open>timeLayout\<close>, which is what the queries order and filter by. The attribute column holds the map
  as it comes back from JSON: \<open>encoding/json\<close> replaces each byte that is not UTF-8 by U+FFFD. What SQLite alone knows
  (page counts, the size of the files, whether a checkpoint finds the database busy) is a parameter.
\<close>

section \<open>Text through JSON\<close>

abbreviation (input) cont_byte :: "nat \<Rightarrow> bool" where
  "cont_byte b \<equiv> 0x80 \<le> b \<and> b \<le> 0xBF"

text \<open>Length of the rune at the head of a byte sequence, zero when it is not well formed.\<close>

fun rune_length :: "nat list \<Rightarrow> nat" where
  "rune_length [] = 0"
| "rune_length (a # rest) =
     (if a < 0x80 then 1
      else case rest of
        [] \<Rightarrow> 0
      | b # rest' \<Rightarrow>
          if 0xC2 \<le> a \<and> a \<le> 0xDF \<and> cont_byte b then 2
          else (case rest' of
                  [] \<Rightarrow> 0
                | c # rest'' \<Rightarrow>
                    if cont_byte c \<and>
                       (a = 0xE0 \<and> 0xA0 \<le> b \<and> b \<le> 0xBF \<or> a = 0xED \<and> 0x80 \<le> b \<and> b \<le> 0x9F \<or>
                        (0xE1 \<le> a \<and> a \<le> 0xEC \<or> 0xEE \<le> a \<and> a \<le> 0xEF) \<and> cont_byte b) then 3
                    else (case rest'' of
                            [] \<Rightarrow> 0
                          | d # _ \<Rightarrow>
                              if cont_byte c \<and> cont_byte d \<and>
                                 (a = 0xF0 \<and> 0x90 \<le> b \<and> b \<le> 0xBF \<or> a = 0xF4 \<and> 0x80 \<le> b \<and> b \<le> 0x8F \<or>
                                  0xF1 \<le> a \<and> a \<le> 0xF3 \<and> cont_byte b) then 4 else 0)))"

definition replacement_char :: string where
  "replacement_char = [CHR 0xEF, CHR 0xBF, CHR 0xBD]"

function (sequential) json_text :: "string \<Rightarrow> string" where
  "json_text [] = []"
| "json_text (c # s) =
     (let n = rune_length (map of_char (c # s))
      in if n = 0 then replacement_char @ json_text s else take n (c # s) @ json_text (drop n (c # s)))"
  by pat_completeness auto
termination by (relation "measure length") auto

section \<open>Tables\<close>

record obs_row =
  or_id :: nat
  or_slot :: int
  or_kind :: ObservationKind
  or_at :: string
  or_clock_offset_ns :: duration
  or_clock_measured :: bool
  or_clock_sample_at :: string
  or_source :: SourceID
  or_attrs :: attrs

record sample_row =
  sr_id :: nat
  sr_at :: string
  sr_component :: Component
  sr_name :: string
  sr_value :: f64
  sr_clock_offset_ns :: duration
  sr_clock_measured :: bool
  sr_clock_sample_at :: string
  sr_source :: SourceID

text \<open>The row ids are \<open>AUTOINCREMENT\<close>: an id once given is never given again.\<close>

record database =
  db_observations :: "obs_row list"
  db_samples :: "sample_row list"
  db_next_observation :: nat
  db_next_sample :: nat

definition empty_database :: database where
  "empty_database = \<lparr>db_observations = [], db_samples = [], db_next_observation = 1, db_next_sample = 1\<rparr>"

datatype store_error =
    StoreInvalid domain_error | StoreSlotRange | StoreScan | StoreReconstruct domain_error | StoreTooMany
  | StoreRange | StoreLimit | StoreBusy | StoreSidecars | StoreCannotFit | StoreNotReclaimed

definition MaxInt64 :: nat where "MaxInt64 = 9223372036854775807"

section \<open>Writing\<close>

definition sample_at_text :: "gotime \<Rightarrow> string" where
  "sample_at_text t = (if IsZero t then [] else format_timeLayout t)"

definition observation_row :: "nat \<Rightarrow> Observation \<Rightarrow> obs_row" where
  "observation_row i ob =
     \<lparr>or_id = i, or_slot = int (unat (obs_Slot ob)), or_kind = obs_Kind ob, or_at = format_timeLayout (obs_At ob),
      or_clock_offset_ns = obs_ClockOffset ob, or_clock_measured = obs_ClockMeasured ob,
      or_clock_sample_at = sample_at_text (obs_ClockSampleAt ob), or_source = obs_Source ob,
      or_attrs = map (\<lambda>(k, v). (k, json_text v)) (obs_Attrs ob)\<rparr>"

definition WriteObservation :: "Observation \<Rightarrow> database \<Rightarrow> store_error + database" where
  "WriteObservation ob db =
     (case Observation_Validate ob of
        Some e \<Rightarrow> Inl (StoreInvalid e)
      | None \<Rightarrow>
          if unat (obs_Slot ob) > MaxInt64 then Inl StoreSlotRange
          else Inr (db\<lparr>db_observations := db_observations db @ [observation_row (db_next_observation db) ob],
                       db_next_observation := db_next_observation db + 1\<rparr>))"

definition metric_row :: "nat \<Rightarrow> MetricSample \<Rightarrow> sample_row" where
  "metric_row i m =
     \<lparr>sr_id = i, sr_at = format_timeLayout (ms_At m), sr_component = ms_Component m, sr_name = ms_Name m,
      sr_value = ms_Value m, sr_clock_offset_ns = ms_ClockOffset m, sr_clock_measured = ms_ClockMeasured m,
      sr_clock_sample_at = sample_at_text (ms_ClockSampleAt m), sr_source = ms_Source m\<rparr>"

definition WriteSample :: "MetricSample \<Rightarrow> database \<Rightarrow> store_error + database" where
  "WriteSample m db =
     (case MetricSample_Validate m of
        Some e \<Rightarrow> Inl (StoreInvalid e)
      | None \<Rightarrow>
          Inr (db\<lparr>db_samples := db_samples db @ [metric_row (db_next_sample db) m],
                  db_next_sample := db_next_sample db + 1\<rparr>))"

section \<open>Reading\<close>

definition maxObservationsPerSlot :: nat where "maxObservationsPerSlot = 1024"
definition maxSamplesPerRange :: nat where "maxSamplesPerRange = 2048"
definition maxReorgsPerWindow :: nat where "maxReorgsPerWindow = 128"

definition parse_sample_at :: "string \<Rightarrow> gotime option" where
  "parse_sample_at s = (if s = [] then Some time_zero else parse_timeLayout s)"

definition scanObservation :: "obs_row \<Rightarrow> store_error + Observation" where
  "scanObservation row =
     (if or_slot row < 0 then Inl StoreScan
      else case (parse_timeLayout (or_at row), parse_sample_at (or_clock_sample_at row)) of
        (Some t, Some sampledAt) \<Rightarrow>
          (case NewObservation
             \<lparr>obs_Slot = of_int (or_slot row), obs_Kind = or_kind row, obs_At = t, obs_ClockOffset = or_clock_offset_ns row,
              obs_ClockMeasured = or_clock_measured row, obs_ClockSampleAt = sampledAt, obs_Source = or_source row,
              obs_Attrs = or_attrs row\<rparr> of
             Inl e \<Rightarrow> Inl (StoreReconstruct e)
           | Inr ob \<Rightarrow> Inr ob)
      | _ \<Rightarrow> Inl StoreScan)"

definition scanSample :: "sample_row \<Rightarrow> store_error + MetricSample" where
  "scanSample row =
     (case (parse_timeLayout (sr_at row), parse_sample_at (sr_clock_sample_at row)) of
        (Some t, Some sampledAt) \<Rightarrow>
          (let m = \<lparr>ms_At = t, ms_Component = sr_component row, ms_Name = sr_name row, ms_Value = sr_value row,
                    ms_ClockOffset = sr_clock_offset_ns row, ms_ClockMeasured = sr_clock_measured row,
                    ms_ClockSampleAt = sampledAt, ms_Source = sr_source row\<rparr>
           in case MetricSample_Validate m of Some e \<Rightarrow> Inl (StoreReconstruct e) | None \<Rightarrow> Inr m)
      | _ \<Rightarrow> Inl StoreScan)"

text \<open>The loop over the rows of a query: scan, append, and refuse the row past the limit.\<close>

fun scan_rows :: "('r \<Rightarrow> store_error + 'a) \<Rightarrow> nat \<Rightarrow> 'r list \<Rightarrow> store_error + 'a list" where
  "scan_rows scan room [] = Inr []"
| "scan_rows scan room (row # rows) =
     (case scan row of
        Inl e \<Rightarrow> Inl e
      | Inr x \<Rightarrow>
          if room = 0 then Inl StoreTooMany
          else (case scan_rows scan (room - 1) rows of Inl e \<Rightarrow> Inl e | Inr xs \<Rightarrow> Inr (x # xs)))"

text \<open>\<open>ORDER BY at ASC LIMIT n\<close>; rows of one instant come in the order of their ids.\<close>

definition ObservationsForSlot :: "slot \<Rightarrow> database \<Rightarrow> store_error + Observation list" where
  "ObservationsForSlot s db =
     (if unat s > MaxInt64 then Inl StoreSlotRange
      else scan_rows scanObservation maxObservationsPerSlot
        (take (maxObservationsPerSlot + 1) (sort_key or_at (filter (\<lambda>r. or_slot r = int (unat s)) (db_observations db)))))"

definition ReorgsBetweenSlots :: "slot \<Rightarrow> slot \<Rightarrow> database \<Rightarrow> store_error + Observation list" where
  "ReorgsBetweenSlots start until db =
     (if until \<le> start then Inr []
      else if unat start > MaxInt64 then Inl StoreSlotRange
      else let e = min (unat until) MaxInt64
           in scan_rows scanObservation maxReorgsPerWindow
                (take (maxReorgsPerWindow + 1) (sort_key or_at
                  (filter (\<lambda>r. or_kind r = ObsReorg \<and> or_slot r > int (unat start) \<and> or_slot r \<le> int e) (db_observations db)))))"

definition SamplesBetween :: "gotime \<Rightarrow> gotime \<Rightarrow> database \<Rightarrow> store_error + MetricSample list" where
  "SamplesBetween start until db =
     (if Before until start then Inl StoreRange
      else scan_rows scanSample maxSamplesPerRange
        (take (maxSamplesPerRange + 1) (sort_key sr_at
          (filter (\<lambda>r. format_timeLayout (in_UTC start) \<le> sr_at r \<and> sr_at r \<le> format_timeLayout (in_UTC until)) (db_samples db)))))"

section \<open>Retention\<close>

definition pruneBatchSize :: nat where "pruneBatchSize = 1000"

text \<open>A row as the retention query sees it: its time, its table and its id, in the order of \<open>ORDER BY\<close>.\<close>

type_synonym row_key = "string \<times> string \<times> nat"

definition row_keys :: "database \<Rightarrow> row_key list" where
  "row_keys db = map (\<lambda>r. (or_at r, ''observations'', or_id r)) (db_observations db) @
     map (\<lambda>r. (sr_at r, ''samples'', sr_id r)) (db_samples db)"

definition prune_batch :: "nat \<Rightarrow> string option \<Rightarrow> database \<Rightarrow> row_key list" where
  "prune_batch limit cutoff db =
     take limit (sort (filter (\<lambda>(t, _). case cutoff of None \<Rightarrow> True | Some c \<Rightarrow> t < c) (row_keys db)))"

text \<open>The two \<open>DELETE\<close> statements: by id, among the ids the batch holds for the table.\<close>

definition delete_batch :: "row_key list \<Rightarrow> database \<Rightarrow> database" where
  "delete_batch batch db =
     db\<lparr>db_observations := filter (\<lambda>r. (''observations'', or_id r) \<notin> snd ` set batch) (db_observations db),
        db_samples := filter (\<lambda>r. (''samples'', sr_id r) \<notin> snd ` set batch) (db_samples db)\<rparr>"

definition deleteOldestMatchingBatch :: "string option \<Rightarrow> database \<Rightarrow> nat \<times> database" where
  "deleteOldestMatchingBatch cutoff db =
     (let db' = delete_batch (prune_batch pruneBatchSize cutoff db) db
      in (length (row_keys db) - length (row_keys db'), db'))"

text \<open>
  What SQLite and the file system answer: the bytes of live pages, of the sidecar files and of all files, and whether a
  checkpoint finds the database busy, at each of the four places that ask.
\<close>

record sqlite =
  sq_live :: "database \<Rightarrow> int"
  sq_sidecar :: "database \<Rightarrow> int"
  sq_physical :: "database \<Rightarrow> int"
  sq_busy :: "nat \<Rightarrow> database \<Rightarrow> bool"

lemma deleteOldestMatchingBatch_decreases:
  "deleteOldestMatchingBatch cutoff db = (n, db') \<Longrightarrow> n \<noteq> 0 \<Longrightarrow> length (row_keys db') < length (row_keys db)"
  by (auto simp: deleteOldestMatchingBatch_def Let_def)

function deleteByAge :: "sqlite \<Rightarrow> string \<Rightarrow> database \<Rightarrow> store_error option \<times> database" where
  "deleteByAge sq cutoff db =
     (let (n, db') = deleteOldestMatchingBatch (Some cutoff) db
      in if n = 0 then (None, db')
         else if sq_busy sq 0 db' then (Some StoreBusy, db')
         else deleteByAge sq cutoff db')"
  by pat_completeness auto
termination
  by (relation "measure (\<lambda>(_, _, db). length (row_keys db))") (auto dest: deleteOldestMatchingBatch_decreases [OF sym])

function size_loop :: "sqlite \<Rightarrow> int \<Rightarrow> database \<Rightarrow> store_error option \<times> database" where
  "size_loop sq liveBudget db =
     (if sq_live sq db \<le> liveBudget then (None, db)
      else let (n, db') = deleteOldestMatchingBatch None db
           in if n = 0 then (Some StoreCannotFit, db')
              else if sq_busy sq 2 db' then (Some StoreBusy, db')
              else size_loop sq liveBudget db')"
  by pat_completeness auto
termination
  by (relation "measure (\<lambda>(_, _, db). length (row_keys db))") (auto dest: deleteOldestMatchingBatch_decreases [OF sym])

declare deleteByAge.simps [simp del] size_loop.simps [simp del]

definition Prune :: "sqlite \<Rightarrow> gotime \<Rightarrow> duration \<Rightarrow> int \<Rightarrow> database \<Rightarrow> store_error option \<times> database" where
  "Prune sq now maxAge maxBytes db =
     (if maxAge \<le> 0 then (Some StoreLimit, db)
      else if maxBytes \<le> 0 then (Some StoreLimit, db)
      else case deleteByAge sq (format_timeLayout (Add (in_UTC now) (- maxAge))) db of
        (Some e, db1) \<Rightarrow> (Some e, db1)
      | (None, db1) \<Rightarrow>
          if sq_busy sq 1 db1 then (Some StoreBusy, db1)
          else let liveBudget = maxBytes - sq_sidecar sq db1
               in if liveBudget \<le> 0 then (Some StoreSidecars, db1)
                  else (case size_loop sq liveBudget db1 of
                          (Some e, db2) \<Rightarrow> (Some e, db2)
                        | (None, db2) \<Rightarrow>
                            if sq_busy sq 3 db2 then (Some StoreBusy, db2)
                            else if sq_physical sq db2 > maxBytes then (Some StoreNotReclaimed, db2)
                            else (None, db2)))"

section \<open>The contract of retention\<close>

text \<open>What is left after deleting oldest first: a part of the rows, each later than every row that is gone.\<close>

definition oldest_first :: "'k :: linorder set \<Rightarrow> 'k set \<Rightarrow> bool" where
  "oldest_first before after \<longleftrightarrow> after \<subseteq> before \<and> (\<forall>gone \<in> before - after. \<forall>kept \<in> after. gone < kept)"

lemma oldest_first_refl: "oldest_first K K"
  by (simp add: oldest_first_def)

lemma oldest_first_trans: "oldest_first K K' \<Longrightarrow> oldest_first K' K'' \<Longrightarrow> oldest_first K K''"
  unfolding oldest_first_def by blast

locale retention_step =
  fixes step :: "'db \<Rightarrow> 'db \<Rightarrow> bool" and keys :: "'db \<Rightarrow> 'k :: linorder set" and inv :: "'db \<Rightarrow> bool"
  assumes step_inv: "inv db \<Longrightarrow> step db db' \<Longrightarrow> inv db'"
    and step_oldest: "inv db \<Longrightarrow> step db db' \<Longrightarrow> oldest_first (keys db) (keys db')"
begin

lemma steps_oldest:
  assumes "step\<^sup>*\<^sup>* db db'" "inv db"
  shows "inv db' \<and> oldest_first (keys db) (keys db')"
  using assms
  by (induction rule: rtranclp_induct) (auto intro: step_inv oldest_first_refl oldest_first_trans dest: step_oldest)

end

text \<open>The first elements of a sorted filter by a downward closed predicate are the oldest of all.\<close>

lemma take_sort_filter_oldest:
  assumes "distinct ks" "\<And>a b. P b \<Longrightarrow> a \<le> b \<Longrightarrow> P a"
  shows "oldest_first (set ks) (set ks - set (take n (sort (filter P ks))))"
proof -
  let ?xs = "sort (filter P ks)"
  have "gone < kept" if "gone \<in> set (take n ?xs)" "kept \<in> set ks" "kept \<notin> set (take n ?xs)" for gone kept
  proof (cases "P kept")
    case True
    then have "kept \<in> set (drop n ?xs)" using that
      by (metis (no_types, lifting) Un_iff append_take_drop_id mem_Collect_eq set_append set_filter set_sort)
    then have "gone \<le> kept" using that(1) sorted_append [of "take n ?xs" "drop n ?xs"] by simp
    moreover have "gone \<noteq> kept" using that by auto
    ultimately show ?thesis by simp
  next
    case False
    have "P gone" using that(1) by (auto dest: in_set_takeD)
    with assms(2) [of gone kept] False show ?thesis by (metis not_le)
  qed
  then show ?thesis by (auto simp: oldest_first_def dest: in_set_takeD)
qed

section \<open>Well-formed databases\<close>

definition db_wf :: "database \<Rightarrow> bool" where
  "db_wf db \<longleftrightarrow> distinct (map or_id (db_observations db)) \<and> (\<forall>r \<in> set (db_observations db). or_id r < db_next_observation db) \<and>
     distinct (map sr_id (db_samples db)) \<and> (\<forall>r \<in> set (db_samples db). sr_id r < db_next_sample db)"

lemma empty_database_wf: "db_wf empty_database"
  by (simp add: db_wf_def empty_database_def)

lemma WriteObservation_wf: "db_wf db \<Longrightarrow> WriteObservation ob db = Inr db' \<Longrightarrow> db_wf db'"
  by (fastforce simp: db_wf_def WriteObservation_def observation_row_def split: option.splits if_splits)

lemma WriteSample_wf: "db_wf db \<Longrightarrow> WriteSample m db = Inr db' \<Longrightarrow> db_wf db'"
  by (fastforce simp: db_wf_def WriteSample_def metric_row_def split: option.splits)

lemma delete_batch_wf: "db_wf db \<Longrightarrow> db_wf (delete_batch batch db)"
  by (auto simp: db_wf_def delete_batch_def intro: distinct_map_filter)

lemma row_keys_ids: "db_wf db \<Longrightarrow> distinct (map snd (row_keys db))"
  by (auto simp: db_wf_def row_keys_def distinct_map inj_on_def)

lemma row_keys_distinct: "db_wf db \<Longrightarrow> distinct (row_keys db)"
  using row_keys_ids by (simp add: distinct_map)

lemma row_keys_delete_batch:
  assumes "db_wf db" "set batch \<subseteq> set (row_keys db)"
  shows "row_keys (delete_batch batch db) = filter (\<lambda>k. k \<notin> set batch) (row_keys db)"
proof -
  have inj: "inj_on snd (set (row_keys db))" using row_keys_ids [OF assms(1)] by (simp add: distinct_map)
  have "k \<in> set batch \<longleftrightarrow> snd k \<in> snd ` set batch" if "k \<in> set (row_keys db)" for k
    using inj_on_image_mem_iff [OF inj that assms(2)] by simp
  then have "filter (\<lambda>k. k \<notin> set batch) (row_keys db) = filter (\<lambda>k. snd k \<notin> snd ` set batch) (row_keys db)"
    by (intro filter_cong) auto
  then show ?thesis by (simp add: row_keys_def delete_batch_def filter_map comp_def)
qed

abbreviation older :: "string option \<Rightarrow> row_key \<Rightarrow> bool" where
  "older cutoff \<equiv> \<lambda>(t, _). case cutoff of None \<Rightarrow> True | Some c \<Rightarrow> t < c"

lemma older_down: "older cutoff b \<Longrightarrow> a \<le> b \<Longrightarrow> older cutoff a"
  by (auto simp: less_eq_prod_simp split: option.splits)

lemma set_prune_batch: "set (prune_batch n cutoff db) \<subseteq> set (row_keys db)"
  by (auto simp: prune_batch_def dest: in_set_takeD)

lemma batch_keys:
  assumes "db_wf db" "deleteOldestMatchingBatch cutoff db = (n, db')"
  shows "db_wf db'" "row_keys db' = filter (\<lambda>k. k \<notin> set (prune_batch pruneBatchSize cutoff db)) (row_keys db)"
    "n = length (prune_batch pruneBatchSize cutoff db)"
proof -
  have db': "db' = delete_batch (prune_batch pruneBatchSize cutoff db) db" "n = length (row_keys db) - length (row_keys db')"
    using assms(2) by (auto simp: deleteOldestMatchingBatch_def Let_def)
  show "db_wf db'" using assms(1) by (simp add: db'(1) delete_batch_wf)
  show keys: "row_keys db' = filter (\<lambda>k. k \<notin> set (prune_batch pruneBatchSize cutoff db)) (row_keys db)"
    using row_keys_delete_batch [OF assms(1) set_prune_batch] by (simp add: db'(1))
  have d: "distinct (row_keys db)" using assms(1) by (rule row_keys_distinct)
  let ?B = "prune_batch pruneBatchSize cutoff db"
  have "distinct ?B" using d by (simp add: prune_batch_def)
  moreover have "card (set (row_keys db')) = card (set (row_keys db)) - card (set ?B)"
    unfolding keys using set_prune_batch by (simp add: set_diff_eq [symmetric] card_Diff_subset)
  moreover have "card (set ?B) \<le> card (set (row_keys db))" by (intro card_mono set_prune_batch) simp
  moreover have "distinct (row_keys db')" using d by (simp add: keys)
  ultimately show "n = length ?B" using d db'(2) by (simp add: distinct_card)
qed

definition batch_step :: "database \<Rightarrow> database \<Rightarrow> bool" where
  "batch_step db db' \<longleftrightarrow> (\<exists>cutoff n. deleteOldestMatchingBatch cutoff db = (n, db'))"

interpretation prune: retention_step batch_step "\<lambda>db. set (row_keys db)" db_wf
proof
  fix db db'
  assume wf: "db_wf db" and "batch_step db db'"
  then obtain cutoff n where b: "deleteOldestMatchingBatch cutoff db = (n, db')" by (auto simp: batch_step_def)
  note k = batch_keys [OF wf b]
  show "db_wf db'" by (fact k(1))
  have "set (row_keys db') = set (row_keys db) - set (prune_batch pruneBatchSize cutoff db)" using k(2) by auto
  then show "oldest_first (set (row_keys db)) (set (row_keys db'))"
    unfolding prune_batch_def using take_sort_filter_oldest [OF row_keys_distinct [OF wf], of "older cutoff"] older_down by metis
qed

end
