(* ===== verification/StoreReplay.thy ===== *)
theory StoreReplay
  imports Store
begin

text \<open>
  What the store gives back. A database that holds the observations a list names (\<open>holds\<close>) answers a query for a slot
  with exactly the observations of that slot, in the order of their times: the SQL text columns refine the list.
\<close>

section \<open>Sorting through a projection\<close>

lemma sort_key_map: "sort_key f (map g xs) = map g (sort_key (\<lambda>x. f (g x)) xs)"
proof (induction xs)
  case (Cons x xs)
  have "insort_key f (g x) (map g ys) = map g (insort_key (\<lambda>x. f (g x)) x ys)" for ys by (induction ys) auto
  with Cons show ?case by simp
qed simp

lemma sort_key_iso:
  fixes f :: "'a \<Rightarrow> 'k :: linorder" and g :: "'a \<Rightarrow> 'l :: linorder"
  assumes "\<forall>x \<in> set xs. \<forall>y \<in> set xs. f x \<le> f y \<longleftrightarrow> g x \<le> g y"
  shows "sort_key f xs = sort_key g xs"
  using assms
proof (induction xs)
  case (Cons x xs)
  have "insort_key f x ys = insort_key g x ys" if "set ys \<subseteq> set xs" for ys
    using that Cons.prems by (induction ys) auto
  with Cons show ?case by simp
qed simp

section \<open>Rows and observations\<close>

definition writable :: "Observation \<Rightarrow> bool" where
  "writable ob \<longleftrightarrow> Observation_Validate ob = None \<and> unat (obs_Slot ob) \<le> MaxInt64 \<and> storable_time (obs_At ob) \<and>
     (obs_ClockMeasured ob \<longrightarrow> storable_time (obs_ClockSampleAt ob)) \<and> (\<forall>(k, v) \<in> set (obs_Attrs ob). json_text v = v)"

text \<open>The observation as it comes back: canonical attributes, and the zero clock time in UTC.\<close>

definition stored :: "Observation \<Rightarrow> Observation" where
  "stored ob = ob\<lparr>obs_ClockSampleAt := (if obs_ClockMeasured ob then obs_ClockSampleAt ob else time_zero),
     obs_Attrs := map lower_root (obs_Attrs ob)\<rparr>"

lemma format_not_Nil: "format_timeLayout t \<noteq> []"
  by (simp add: format_timeLayout_def Let_def split: prod.split)

lemma sample_at_back:
  assumes "validate_clock measured offset t = None" "measured \<Longrightarrow> storable_time t"
  shows "parse_sample_at (sample_at_text t) = Some (if measured then t else time_zero)"
  using assms by (auto simp: parse_sample_at_def sample_at_text_def validate_clock_def format_not_Nil parse_format_timeLayout
      split: if_splits)

lemma Validate_clock: "Observation_Validate ob = None \<Longrightarrow> validate_clock (obs_ClockMeasured ob) (obs_ClockOffset ob) (obs_ClockSampleAt ob) = None"
  by (simp add: Observation_Validate_def)

lemma Validate_zero_clock:
  assumes "Observation_Validate ob = None"
  shows "Observation_Validate (ob\<lparr>obs_ClockSampleAt := (if obs_ClockMeasured ob then obs_ClockSampleAt ob else time_zero)\<rparr>) = None"
  using assms by (auto simp: Observation_Validate_def validate_clock_def split: if_splits)

lemma scan_observation_row:
  assumes "writable ob"
  shows "scanObservation (observation_row i ob) = Inr (stored ob)"
proof -
  have v: "Observation_Validate ob = None" and t: "storable_time (obs_At ob)"
    and c: "obs_ClockMeasured ob \<Longrightarrow> storable_time (obs_ClockSampleAt ob)" using assms by (auto simp: writable_def)
  have attrs: "map (\<lambda>(k, v). (k, json_text v)) (obs_Attrs ob) = obs_Attrs ob"
    using assms by (intro map_idI) (auto simp: writable_def)
  define sa where "sa = (if obs_ClockMeasured ob then obs_ClockSampleAt ob else time_zero)"
  have new: "NewObservation (ob\<lparr>obs_ClockSampleAt := sa\<rparr>) = Inr (stored ob)"
    using Validate_zero_clock [OF v] by (simp add: NewObservation_def stored_def sa_def)
  have eq: "\<lparr>obs_Slot = obs_Slot ob, obs_Kind = obs_Kind ob, obs_At = obs_At ob, obs_ClockOffset = obs_ClockOffset ob,
      obs_ClockMeasured = obs_ClockMeasured ob, obs_ClockSampleAt = sa, obs_Source = obs_Source ob, obs_Attrs = obs_Attrs ob\<rparr> =
      ob\<lparr>obs_ClockSampleAt := sa\<rparr>" by (cases ob) simp
  have "parse_sample_at (sample_at_text (obs_ClockSampleAt ob)) = Some sa"
    using sample_at_back [OF Validate_clock [OF v] c] by (simp add: sa_def)
  then show ?thesis using new unfolding eq [symmetric]
    by (simp add: scanObservation_def observation_row_def parse_format_timeLayout [OF t] attrs)
qed

lemma scan_rows_ok:
  assumes "\<And>x. x \<in> set xs \<Longrightarrow> scan (row x) = Inr (f x)"
  shows "scan_rows scan room (map row xs) = (if length xs \<le> room then Inr (map f xs) else Inl StoreTooMany)"
  using assms
proof (induction xs arbitrary: room)
  case (Cons x xs)
  then show ?case by (cases room) auto
qed simp

section \<open>The refinement\<close>

definition holds :: "database \<Rightarrow> Observation list \<Rightarrow> bool" where
  "holds db obs \<longleftrightarrow> (\<exists>ids. length ids = length obs \<and> db_observations db = map (\<lambda>(i, ob). observation_row i ob) (zip ids obs))"

lemma holds_empty: "holds empty_database []"
  by (simp add: holds_def empty_database_def)

lemma WriteObservation_holds:
  assumes "holds db obs" "WriteObservation ob db = Inr db'"
  shows "holds db' (obs @ [ob])"
proof -
  from assms(1) obtain ids where "length ids = length obs" "db_observations db = map (\<lambda>(i, ob). observation_row i ob) (zip ids obs)"
    by (auto simp: holds_def)
  with assms(2) show ?thesis
    by (auto simp: holds_def WriteObservation_def split: option.splits if_splits intro!: exI [of _ "ids @ [db_next_observation db]"])
qed

text \<open>What a query for a slot should answer, over the observations themselves.\<close>

definition slot_answer :: "slot \<Rightarrow> Observation list \<Rightarrow> store_error + Observation list" where
  "slot_answer s obs =
     (let own = filter (\<lambda>ob. obs_Slot ob = s) obs
      in if length own \<le> maxObservationsPerSlot then Inr (map stored (sort_key (\<lambda>ob. t_ns (obs_At ob)) own)) else Inl StoreTooMany)"

lemma text_order:
  assumes "storable_time t" "storable_time t'"
  shows "format_timeLayout t \<le> format_timeLayout t' \<longleftrightarrow> t_ns t \<le> t_ns t'"
proof -
  note less = format_timeLayout_less [OF assms] format_timeLayout_less [OF assms(2,1)]
  have "t = t'" if "t_ns t = t_ns t'" using that assms by (simp add: storable_time_def)
  then show ?thesis using less by (cases "t_ns t" "t_ns t'" rule: linorder_cases) auto
qed

lemma ObservationsForSlot_holds:
  assumes "holds db obs" "\<forall>ob \<in> set obs. writable ob" "unat s \<le> MaxInt64"
  shows "ObservationsForSlot s db = slot_answer s obs"
proof -
  obtain ids where ids: "length ids = length obs" "db_observations db = map (\<lambda>(i, ob). observation_row i ob) (zip ids obs)"
    using assms(1) by (auto simp: holds_def)
  let ?row = "\<lambda>(i, ob). observation_row i ob"
  define own where "own = filter (\<lambda>x. obs_Slot (snd x) = s) (zip ids obs)"
  have snd_own: "map snd own = filter (\<lambda>ob. obs_Slot ob = s) obs"
    using ids(1) by (simp add: own_def filter_map [of "\<lambda>ob. obs_Slot ob = s" snd, unfolded comp_def, symmetric])
  have w: "writable (snd x)" if "x \<in> set own" for x
    using that assms(2) by (auto simp: own_def) (metis prod.collapse set_zip_rightD)
  then have t: "storable_time (obs_At (snd x))" if "x \<in> set own" for x using that by (simp add: writable_def)
  have rows: "filter (\<lambda>r. or_slot r = int (unat s)) (db_observations db) = map ?row own"
    by (simp add: ids(2) own_def filter_map comp_def case_prod_beta observation_row_def word_uint_eq_iff)
  have sorted: "sort_key or_at (map ?row own) = map ?row (sort_key (\<lambda>x. t_ns (obs_At (snd x))) own)"
  proof -
    have "sort_key (\<lambda>x. or_at (?row x)) own = sort_key (\<lambda>x. t_ns (obs_At (snd x))) own"
      using text_order [OF t t] by (intro sort_key_iso) (simp add: observation_row_def case_prod_beta)
    then show ?thesis by (simp add: sort_key_map)
  qed
  define xs where "xs = sort_key (\<lambda>x. t_ns (obs_At (snd x))) own"
  have "scan_rows scanObservation maxObservationsPerSlot (map ?row (take (maxObservationsPerSlot + 1) xs)) =
      (if length (take (maxObservationsPerSlot + 1) xs) \<le> maxObservationsPerSlot
       then Inr (map (\<lambda>x. stored (snd x)) (take (maxObservationsPerSlot + 1) xs)) else Inl StoreTooMany)"
    using w by (intro scan_rows_ok) (auto simp: xs_def scan_observation_row dest!: in_set_takeD)
  moreover have "map (\<lambda>x. stored (snd x)) xs = map stored (sort_key (\<lambda>ob. t_ns (obs_At ob)) (map snd own))"
    by (simp add: xs_def sort_key_map comp_def)
  moreover have "length xs = length (map snd own)" by (simp add: xs_def)
  ultimately show ?thesis using assms(3)
    unfolding ObservationsForSlot_def rows sorted take_map xs_def [symmetric] slot_answer_def snd_own [symmetric] Let_def
    by (auto simp: not_le min_def)
qed

text \<open>Writing a list of observations one after another.\<close>

fun write_all :: "Observation list \<Rightarrow> database \<Rightarrow> store_error + database" where
  "write_all [] db = Inr db"
| "write_all (ob # obs) db = (case WriteObservation ob db of Inl e \<Rightarrow> Inl e | Inr db' \<Rightarrow> write_all obs db')"

lemma write_all_holds: "holds db before \<Longrightarrow> write_all obs db = Inr db' \<Longrightarrow> holds db' (before @ obs)"
proof (induction obs arbitrary: db before)
  case (Cons ob obs)
  then obtain db1 where "WriteObservation ob db = Inr db1" "write_all obs db1 = Inr db'" by (auto split: sum.splits)
  with Cons.IH [of db1 "before @ [ob]"] WriteObservation_holds [OF Cons.prems(1)] show ?case by simp
qed simp

lemma write_all_writable: "\<forall>ob \<in> set obs. writable ob \<Longrightarrow> \<exists>db'. write_all obs db = Inr db'"
  by (induction obs arbitrary: db) (auto simp: WriteObservation_def writable_def)

text \<open>
  Property C21: the store gives back what was written. After a list of writable observations is written to a new
  database, a query for a slot answers the observations of that slot and no other, ordered by their times (ties in the
  order of writing), each in its canonical form; and when the slot holds more than 1024 of them it refuses.
\<close>

theorem write_read_back:
  assumes "list_all writable obs" "unat s \<le> MaxInt64"
  shows "\<exists>db. write_all obs empty_database = Inr db \<and> ObservationsForSlot s db = slot_answer s obs"
proof -
  have w: "\<forall>ob \<in> set obs. writable ob" using assms(1) by (simp add: list_all_iff)
  then obtain db where db: "write_all obs empty_database = Inr db" using write_all_writable by blast
  have "holds db obs" using write_all_holds [OF holds_empty db] by simp
  from ObservationsForSlot_holds [OF this w assms(2)] db show ?thesis by blast
qed

definition sample_head :: "int \<Rightarrow> Observation" where
  "sample_head ns = \<lparr>obs_Slot = 7, obs_Kind = ObsSlotStart, obs_At = \<lparr>t_ns = ns, t_loc = UTC\<rparr>, obs_ClockOffset = 0, obs_ClockMeasured = False,
     obs_ClockSampleAt = time_zero, obs_Source = SourceDerived, obs_Attrs = []\<rparr>"

lemma sample_head_writable: "list_all writable [sample_head 63823075200600000000, sample_head 63823075200000000000]"
  by (simp add: writable_def sample_head_def Observation_Validate_def validate_clock_def storable_time_def MaxInt64_def IsZero_def)

theorem write_read_back_witness:
  "\<exists>db. write_all [sample_head 63823075200600000000, sample_head 63823075200000000000] empty_database = Inr db \<and>
     ObservationsForSlot 7 db = Inr [sample_head 63823075200000000000, sample_head 63823075200600000000]"
proof -
  have "slot_answer 7 [sample_head 63823075200600000000, sample_head 63823075200000000000] =
      Inr [sample_head 63823075200000000000, sample_head 63823075200600000000]"
    by (simp add: slot_answer_def sample_head_def stored_def maxObservationsPerSlot_def)
  with write_read_back [OF sample_head_writable, of 7] show ?thesis by (simp add: MaxInt64_def)
qed

end
