(* ===== verification/Explain.thy ===== *)
theory Explain
  imports Attribution Assembly StoreReplay
begin

text \<open>
  \<open>internal/app/timeline.go\<close> and \<open>internal/app/explain.go\<close>: what the store holds about a slot becomes the timeline of one
  validator's duty, and the timeline becomes a verdict. Opening the store is an argument: the database it finds, or the error. \<open>oob\<close> is the
  platform's out-of-range conversion.
\<close>

section \<open>Selecting one validator's duty\<close>

datatype validator_error = MissingValidatorIndex | BadValidatorText string

datatype timeline_error =
    TlOpen store_error | TlLoad store_error | TlEmpty | TlAssignment validator_error | TlNoDuty validator_index
  | TlAmbiguous "validator_index list" | TlScoped ObservationKind validator_error | TlReorgs store_error | TlNoSlotStart
  | TlSamples store_error | TlBaseline domain_error | TlBuild domain_error

definition observationValidator :: "Observation \<Rightarrow> validator_error + validator_index" where
  "observationValidator ob =
     (case Observation_Attr ob AttrValidatorIndex of
        None \<Rightarrow> Inl MissingValidatorIndex
      | Some text \<Rightarrow> (case ParseUint text of None \<Rightarrow> Inl (BadValidatorText text) | Some n \<Rightarrow> Inr (of_nat n)))"

fun dutyScopedObservation :: "ObservationKind \<Rightarrow> bool" where
  "dutyScopedObservation ObsDutyAssigned = True"
| "dutyScopedObservation ObsAttestationPublished = True"
| "dutyScopedObservation ObsAttestationIncluded = True"
| "dutyScopedObservation ObsBlockProposed = True"
| "dutyScopedObservation ObsCollectionCompleted = True"
| "dutyScopedObservation _ = False"

text \<open>The set of assigned validators, in the order in which they were first seen.\<close>

fun assigned_loop :: "validator_index list \<Rightarrow> Observation list \<Rightarrow> timeline_error + validator_index list" where
  "assigned_loop assigned [] = Inr assigned"
| "assigned_loop assigned (ob # obs) =
     (if obs_Kind ob \<noteq> ObsDutyAssigned then assigned_loop assigned obs
      else case observationValidator ob of
        Inl e \<Rightarrow> Inl (TlAssignment e)
      | Inr v \<Rightarrow> assigned_loop (if v \<in> set assigned then assigned else assigned @ [v]) obs)"

definition select_validator ::
  "validator_index list \<Rightarrow> validator_index option \<Rightarrow> timeline_error + validator_index option" where
  "select_validator assigned requested =
     (case requested of
        Some v \<Rightarrow> if v \<notin> set assigned then Inl (TlNoDuty v) else Inr (Some v)
      | None \<Rightarrow>
          if length assigned = 1 then Inr (Some (hd assigned))
          else if length assigned > 1 then Inl (TlAmbiguous (sort assigned))
          else Inr None)"

fun filter_loop ::
  "validator_index list \<Rightarrow> validator_index option \<Rightarrow> Observation list \<Rightarrow> timeline_error + Observation list" where
  "filter_loop assigned selected [] = Inr []"
| "filter_loop assigned selected (ob # obs) =
     (let keep = (case filter_loop assigned selected obs of Inl e \<Rightarrow> Inl e | Inr rest \<Rightarrow> Inr (ob # rest))
      in if \<not> dutyScopedObservation (obs_Kind ob) then keep
         else case observationValidator ob of
           Inl e \<Rightarrow>
             if obs_Kind ob = ObsCollectionCompleted \<and> selected \<noteq> None \<and> length assigned = 1 then keep
             else Inl (TlScoped (obs_Kind ob) e)
         | Inr v \<Rightarrow> if selected = Some v then keep else filter_loop assigned selected obs)"

definition attester_duty :: "slot \<Rightarrow> validator_index \<Rightarrow> Duty" where
  "attester_duty s v = \<lparr>duty_Kind = DutyAttester, duty_Slot = s, duty_ValidatorIndex = v, duty_CommitteeIndex = 0\<rparr>"

definition selectDutyObservations ::
  "slot \<Rightarrow> Observation list \<Rightarrow> validator_index option \<Rightarrow> timeline_error + Observation list \<times> Duty option" where
  "selectDutyObservations s obs requested =
     (case assigned_loop [] obs of
        Inl e \<Rightarrow> Inl e
      | Inr assigned \<Rightarrow>
          (case select_validator assigned requested of
             Inl e \<Rightarrow> Inl e
           | Inr selected \<Rightarrow>
               (case filter_loop assigned selected obs of
                  Inl e \<Rightarrow> Inl e
                | Inr filtered \<Rightarrow>
                    Inr (filtered, map_option (attester_duty s) selected))))"

section \<open>The timeline of a slot\<close>

definition sampleLookback :: duration where
  "sampleLookback = Minute"

fun file_observations :: "int \<Rightarrow> Assembler \<Rightarrow> Observation list \<Rightarrow> timeline_error + Assembler" where
  "file_observations oob a [] = Inr a"
| "file_observations oob a (ob # obs) =
     (let a' = AddObservation a ob
      in if obs_Kind ob = ObsNetworkBaselineSampled
         then case NetworkBaselineFromObservation oob ob of
           Inl e \<Rightarrow> Inl (TlBaseline e)
         | Inr baseline \<Rightarrow> file_observations oob (SetNetwork a' baseline) obs
         else file_observations oob a' obs)"

definition assemble_slot ::
  "int \<Rightarrow> SlotSchedule \<Rightarrow> slot \<Rightarrow> gotime \<Rightarrow> Observation list \<Rightarrow> Observation list \<Rightarrow> Duty option \<Rightarrow> MetricSample list \<Rightarrow> timeline_error + Timeline" where
  "assemble_slot oob schedule s slotStart obs windowReorgs duty samples =
     (case file_observations oob (NewAssembler schedule) obs of
        Inl e \<Rightarrow> Inl e
      | Inr a \<Rightarrow>
          let a1 = foldl AddObservation a windowReorgs;
              a2 = (case duty of None \<Rightarrow> a1 | Some d \<Rightarrow> SetDuty a1 d);
              a3 = foldl AddSample a2 samples
          in case Build a3 s slotStart of Inl e \<Rightarrow> Inl (TlBuild e) | Inr t \<Rightarrow> Inr t)"

definition load_window_reorgs :: "slot \<Rightarrow> Duty option \<Rightarrow> database \<Rightarrow> store_error + Observation list" where
  "load_window_reorgs s duty db =
     (case duty of
        None \<Rightarrow> Inr []
      | Some d \<Rightarrow> if duty_Kind d = DutyAttester then ReorgsBetweenSlots s (Slot_LastAttestationInclusionSlot s) db else Inr [])"

definition GetTimelineForValidatorSelection ::
  "int \<Rightarrow> store_error + database \<Rightarrow> slot \<Rightarrow> validator_index option \<Rightarrow> SlotSchedule \<Rightarrow> timeline_error + Timeline" where
  "GetTimelineForValidatorSelection oob opened s validator schedule =
     (case opened of
        Inl e \<Rightarrow> Inl (TlOpen e)
      | Inr db \<Rightarrow>
          (case ObservationsForSlot s db of
             Inl e \<Rightarrow> Inl (TlLoad e)
           | Inr found \<Rightarrow>
               if found = [] then Inl TlEmpty
               else case selectDutyObservations s found validator of
                 Inl e \<Rightarrow> Inl e
               | Inr (obs, duty) \<Rightarrow>
                   (case load_window_reorgs s duty db of
                      Inl e \<Rightarrow> Inl (TlReorgs e)
                    | Inr windowReorgs \<Rightarrow>
                        (case List.find (\<lambda>ob. obs_Kind ob = ObsSlotStart) obs of
                           None \<Rightarrow> Inl TlNoSlotStart
                         | Some first \<Rightarrow>
                             (case SamplesBetween (Add (obs_At first) (- sampleLookback)) (SlotSchedule_SlotEndAt schedule (obs_At first)) db of
                                Inl e \<Rightarrow> Inl (TlSamples e)
                              | Inr samples \<Rightarrow> assemble_slot oob schedule s (obs_At first) obs windowReorgs duty samples)))))"

definition GetTimeline :: "int \<Rightarrow> store_error + database \<Rightarrow> slot \<Rightarrow> SlotSchedule \<Rightarrow> timeline_error + Timeline" where
  "GetTimeline oob opened s schedule = GetTimelineForValidatorSelection oob opened s None schedule"

definition GetTimelineForValidator ::
  "int \<Rightarrow> store_error + database \<Rightarrow> slot \<Rightarrow> validator_index \<Rightarrow> SlotSchedule \<Rightarrow> timeline_error + Timeline" where
  "GetTimelineForValidator oob opened s validator schedule = GetTimelineForValidatorSelection oob opened s (Some validator) schedule"

definition Explain :: "int \<Rightarrow> store_error + database \<Rightarrow> slot \<Rightarrow> SlotSchedule \<Rightarrow> Config \<Rightarrow> timeline_error + Verdict" where
  "Explain oob opened s schedule cfg =
     (case GetTimelineForValidatorSelection oob opened s None schedule of Inl e \<Rightarrow> Inl e | Inr t \<Rightarrow> Inr (Analyze t cfg))"

definition ExplainForValidator ::
  "int \<Rightarrow> store_error + database \<Rightarrow> slot \<Rightarrow> validator_index \<Rightarrow> SlotSchedule \<Rightarrow> Config \<Rightarrow> timeline_error + Verdict" where
  "ExplainForValidator oob opened s validator schedule cfg =
     (case GetTimelineForValidatorSelection oob opened s (Some validator) schedule of Inl e \<Rightarrow> Inl e | Inr t \<Rightarrow> Inr (Analyze t cfg))"

section \<open>What the selection keeps\<close>

text \<open>
  The facts a report on \<open>selected\<close> may rest on: those of the slot, those of its own duty, and (\<open>legacy\<close>) completion markers
  without a validator on a slot with one duty.
\<close>

definition evidence_for :: "bool \<Rightarrow> validator_index option \<Rightarrow> Observation \<Rightarrow> bool" where
  "evidence_for legacy selected ob \<longleftrightarrow> \<not> dutyScopedObservation (obs_Kind ob) \<or>
     (case observationValidator ob of
        Inr v \<Rightarrow> selected = Some v
      | Inl _ \<Rightarrow> legacy \<and> obs_Kind ob = ObsCollectionCompleted \<and> selected \<noteq> None)"

definition readable :: "bool \<Rightarrow> Observation \<Rightarrow> bool" where
  "readable legacy ob \<longleftrightarrow> \<not> dutyScopedObservation (obs_Kind ob) \<or> \<not> isl (observationValidator ob) \<or>
     legacy \<and> obs_Kind ob = ObsCollectionCompleted"

definition assigned_to :: "Observation list \<Rightarrow> validator_index set" where
  "assigned_to obs = {v. \<exists>ob \<in> set obs. obs_Kind ob = ObsDutyAssigned \<and> observationValidator ob = Inr v}"

lemma assigned_to_simps [simp]:
  "assigned_to [] = {}"
  "assigned_to (ob # obs) =
     (if obs_Kind ob = ObsDutyAssigned then (case observationValidator ob of Inl _ \<Rightarrow> {} | Inr v \<Rightarrow> {v}) else {}) \<union> assigned_to obs"
  by (auto simp: assigned_to_def split: sum.splits)

lemma assigned_loop_Inr:
  "assigned_loop acc obs = Inr assigned \<Longrightarrow>
     set assigned = set acc \<union> assigned_to obs \<and> (distinct acc \<longrightarrow> distinct assigned)"
  by (induction acc obs rule: assigned_loop.induct) (auto split: if_splits sum.splits)

lemma assigned_loop_ok:
  "(\<exists>assigned. assigned_loop acc obs = Inr assigned) \<longleftrightarrow>
     (\<forall>ob \<in> set obs. obs_Kind ob = ObsDutyAssigned \<longrightarrow> \<not> isl (observationValidator ob))"
  by (induction acc obs rule: assigned_loop.induct) (auto split: sum.splits)

lemma filter_loop_Inr:
  "filter_loop assigned selected obs = Inr fs \<longleftrightarrow>
     (\<forall>ob \<in> set obs. readable (selected \<noteq> None \<and> length assigned = 1) ob) \<and>
     fs = filter (evidence_for (length assigned = 1) selected) obs"
proof (induction obs arbitrary: fs)
  case (Cons ob obs)
  let ?r = "readable (selected \<noteq> None \<and> length assigned = 1)" and ?k = "evidence_for (length assigned = 1) selected"
  consider "?r ob" "?k ob" | "?r ob" "\<not> ?k ob" | "\<not> ?r ob" by blast
  then show ?case
  proof cases
    case 1
    then have "filter_loop assigned selected (ob # obs) =
        (case filter_loop assigned selected obs of Inl e \<Rightarrow> Inl e | Inr rest \<Rightarrow> Inr (ob # rest))"
      by (auto simp: Let_def readable_def evidence_for_def split: sum.splits)
    with 1 Cons show ?thesis by (cases "filter_loop assigned selected obs") auto
  next
    case 2
    then have "filter_loop assigned selected (ob # obs) = filter_loop assigned selected obs"
      by (auto simp: Let_def readable_def evidence_for_def split: sum.splits)
    with 2 Cons show ?thesis by simp
  next
    case 3
    then have "isl (filter_loop assigned selected (ob # obs))"
      by (auto simp: Let_def readable_def split: sum.splits)
    with 3 show ?thesis by auto
  qed
qed auto

lemma card_assigned: "assigned_loop [] obs = Inr assigned \<Longrightarrow> length assigned = card (assigned_to obs)"
  using assigned_loop_Inr [of "[]" obs assigned] distinct_card [of assigned] by simp

lemma selectDutyObservations_Inr:
  assumes "selectDutyObservations s obs requested = Inr (fs, duty)"
  obtains selected where "duty = map_option (attester_duty s) selected"
    "fs = filter (evidence_for (card (assigned_to obs) = 1) selected) obs"
    "case selected of None \<Rightarrow> requested = None \<and> assigned_to obs = {}
       | Some v \<Rightarrow> v \<in> assigned_to obs \<and> (requested = Some v \<or> requested = None \<and> assigned_to obs = {v})"
proof -
  obtain assigned selected where a: "assigned_loop [] obs = Inr assigned" and sel: "select_validator assigned requested = Inr selected"
    and f: "filter_loop assigned selected obs = Inr fs" and d: "duty = map_option (attester_duty s) selected"
    using assms by (auto simp: selectDutyObservations_def split: sum.splits)
  have set: "set assigned = assigned_to obs" using assigned_loop_Inr [OF a] by simp
  have "case selected of None \<Rightarrow> requested = None \<and> assigned_to obs = {}
       | Some v \<Rightarrow> v \<in> assigned_to obs \<and> (requested = Some v \<or> requested = None \<and> assigned_to obs = {v})"
    using sel unfolding set [symmetric]
    by (cases assigned) (auto simp: select_validator_def split: option.splits if_splits)
  with that d f card_assigned [OF a] show ?thesis by (simp add: filter_loop_Inr)
qed

text \<open>A request for one validator succeeds exactly when its duty is recorded and every duty-scoped fact names a validator.\<close>

lemma selectDutyObservations_Some:
  "selectDutyObservations s obs (Some v) = Inr (fs, duty) \<longleftrightarrow>
     (\<forall>ob \<in> set obs. readable (card (assigned_to obs) = 1) ob) \<and> v \<in> assigned_to obs \<and>
     fs = filter (evidence_for (card (assigned_to obs) = 1) (Some v)) obs \<and> duty = Some (attester_duty s v)"
proof (cases "assigned_loop [] obs")
  case (Inl e)
  then have "\<not> (\<forall>ob \<in> set obs. obs_Kind ob = ObsDutyAssigned \<longrightarrow> \<not> isl (observationValidator ob))"
    using assigned_loop_ok [of "[]" obs] by auto
  then have "\<not> (\<forall>ob \<in> set obs. readable (card (assigned_to obs) = 1) ob)"
    by (auto simp: readable_def intro!: bexI)
  with Inl show ?thesis by (simp add: selectDutyObservations_def)
next
  case (Inr assigned)
  then have "set assigned = assigned_to obs" using assigned_loop_Inr [OF Inr] by simp
  then show ?thesis
    using Inr card_assigned [OF Inr] filter_loop_Inr [of assigned "Some v" obs]
    by (auto simp: selectDutyObservations_def select_validator_def split: sum.splits)
qed

text \<open>Without a request, several duties are refused with the list of their validators.\<close>

lemma selectDutyObservations_ambiguous:
  assumes "\<forall>ob \<in> set obs. readable False ob" "card (assigned_to obs) > 1"
  shows "selectDutyObservations s obs None = Inl (TlAmbiguous (sorted_list_of_set (assigned_to obs)))"
proof -
  obtain assigned where a: "assigned_loop [] obs = Inr assigned"
    using assms(1) assigned_loop_ok [of "[]" obs] by (auto simp: readable_def)
  have "sort assigned = sorted_list_of_set (assigned_to obs)"
    using assigned_loop_Inr [OF a] sorted_list_of_set_sort_remdups [of assigned] by (simp add: distinct_remdups_id)
  with assms(2) a card_assigned [OF a] show ?thesis by (simp add: selectDutyObservations_def select_validator_def)
qed

section \<open>What a timeline rests on\<close>

lemma file_observations_files:
  assumes "file_observations oob a obs = Inr a'"
  shows "as_observations a' = as_observations (foldl AddObservation a obs) \<and> as_samples a' = as_samples a \<and>
    as_schedule a' = as_schedule a \<and> as_duties a' = as_duties a"
proof -
  have add: "as_observations (foldl AddObservation b obs) = as_observations (foldl AddObservation c obs)"
    if "as_observations b = as_observations c" for b c and obs
    using that by (induction obs arbitrary: b c) (simp_all add: AddObservation_def)
  show ?thesis using assms
  proof (induction obs arbitrary: a)
    case (Cons ob obs)
    then obtain b where b: "file_observations oob b obs = Inr a'" "as_observations b = as_observations (AddObservation a ob)"
      "as_samples b = as_samples a" "as_schedule b = as_schedule a" "as_duties b = as_duties a"
      by (auto simp: Let_def SetNetwork_def AddObservation_def split: if_splits sum.splits)
    from Cons.IH [OF b(1)] b add [OF b(2)] show ?case by simp
  qed simp
qed

lemma assemble_slot_facts:
  assumes "assemble_slot oob schedule s start obs reorgs duty samples = Inr t" "\<forall>d. duty = Some d \<longrightarrow> duty_Slot d = s"
    and "\<forall>ob \<in> set obs. obs_Slot ob = s" "\<forall>ob \<in> set reorgs. window_reorg s ob"
  shows "Timeline_Validate t = None \<and> tl_Slot t = s \<and> tl_SlotStart t = start \<and> tl_Schedule t = schedule \<and> tl_Duty t = duty \<and>
    mset (tl_Observations t) = mset obs \<and> mset (tl_Reorgs t) = mset reorgs \<and> mset (tl_Samples t) = mset samples"
proof -
  obtain a where f: "file_observations oob (NewAssembler schedule) obs = Inr a"
    and b: "Build (foldl AddSample (case duty of None \<Rightarrow> foldl AddObservation a reorgs | Some d \<Rightarrow> SetDuty (foldl AddObservation a reorgs) d) samples) s start = Inr t"
    using assms(1) by (auto simp: assemble_slot_def Let_def split: sum.splits)
  let ?a = "case duty of None \<Rightarrow> foldl AddObservation a reorgs | Some d \<Rightarrow> SetDuty (foldl AddObservation a reorgs) d"
  note files = file_observations_files [OF f]
  have sel: "as_observations ?a = as_observations (foldl AddObservation a reorgs)" "as_samples ?a = []" "as_schedule ?a = schedule"
    "as_duties ?a s = duty"
    using files assms(2) by (auto simp: SetDuty_def NewAssembler_def split: option.split)
  have none: "filter (\<lambda>ob. obs_Slot ob = s) reorgs = []" "filter (window_reorg s) reorgs = reorgs" "filter (\<lambda>ob. obs_Slot ob = s) obs = obs"
    "filter (window_reorg s) obs = []"
    using assms(3,4) by (auto simp: filter_empty_conv filter_id_conv window_reorg_def in_window_def)
  have empty: "observations_of (NewAssembler schedule) s = []" "window_reorgs (NewAssembler schedule) s = []"
    by (simp_all add: observations_of_def window_reorgs_def NewAssembler_def)
  have "observations_of ?a s = obs" "mset (window_reorgs ?a s) = mset reorgs"
    using sel(1) files observations_of_adds [of a reorgs s] window_reorgs_adds [of a reorgs s]
      observations_of_adds [of "NewAssembler schedule" obs s] window_reorgs_adds [of "NewAssembler schedule" obs s] none empty
    by (simp_all add: observations_of_def window_reorgs_def)
  with Build_facts [OF b] sel show ?thesis by simp
qed

section \<open>Reading the store\<close>

lemma list_all2_from: "list_all2 P xs ys \<Longrightarrow> y \<in> set ys \<Longrightarrow> \<exists>x \<in> set xs. P x y"
  by (induction rule: list_all2_induct) auto

lemma scan_rows_Inr:
  "scan_rows scan room rows = Inr xs \<longleftrightarrow> length rows \<le> room \<and> list_all2 (\<lambda>r x. scan r = Inr x) rows xs"
proof (induction rows arbitrary: room xs)
  case (Cons row rows)
  show ?case
  proof (cases room)
    case 0
    then show ?thesis by (auto split: sum.splits)
  next
    case (Suc n)
    then show ?thesis using Cons.IH [of n]
      by (cases "scan row"; cases xs; cases "scan_rows scan n rows") (auto simp: list_all2_Cons1)
  qed
qed auto

text \<open>The rows a limited query reads; when it succeeds the limit cut nothing.\<close>

lemma limited_scan_Inr:
  "scan_rows scan n (take (Suc n) rows) = Inr xs \<longleftrightarrow> length rows \<le> n \<and> list_all2 (\<lambda>r x. scan r = Inr x) rows xs"
  by (auto simp: scan_rows_Inr)

definition slot_rows :: "slot \<Rightarrow> database \<Rightarrow> obs_row list" where
  "slot_rows s db = sort_key or_at (filter (\<lambda>r. or_slot r = int (unat s)) (db_observations db))"

lemma ObservationsForSlot_Inr:
  "ObservationsForSlot s db = Inr obs \<longleftrightarrow> unat s \<le> MaxInt64 \<and> length (slot_rows s db) \<le> maxObservationsPerSlot \<and>
     list_all2 (\<lambda>r ob. scanObservation r = Inr ob) (slot_rows s db) obs"
  by (auto simp: ObservationsForSlot_def slot_rows_def limited_scan_Inr)

lemma scanObservation_InrD:
  assumes "scanObservation r = Inr ob"
  shows "obs_Slot ob = of_int (or_slot r)" "obs_Kind ob = or_kind r" "parse_timeLayout (or_at r) = Some (obs_At ob)"
    "obs_Attrs ob = map lower_root (or_attrs r)" "0 \<le> or_slot r"
  using assms by (auto simp: scanObservation_def NewObservation_def split: if_splits option.splits)

lemma ObservationsForSlot_slot:
  assumes "ObservationsForSlot s db = Inr obs" "ob \<in> set obs"
  shows "obs_Slot ob = s"
proof -
  obtain r where "r \<in> set (slot_rows s db)" "scanObservation r = Inr ob"
    using assms by (auto simp: ObservationsForSlot_Inr dest!: list_all2_from)
  then show ?thesis using scanObservation_InrD(1) [of r ob] by (auto simp: slot_rows_def)
qed

lemma ReorgsBetweenSlots_window:
  assumes "ReorgsBetweenSlots s (Slot_LastAttestationInclusionSlot s) db = Inr obs" "ob \<in> set obs"
  shows "window_reorg s ob"
proof -
  let ?e = "min (unat (Slot_LastAttestationInclusionSlot s)) MaxInt64"
  have "\<exists>r. or_kind r = ObsReorg \<and> int (unat s) < or_slot r \<and> or_slot r \<le> int ?e \<and> scanObservation r = Inr ob"
    using assms by (auto simp: ReorgsBetweenSlots_def Let_def limited_scan_Inr dest!: list_all2_from split: if_splits)
  then obtain r where r: "or_kind r = ObsReorg" "int (unat s) < or_slot r" "or_slot r \<le> int ?e" "scanObservation r = Inr ob" by blast
  obtain n where n: "or_slot r = int n" using scanObservation_InrD(5) [OF r(4)] nonneg_int_cases by blast
  then have "n < 2 ^ 64" using r(3) by (simp add: MaxInt64_def)
  then have u: "unat (obs_Slot ob) = nat (or_slot r)"
    using scanObservation_InrD(1) [OF r(4)] n by (simp add: unat_of_nat)
  have "unat s < nat (or_slot r)" using r(2) n by (simp del: of_nat_unat)
  with u show ?thesis
    using r scanObservation_InrD(2) [OF r(4)] by (auto simp: window_reorg_def in_window_def word_less_nat_alt word_le_nat_alt)
qed

section \<open>Reports rest on one validator's evidence\<close>

text \<open>Instants a daemon records: storable, with a minute to spare on either side.\<close>

definition chain_time :: "gotime \<Rightarrow> bool" where
  "chain_time t \<longleftrightarrow> storable_time t \<and> storable_time (Add t (- Minute)) \<and> storable_time (Add t Minute)"

definition written :: "database \<Rightarrow> bool" where
  "written db \<longleftrightarrow> (\<forall>r \<in> set (db_observations db). \<exists>t. or_at r = format_timeLayout t \<and> chain_time t) \<and>
     (\<forall>r \<in> set (db_samples db). \<exists>t. sr_at r = format_timeLayout t \<and> storable_time t)"

lemma SamplesBetween_window:
  assumes "SamplesBetween from until db = Inr ms" "m \<in> set ms" "written db" "storable_time from" "storable_time until"
  shows "t_ns from \<le> t_ns (ms_At m) \<and> t_ns (ms_At m) \<le> t_ns until"
proof -
  have utc: "in_UTC from = from" "in_UTC until = until" using assms(4,5) by (simp_all add: storable_time_def in_UTC_def)
  obtain r where r: "r \<in> set (db_samples db)" "format_timeLayout from \<le> sr_at r" "sr_at r \<le> format_timeLayout until" "scanSample r = Inr m"
    using assms(1,2) by (auto simp: SamplesBetween_def limited_scan_Inr utc dest!: list_all2_from split: if_splits)
  obtain t where t: "sr_at r = format_timeLayout t" "storable_time t" using assms(3) r(1) by (auto simp: written_def)
  then have "ms_At m = t"
    using r(4) by (auto simp: scanSample_def parse_format_timeLayout Let_def split: option.splits)
  with r(2,3) t text_order [OF assms(4) t(2)] text_order [OF t(2) assms(5)] show ?thesis by simp
qed

lemma GetTimeline_Inr:
  "GetTimelineForValidatorSelection oob (Inr db) s validator schedule = Inr t \<longleftrightarrow>
     (\<exists>found obs duty reorgs first samples.
        ObservationsForSlot s db = Inr found \<and> found \<noteq> [] \<and> selectDutyObservations s found validator = Inr (obs, duty) \<and>
        load_window_reorgs s duty db = Inr reorgs \<and> List.find (\<lambda>ob. obs_Kind ob = ObsSlotStart) obs = Some first \<and>
        SamplesBetween (Add (obs_At first) (- sampleLookback)) (SlotSchedule_SlotEndAt schedule (obs_At first)) db = Inr samples \<and>
        assemble_slot oob schedule s (obs_At first) obs reorgs duty samples = Inr t)"
  by (simp add: GetTimelineForValidatorSelection_def split: sum.split option.split)

lemma ExplainForValidator_Inr:
  "ExplainForValidator oob (Inr db) s v schedule cfg = Inr r \<longleftrightarrow>
     (\<exists>t. GetTimelineForValidatorSelection oob (Inr db) s (Some v) schedule = Inr t \<and> r = Analyze t cfg)"
  by (auto simp: ExplainForValidator_def split: sum.splits)

lemma slot_start_time:
  assumes "ObservationsForSlot s db = Inr found" "ob \<in> set found" "written db"
  shows "chain_time (obs_At ob)"
proof -
  obtain r where r: "r \<in> set (slot_rows s db)" "scanObservation r = Inr ob"
    using assms(1,2) by (auto simp: ObservationsForSlot_Inr dest!: list_all2_from)
  then obtain t where "or_at r = format_timeLayout t" "chain_time t" using assms(3) by (auto simp: written_def slot_rows_def)
  then show ?thesis using scanObservation_InrD(3) [OF r(2)] parse_format_timeLayout [of t] by (simp add: chain_time_def)
qed

lemma selected_subset: "selectDutyObservations s found validator = Inr (obs, duty) \<Longrightarrow> set obs \<subseteq> set found"
  by (elim selectDutyObservations_Inr) auto

text \<open>
  Property C7: a report on a validator rests on that validator's evidence. Whenever the store yields a verdict for a
  validator, the verdict is the analysis of a valid timeline of the slot with the validator's attester duty, recorded in the
  store; its observations are exactly the slot's common facts and the duty's own, its reorganisations lie in the inclusion
  window, and its samples between a minute before the slot and its end.
\<close>

theorem ExplainForValidator_evidence:
  assumes "ExplainForValidator oob (Inr db) s v schedule cfg = Inr r" "written db"
  shows "\<exists>t found. ObservationsForSlot s db = Inr found \<and> r = Analyze t cfg \<and> Timeline_Validate t = None \<and> tl_Slot t = s \<and>
    tl_Schedule t = schedule \<and> tl_Duty t = Some (attester_duty s v) \<and> v \<in> assigned_to found \<and>
    mset (tl_Observations t) = mset (filter (evidence_for (card (assigned_to found) = 1) (Some v)) found) \<and>
    list_all (window_reorg s) (tl_Reorgs t) \<and>
    list_all (\<lambda>m. t_ns (tl_SlotStart t) - Minute \<le> t_ns (ms_At m) \<and>
      t_ns (ms_At m) \<le> t_ns (tl_SlotStart t) + sched_SecondsPerSlot schedule) (tl_Samples t)"
proof -
  obtain t found obs duty reorgs first samples where t: "r = Analyze t cfg" and found: "ObservationsForSlot s db = Inr found"
    and sel: "selectDutyObservations s found (Some v) = Inr (obs, duty)" and re: "load_window_reorgs s duty db = Inr reorgs"
    and start: "List.find (\<lambda>ob. obs_Kind ob = ObsSlotStart) obs = Some first"
    and sa: "SamplesBetween (Add (obs_At first) (- sampleLookback)) (SlotSchedule_SlotEndAt schedule (obs_At first)) db = Inr samples"
    and asm: "assemble_slot oob schedule s (obs_At first) obs reorgs duty samples = Inr t"
    using assms(1) by (auto simp: ExplainForValidator_Inr GetTimeline_Inr)
  note selD = sel [unfolded selectDutyObservations_Some]
  have re: "\<forall>ob \<in> set reorgs. window_reorg s ob"
    using re selD ReorgsBetweenSlots_window by (auto simp: load_window_reorgs_def attester_duty_def)
  have f: "\<forall>ob \<in> set obs. obs_Slot ob = s" using selected_subset [OF sel] ObservationsForSlot_slot [OF found] by blast
  have facts: "Timeline_Validate t = None \<and> tl_Slot t = s \<and> tl_SlotStart t = obs_At first \<and> tl_Schedule t = schedule \<and> tl_Duty t = duty \<and>
      mset (tl_Observations t) = mset obs \<and> mset (tl_Reorgs t) = mset reorgs \<and> mset (tl_Samples t) = mset samples"
    using selD by (intro assemble_slot_facts [OF asm _ f re]) (simp add: attester_duty_def)
  have sched: "0 < sched_SecondsPerSlot schedule" "sched_SecondsPerSlot schedule \<le> Minute"
    using SlotSchedule_Validate_None [OF Timeline_ValidateD(3)] facts by auto
  have "first \<in> set found" using find_SomeD(2) [OF start] selected_subset [OF sel] by blast
  from slot_start_time [OF found this assms(2)] have ct: "chain_time (obs_At first)" .
  have "storable_time (SlotSchedule_SlotEndAt schedule (obs_At first))"
    using ct sched by (auto simp: chain_time_def storable_time_def SlotSchedule_SlotEndAt_def Add_def)
  with ct SamplesBetween_window [OF sa _ assms(2)]
  have "list_all (\<lambda>m. t_ns (obs_At first) - Minute \<le> t_ns (ms_At m) \<and> t_ns (ms_At m) \<le> t_ns (obs_At first) + sched_SecondsPerSlot schedule) samples"
    by (auto simp: list_all_iff chain_time_def sampleLookback_def SlotSchedule_SlotEndAt_def Add_def)
  with facts have "list_all (\<lambda>m. t_ns (obs_At first) - Minute \<le> t_ns (ms_At m) \<and>
      t_ns (ms_At m) \<le> t_ns (obs_At first) + sched_SecondsPerSlot schedule) (tl_Samples t)" "list_all (window_reorg s) (tl_Reorgs t)"
    using re mset_eq_setD [of "tl_Samples t" samples] mset_eq_setD [of "tl_Reorgs t" reorgs] by (simp_all add: list_all_iff)
  with t found facts selD show ?thesis by (intro exI [of _ t] exI [of _ found]) simp
qed

section \<open>Other validators do not interfere\<close>

definition other_row :: "slot \<Rightarrow> validator_index \<Rightarrow> obs_row \<Rightarrow> bool" where
  "other_row s v r \<longleftrightarrow> or_slot r = int (unat s) \<and> dutyScopedObservation (or_kind r) \<and>
     (case map_of (or_attrs r) AttrValidatorIndex of
        None \<Rightarrow> False | Some text \<Rightarrow> (case ParseUint text of None \<Rightarrow> False | Some n \<Rightarrow> of_nat n \<noteq> v))"

definition without_others :: "slot \<Rightarrow> validator_index \<Rightarrow> database \<Rightarrow> database" where
  "without_others s v db = db\<lparr>db_observations := filter (\<lambda>r. \<not> other_row s v r) (db_observations db)\<rparr>"

definition other_obs :: "validator_index \<Rightarrow> Observation \<Rightarrow> bool" where
  "other_obs v ob \<longleftrightarrow> dutyScopedObservation (obs_Kind ob) \<and>
     (case observationValidator ob of Inl _ \<Rightarrow> False | Inr w \<Rightarrow> w \<noteq> v)"

lemma other_row_obs:
  assumes "scanObservation r = Inr ob" "or_slot r = int (unat s)"
  shows "other_row s v r \<longleftrightarrow> other_obs v ob"
  using scanObservation_InrD [OF assms(1)] assms(2)
  by (auto simp: other_row_def other_obs_def observationValidator_def Observation_Attr_def map_of_lower_root split: option.splits)

lemma list_all2_filter:
  assumes "list_all2 R xs ys" "\<And>x y. x \<in> set xs \<Longrightarrow> R x y \<Longrightarrow> P x \<longleftrightarrow> Q y"
  shows "list_all2 R (filter P xs) (filter Q ys)"
  using assms by (induction rule: list_all2_induct) auto

lemma ObservationsForSlot_without:
  assumes "ObservationsForSlot s db = Inr found"
  shows "ObservationsForSlot s (without_others s v db) = Inr (filter (\<lambda>ob. \<not> other_obs v ob) found)"
proof -
  have rows: "slot_rows s (without_others s v db) = filter (\<lambda>r. \<not> other_row s v r) (slot_rows s db)"
    by (simp add: slot_rows_def without_others_def filter_sort conj_commute)
  have "or_slot r = int (unat s)" if "r \<in> set (slot_rows s db)" for r using that by (simp add: slot_rows_def)
  then show ?thesis using assms other_row_obs
    by (auto simp: ObservationsForSlot_Inr rows intro!: list_all2_filter le_trans [OF length_filter_le])
qed

lemma without_others_same:
  "load_window_reorgs s duty (without_others s v db) = load_window_reorgs s duty db"
  "SamplesBetween from until (without_others s v db) = SamplesBetween from until db"
proof -
  have "filter (\<lambda>r. or_kind r = ObsReorg \<and> or_slot r > int (unat s) \<and> or_slot r \<le> e) (filter (\<lambda>r. \<not> other_row s v r) rows) =
      filter (\<lambda>r. or_kind r = ObsReorg \<and> or_slot r > int (unat s) \<and> or_slot r \<le> e) rows" for e rows
    by (auto simp: other_row_def intro!: filter_cong)
  then show "load_window_reorgs s duty (without_others s v db) = load_window_reorgs s duty db"
    by (simp add: load_window_reorgs_def ReorgsBetweenSlots_def without_others_def Let_def split: option.split)
qed (simp add: SamplesBetween_def without_others_def)

lemma selectDutyObservations_without:
  assumes "\<forall>ob \<in> set found. readable False ob"
  shows "selectDutyObservations s (filter (\<lambda>ob. \<not> other_obs v ob) found) (Some v) = Inr (obs, duty) \<longleftrightarrow>
    selectDutyObservations s found (Some v) = Inr (obs, duty)"
proof -
  have r: "readable l ob" if "ob \<in> set found" for l ob using assms that by (auto simp: readable_def)
  have a: "v \<in> assigned_to (filter (\<lambda>ob. \<not> other_obs v ob) found) \<longleftrightarrow> v \<in> assigned_to found"
    by (auto simp: assigned_to_def other_obs_def)
  have "evidence_for l (Some v) ob \<and> \<not> other_obs v ob \<longleftrightarrow> evidence_for l' (Some v) ob" if "ob \<in> set found" for l l' ob
    using assms that by (auto simp: evidence_for_def other_obs_def readable_def split: sum.splits)
  then have e: "filter (evidence_for l (Some v)) (filter (\<lambda>ob. \<not> other_obs v ob) found) = filter (evidence_for l' (Some v)) found" for l l'
    unfolding filter_filter by (intro filter_cong) (auto simp: conj_commute)
  show ?thesis unfolding selectDutyObservations_Some e [of _ "card (assigned_to found) = 1"] using a r by auto
qed

text \<open>
  Property C6: validators that share a slot do not interfere. When every duty-scoped fact of the slot names its validator,
  the verdict for one validator is the same as if the facts of every other validator's duty had never been stored.
\<close>

theorem ExplainForValidator_noninterference:
  assumes "ObservationsForSlot s db = Inr found" "\<forall>ob \<in> set found. readable False ob"
  shows "ExplainForValidator oob (Inr db) s v schedule cfg = Inr r \<longleftrightarrow>
    ExplainForValidator oob (Inr (without_others s v db)) s v schedule cfg = Inr r"
proof -
  have "selectDutyObservations s [] (Some v) \<noteq> Inr x" for x by (cases x) (simp add: selectDutyObservations_Some)
  then have empty: "found' = [] \<Longrightarrow> selectDutyObservations s found' (Some v) \<noteq> Inr x" for found' x by blast
  then show ?thesis
    unfolding ExplainForValidator_Inr GetTimeline_Inr ObservationsForSlot_without [OF assms(1)] without_others_same
    using assms(1) selectDutyObservations_without [OF assms(2), of s v] by (auto, metis+)
qed

section \<open>A slot with two duties\<close>

definition shared_slot :: "Observation list" where
  "shared_slot = [ex_obs ObsSlotStart SourceDerived 0 [], ex_obs ObsDutyAssigned SourceBeaconAPI 1 [(AttrValidatorIndex, ''7'')],
     ex_obs ObsDutyAssigned SourceBeaconAPI 2 [(AttrValidatorIndex, ''2'')]]"

definition shared_db :: database where
  "shared_db = \<lparr>db_observations = map (\<lambda>(i, ob). observation_row i ob) (zip [1, 2, 3] shared_slot), db_samples = [],
     db_next_observation = 4, db_next_sample = 1\<rparr>"

lemma shared_writable: "\<forall>ob \<in> set shared_slot. writable ob"
  by (simp add: shared_slot_def ex_obs_def ex_start_def writable_def ex_validate storable_time_def MaxInt64_def json_text.simps is_uint_def)

lemma shared_found: "ObservationsForSlot 100 shared_db = Inr shared_slot"
proof -
  have "holds shared_db shared_slot" unfolding holds_def by (rule exI [of _ "[1, 2, 3]"]) (simp add: shared_db_def shared_slot_def)
  from ObservationsForSlot_holds [OF this shared_writable, of 100]
  have "ObservationsForSlot 100 shared_db = slot_answer 100 shared_slot" by (simp add: MaxInt64_def)
  also have "\<dots> = Inr shared_slot"
    by (simp add: slot_answer_def shared_slot_def ex_obs_def ex_start_def stored_def lower_root_def maxObservationsPerSlot_def Add_def)
  finally show ?thesis .
qed

lemma shared_readable: "\<forall>ob \<in> set shared_slot. readable False ob"
  by (simp add: shared_slot_def readable_def observationValidator_def Observation_Attr_def ex_obs_def)

lemma shared_written: "written shared_db"
  by (auto simp: written_def shared_db_def shared_slot_def observation_row_def ex_obs_def ex_start_def chain_time_def storable_time_def Add_def
      intro!: exI)

lemma shared_timeline:
  "\<exists>t. GetTimelineForValidatorSelection oob (Inr shared_db) 100 (Some 7) MainnetPreEPBS = Inr t"
proof -
  let ?o = "ex_obs ObsSlotStart SourceDerived 0 []" and ?d = "ex_obs ObsDutyAssigned SourceBeaconAPI 1 [(AttrValidatorIndex, ''7'')]"
  have sel: "selectDutyObservations 100 shared_slot (Some 7) = Inr ([?o, ?d], Some (attester_duty 100 7))"
    by (simp add: selectDutyObservations_def shared_slot_def select_validator_def observationValidator_def Observation_Attr_def ex_obs_def)
  have re: "load_window_reorgs 100 (Some (attester_duty 100 7)) shared_db = Inr []"
    by (simp add: load_window_reorgs_def attester_duty_def ReorgsBetweenSlots_def ex_window_end MaxInt64_def shared_db_def shared_slot_def
        observation_row_def ex_obs_def)
  have st: "List.find (\<lambda>ob. obs_Kind ob = ObsSlotStart) [?o, ?d] = Some ?o" "obs_At ?o = ex_start"
    by (simp_all add: ex_obs_def Add_def ex_start_def)
  have sa: "SamplesBetween (Add ex_start (- sampleLookback)) (SlotSchedule_SlotEndAt MainnetPreEPBS ex_start) shared_db = Inr []"
    by (simp add: SamplesBetween_def shared_db_def SlotSchedule_SlotEndAt_def sampleLookback_def Add_def Before_def)
  let ?a = "SetDuty (AddObservation (AddObservation (NewAssembler MainnetPreEPBS) ?o) ?d) (attester_duty 100 7)"
  have "Timeline_Validate (build_draft ?a 100 ex_start) = None"
    by (simp add: build_draft_def observations_of_def window_reorgs_def sortObservations_def SliceStable_def sortSamples_def
        NewAssembler_def AddObservation_def SetDuty_def attester_duty_def ex_obs_def obs_less_def time_defs)
      (simp add: ex_validate ex_start_def is_uint_def Add_def)
  then have "assemble_slot oob MainnetPreEPBS 100 ex_start [?o, ?d] [] (Some (attester_duty 100 7)) [] = Inr (build_draft ?a 100 ex_start)"
    by (simp add: assemble_slot_def ex_obs_def Build_def NewTimeline_def)
  then show ?thesis using shared_found sel re st sa by (auto simp: GetTimeline_Inr shared_slot_def)
qed

theorem ExplainForValidator_evidence_witness:
  "\<exists>r t. ExplainForValidator 0 (Inr shared_db) 100 7 MainnetPreEPBS DefaultConfig = Inr r \<and> r = Analyze t DefaultConfig \<and>
     Timeline_Validate t = None \<and> tl_Duty t = Some (attester_duty 100 7) \<and>
     mset (tl_Observations t) = {#ex_obs ObsSlotStart SourceDerived 0 [], ex_obs ObsDutyAssigned SourceBeaconAPI 1 [(AttrValidatorIndex, ''7'')]#}"
proof -
  obtain r where r: "ExplainForValidator 0 (Inr shared_db) 100 7 MainnetPreEPBS DefaultConfig = Inr r"
    using shared_timeline [of 0] by (auto simp: ExplainForValidator_def)
  have e: "filter_mset (evidence_for l (Some 7)) (mset shared_slot) =
      {#ex_obs ObsSlotStart SourceDerived 0 [], ex_obs ObsDutyAssigned SourceBeaconAPI 1 [(AttrValidatorIndex, ''7'')]#}" for l
    by (simp add: shared_slot_def evidence_for_def observationValidator_def Observation_Attr_def ex_obs_def)
  from ExplainForValidator_evidence [OF r shared_written] r show ?thesis by (auto simp: shared_found e)
qed

theorem ExplainForValidator_noninterference_witness:
  "\<exists>r. ExplainForValidator 0 (Inr shared_db) 100 7 MainnetPreEPBS DefaultConfig = Inr r \<and>
     ExplainForValidator 0 (Inr (without_others 100 7 shared_db)) 100 7 MainnetPreEPBS DefaultConfig = Inr r \<and>
     length (db_observations (without_others 100 7 shared_db)) = 2"
proof -
  obtain r where r: "ExplainForValidator 0 (Inr shared_db) 100 7 MainnetPreEPBS DefaultConfig = Inr r"
    using shared_timeline [of 0] by (auto simp: ExplainForValidator_def)
  have "length (db_observations (without_others 100 7 shared_db)) = 2"
    by (simp add: without_others_def shared_db_def shared_slot_def other_row_def observation_row_def ex_obs_def json_text.simps)
  with r ExplainForValidator_noninterference [OF shared_found shared_readable] show ?thesis by blast
qed

end
