(* ===== verification/Ntp.thy ===== *)
theory Ntp
  imports GoSort
begin

text \<open>
  \<open>internal/clock/packet.go\<close> and the validation part of \<open>internal/clock/query.go\<close>: the 48-byte SNTP
  packet, the 64-bit NTP timestamp with its 32-bit seconds that roll over in 2036, and what one
  exchange concludes from the reply. Sockets are outside the model: an exchange is given by the local
  send and receive instants and the bytes received.
\<close>

unbundle bit_operations_syntax

section \<open>Packets and timestamps\<close>

text \<open>\<open>encoding/binary\<close>, big endian.\<close>

definition PutUint64 :: "64 word \<Rightarrow> 8 word list" where
  "PutUint64 v = map (\<lambda>i. ucast (drop_bit (56 - 8 * i) v)) [0..<8]"

definition BE_Uint64 :: "8 word list \<Rightarrow> 64 word" where
  "BE_Uint64 bs = foldl (\<lambda>acc b. push_bit 8 acc OR ucast b) 0 bs"

text \<open>\<open>time.Unix\<close> and the two selectors of an instant, around Go's own epoch offset.\<close>

definition time_Unix :: "gotime \<Rightarrow> int" where
  "time_Unix t = t_ns t div Second - 62135596800"

definition time_Nanosecond :: "gotime \<Rightarrow> int" where
  "time_Nanosecond t = t_ns t mod Second"

definition unix_time :: "int \<Rightarrow> int \<Rightarrow> gotime" where
  "unix_time sec nsec = \<lparr>t_ns = (sec + 62135596800) * Second + nsec, t_loc = UTC\<rparr>"

definition ntpEpochOffset :: int where "ntpEpochOffset = 2208988800"
definition modeClient :: "8 word" where "modeClient = 3"
definition modeServer :: "8 word" where "modeServer = 4"
definition leapUnsync :: "8 word" where "leapUnsync = 3"

type_synonym packet = "8 word list"

definition toNTP :: "gotime \<Rightarrow> 64 word" where
  "toNTP t =
     (let sec = word_of_int (wrap64 (time_Unix t + ntpEpochOffset));
          frac = push_bit 32 (word_of_int (time_Nanosecond t)) div 1000000000
      in push_bit 32 sec OR frac)"

definition ntpTime :: "int \<Rightarrow> 64 word \<Rightarrow> gotime" where
  "ntpTime sec v =
     (let frac = v AND 0xffffffff; nsec = drop_bit 32 (frac * 1000000000) in unix_time sec (uint nsec))"

definition fromNTP :: "64 word \<Rightarrow> gotime" where
  "fromNTP v = ntpTime (uint (drop_bit 32 v) - ntpEpochOffset) v"

text \<open>
  \<open>math.Round\<close> rounds half away from zero. The quotient it is applied to is at most \<open>2^31\<close> in
  magnitude, so the conversion to \<open>int64\<close> is exact.
\<close>

definition round_away :: "rat \<Rightarrow> int" where
  "round_away q = (if q < 0 then - \<lfloor>1 / 2 - q\<rfloor> else \<lfloor>q + 1 / 2\<rfloor>)"

definition ntpEraSeconds :: int where "ntpEraSeconds = 4294967296"

definition fromNTPNear :: "64 word \<Rightarrow> gotime \<Rightarrow> gotime" where
  "fromNTPNear v pivot =
     (let base = uint (drop_bit 32 v) - ntpEpochOffset;
          era = round_away (fin_value (f_div (f_of_int (wrap64 (time_Unix pivot - base))) (f_of_int ntpEraSeconds)))
      in ntpTime (wrap64 (base + wrap64 (era * ntpEraSeconds))) v)"

definition newRequest :: "gotime \<Rightarrow> packet" where
  "newRequest t1 = take 40 ((replicate 48 0)[0 := push_bit 3 4 OR modeClient]) @ PutUint64 (toNTP t1)"

definition leapIndicator :: "packet \<Rightarrow> 8 word" where "leapIndicator p = drop_bit 6 (p ! 0)"
definition ntp_version :: "packet \<Rightarrow> 8 word" where "ntp_version p = drop_bit 3 (p ! 0) AND 7"
definition ntp_mode :: "packet \<Rightarrow> 8 word" where "ntp_mode p = p ! 0 AND 7"
definition stratum :: "packet \<Rightarrow> 8 word" where "stratum p = p ! 1"
definition originTimestamp :: "packet \<Rightarrow> 64 word" where "originTimestamp p = BE_Uint64 (take 8 (drop 24 p))"
definition receiveTimestamp :: "packet \<Rightarrow> 64 word" where "receiveTimestamp p = BE_Uint64 (take 8 (drop 32 p))"
definition transmitTimestamp :: "packet \<Rightarrow> 64 word" where "transmitTimestamp p = BE_Uint64 (take 8 (drop 40 p))"

section \<open>Facts about the encoding\<close>

lemma byte_step: "push_bit 8 (drop_bit (n + 8) v) OR ucast (ucast (drop_bit n v) :: 8 word) = drop_bit n (v :: 64 word)"
  by (rule bit_word_eqI) (auto simp: bit_simps not_less le_add_diff_inverse2 dest: bit_imp_le_length)

lemma BE_Uint64_PutUint64: "BE_Uint64 (PutUint64 v) = v"
proof -
  have "drop_bit 64 v = 0" by (rule bit_word_eqI) (auto simp: bit_simps dest: bit_imp_le_length)
  then show ?thesis
    using byte_step [of 56 v] byte_step [of 48 v] byte_step [of 40 v] byte_step [of 32 v] byte_step [of 24 v]
      byte_step [of 16 v] byte_step [of 8 v] byte_step [of 0 v]
    by (simp add: BE_Uint64_def PutUint64_def upt_conv_Cons)
qed

lemma NTP_fields:
  fixes sec frac :: "64 word"
  assumes "unat frac < 2 ^ 32"
  shows "drop_bit 32 (push_bit 32 sec OR frac) = take_bit 32 sec"
    and "(push_bit 32 sec OR frac) AND 0xffffffff = frac"
proof -
  have fr: "take_bit 32 frac = frac" using assms by (simp add: word_unat_eq_iff unsigned_take_bit_eq take_bit_nat_eq_self)
  have m: "(0xffffffff :: 64 word) = mask 32" by (simp add: mask_eq_exp_minus_1)
  show "drop_bit 32 (push_bit 32 sec OR frac) = take_bit 32 sec"
    by (subst fr [symmetric], rule bit_word_eqI) (auto simp: bit_simps)
  show "(push_bit 32 sec OR frac) AND 0xffffffff = frac"
    unfolding m by (subst (2) fr [symmetric], rule bit_word_eqI) (auto simp: bit_simps)
qed

lemma wrap64_mod32: "wrap64 x mod 4294967296 = x mod 4294967296"
proof -
  have "wrap64 x = x - 4294967296 * (4294967296 * ((x + 9223372036854775808) div 18446744073709551616))"
    unfolding wrap64_def by (simp add: minus_mult_div_eq_mod [symmetric])
  then show ?thesis by (simp only: mod_diff_right_eq [symmetric] mod_mult_self1_is_0 diff_zero)
qed

lemma toNTP_fields:
  shows "uint (drop_bit 32 (toNTP t)) = (time_Unix t + ntpEpochOffset) mod 2 ^ 32"
    and "uint (toNTP t AND 0xffffffff) = time_Nanosecond t * 2 ^ 32 div Second"
proof -
  define sec where "sec = (word_of_int (wrap64 (time_Unix t + ntpEpochOffset)) :: 64 word)"
  define frac where "frac = push_bit 32 (word_of_int (time_Nanosecond t)) div (1000000000 :: 64 word)"
  have ns: "0 \<le> time_Nanosecond t" "time_Nanosecond t < Second" by (simp_all add: time_Nanosecond_def)
  have uf: "uint frac = time_Nanosecond t * 2 ^ 32 div Second"
    using ns by (simp add: frac_def uint_div push_bit_eq_mult uint_word_ariths uint_word_of_int)
  then have "uint frac < 2 ^ 32" using ns by (simp add: div_less_iff_less_mult)
  then have lt: "unat frac < 2 ^ 32" by (simp only: uint_nat of_nat_less_numeral_power_cancel_iff)
  have eq: "toNTP t = push_bit 32 sec OR frac" by (simp add: toNTP_def sec_def frac_def Let_def)
  have "uint sec mod 4294967296 = (time_Unix t + ntpEpochOffset) mod 4294967296"
    unfolding sec_def uint_word_of_int by (simp add: mod_mod_cancel wrap64_mod32)
  then have "uint (take_bit 32 sec) = (time_Unix t + ntpEpochOffset) mod 2 ^ 32"
    unfolding unsigned_take_bit_eq by (simp add: take_bit_eq_mod)
  then show "uint (drop_bit 32 (toNTP t)) = (time_Unix t + ntpEpochOffset) mod 2 ^ 32"
    using NTP_fields(1) [OF lt] by (simp add: eq)
  show "uint (toNTP t AND 0xffffffff) = time_Nanosecond t * 2 ^ 32 div Second"
    using NTP_fields(2) [OF lt] uf by (simp add: eq)
qed

lemma ntpTime_ns:
  "t_ns (ntpTime sec v) = (sec + 62135596800) * Second + uint (v AND 0xffffffff) * Second div 2 ^ 32"
proof -
  define f where "f = v AND 0xffffffff"
  have "f = take_bit 32 v" by (simp add: f_def take_bit_eq_mask mask_eq_exp_minus_1)
  then have "uint f < 2 ^ 32" using take_bit_int_less_exp [of 32 "uint v"] by (simp only: unsigned_take_bit_eq)
  then have "uint (drop_bit 32 (f * 1000000000)) = uint f * Second div 2 ^ 32"
    by (simp add: drop_bit_eq_div uint_div uint_word_ariths)
  then show ?thesis by (simp add: ntpTime_def unix_time_def f_def Let_def)
qed

lemma fraction_round_trip:
  assumes "0 \<le> (n :: int)" "n < Second"
  shows "n - 1 \<le> n * 2 ^ 32 div Second * Second div 2 ^ 32" "n * 2 ^ 32 div Second * Second div 2 ^ 32 \<le> n"
  using assms by simp_all

lemma era_rounds:
  assumes "\<bar>d\<bar> < 2 ^ 31" "\<bar>d + k * 2 ^ 32\<bar> \<le> 2 ^ 52"
  shows "round_away (fin_value (f_div (f_of_int (d + k * 2 ^ 32)) (f_of_int ntpEraSeconds))) = k"
proof -
  have "f_of_int (d + k * 2 ^ 32) = FFin (of_int (d + k * 2 ^ 32))" using assms(2) by (intro f_of_int_exact) simp
  moreover have "f_of_int ntpEraSeconds = FFin (2 ^ 32)" by (simp add: ntpEraSeconds_def f_of_int_exact)
  moreover have "fround (of_int (d + k * 2 ^ 32) / 2 ^ 32) = FFin (of_int (d + k * 2 ^ 32) / 2 ^ 32)"
    using assms(2) by (intro fround_dyadic) simp_all
  ultimately have "fin_value (f_div (f_of_int (d + k * 2 ^ 32)) (f_of_int ntpEraSeconds)) = of_int d / 2 ^ 32 + of_int k"
    by (simp add: add_divide_distrib)
  moreover have "\<bar>of_int d / 2 ^ 32\<bar> < (1 / 2 :: rat)"
    using assms(1) by (simp add: abs_less_iff divide_less_eq)
  ultimately show ?thesis by (simp add: round_away_def floor_eq_iff) linarith
qed

lemma fromNTPNear_toNTP:
  assumes "\<bar>time_Unix t - time_Unix pivot\<bar> < 2 ^ 31" "\<bar>time_Unix pivot\<bar> \<le> 2 ^ 51"
  shows "t_ns t - 1 \<le> t_ns (fromNTPNear (toNTP t) pivot)" "t_ns (fromNTPNear (toNTP t) pivot) \<le> t_ns t"
    and "t_loc (fromNTPNear (toNTP t) pivot) = UTC"
proof -
  define s k where "s = time_Unix t + ntpEpochOffset" and "k = s div 2 ^ 32"
  define d where "d = time_Unix pivot - time_Unix t"
  have s: "s = k * 2 ^ 32 + s mod 2 ^ 32" by (simp add: k_def)
  have base: "uint (drop_bit 32 (toNTP t)) = s mod 2 ^ 32" by (simp add: toNTP_fields s_def)
  have diff: "time_Unix pivot - (s mod 2 ^ 32 - ntpEpochOffset) = d + k * 2 ^ 32"
    using s by (simp add: d_def s_def)
  have low: "0 \<le> s mod 2 ^ 32" "s mod 2 ^ 32 < 2 ^ 32" by simp_all
  then have small: "\<bar>d + k * 2 ^ 32\<bar> \<le> 2 ^ 52" "\<bar>k * 2 ^ 32\<bar> \<le> 2 ^ 53" "\<bar>time_Unix t\<bar> \<le> 2 ^ 52"
    using diff assms by (auto simp: ntpEpochOffset_def d_def)
  have era: "round_away (fin_value (f_div (f_of_int (d + k * 2 ^ 32)) (f_of_int ntpEraSeconds))) = k"
    using assms(1) small(1) by (intro era_rounds) (auto simp: d_def)
  have "in_int64 (d + k * 2 ^ 32)" "in_int64 (k * 2 ^ 32)" "in_int64 (time_Unix t)"
    using small by (auto simp: int64_defs)
  moreover have "s mod 2 ^ 32 - ntpEpochOffset + k * 2 ^ 32 = time_Unix t" using s by (simp add: s_def)
  ultimately have "fromNTPNear (toNTP t) pivot = ntpTime (time_Unix t) (toNTP t)"
    using era diff by (simp add: fromNTPNear_def base Let_def ntpEraSeconds_def)
  moreover have "t_ns t = (time_Unix t + 62135596800) * Second + time_Nanosecond t"
    by (simp add: time_Unix_def time_Nanosecond_def)
  moreover have "0 \<le> time_Nanosecond t" "time_Nanosecond t < Second" by (simp_all add: time_Nanosecond_def)
  ultimately show "t_ns t - 1 \<le> t_ns (fromNTPNear (toNTP t) pivot)" "t_ns (fromNTPNear (toNTP t) pivot) \<le> t_ns t"
    "t_loc (fromNTPNear (toNTP t) pivot) = UTC"
    using fraction_round_trip [of "time_Nanosecond t"]
    by (simp_all add: ntpTime_ns toNTP_fields(2)) (simp add: ntpTime_def unix_time_def Let_def)
qed

section \<open>One exchange\<close>

datatype clock_error =
    ErrNoServers | ErrInvalidConfig | ErrInvalidResponse | ErrAllAttemptsFailed "clock_error option"
  | ErrNetwork string | ErrContext string

record Reading =
  rd_Server :: string
  rd_At :: gotime
  rd_Offset :: duration
  rd_RoundTrip :: duration

definition maxTrustedRoundTrip :: duration where "maxTrustedRoundTrip = Second"

text \<open>
  \<open>query\<close> after the socket calls: the request went out at \<open>t1\<close>, the read returned at \<open>t4\<close> with the given
  bytes, of which the 48-byte buffer keeps the first 48.
\<close>

definition query :: "string \<Rightarrow> gotime \<Rightarrow> gotime \<Rightarrow> clock_error + 8 word list \<Rightarrow> clock_error + Reading" where
  "query addr t1 t4 received =
     (case received of
        Inl e \<Rightarrow> Inl e
      | Inr bytes \<Rightarrow>
          (let resp = take 48 bytes
           in if length resp < 48 then Inl ErrInvalidResponse
              else if leapIndicator resp = leapUnsync then Inl ErrInvalidResponse
              else if stratum resp = 0 then Inl ErrInvalidResponse
              else if stratum resp > 15 then Inl ErrInvalidResponse
              else if ntp_version resp < 3 \<or> ntp_version resp > 4 then Inl ErrInvalidResponse
              else if ntp_mode resp \<noteq> modeServer then Inl ErrInvalidResponse
              else if originTimestamp resp \<noteq> toNTP t1 then Inl ErrInvalidResponse
              else if receiveTimestamp resp = 0 \<or> transmitTimestamp resp = 0 then Inl ErrInvalidResponse
              else
                (let t2 = fromNTPNear (receiveTimestamp resp) t4;
                     t3 = fromNTPNear (transmitTimestamp resp) t4
                 in if Before t3 t2 then Inl ErrInvalidResponse
                    else
                      (let offset = go_div (wrap64 (Sub t2 t1 + Sub t3 t4)) 2;
                           delay = wrap64 (Sub t4 t1 - Sub t3 t2)
                       in if delay < 0 \<or> delay > maxTrustedRoundTrip then Inl ErrInvalidResponse
                          else Inr \<lparr>rd_Server = addr, rd_At = t4, rd_Offset = offset, rd_RoundTrip = delay\<rparr>))))"

lemma query_InrD:
  assumes "query addr t1 t4 received = Inr r"
  obtains bytes t2 t3 where "received = Inr bytes" "48 \<le> length bytes"
    "originTimestamp (take 48 bytes) = toNTP t1" "ntp_mode (take 48 bytes) = modeServer"
    "leapIndicator (take 48 bytes) \<noteq> leapUnsync" "1 \<le> stratum (take 48 bytes)" "stratum (take 48 bytes) \<le> 15"
    "t2 = fromNTPNear (receiveTimestamp (take 48 bytes)) t4" "t3 = fromNTPNear (transmitTimestamp (take 48 bytes)) t4"
    "\<not> Before t3 t2" "0 \<le> wrap64 (Sub t4 t1 - Sub t3 t2)" "wrap64 (Sub t4 t1 - Sub t3 t2) \<le> Second"
    "r = \<lparr>rd_Server = addr, rd_At = t4, rd_Offset = go_div (wrap64 (Sub t2 t1 + Sub t3 t4)) 2,
          rd_RoundTrip = wrap64 (Sub t4 t1 - Sub t3 t2)\<rparr>"
proof -
  obtain bytes where b: "received = Inr bytes" using assms by (auto simp: query_def split: sum.splits)
  have pos: "1 \<le> stratum p" if "stratum p \<noteq> 0" for p using that by (simp add: word_le_nat_alt Suc_le_eq unat_gt_0)
  show thesis
    using assms b pos [of "take 48 bytes"] that [of bytes]
    unfolding query_def Let_def by (auto simp: maxTrustedRoundTrip_def not_less split: if_splits)
qed

lemma Unix_near: "\<bar>time_Unix t - time_Unix u\<bar> < 2 ^ 31 \<Longrightarrow> \<bar>t_ns t - t_ns u\<bar> < 2147483649 * Second"
  by (simp add: time_Unix_def)

lemma accepted_delay:
  assumes "in_int64 D" "0 \<le> P" "P < 4400000000 * Second" "0 \<le> wrap64 (D - P)" "wrap64 (D - P) \<le> Second"
  shows "wrap64 (D - P) = D - P"
proof (cases "in_int64 (D - P)")
  case False
  then have "D - P < int64_min" using assms(1-3) by (auto simp: int64_defs)
  moreover have "(D - P + 9223372036854775808) mod 18446744073709551616 =
      (D - P + 9223372036854775808 + 18446744073709551616) mod 18446744073709551616"
    by (rule mod_add_self2 [symmetric])
  ultimately have "wrap64 (D - P) = D - P + 18446744073709551616"
    using assms(1-3) by (simp add: wrap64_def int64_defs mod_pos_pos_trivial del: mod_add_self2)
  then show ?thesis using assms by (simp add: int64_defs)
qed simp

lemma offset_half: "2 * go_div x 2 \<le> x + 1" "x - 1 \<le> 2 * go_div x 2"
  by (auto simp: go_div_def sgn_if)

lemma offset_within:
  assumes "2 * x \<le> t2 - t1 + (t3 - t4) + (1 :: int)" "t2 - t1 + (t3 - t4) - 1 \<le> 2 * x"
    and "t3 \<le> t4 + \<theta>" "t1 + \<theta> \<le> t2 + 1"
  shows "2 * \<bar>x - \<theta>\<bar> \<le> t4 - t1 - (t3 - t2) + 4"
proof -
  have "2 * (x - \<theta>) \<le> t4 - t1 - (t3 - t2) + 4" "2 * (\<theta> - x) \<le> t4 - t1 - (t3 - t2) + 4"
    using assms by presburger+
  then show ?thesis by (simp add: abs_if)
qed

section \<open>Properties\<close>

text \<open>
  Property C31: an NTP timestamp decodes to the instant it encodes, to within the nanosecond that the
  32-bit fraction loses, whenever the pivot is within 68 years of it. This holds on either side of the
  2036 rollover of the seconds field, and for any era.
\<close>

theorem ntp_round_trip:
  assumes "\<bar>time_Unix t - time_Unix pivot\<bar> < 2 ^ 31" "\<bar>time_Unix pivot\<bar> \<le> 2 ^ 51"
  shows "t_ns t - 1 \<le> t_ns (fromNTPNear (toNTP t) pivot) \<and> t_ns (fromNTPNear (toNTP t) pivot) \<le> t_ns t"
  using fromNTPNear_toNTP [OF assms] by simp

theorem ntp_round_trip_witness:
  "\<bar>t_ns (fromNTPNear (toNTP (unix_time 2085978496 5)) (unix_time 2085978490 0)) - t_ns (unix_time 2085978496 5)\<bar> \<le> 1"
  using ntp_round_trip [of "unix_time 2085978496 5" "unix_time 2085978490 0"]
  by (simp add: unix_time_def time_Unix_def)

text \<open>
  Property C30: a reading bounds the true clock difference. If the server's clock is \<open>\<theta>\<close> ahead of the
  local one and the two network legs took any non-negative times, the offset of an accepted reading is
  within half its round trip of \<open>\<theta>\<close>, up to two nanoseconds of rounding, and the round trip is at
  most one second. No arithmetic in between wraps, although none of it is guarded.
\<close>

theorem reading_error_bound:
  assumes "query addr t1 t4 (Inr bytes) = Inr r"
    and "receiveTimestamp (take 48 bytes) = toNTP s2" "transmitTimestamp (take 48 bytes) = toNTP s3"
    and "t_ns s2 = t_ns t1 + \<theta> + d1" "t_ns t4 = t_ns s3 - \<theta> + d2" "0 \<le> d1" "0 \<le> d2"
    and "\<bar>time_Unix s2 - time_Unix t4\<bar> < 2 ^ 31" "\<bar>time_Unix s3 - time_Unix t4\<bar> < 2 ^ 31"
    and "\<bar>time_Unix t4\<bar> \<le> 2 ^ 51" "in_int64 (t_ns t4 - t_ns t1)"
  shows "rd_At r = t4 \<and> 0 \<le> rd_RoundTrip r \<and> rd_RoundTrip r \<le> Second \<and>
    2 * \<bar>rd_Offset r - \<theta>\<bar> \<le> rd_RoundTrip r + 4"
proof -
  obtain t2 t3 where t: "t2 = fromNTPNear (toNTP s2) t4" "t3 = fromNTPNear (toNTP s3) t4" "\<not> Before t3 t2"
    and delay: "0 \<le> wrap64 (Sub t4 t1 - Sub t3 t2)" "wrap64 (Sub t4 t1 - Sub t3 t2) \<le> Second"
    and r: "r = \<lparr>rd_Server = addr, rd_At = t4, rd_Offset = go_div (wrap64 (Sub t2 t1 + Sub t3 t4)) 2,
          rd_RoundTrip = wrap64 (Sub t4 t1 - Sub t3 t2)\<rparr>"
    by (rule query_InrD [OF assms(1)]) (auto simp: assms(2,3))
  note near = fromNTPNear_toNTP(1,2) [OF assms(8,10), folded t(1)] fromNTPNear_toNTP(1,2) [OF assms(9,10), folded t(2)]
    Unix_near [OF assms(8)] Unix_near [OF assms(9)]
  have p: "0 \<le> t_ns t3 - t_ns t2" "t_ns t3 - t_ns t2 < 4400000000 * Second"
    using near t(3) by (auto simp: Before_def)
  then have s32: "Sub t3 t2 = t_ns t3 - t_ns t2" by (simp add: Sub_def int64_defs)
  have s41: "Sub t4 t1 = t_ns t4 - t_ns t1" using assms(11) by (simp add: Sub_def)
  have d: "wrap64 (Sub t4 t1 - Sub t3 t2) = t_ns t4 - t_ns t1 - (t_ns t3 - t_ns t2)"
    using accepted_delay [OF assms(11) p] delay by (simp add: s32 s41)
  have "in_int64 (t_ns t2 - t_ns t1)" "in_int64 (t_ns t3 - t_ns t4)" 
    "in_int64 (t_ns t2 - t_ns t1 + (t_ns t3 - t_ns t4))"
    using near delay p unfolding d int64_defs by linarith+
  then have off: "rd_Offset r = go_div (t_ns t2 - t_ns t1 + (t_ns t3 - t_ns t4)) 2" by (simp add: r Sub_def)
  have rt: "rd_RoundTrip r = t_ns t4 - t_ns t1 - (t_ns t3 - t_ns t2)" using d by (simp add: r)
  have legs: "t_ns t3 \<le> t_ns t4 + \<theta>" "t_ns t1 + \<theta> \<le> t_ns t2 + 1"
    using near(1,4) assms(4-7) by linarith+
  note half = offset_half [of "t_ns t2 - t_ns t1 + (t_ns t3 - t_ns t4)", folded off]
  have "2 * \<bar>rd_Offset r - \<theta>\<bar> \<le> rd_RoundTrip r + 4"
    using offset_within [OF half legs] unfolding rt by simp
  then show ?thesis using delay by (simp add: r)
qed

text \<open>A server ten milliseconds ahead that answers at once over two legs of one millisecond.\<close>

definition ex_reply :: "gotime \<Rightarrow> gotime \<Rightarrow> gotime \<Rightarrow> packet" where
  "ex_reply t1 s2 s3 = [0x24, 1] @ replicate 22 0 @ PutUint64 (toNTP t1) @ PutUint64 (toNTP s2) @ PutUint64 (toNTP s3)"

lemma ex_reply_fields:
  "length (ex_reply t1 s2 s3) = 48" "originTimestamp (ex_reply t1 s2 s3) = toNTP t1"
  "receiveTimestamp (ex_reply t1 s2 s3) = toNTP s2" "transmitTimestamp (ex_reply t1 s2 s3) = toNTP s3"
  "ex_reply t1 s2 s3 ! 0 = 0x24" "ex_reply t1 s2 s3 ! Suc 0 = 1"
proof -
  have "length (PutUint64 v) = 8" for v by (simp add: PutUint64_def)
  then show "length (ex_reply t1 s2 s3) = 48" "originTimestamp (ex_reply t1 s2 s3) = toNTP t1"
    "receiveTimestamp (ex_reply t1 s2 s3) = toNTP s2" "transmitTimestamp (ex_reply t1 s2 s3) = toNTP s3"
    "ex_reply t1 s2 s3 ! 0 = 0x24" "ex_reply t1 s2 s3 ! Suc 0 = 1"
    by (simp_all add: ex_reply_def originTimestamp_def receiveTimestamp_def transmitTimestamp_def BE_Uint64_PutUint64)
qed

theorem reading_error_bound_witness:
  "\<exists>r. query ''ntp'' (unix_time 1700000000 0) (unix_time 1700000000 2000000)
      (Inr (ex_reply (unix_time 1700000000 0) (unix_time 1700000000 11000000) (unix_time 1700000000 11000000))) = Inr r \<and>
     2 * \<bar>rd_Offset r - 10 * Millisecond\<bar> \<le> 2 * Millisecond + 4"
proof -
  let ?t1 = "unix_time 1700000000 0" and ?t4 = "unix_time 1700000000 2000000" and ?s = "unix_time 1700000000 11000000"
  have near: "\<bar>time_Unix ?s - time_Unix ?t4\<bar> < 2 ^ 31" "\<bar>time_Unix ?t4\<bar> \<le> 2 ^ 51" by (simp_all add: unix_time_def time_Unix_def)
  have nz: "toNTP ?s \<noteq> 0" using toNTP_fields(1) [of ?s] by (auto simp: unix_time_def time_Unix_def ntpEpochOffset_def)
  have d: "wrap64 (Sub ?t4 ?t1 - Sub (fromNTPNear (toNTP ?s) ?t4) (fromNTPNear (toNTP ?s) ?t4)) = 2 * Millisecond"
    by (simp add: Sub_def unix_time_def int64_defs)
  have "\<exists>r. query ''ntp'' ?t1 ?t4 (Inr (ex_reply ?t1 ?s ?s)) = Inr r \<and> rd_RoundTrip r = 2 * Millisecond"
    using nz d by (simp add: query_def Let_def ex_reply_fields leapIndicator_def leapUnsync_def stratum_def ntp_version_def
        ntp_mode_def modeServer_def Before_def maxTrustedRoundTrip_def)
  then obtain r where q: "query ''ntp'' ?t1 ?t4 (Inr (ex_reply ?t1 ?s ?s)) = Inr r" and rt: "rd_RoundTrip r = 2 * Millisecond" by blast
  have "2 * \<bar>rd_Offset r - 10 * Millisecond\<bar> \<le> rd_RoundTrip r + 4"
    using reading_error_bound [OF q, of ?s ?s "10 * Millisecond" Millisecond Millisecond] near
    by (simp add: ex_reply_fields unix_time_def int64_defs)
  with q rt show ?thesis by auto
qed

end
