(* ===== verification/Backoff.thy ===== *)
theory Backoff
  imports GoStd
begin

text \<open>
  The exponential backoff of \<open>internal/clock/backoff.go\<close> and \<open>internal/source/beaconapi/backoff.go\<close>.
  Both shift a base duration left by the attempt number and cap the result; the shift may overflow
  into, and past, the sign bit. The locale \<open>bounded_backoff\<close> states when such a ceiling is exactly
  the capped exponential, and both packages interpret it.
\<close>

section \<open>The two ceilings\<close>

text \<open>Go's \<open><<\<close> on an \<open>int64\<close> keeps the low 64 bits, read as a signed number.\<close>

definition shift_left64 :: "int \<Rightarrow> nat \<Rightarrow> int" where
  "shift_left64 d n = wrap64 (d * 2 ^ n)"

definition backoffBase :: duration where "backoffBase = 200 * Millisecond"
definition backoffCap :: duration where "backoffCap = 10 * Second"

definition backoffCeiling :: "nat \<Rightarrow> duration" where
  "backoffCeiling attempt =
     (let d = shift_left64 backoffBase attempt in if d \<le> 0 \<or> d > backoffCap then backoffCap else d)"

definition reconnectBase :: duration where "reconnectBase = 1 * Second"
definition reconnectCap :: duration where "reconnectCap = 30 * Second"

definition reconnectCeiling :: "nat \<Rightarrow> duration" where
  "reconnectCeiling attempt =
     (let d = shift_left64 reconnectBase attempt in if d \<le> 0 \<or> d > reconnectCap then reconnectCap else d)"

text \<open>
  One wait: \<open>rand.Int64N(n)\<close> panics unless \<open>n\<close> is positive and draws from \<open>[0, n)\<close> otherwise; \<open>draw\<close>
  stands for the random source. Either the context ends first or the wait elapses.
\<close>

datatype sleep_result = Panics | ContextDone | Slept duration

definition sleep_within :: "duration \<Rightarrow> (int \<Rightarrow> int) \<Rightarrow> bool \<Rightarrow> sleep_result" where
  "sleep_within ceiling draw ctxDone =
     (if ceiling \<le> 0 then Panics else if ctxDone then ContextDone else Slept (draw ceiling))"

definition sleepBackoff :: "(int \<Rightarrow> int) \<Rightarrow> bool \<Rightarrow> nat \<Rightarrow> sleep_result" where
  "sleepBackoff draw ctxDone attempt = sleep_within (backoffCeiling attempt) draw ctxDone"

definition sleepReconnect :: "(int \<Rightarrow> int) \<Rightarrow> bool \<Rightarrow> nat \<Rightarrow> sleep_result" where
  "sleepReconnect draw ctxDone attempt = sleep_within (reconnectCeiling attempt) draw ctxDone"

section \<open>The interface of a capped exponential\<close>

locale bounded_backoff =
  fixes base cap :: int and e :: nat and ceiling_of :: "nat \<Rightarrow> int"
  assumes base_pos: "0 < base" and base_cap: "base \<le> cap" and cap_range: "cap \<le> int64_max"
    and factor: "2 ^ e dvd base"
    and spread: "int64_max < base * 2 ^ n \<Longrightarrow> cap < 2 ^ (e + n)"
    and ceiling_eq: "ceiling_of n =
      (let d = shift_left64 base n in if d \<le> 0 \<or> d > cap then cap else d)"
begin

text \<open>After an overflow the surviving bits are a multiple of a power of two beyond the cap.\<close>

lemma overflowed_shift:
  assumes "int64_max < base * 2 ^ n"
  shows "shift_left64 base n \<le> 0 \<or> cap < shift_left64 base n"
proof -
  let ?m = "2 ^ (e + n) :: int"
  have dvd: "?m dvd base * 2 ^ n" using factor by (simp add: power_add mult_dvd_mono)
  show ?thesis
  proof (cases "e + n \<le> 63")
    case True
    have m: "?m dvd 9223372036854775808" "?m dvd 18446744073709551616"
      using le_imp_power_dvd [of "e + n" 63 "2 :: int"] le_imp_power_dvd [of "e + n" 64 "2 :: int"] True by simp_all
    have "?m dvd (base * 2 ^ n + 9223372036854775808) mod 18446744073709551616"
      using dvd m by (intro dvd_mod) simp_all
    with m(1) have "?m dvd shift_left64 base n" by (simp add: shift_left64_def wrap64_def)
    then have "0 < shift_left64 base n \<Longrightarrow> ?m \<le> shift_left64 base n" by (rule zdvd_imp_le)
    with spread [OF assms] show ?thesis by linarith
  next
    case False
    then have "18446744073709551616 dvd ?m" using le_imp_power_dvd [of 64 "e + n" "2 :: int"] by simp
    with dvd have "18446744073709551616 dvd base * 2 ^ n" by (rule dvd_trans [rotated])
    then show ?thesis by (auto simp: shift_left64_def wrap64_def elim!: dvdE)
  qed
qed

lemma ceiling_min: "ceiling_of n = min cap (base * 2 ^ n)"
proof (cases "int64_max < base * 2 ^ n")
  case True
  then show ?thesis using overflowed_shift [OF True] cap_range by (auto simp: ceiling_eq Let_def)
next
  case False
  have "0 < base * 2 ^ n" using base_pos by simp
  with False have "in_int64 (base * 2 ^ n)" by (simp add: int64_defs)
  then have "shift_left64 base n = base * 2 ^ n" by (simp add: shift_left64_def)
  with \<open>0 < base * 2 ^ n\<close> show ?thesis by (simp add: ceiling_eq Let_def)
qed

lemma ceiling_bounds: "base \<le> ceiling_of n" "ceiling_of n \<le> cap" "0 < ceiling_of n"
proof -
  have "base * 1 \<le> base * 2 ^ n" using base_pos by (intro mult_left_mono) simp_all
  then show "base \<le> ceiling_of n" "ceiling_of n \<le> cap" using base_cap by (simp_all add: ceiling_min)
  then show "0 < ceiling_of n" using base_pos by linarith
qed

lemma ceiling_mono:
  assumes "m \<le> n"
  shows "ceiling_of m \<le> ceiling_of n"
proof -
  have "base * 2 ^ m \<le> base * 2 ^ n" using assms base_pos by (intro mult_left_mono power_increasing) simp_all
  then show ?thesis by (simp add: ceiling_min min.coboundedI2)
qed

lemma sleep_never_panics:
  assumes "\<And>n. 0 < n \<Longrightarrow> 0 \<le> draw n \<and> draw n < n"
  shows "sleep_within (ceiling_of k) draw False = Slept (draw (ceiling_of k)) \<and>
    0 \<le> draw (ceiling_of k) \<and> draw (ceiling_of k) < cap"
  using ceiling_bounds [of k] assms [of "ceiling_of k"] by (auto simp: sleep_within_def)

end

section \<open>Both packages\<close>

lemma spread_from:
  fixes base cap :: int
  assumes "int64_max < base * 2 ^ n" "base * 2 ^ k \<le> int64_max" "0 < base" "cap < 2 ^ (e + k)"
  shows "cap < 2 ^ (e + n)"
proof -
  have "base * 2 ^ k < base * 2 ^ n" using assms(1,2) by linarith
  then have "(2 :: int) ^ k < 2 ^ n" using assms(3) by simp
  then have "(2 :: int) ^ (e + k) \<le> 2 ^ (e + n)" by (simp add: power_add)
  with assms(4) show ?thesis by linarith
qed

interpretation clock_backoff: bounded_backoff backoffBase backoffCap 9 backoffCeiling
proof unfold_locales
  show "int64_max < backoffBase * 2 ^ n \<Longrightarrow> backoffCap < 2 ^ (9 + n)" for n
    using spread_from [of backoffBase n 35 backoffCap 9] by (simp add: backoffBase_def backoffCap_def int64_max_def)
qed (simp_all add: backoffBase_def backoffCap_def int64_max_def backoffCeiling_def)

interpretation stream_backoff: bounded_backoff reconnectBase reconnectCap 9 reconnectCeiling
proof unfold_locales
  show "int64_max < reconnectBase * 2 ^ n \<Longrightarrow> reconnectCap < 2 ^ (9 + n)" for n
    using spread_from [of reconnectBase n 33 reconnectCap 9] by (simp add: reconnectBase_def reconnectCap_def int64_max_def)
qed (simp_all add: reconnectBase_def reconnectCap_def int64_max_def reconnectCeiling_def)

text \<open>
  Both retry ceilings are exactly the capped exponential \<open>min cap (base * 2^attempt)\<close> for
  every attempt number, including those whose shift overflows 64 bits. In particular they are
  positive, so the jitter's \<open>rand.Int64N\<close> never panics.
\<close>

lemma backoff_ceilings_exact:
  "backoffCeiling n = min (10 * Second) (200 * Millisecond * 2 ^ n) \<and>
   reconnectCeiling n = min (30 * Second) (Second * 2 ^ n) \<and>
   sleepBackoff draw False n \<noteq> Panics \<and> sleepReconnect draw False n \<noteq> Panics"
proof -
  have "sleepBackoff draw False n \<noteq> Panics" "sleepReconnect draw False n \<noteq> Panics"
    using clock_backoff.ceiling_bounds(3) [of n] stream_backoff.ceiling_bounds(3) [of n]
    by (simp_all add: sleepBackoff_def sleepReconnect_def sleep_within_def)
  then show ?thesis
    using clock_backoff.ceiling_min [of n] stream_backoff.ceiling_min [of n]
    by (simp add: backoffBase_def backoffCap_def reconnectBase_def reconnectCap_def)
qed

end
