(* ===== verification/ClockSampler.thy ===== *)
theory ClockSampler
  imports Ntp Backoff
begin

text \<open>
  \<open>internal/clock/sampler.go\<close>: the configuration of the NTP sampler, the addresses it dials, and its
  bounded, round-robin sequence of attempts. The network and the context are an environment: what
  the query of each attempt returns, and whether the context has ended at each point it is consulted.
\<close>

section \<open>Addresses\<close>

text \<open>
  \<open>strings.TrimSpace\<close>: \<open>space_prefix\<close> is the length of the white-space rune a byte string starts with, or 0,
  and \<open>space_suffix\<close> that of the one it ends with.
\<close>

definition space_rune :: "nat list \<Rightarrow> bool" where
  "space_rune bs \<longleftrightarrow> bs \<noteq> [] \<and> length bs \<le> 3 \<and> blank_bytes bs \<and> (\<forall>k \<in> {1..<length bs}. \<not> blank_bytes (take k bs))"

definition space_prefix :: "nat list \<Rightarrow> nat" where
  "space_prefix bs = (case List.find (\<lambda>k. k \<le> length bs \<and> space_rune (take k bs)) [1, 2, 3] of None \<Rightarrow> 0 | Some k \<Rightarrow> k)"

definition space_suffix :: "nat list \<Rightarrow> nat" where
  "space_suffix bs =
     (case List.find (\<lambda>k. k \<le> length bs \<and> space_rune (drop (length bs - k) bs)) [1, 2, 3] of None \<Rightarrow> 0 | Some k \<Rightarrow> k)"

function TrimLeft :: "string \<Rightarrow> string" where
  "TrimLeft s =
     (let k = space_prefix (map of_char s) in if k = 0 \<or> s = [] then s else TrimLeft (drop k s))"
  by pat_completeness auto
termination by (relation "measure length") auto

function TrimRight :: "string \<Rightarrow> string" where
  "TrimRight s =
     (let k = space_suffix (map of_char s) in if k = 0 \<or> s = [] then s else TrimRight (take (length s - k) s))"
  by pat_completeness auto
termination by (relation "measure length") auto

declare TrimLeft.simps [simp del] TrimRight.simps [simp del]

definition TrimSpace :: "string \<Rightarrow> string" where
  "TrimSpace s = TrimRight (TrimLeft s)"

text \<open>\<open>net.SplitHostPort\<close>; \<open>None\<close> stands for its errors.\<close>

fun index_byte :: "char \<Rightarrow> string \<Rightarrow> nat option" where
  "index_byte c [] = None"
| "index_byte c (x # xs) = (if x = c then Some 0 else map_option Suc (index_byte c xs))"

definition last_index_byte :: "char \<Rightarrow> string \<Rightarrow> nat option" where
  "last_index_byte c s = map_option (\<lambda>k. length s - 1 - k) (index_byte c (rev s))"

definition SplitHostPort :: "string \<Rightarrow> (string \<times> string) option" where
  "SplitHostPort hostport =
     (case last_index_byte (CHR '':'') hostport of
        None \<Rightarrow> None
      | Some i \<Rightarrow>
          (let rest = (\<lambda>host j k.
                 if CHR ''['' \<in> set (drop j hostport) \<or> CHR '']'' \<in> set (drop k hostport) then None
                 else Some (host, drop (i + 1) hostport))
           in if hostport ! 0 = CHR ''['' then
                (case index_byte (CHR '']'') hostport of
                   None \<Rightarrow> None
                 | Some e \<Rightarrow> if e + 1 \<noteq> i then None else rest (drop 1 (take e hostport)) 1 (e + 1))
              else if CHR '':'' \<in> set (take i hostport) then None
              else rest (take i hostport) 0 0))"

definition JoinHostPort :: "string \<Rightarrow> string \<Rightarrow> string" where
  "JoinHostPort host port =
     (if CHR '':'' \<in> set host then ''['' @ host @ '']:'' @ port else host @ '':'' @ port)"

definition withDefaultPort :: "string \<Rightarrow> string" where
  "withDefaultPort addr = (case SplitHostPort addr of Some _ \<Rightarrow> addr | None \<Rightarrow> JoinHostPort addr ''123'')"

section \<open>Configuration\<close>

definition maxServers :: nat where "maxServers = 8"
definition maxServerAddress :: nat where "maxServerAddress = 255"
definition maxAttempts :: int where "maxAttempts = 16"
definition maxTimeout :: duration where "maxTimeout = 30 * Second"

record sampler_config =
  sc_Servers :: "string list"
  sc_Timeout :: duration
  sc_MaxAttempts :: int

definition sampler_Validate :: "sampler_config \<Rightarrow> clock_error option" where
  "sampler_Validate c = first_error
     [check (sc_Servers c = []) ErrNoServers,
      check (length (sc_Servers c) > maxServers) ErrInvalidConfig,
      first_error (map (\<lambda>server. first_error
         [check (blank server) ErrInvalidConfig, check (length server > maxServerAddress) ErrInvalidConfig]) (sc_Servers c)),
      check (sc_Timeout c \<le> 0 \<or> sc_Timeout c > maxTimeout) ErrInvalidConfig,
      check (sc_MaxAttempts c < 1 \<or> sc_MaxAttempts c > maxAttempts) ErrInvalidConfig]"

record Sampler =
  sm_cfg :: sampler_config

definition Sampler_New :: "sampler_config \<Rightarrow> clock_error + Sampler" where
  "Sampler_New cfg =
     (case sampler_Validate cfg of
        Some e \<Rightarrow> Inl e
      | None \<Rightarrow> Inr \<lparr>sm_cfg = cfg\<lparr>sc_Servers := map (\<lambda>s. withDefaultPort (TrimSpace s)) (sc_Servers cfg)\<rparr>\<rparr>)"

section \<open>Attempts\<close>

text \<open>
  The environment of a measurement, by attempt number: the context error during the wait before it,
  the result of querying a server, and the context error after a failure. The loop also returns the
  servers it queried.
\<close>

record sampler_env =
  env_wait :: "nat \<Rightarrow> clock_error option"
  env_query :: "nat \<Rightarrow> string \<Rightarrow> clock_error + Reading"
  env_ctx :: "nat \<Rightarrow> clock_error option"

fun attempt_loop ::
  "sampler_env \<Rightarrow> string list \<Rightarrow> clock_error option \<Rightarrow> nat \<Rightarrow> nat \<Rightarrow> (clock_error + Reading) \<times> string list" where
  "attempt_loop env servers lastErr attempt 0 = (Inl (ErrAllAttemptsFailed lastErr), [])"
| "attempt_loop env servers lastErr attempt (Suc left) =
     (case (if attempt > 0 then env_wait env attempt else None) of
        Some e \<Rightarrow> (Inl e, [])
      | None \<Rightarrow>
          (let server = servers ! (attempt mod length servers)
           in case env_query env attempt server of
                Inr reading \<Rightarrow> (Inr reading, [server])
              | Inl err \<Rightarrow>
                  (case env_ctx env attempt of
                     Some e \<Rightarrow> (Inl e, [server])
                   | None \<Rightarrow>
                       (case attempt_loop env servers (Some err) (Suc attempt) left of
                          (r, tried) \<Rightarrow> (r, server # tried)))))"

definition Sampler_Sample :: "Sampler \<Rightarrow> sampler_env \<Rightarrow> (clock_error + Reading) \<times> string list" where
  "Sampler_Sample s env = attempt_loop env (sc_Servers (sm_cfg s)) None 0 (nat (sc_MaxAttempts (sm_cfg s)))"

section \<open>Facts\<close>

lemma index_byte_append: "c \<notin> set xs \<Longrightarrow> index_byte c (xs @ c # ys) = Some (length xs)"
  by (induction xs) auto

lemma last_index_byte_append: "c \<notin> set ys \<Longrightarrow> last_index_byte c (xs @ c # ys) = Some (length xs)"
  using index_byte_append [of c "rev ys" "rev xs"] by (simp add: last_index_byte_def)

lemma SplitHostPort_Join:
  assumes "CHR ''['' \<notin> set addr" "CHR '']'' \<notin> set addr"
  shows "SplitHostPort (JoinHostPort addr ''123'') = Some (addr, ''123'')"
proof (cases "CHR '':'' \<in> set addr")
  case True
  have i: "last_index_byte (CHR '':'') ((''['' @ addr @ '']'') @ CHR '':'' # ''123'') = Some (length addr + 2)"
    by (subst last_index_byte_append) simp_all
  have e: "index_byte (CHR '']'') ((''['' @ addr) @ CHR '']'' # '':123'') = Some (length addr + 1)"
    using assms(2) by (subst index_byte_append) simp_all
  show ?thesis using True assms i e by (simp add: JoinHostPort_def SplitHostPort_def Let_def)
next
  case False
  have i: "last_index_byte (CHR '':'') (addr @ CHR '':'' # ''123'') = Some (length addr)"
    by (subst last_index_byte_append) simp_all
  have h: "(addr @ CHR '':'' # ''123'') ! 0 \<noteq> CHR ''[''" using assms(1) by (cases addr) auto
  show ?thesis using False assms i h by (simp add: JoinHostPort_def SplitHostPort_def Let_def)
qed

lemma attempt_loop_cases:
  assumes "attempt_loop env servers lastErr a (Suc n) = (res, tried)"
  obtains (wait) e where "tried = []" "res = Inl e"
  | (success) r where "tried = [servers ! (a mod length servers)]"
      "env_query env a (servers ! (a mod length servers)) = Inr r" "res = Inr r"
  | (ctx) e where "tried = [servers ! (a mod length servers)]" "res = Inl e"
  | (again) err tried' where "tried = servers ! (a mod length servers) # tried'"
      "env_query env a (servers ! (a mod length servers)) = Inl err"
      "attempt_loop env servers (Some err) (Suc a) n = (res, tried')"
  using assms by (auto simp: Let_def split: if_splits option.splits sum.splits prod.splits)

lemma attempt_loop_facts:
  assumes "attempt_loop env servers lastErr a n = (res, tried)"
  shows "length tried \<le> n \<and>
    tried = map (\<lambda>i. servers ! (i mod length servers)) [a..<a + length tried] \<and>
    (\<forall>i. i + 1 < length tried \<longrightarrow> (\<exists>e. env_query env (a + i) (tried ! i) = Inl e)) \<and>
    (\<forall>r. res = Inr r \<longrightarrow> tried \<noteq> [] \<and> env_query env (a + length tried - 1) (last tried) = Inr r)"
  using assms
proof (induction n arbitrary: lastErr a tried)
  case (Suc n)
  from Suc.prems show ?case
  proof (cases rule: attempt_loop_cases)
    case (again err tried')
    note ih = Suc.IH [OF again(3)]
    have "[a..<a + length tried] = a # [Suc a..<Suc a + length tried']" using again(1) by (simp add: upt_conv_Cons del: upt_Suc)
    then have seq: "tried = map (\<lambda>i. servers ! (i mod length servers)) [a..<a + length tried]"
      using ih again(1) by simp
    have fails: "\<exists>e. env_query env (a + i) (tried ! i) = Inl e" if i: "i + 1 < length tried" for i
    proof (cases i)
      case (Suc j)
      then have "j + 1 < length tried'" using i again(1) by simp
      then show ?thesis using ih Suc again(1) by (metis add_Suc_shift nth_Cons_Suc)
    qed (use again in simp)
    have "length tried \<le> Suc n" using ih again(1) by simp
    moreover have "env_query env (a + length tried - 1) (last tried) = Inr r" if "res = Inr r" for r
      using ih that again(1) by simp
    ultimately show ?thesis using seq fails again(1) by blast
  qed simp_all
qed auto

text \<open>The specification of a measurement: attempt \<open>i\<close> asks the servers in turn.\<close>

definition attempt_result :: "sampler_env \<Rightarrow> string list \<Rightarrow> nat \<Rightarrow> clock_error + Reading" where
  "attempt_result env servers i = env_query env i (servers ! (i mod length servers))"

definition attempt_success :: "sampler_env \<Rightarrow> string list \<Rightarrow> nat \<Rightarrow> Reading option" where
  "attempt_success env servers i = (case attempt_result env servers i of Inr r \<Rightarrow> Some r | Inl _ \<Rightarrow> None)"

lemma attempt_loop_live:
  assumes "\<forall>k. env_wait env k = None \<and> env_ctx env k = None"
  shows "fst (attempt_loop env servers lastErr a n) =
    (case find_map (attempt_success env servers) [a..<a + n] of
       Some r \<Rightarrow> Inr r
     | None \<Rightarrow> Inl (ErrAllAttemptsFailed (if n = 0 then lastErr else Some (projl (attempt_result env servers (a + n - 1))))))"
proof (induction n arbitrary: lastErr a)
  case (Suc n)
  have upt: "[a..<a + Suc n] = a # [Suc a..<Suc a + n]" by (simp add: upt_conv_Cons del: upt_Suc)
  have err: "(if n = 0 then Some (projl (attempt_result env servers a))
        else Some (projl (attempt_result env servers (Suc a + n - 1)))) =
      Some (projl (attempt_result env servers (a + Suc n - 1)))" by simp
  show ?case
  proof (cases "attempt_result env servers a")
    case (Inl e)
    then have "fst (attempt_loop env servers lastErr a (Suc n)) = fst (attempt_loop env servers (Some e) (Suc a) n)"
      using assms by (cases "a = 0") (simp_all add: attempt_result_def Let_def case_prod_beta)
    then show ?thesis using Suc.IH [of "Some e" "Suc a"] Inl err unfolding upt
      by (simp add: attempt_success_def del: upt_Suc split: option.split)
  next
    case (Inr r)
    then show ?thesis using assms unfolding upt
      by (cases "a = 0") (simp_all add: attempt_result_def attempt_success_def Let_def)
  qed
qed simp

lemma Sampler_New_sel:
  assumes "Sampler_New cfg = Inr s"
  shows "sc_Servers (sm_cfg s) = map (\<lambda>s. withDefaultPort (TrimSpace s)) (sc_Servers cfg)"
    "sc_MaxAttempts (sm_cfg s) = sc_MaxAttempts cfg" "1 \<le> sc_MaxAttempts cfg" "sc_MaxAttempts cfg \<le> 16" "sc_Servers cfg \<noteq> []"
  using assms by (auto simp: Sampler_New_def sampler_Validate_def maxAttempts_def split: option.splits)

section \<open>Properties\<close>

text \<open>
  A measurement is bounded and never fabricated. Whatever the network and the context do,
  at most the configured number of attempts (so at most 16) is made, they go through the servers in
  turn, every attempt but the last one made failed, and a reading that is returned is the answer of
  the last server asked.
\<close>

lemma sampler_bounded:
  assumes "Sampler_New cfg = Inr s" "Sampler_Sample s env = (res, tried)"
  shows "length tried \<le> nat (sc_MaxAttempts cfg) \<and> length tried \<le> 16 \<and>
    tried = map (\<lambda>i. withDefaultPort (TrimSpace (sc_Servers cfg ! (i mod length (sc_Servers cfg))))) [0..<length tried] \<and>
    (\<forall>i. i + 1 < length tried \<longrightarrow> (\<exists>e. env_query env i (tried ! i) = Inl e)) \<and>
    (\<forall>r. res = Inr r \<longrightarrow> tried \<noteq> [] \<and> env_query env (length tried - 1) (last tried) = Inr r)"
proof -
  let ?servers = "map (\<lambda>s. withDefaultPort (TrimSpace s)) (sc_Servers cfg)"
  note new = Sampler_New_sel [OF assms(1)]
  have loop: "attempt_loop env ?servers None 0 (nat (sc_MaxAttempts cfg)) = (res, tried)"
    using assms(2) by (simp add: Sampler_Sample_def new)
  have "map (\<lambda>i. ?servers ! (i mod length ?servers)) [0..<length tried] =
      map (\<lambda>i. withDefaultPort (TrimSpace (sc_Servers cfg ! (i mod length (sc_Servers cfg))))) [0..<length tried]"
    using new(5) by simp
  then have "tried = map (\<lambda>i. withDefaultPort (TrimSpace (sc_Servers cfg ! (i mod length (sc_Servers cfg))))) [0..<length tried]"
    using attempt_loop_facts [OF loop] by (simp only: add_0 append_Nil)
  moreover have "length tried \<le> 16" using attempt_loop_facts [OF loop] new(3,4) by linarith
  ultimately show ?thesis using attempt_loop_facts [OF loop] by simp
qed

text \<open>
  While the context lives, a measurement returns exactly the reading of the first
  successful attempt within the budget, and fails, with the error of the last attempt, exactly when
  every attempt of the budget failed.
\<close>

lemma sampler_first_success:
  assumes "Sampler_New cfg = Inr s" "\<forall>k. env_wait env k = None \<and> env_ctx env k = None"
  defines "q \<equiv> \<lambda>i. env_query env i (withDefaultPort (TrimSpace (sc_Servers cfg ! (i mod length (sc_Servers cfg)))))"
  shows "fst (Sampler_Sample s env) =
    (case find_map (\<lambda>i. case q i of Inr r \<Rightarrow> Some r | Inl _ \<Rightarrow> None) [0..<nat (sc_MaxAttempts cfg)] of
       Some r \<Rightarrow> Inr r
     | None \<Rightarrow> Inl (ErrAllAttemptsFailed (Some (projl (q (nat (sc_MaxAttempts cfg) - 1))))))"
proof -
  let ?servers = "map (\<lambda>s. withDefaultPort (TrimSpace s)) (sc_Servers cfg)"
  note new = Sampler_New_sel [OF assms(1)]
  have "attempt_result env ?servers = q" using new(5) by (auto simp: attempt_result_def q_def)
  then show ?thesis
    using attempt_loop_live [OF assms(2), of ?servers None 0 "nat (sc_MaxAttempts cfg)"] new(3)
    by (simp add: Sampler_Sample_def new(1,2) attempt_success_def [abs_def] split: option.splits)
qed

text \<open>
  A server written without brackets can always be dialled. Its address gets the standard
  port exactly when it has none, bare IPv6 literals included, and the host part is what was written.
\<close>

lemma default_port_dialable:
  assumes "CHR ''['' \<notin> set addr" "CHR '']'' \<notin> set addr"
  shows "\<exists>host port. SplitHostPort (withDefaultPort addr) = Some (host, port) \<and>
    (SplitHostPort addr = None \<longrightarrow> host = addr \<and> port = ''123'') \<and>
    (SplitHostPort addr \<noteq> None \<longrightarrow> withDefaultPort addr = addr)"
  using SplitHostPort_Join [OF assms] by (auto simp: withDefaultPort_def split: option.splits)

text \<open>
  An IPv6 server written in brackets without a port cannot be dialled. The port is added
  around the brackets, and the address that results does not split into host and port.
\<close>

lemma bracketed_server_broken:
  "withDefaultPort ''[::1]'' = ''[[::1]]:123'' \<and> SplitHostPort (withDefaultPort ''[::1]'') = None"
  by (simp add: withDefaultPort_def SplitHostPort_def JoinHostPort_def last_index_byte_def Let_def)

end
