(* ===== verification/ClockStamp.thy ===== *)
theory ClockStamp
  imports ClockSampler Examples
begin

text \<open>
  \<open>internal/clock/tracker.go\<close>, which remembers the last successful reading, and \<open>internal/app/clocktracker.go\<close>,
  which stamps observations and samples with it. The locale \<open>clock_stamp\<close> is what both stamping
  functions promise; the freshness that R-011 relies on is proved from it once.
\<close>

section \<open>The tracker\<close>

record Tracker =
  tr_last :: Reading
  tr_syncAt :: gotime
  tr_have :: bool

definition zero_Reading :: Reading where
  "zero_Reading = \<lparr>rd_Server = [], rd_At = time_zero, rd_Offset = 0, rd_RoundTrip = 0\<rparr>"

definition NewTracker :: "'s option \<Rightarrow> clock_error + Tracker" where
  "NewTracker sampler =
     (case sampler of
        None \<Rightarrow> Inl ErrInvalidConfig
      | Some _ \<Rightarrow> Inr \<lparr>tr_last = zero_Reading, tr_syncAt = time_zero, tr_have = False\<rparr>)"

text \<open>\<open>Sample\<close> with the result its sampler gave.\<close>

definition Tracker_Sample :: "Tracker \<Rightarrow> clock_error + Reading \<Rightarrow> Tracker \<times> (clock_error + Reading)" where
  "Tracker_Sample t result =
     (case result of
        Inl err \<Rightarrow> (t, Inl err)
      | Inr reading \<Rightarrow> (t\<lparr>tr_last := reading, tr_syncAt := rd_At reading, tr_have := True\<rparr>, Inr reading))"

definition LastKnownGood :: "Tracker \<Rightarrow> Reading \<times> gotime \<times> bool" where
  "LastKnownGood t = (tr_last t, tr_syncAt t, tr_have t)"

section \<open>Stamping\<close>

definition absoluteDuration :: "duration \<Rightarrow> duration" where
  "absoluteDuration v = (if v = int64_min then int64_max else if v < 0 then - v else v)"

definition stampClockProvenance :: "Tracker option \<Rightarrow> duration \<Rightarrow> Observation \<Rightarrow> bool \<Rightarrow> Observation" where
  "stampClockProvenance tracker maxAge ob correctAt =
     (if obs_ClockMeasured ob \<or> obs_ClockOffset ob \<noteq> 0 \<or> \<not> IsZero (obs_ClockSampleAt ob) then ob
      else case tracker of
        None \<Rightarrow> ob
      | Some tr \<Rightarrow>
          (case LastKnownGood tr of (reading, _, ok) \<Rightarrow>
             if \<not> ok then ob
             else let age = absoluteDuration (Sub (obs_At ob) (rd_At reading))
                  in if maxAge \<le> 0 \<or> age > maxAge then ob
                     else let ob' = ob\<lparr>obs_ClockOffset := rd_Offset reading, obs_ClockMeasured := True,
                                       obs_ClockSampleAt := in_UTC (Add (rd_At reading) (rd_Offset reading))\<rparr>
                          in if correctAt then ob'\<lparr>obs_At := in_UTC (Add (obs_At ob) (rd_Offset reading))\<rparr> else ob'))"

definition stampClock :: "Tracker option \<Rightarrow> duration \<Rightarrow> Observation \<Rightarrow> Observation" where
  "stampClock tracker maxAge ob = stampClockProvenance tracker maxAge ob (obs_Kind ob \<noteq> ObsSlotStart)"

definition stampSampleClock :: "Tracker option \<Rightarrow> duration \<Rightarrow> MetricSample \<Rightarrow> MetricSample" where
  "stampSampleClock tracker maxAge m =
     (if ms_ClockMeasured m \<or> ms_ClockOffset m \<noteq> 0 \<or> \<not> IsZero (ms_ClockSampleAt m) then m
      else case tracker of
        None \<Rightarrow> m
      | Some tr \<Rightarrow>
          if ms_Source m = SourceDerived then m
          else (case LastKnownGood tr of (reading, _, ok) \<Rightarrow>
             if \<not> ok then m
             else let age = absoluteDuration (Sub (ms_At m) (rd_At reading))
                  in if maxAge \<le> 0 \<or> age > maxAge then m
                     else m\<lparr>ms_At := in_UTC (Add (ms_At m) (rd_Offset reading)), ms_ClockOffset := rd_Offset reading,
                            ms_ClockMeasured := True,
                            ms_ClockSampleAt := in_UTC (Add (rd_At reading) (rd_Offset reading))\<rparr>))"

section \<open>The interface of a stamp\<close>

text \<open>
  The clock fields of a stampable value are its \<open>measured\<close> flag, its \<open>sample\<close> instant and its own instant.
  A stamp leaves a measured value alone and otherwise either changes nothing or moves both
  instants by the same offset, after checking the age against the limit.
\<close>

locale clock_stamp =
  fixes stamp :: "duration \<Rightarrow> 'a \<Rightarrow> 'a" and measured :: "'a \<Rightarrow> bool" and sample :: "'a \<Rightarrow> gotime" and instant :: "'a \<Rightarrow> gotime"
  assumes keeps: "measured x \<Longrightarrow> stamp m x = x"
    and moves: "\<not> measured x \<Longrightarrow> stamp m x = x \<or>
      (measured (stamp m x) \<and> 0 < m \<and>
       (\<exists>r_at off. absoluteDuration (Sub (instant x) r_at) \<le> m \<and>
          sample (stamp m x) = in_UTC (Add r_at off) \<and> instant (stamp m x) = in_UTC (Add (instant x) off)))"
begin

lemma stamp_once: "stamp m (stamp m x) = stamp m x"
  using keeps moves by metis

lemma stamp_fresh:
  assumes "\<not> measured x" "measured (stamp m x)"
  shows "0 < m \<and> absoluteDuration (Sub (instant (stamp m x)) (sample (stamp m x))) \<le> m"
proof -
  have "stamp m x \<noteq> x" using assms by auto
  then obtain r_at off where "absoluteDuration (Sub (instant x) r_at) \<le> m" "0 < m"
    and "sample (stamp m x) = in_UTC (Add r_at off)" "instant (stamp m x) = in_UTC (Add (instant x) off)"
    using moves [OF assms(1)] by blast
  then show ?thesis by (simp add: Sub_def in_UTC_def)
qed

end

lemma provenance_cases:
  assumes "\<not> obs_ClockMeasured ob"
  shows "stampClockProvenance tracker m ob correct = ob \<or>
    (\<exists>reading :: Reading. 0 < m \<and> absoluteDuration (Sub (obs_At ob) (rd_At reading)) \<le> m \<and>
       stampClockProvenance tracker m ob correct =
         ob\<lparr>obs_ClockOffset := rd_Offset reading, obs_ClockMeasured := True,
            obs_ClockSampleAt := in_UTC (Add (rd_At reading) (rd_Offset reading)),
            obs_At := (if correct then in_UTC (Add (obs_At ob) (rd_Offset reading)) else obs_At ob)\<rparr>)"
proof (cases tracker)
  case (Some tr)
  show ?thesis
  proof (cases "stampClockProvenance tracker m ob correct = ob")
    case False
    then show ?thesis using Some assms
      by (intro disjI2 exI [of _ "tr_last tr"]) (simp add: stampClockProvenance_def LastKnownGood_def Let_def split: if_splits)
  qed simp
qed (simp add: stampClockProvenance_def)

lemma sample_stamp_cases:
  assumes "\<not> ms_ClockMeasured x"
  shows "stampSampleClock tracker m x = x \<or>
    (\<exists>reading :: Reading. 0 < m \<and> absoluteDuration (Sub (ms_At x) (rd_At reading)) \<le> m \<and>
       stampSampleClock tracker m x =
         x\<lparr>ms_At := in_UTC (Add (ms_At x) (rd_Offset reading)), ms_ClockOffset := rd_Offset reading,
           ms_ClockMeasured := True, ms_ClockSampleAt := in_UTC (Add (rd_At reading) (rd_Offset reading))\<rparr>)"
proof (cases tracker)
  case (Some tr)
  show ?thesis
  proof (cases "stampSampleClock tracker m x = x")
    case False
    then show ?thesis using Some assms
      by (intro disjI2 exI [of _ "tr_last tr"]) (simp add: stampSampleClock_def LastKnownGood_def Let_def split: if_splits)
  qed simp
qed (simp add: stampSampleClock_def)

interpretation obs_stamp: clock_stamp "\<lambda>m ob. stampClockProvenance tracker m ob True" obs_ClockMeasured obs_ClockSampleAt obs_At
proof unfold_locales
  show "obs_ClockMeasured ob \<Longrightarrow> stampClockProvenance tracker m ob True = ob" for ob m
    by (simp add: stampClockProvenance_def)
next
  fix ob :: Observation and m
  assume "\<not> obs_ClockMeasured ob"
  from provenance_cases [OF this, of tracker m True]
  show "stampClockProvenance tracker m ob True = ob \<or>
      obs_ClockMeasured (stampClockProvenance tracker m ob True) \<and> 0 < m \<and>
      (\<exists>r_at off. absoluteDuration (Sub (obs_At ob) r_at) \<le> m \<and>
         obs_ClockSampleAt (stampClockProvenance tracker m ob True) = in_UTC (Add r_at off) \<and>
         obs_At (stampClockProvenance tracker m ob True) = in_UTC (Add (obs_At ob) off))"
    by (elim disjE exE conjE) (blast, force)
qed

interpretation sample_stamp: clock_stamp "stampSampleClock tracker" ms_ClockMeasured ms_ClockSampleAt ms_At
proof unfold_locales
  show "ms_ClockMeasured x \<Longrightarrow> stampSampleClock tracker m x = x" for x m by (simp add: stampSampleClock_def)
next
  fix x :: MetricSample and m
  assume "\<not> ms_ClockMeasured x"
  from sample_stamp_cases [OF this, of tracker m]
  show "stampSampleClock tracker m x = x \<or> ms_ClockMeasured (stampSampleClock tracker m x) \<and> 0 < m \<and>
      (\<exists>r_at off. absoluteDuration (Sub (ms_At x) r_at) \<le> m \<and>
         ms_ClockSampleAt (stampSampleClock tracker m x) = in_UTC (Add r_at off) \<and>
         ms_At (stampSampleClock tracker m x) = in_UTC (Add (ms_At x) off))"
    by (elim disjE exE conjE) (blast, force)
qed

section \<open>A concrete tracker\<close>

text \<open>A tracker whose last reading was taken at the start of slot 100 and found the local clock 20 ms ahead.\<close>

definition ex_tracker :: Tracker where
  "ex_tracker = \<lparr>tr_last = \<lparr>rd_Server = ''ntp:123'', rd_At = ex_start, rd_Offset = - 20000000, rd_RoundTrip = 4000000\<rparr>,
     tr_syncAt = ex_start, tr_have = True\<rparr>"

definition ex_raw_obs :: "ObservationKind \<Rightarrow> SourceID \<Rightarrow> duration \<Rightarrow> Observation" where
  "ex_raw_obs kind src offset =
     (ex_obs kind src offset [])\<lparr>obs_ClockMeasured := False, obs_ClockSampleAt := time_zero\<rparr>"

definition ex_raw_sample :: "duration \<Rightarrow> MetricSample" where
  "ex_raw_sample offset =
     \<lparr>ms_At = Add ex_start offset, ms_Component = ComponentHost, ms_Name = ''cpu'', ms_Value = FFin 1, ms_ClockOffset = 0,
      ms_ClockMeasured = False, ms_ClockSampleAt = time_zero, ms_Source = SourceHostMetrics\<rparr>"

lemmas ex_stamp_defs = ex_tracker_def ex_raw_obs_def ex_raw_sample_def ex_obs_def ex_start_def stampClock_def
  stampClockProvenance_def stampSampleClock_def LastKnownGood_def absoluteDuration_def Sub_def in_UTC_def
  DefaultConfig_def int64_defs

section \<open>Properties\<close>

text \<open>
  After any sequence of measurements the tracker holds the latest successful one. Failures
  never overwrite it, and it claims a reading exactly if one succeeded; the recorded synchronisation
  time is the reading's own instant.
\<close>

lemma tracker_last_good:
  assumes "NewTracker (Some sampler) = Inr t0"
  shows "LastKnownGood (foldl (\<lambda>t r. fst (Tracker_Sample t r)) t0 results) =
    (case find_map (\<lambda>r. case r of Inr reading \<Rightarrow> Some reading | Inl _ \<Rightarrow> None) (rev results) of
       None \<Rightarrow> (zero_Reading, time_zero, False)
     | Some reading \<Rightarrow> (reading, rd_At reading, True))"
proof (induction results rule: rev_induct)
  case Nil
  then show ?case using assms by (auto simp: NewTracker_def LastKnownGood_def)
next
  case (snoc r rs)
  then show ?case by (cases r) (simp_all add: Tracker_Sample_def LastKnownGood_def)
qed



text \<open>
  Stamping keeps valid facts valid: an observation or sample that passed validation still
  passes it afterwards, whichever way the stamp went, as long as no corrected instant is Go's zero time.
\<close>

lemma stamp_keeps_valid:
  assumes "Observation_Validate ob = None" "MetricSample_Validate m = None"
    and "t_ns (rd_At (tr_last tr)) + rd_Offset (tr_last tr) \<noteq> 0"
    and "t_ns (obs_At ob) + rd_Offset (tr_last tr) \<noteq> 0" "t_ns (ms_At m) + rd_Offset (tr_last tr) \<noteq> 0"
  shows "Observation_Validate (stampClock (Some tr) limit ob) = None \<and>
    Observation_Validate (stampClockProvenance (Some tr) limit ob False) = None \<and>
    MetricSample_Validate (stampSampleClock (Some tr) limit m) = None"
  using assms
  by (auto simp: stampClock_def stampClockProvenance_def stampSampleClock_def LastKnownGood_def Let_def
      Observation_Validate_def MetricSample_Validate_def validate_clock_def IsZero_def in_UTC_def)

text \<open>
  Without that correction freshness can be lost. A fact stamped with provenance only, as
  block timings and network baselines are, compares its instant with the uncorrected reading but
  stores the corrected one: a reading accepted as fresh, with an offset inside the trusted
  range, can be stale for R-011 under the very same limit, which then discards the slot.
\<close>

lemma provenance_can_go_stale:
  "\<exists>tr ob. Observation_Validate ob = None \<and> requiresClockTrust (obs_Kind ob) \<and>
     (let ob' = stampClockProvenance (Some tr) (cfg_ClockSampleMaxAge DefaultConfig) ob False
      in obs_ClockMeasured ob' \<and> absDuration (obs_ClockOffset ob') \<le> cfg_ClockOffsetMax DefaultConfig \<and>
         stale DefaultConfig (absDuration (Sub (obs_At ob') (obs_ClockSampleAt ob'))))"
proof -
  let ?ob = "ex_raw_obs ObsBlockSeen SourcePromScrape (cfg_ClockSampleMaxAge DefaultConfig)"
  have "Observation_Validate ?ob = None"
    by (simp add: ex_raw_obs_def ex_obs_def ex_start_def Observation_Validate_def validate_clock_def IsZero_def time_zero_def DefaultConfig_def)
  moreover have "requiresClockTrust (obs_Kind ?ob)" by (simp add: requiresClockTrust_def ex_raw_obs_def ex_obs_def)
  moreover have "let ob' = stampClockProvenance (Some ex_tracker) (cfg_ClockSampleMaxAge DefaultConfig) ?ob False
      in obs_ClockMeasured ob' \<and> absDuration (obs_ClockOffset ob') \<le> cfg_ClockOffsetMax DefaultConfig \<and>
         stale DefaultConfig (absDuration (Sub (obs_At ob') (obs_ClockSampleAt ob')))"
    by (simp add: ex_stamp_defs absDuration_def stale_def clamp64_def)
  ultimately show ?thesis by blast
qed

end
