(* ===== verification/Bits.thy ===== *)
theory Bits
  imports Slots
begin

text \<open>
  The attestation formats of the Beacon API: SSZ bitlists (\<open>internal/source/beaconapi/bitlist.go\<close>), the
  committee bits of aggregated attestations (\<open>attestation_bits.go\<close>), and the checks a block's
  attestations pass before they are read (\<open>validateBlockAttestations\<close> and its helpers in \<open>blocks.go\<close>).
  The reference encoder at the end is the SSZ specification the decoders are measured against.
\<close>

datatype bits_error =
    ErrHexByte | ErrIndexRange | ErrDataIndex | ErrVectorPrefix | ErrVectorHex | ErrVectorBytes | ErrNoCommittee
  | ErrCommitteeLength | ErrOffsetOverflow | ErrCommitteePosition
  | ErrTooMany | ErrMixedForms | ErrDigits | ErrNumber | ErrBeaconRoot | ErrUnsupportedLength | ErrHexLength
  | ErrHexDecode | ErrZeroBits | ErrTooManyBits | ErrForkIndex | ErrCommitteeChars

section \<open>Bitlists\<close>

text \<open>
  \<open>fmt.Sscanf(s, "%02x", &b)\<close> on two bytes: leading blanks are skipped, a newline is an error, and
  scanning stops without an error at the first byte that is not a digit once one digit was read.
\<close>

definition scan_space :: "char \<Rightarrow> bool" where
  "scan_space c \<longleftrightarrow> (of_char c :: nat) \<in> {9, 11, 12, 13, 32}"

fun Sscanf_02x :: "string \<Rightarrow> nat option" where
  "Sscanf_02x [a, b] =
     (case hex_val a of
        Some h \<Rightarrow> (case hex_val b of Some l \<Rightarrow> Some (16 * h + l) | None \<Rightarrow> Some h)
      | None \<Rightarrow> if scan_space a then hex_val b else None)"
| "Sscanf_02x _ = None"

fun scan_bytes :: "string \<Rightarrow> nat list option" where
  "scan_bytes (a # b # rest) =
     (case Sscanf_02x [a, b] of None \<Rightarrow> None | Some v \<Rightarrow> map_option ((#) v) (scan_bytes rest))"
| "scan_bytes _ = Some []"

definition bitlistLength :: "nat list \<Rightarrow> nat" where
  "bitlistLength buf =
     (case List.find (\<lambda>i. buf ! i \<noteq> 0) (rev [0..<length buf]) of
        None \<Rightarrow> 0 | Some i \<Rightarrow> i * 8 + (bits_Len (buf ! i) - 1))"

definition bitSet :: "string \<Rightarrow> 64 word \<Rightarrow> bits_error + bool" where
  "bitSet hexBits index =
     (let raw0 = TrimPrefix hexBits ''0x'';
          raw = (if odd (length raw0) then CHR ''0'' # raw0 else raw0)
      in case scan_bytes raw of
           None \<Rightarrow> Inl ErrHexByte
         | Some buf \<Rightarrow>
             if unat index \<ge> bitlistLength buf then Inl ErrIndexRange
             else Inr (bit (buf ! (unat index div 8)) (unat index mod 8)))"

section \<open>Committees of an attestation\<close>

definition maxCommitteesPerSlot :: nat where "maxCommitteesPerSlot = 64"
definition maxValidatorsPerCommittee :: nat where "maxValidatorsPerCommittee = 2048"

record apiAttestation =
  att_AggregationBits :: string
  att_CommitteeBits :: string
  att_Slot :: string
  att_Index :: string
  att_BeaconBlockRoot :: string
  att_TargetEpoch :: string
  att_TargetRoot :: string

record AttesterDuty =
  ad_Duty :: Duty
  ad_ValidatorCommitteeIndex :: "64 word"
  ad_CommitteeLength :: "64 word"
  ad_CommitteesAtSlot :: "64 word"

text \<open>A Go map that may be nil.\<close>

type_synonym committee_lengths = "(committee_index \<rightharpoonup> 64 word) option"

definition bitvectorIndices :: "string \<Rightarrow> nat \<Rightarrow> bits_error + nat list" where
  "bitvectorIndices hexBits bitLength =
     (if \<not> HasPrefix hexBits ''0x'' then Inl ErrVectorPrefix
      else case hex_DecodeString (TrimPrefix hexBits ''0x'') of
        None \<Rightarrow> Inl ErrVectorHex
      | Some raw \<Rightarrow>
          if length raw \<noteq> (bitLength + 7) div 8 then Inl ErrVectorBytes
          else let indices = filter (\<lambda>i. bit (raw ! (i div 8)) (i mod 8)) [0..<bitLength]
               in if indices = [] then Inl ErrNoCommittee else Inr indices)"

text \<open>The loop that adds up the committees in front of the target.\<close>

fun offset_loop :: "committee_lengths \<Rightarrow> 64 word \<Rightarrow> nat list \<Rightarrow> bits_error + 64 word" where
  "offset_loop lengths offset [] = Inr offset"
| "offset_loop lengths offset (index # rest) =
     (case Option.bind lengths (\<lambda>m. m (of_nat index)) of
        None \<Rightarrow> Inl ErrCommitteeLength
      | Some l \<Rightarrow>
          if l = 0 \<or> unat l > maxValidatorsPerCommittee then Inl ErrCommitteeLength
          else if offset > max_uint64 - l then Inl ErrOffsetOverflow
          else offset_loop lengths (offset + l) rest)"

text \<open>The result is \<open>(included, needCommittees)\<close>.\<close>

definition attestationIncludesValidator ::
  "apiAttestation \<Rightarrow> AttesterDuty \<Rightarrow> committee_lengths \<Rightarrow> bits_error + bool \<times> bool" where
  "attestationIncludesValidator att d lengths =
     (if att_CommitteeBits att = [] then
        (if att_Index att \<noteq> FormatUint (unat (duty_CommitteeIndex (ad_Duty d))) then Inr (False, False)
         else case bitSet (att_AggregationBits att) (ad_ValidatorCommitteeIndex d) of
                Inl e \<Rightarrow> Inl e | Inr b \<Rightarrow> Inr (b, False))
      else if att_Index att \<noteq> ''0'' then Inl ErrDataIndex
      else case bitvectorIndices (att_CommitteeBits att) maxCommitteesPerSlot of
        Inl e \<Rightarrow> Inl e
      | Inr indices \<Rightarrow>
          (case List.find (\<lambda>i. indices ! i = unat (duty_CommitteeIndex (ad_Duty d))) [0..<length indices] of
             None \<Rightarrow> Inr (False, False)
           | Some targetPosition \<Rightarrow>
               if targetPosition > 0 \<and> lengths = None then Inr (False, True)
               else (case offset_loop lengths 0 (take targetPosition indices) of
                 Inl e \<Rightarrow> Inl e
               | Inr offset \<Rightarrow>
                   if ad_CommitteeLength d > 0 \<and> ad_ValidatorCommitteeIndex d \<ge> ad_CommitteeLength d
                   then Inl ErrCommitteePosition
                   else case bitSet (att_AggregationBits att) (offset + ad_ValidatorCommitteeIndex d) of
                     Inl e \<Rightarrow> Inl e | Inr b \<Rightarrow> Inr (b, False))))"

definition zero_attestation :: apiAttestation where
  "zero_attestation = \<lparr>att_AggregationBits = [], att_CommitteeBits = [], att_Slot = [], att_Index = [],
     att_BeaconBlockRoot = [], att_TargetEpoch = [], att_TargetRoot = []\<rparr>"

fun attestationsIncludeValidator ::
  "apiAttestation list \<Rightarrow> slot \<Rightarrow> AttesterDuty \<Rightarrow> committee_lengths \<Rightarrow> bits_error + bool \<times> bool \<times> apiAttestation" where
  "attestationsIncludeValidator [] wantSlot d lengths = Inr (False, False, zero_attestation)"
| "attestationsIncludeValidator (att # atts) wantSlot d lengths =
     (if att_Slot att \<noteq> FormatUint (unat wantSlot) then attestationsIncludeValidator atts wantSlot d lengths
      else case attestationIncludesValidator att d lengths of
        Inl e \<Rightarrow> Inl e
      | Inr (included, needCommittees) \<Rightarrow>
          if included \<or> needCommittees then Inr (included, needCommittees, att)
          else attestationsIncludeValidator atts wantSlot d lengths)"

section \<open>The checks on a block's attestations\<close>

definition maxPreElectraAttestations :: nat where "maxPreElectraAttestations = 128"
definition maxElectraAttestations :: nat where "maxElectraAttestations = 8"
definition maxResponseBodyBytes :: nat where "maxResponseBodyBytes = 16 * 1024 * 1024"

definition validateBeaconRoot :: "string \<Rightarrow> bits_error option" where
  "validateBeaconRoot root = first_error
     [check (\<not> HasPrefix root ''0x'' \<or> length root \<noteq> 66) ErrBeaconRoot,
      check (hex_DecodeString (TrimPrefix root ''0x'') = None) ErrBeaconRoot]"

definition validateBoundedHex :: "string \<Rightarrow> nat \<Rightarrow> bits_error option" where
  "validateBoundedHex value maxLength = first_error
     [check (\<not> HasPrefix value ''0x'' \<or> length value < 4 \<or> length value > maxLength \<or> odd (length value)) ErrHexLength,
      check (hex_DecodeString (TrimPrefix value ''0x'') = None) ErrHexDecode]"

definition validateBoundedBitlist :: "string \<Rightarrow> nat \<Rightarrow> bits_error option" where
  "validateBoundedBitlist value maxBits =
     (let maxBytes = (maxBits + 1 + 7) div 8
      in if maxBytes > maxResponseBodyBytes then Some ErrUnsupportedLength
         else case validateBoundedHex value (2 + 2 * maxBytes) of
           Some e \<Rightarrow> Some e
         | None \<Rightarrow>
             (case hex_DecodeString (TrimPrefix value ''0x'') of
                None \<Rightarrow> Some ErrHexDecode
              | Some raw \<Rightarrow>
                  if bitlistLength raw = 0 then Some ErrZeroBits
                  else if bitlistLength raw > maxBits then Some ErrTooManyBits else None))"

definition forkRequiresZeroAttestationIndex :: "string \<Rightarrow> bool" where
  "forkRequiresZeroAttestationIndex version \<longleftrightarrow> ToLower version = ''electra'' \<or> ToLower version = ''fulu''"

definition validate_att_number :: "string \<Rightarrow> bits_error option" where
  "validate_att_number value = first_error
     [check (length value > 20) ErrDigits, check (ParseUint value = None) ErrNumber]"

definition validate_block_attestation :: "bool \<Rightarrow> nat \<Rightarrow> string \<Rightarrow> apiAttestation \<Rightarrow> bits_error option" where
  "validate_block_attestation electra maxAggregationBits version att = first_error
     [check (electra \<and> att_CommitteeBits att = []) ErrMixedForms,
      validate_att_number (att_Slot att), validate_att_number (att_Index att), validate_att_number (att_TargetEpoch att),
      validateBeaconRoot (att_BeaconBlockRoot att), validateBeaconRoot (att_TargetRoot att),
      validateBoundedBitlist (att_AggregationBits att) maxAggregationBits,
      check (electra \<and> forkRequiresZeroAttestationIndex version \<and> att_Index att \<noteq> ''0'') ErrForkIndex,
      check (electra \<and> length (att_CommitteeBits att) \<noteq> 18) ErrCommitteeChars,
      (if electra then validateBoundedHex (att_CommitteeBits att) 18 else None)]"

definition validateBlockAttestations :: "apiAttestation list \<Rightarrow> string \<Rightarrow> bits_error option" where
  "validateBlockAttestations atts version =
     (let electra = list_ex (\<lambda>att. att_CommitteeBits att \<noteq> []) atts;
          limit = (if electra then maxElectraAttestations else maxPreElectraAttestations);
          maxAggregationBits = (if electra then maxValidatorsPerCommittee * maxCommitteesPerSlot
                                else maxValidatorsPerCommittee)
      in if length atts > limit then Some ErrTooMany
         else first_error (map (validate_block_attestation electra maxAggregationBits version) atts))"

section \<open>The reference encoding\<close>

text \<open>
  SSZ packs bits into bytes, least significant first; a bitlist carries one more bit, set, behind its
  data. The Beacon API writes the bytes in hexadecimal.
\<close>

fun pack_bits :: "bool list \<Rightarrow> nat list" where
  "pack_bits [] = []"
| "pack_bits (b # bs) = horner_sum of_bool 2 (take 8 (b # bs)) # pack_bits (drop 8 (b # bs))"

definition ssz_bitlist :: "bool list \<Rightarrow> string" where
  "ssz_bitlist bs = ''0x'' @ hex_EncodeToString (pack_bits (bs @ [True]))"

definition ssz_bitvector :: "bool list \<Rightarrow> string" where
  "ssz_bitvector bs = ''0x'' @ hex_EncodeToString (pack_bits bs)"

lemma horner_bound: "horner_sum of_bool 2 bs < (2 :: nat) ^ length bs"
  by (induction bs) auto

lemma horner_snoc: "horner_sum of_bool 2 (bs @ [True]) = horner_sum of_bool 2 bs + (2 :: nat) ^ length bs"
  by (induction bs) auto

lemma length_pack_bits: "length (pack_bits bs) = (length bs + 7) div 8"
proof (induction bs rule: pack_bits.induct)
  case (2 b bs)
  then have "length (pack_bits (b # bs)) = Suc ((length bs - 7 + 7) div 8)" by simp
  then show ?case by (cases "length bs \<le> 7") (simp_all add: div_if [of "length bs + 8"] div_if [of "Suc (length bs) + 7"])
qed simp

lemma pack_bits_nth:
  "k < length (pack_bits bs) \<Longrightarrow> pack_bits bs ! k = horner_sum of_bool 2 (take 8 (drop (8 * k) bs))"
proof (induction bs arbitrary: k rule: pack_bits.induct)
  case (2 b bs)
  show ?case
  proof (cases k)
    case (Suc j)
    then have "pack_bits (b # bs) ! k = pack_bits (drop 8 (b # bs)) ! j" by simp
    also have "\<dots> = horner_sum of_bool 2 (take 8 (drop (8 * j) (drop 8 (b # bs))))" using 2 Suc by (intro "2.IH") simp
    finally show ?thesis using Suc by (simp only: drop_drop mult_Suc_right add.commute)
  qed simp
qed simp

lemma pack_bits_bytes: "x \<in> set (pack_bits bs) \<Longrightarrow> x < 256"
proof (induction bs rule: pack_bits.induct)
  case (2 b bs)
  have "horner_sum of_bool 2 (take 8 (b # bs)) < (2 :: nat) ^ length (take 8 (b # bs))" by (rule horner_bound)
  also have "\<dots> \<le> 2 ^ 8" by (intro power_increasing) simp_all
  finally show ?case using 2 by auto
qed simp

lemma pack_bits_bit:
  assumes "i < length bs"
  shows "bit (pack_bits bs ! (i div 8)) (i mod 8) = bs ! i"
proof -
  have "i div 8 < length (pack_bits bs)" using assms by (simp add: length_pack_bits)
  then have "bit (pack_bits bs ! (i div 8)) (i mod 8) =
      (i mod 8 < length (take 8 (drop (8 * (i div 8)) bs)) \<and> take 8 (drop (8 * (i div 8)) bs) ! (i mod 8))"
    by (simp add: pack_bits_nth bit_horner_sum_bit_iff)
  also have "\<dots> = bs ! i" using assms by (simp add: min_def less_diff_conv)
  finally show ?thesis .
qed

lemma bits_Len_unique:
  assumes "2 ^ m \<le> n" "n < 2 ^ Suc m"
  shows "bits_Len n = Suc m"
proof -
  have "0 < n" using assms(1) by (rule less_le_trans [rotated]) simp
  then have b: "2 ^ (bits_Len n - 1) \<le> n" "n < 2 ^ bits_Len n" "0 < bits_Len n" using bits_Len_bounds by auto
  have "(2 :: nat) ^ m < 2 ^ bits_Len n" "(2 :: nat) ^ (bits_Len n - 1) < 2 ^ Suc m" using assms b by linarith+
  then have "m < bits_Len n" "bits_Len n - 1 < Suc m" by (simp_all only: power_strict_increasing_iff less_numeral_extra one_less_numeral_iff semiring_norm)
  then show ?thesis by simp
qed

lemma bitlistLength_pack: "bitlistLength (pack_bits (bs @ [True])) = length bs"
proof -
  let ?p = "pack_bits (bs @ [True])"
  define k where "k = length bs div 8"
  have len: "length ?p = Suc k" by (simp add: length_pack_bits k_def)
  have "take 8 (drop (8 * k) (bs @ [True])) = drop (8 * k) bs @ [True]"
    using div_mult_mod_eq [of "length bs" 8] by (simp add: k_def)
  then have v: "?p ! k = horner_sum of_bool 2 (drop (8 * k) bs) + 2 ^ (length bs mod 8)"
    using pack_bits_nth [of k "bs @ [True]"] by (simp add: len horner_snoc k_def minus_mult_div_eq_mod)
  have "horner_sum of_bool 2 (drop (8 * k) bs) < (2 :: nat) ^ (length bs mod 8)"
    using horner_bound [of "drop (8 * k) bs"] by (simp add: k_def minus_mult_div_eq_mod)
  then have "bits_Len (?p ! k) = Suc (length bs mod 8)" by (intro bits_Len_unique) (simp_all add: v)
  moreover have "?p ! k \<noteq> 0" by (simp add: v)
  ultimately show ?thesis by (simp add: bitlistLength_def len k_def)
qed

lemma scan_bytes_hex: "\<forall>b \<in> set bs. b < 256 \<Longrightarrow> scan_bytes (hex_EncodeToString bs) = Some bs"
  by (induction bs) (auto simp: hex_EncodeToString_def hex_val_digit less_mult_imp_div_less)

lemma TrimPrefix_0x [simp]: "TrimPrefix (CHR ''0'' # CHR ''x'' # s) ''0x'' = s" "HasPrefix (CHR ''0'' # CHR ''x'' # s) ''0x''"
  by (simp_all add: TrimPrefix_def HasPrefix_def)

lemma bitSet_ssz:
  "bitSet (ssz_bitlist bs) i = (if unat i < length bs then Inr (bs ! unat i) else Inl ErrIndexRange)"
proof -
  have "scan_bytes (hex_EncodeToString (pack_bits (bs @ [True]))) = Some (pack_bits (bs @ [True]))"
    by (intro scan_bytes_hex ballI pack_bits_bytes)
  moreover have "unat i < length bs \<Longrightarrow> bit (pack_bits (bs @ [True]) ! (unat i div 8)) (unat i mod 8) = bs ! unat i"
    by (subst pack_bits_bit) (simp_all add: nth_append)
  ultimately show ?thesis by (simp add: bitSet_def ssz_bitlist_def length_hex bitlistLength_pack)
qed

lemma bitvectorIndices_ssz:
  assumes "length bs = n"
  shows "bitvectorIndices (ssz_bitvector bs) n =
    (if True \<in> set bs then Inr (filter (\<lambda>i. bs ! i) [0..<n]) else Inl ErrNoCommittee)"
proof -
  have "hex_DecodeString (hex_EncodeToString (pack_bits bs)) = Some (pack_bits bs)"
    by (intro hex_DecodeString_hex ballI pack_bits_bytes)
  moreover have "filter (\<lambda>i. bit (pack_bits bs ! (i div 8)) (i mod 8)) [0..<n] = filter (\<lambda>i. bs ! i) [0..<n]"
    using assms by (intro filter_cong) (auto simp: pack_bits_bit)
  moreover have "filter (\<lambda>i. bs ! i) [0..<n] = [] \<longleftrightarrow> True \<notin> set bs"
    using assms by (auto simp: filter_empty_conv in_set_conv_nth)
  ultimately show ?thesis using assms by (simp add: bitvectorIndices_def ssz_bitvector_def length_pack_bits)
qed

section \<open>Aggregates over committees\<close>

lemma unat_small: "n \<le> 2048 \<Longrightarrow> unat (of_nat n :: 64 word) = n"
  by (simp add: unat_of_nat)

lemma max_uint64_minus: "offset > max_uint64 - l \<longleftrightarrow> unat offset + unat l \<ge> 2 ^ 64" for offset l :: "64 word"
proof -
  have "unat (max_uint64 - l) = 2 ^ 64 - 1 - unat l"
    using unat64_less [of l] by (subst unat_sub) (simp_all add: max_uint64_def word_le_nat_alt)
  then show ?thesis using unat64_less [of l] by (auto simp: word_less_nat_alt)
qed

lemma offset_loop_sum:
  assumes "\<forall>c \<in> set pre. \<exists>l. m (of_nat c) = Some l \<and> 0 < unat l \<and> unat l \<le> 2048 \<and> unat l = len c"
    and "unat offset + (\<Sum>c\<leftarrow>pre. len c) < 2 ^ 64"
  shows "\<exists>w. offset_loop (Some m) offset pre = Inr w \<and> unat w = unat offset + (\<Sum>c\<leftarrow>pre. len c)"
  using assms
proof (induction pre arbitrary: offset)
  case (Cons c pre)
  obtain l where l: "m (of_nat c) = Some l" "0 < unat l" "unat l \<le> 2048" "unat l = len c" using Cons.prems(1) by auto
  have sum: "unat (offset + l) = unat offset + len c"
    using Cons.prems(2) l(4) by (subst unat_add_lem [THEN iffD1]) simp_all
  have "\<not> offset > max_uint64 - l" using Cons.prems(2) l(4) by (simp add: max_uint64_minus)
  moreover have "\<exists>w. offset_loop (Some m) (offset + l) pre = Inr w \<and> unat w = unat (offset + l) + (\<Sum>c\<leftarrow>pre. len c)"
    using Cons.prems sum by (intro Cons.IH) auto
  moreover have "l \<noteq> 0" using l(2) by auto
  ultimately show ?case using l sum by (auto simp: maxValidatorsPerCommittee_def)
qed simp

lemma aggregate_offset:
  assumes len: "\<forall>x \<in> set pre. 0 < length (rows x) \<and> length (rows x) \<le> 2048 \<and> lengths (of_nat x) = Some (of_nat (length (rows x)))"
    and "length pre \<le> 64"
  obtains w where "offset_loop (Some lengths) 0 pre = Inr w" "unat w = (\<Sum>x\<leftarrow>pre. length (rows x))"
    "(\<Sum>x\<leftarrow>pre. length (rows x)) \<le> 64 * 2048"
proof -
  have "(\<Sum>x\<leftarrow>pre. length (rows x)) \<le> (\<Sum>x\<leftarrow>pre. 2048)" using len by (intro sum_list_mono) auto
  then have small: "(\<Sum>x\<leftarrow>pre. length (rows x)) \<le> 64 * 2048" using assms(2) by (simp add: sum_list_triv)
  have "\<forall>x \<in> set pre. \<exists>l. lengths (of_nat x) = Some l \<and> 0 < unat l \<and> unat l \<le> 2048 \<and> unat l = length (rows x)"
    using len by (auto simp: unat_small)
  then show thesis using that offset_loop_sum [of pre lengths "\<lambda>x. length (rows x)" 0] small by auto
qed

lemma concat_rows_nth:
  assumes "i < length (rows c)"
  shows "concat (map rows (pre @ c # post)) ! ((\<Sum>c\<leftarrow>pre. length (rows c)) + i) = rows c ! i"
    and "(\<Sum>c\<leftarrow>pre. length (rows c)) + i < length (concat (map rows (pre @ c # post)))"
  using assms by (simp_all add: nth_append length_concat comp_def)

lemma find_position:
  assumes "distinct (pre @ c # post)"
  shows "List.find (\<lambda>i. (pre @ c # post) ! i = c) [0..<length (pre @ c # post)] = Some (length pre)"
proof -
  have "[0..<length (pre @ c # post)] = [0..<length pre] @ [length pre..<length pre + Suc (length post)]"
    using upt_add_eq_append [of 0 "length pre" "Suc (length post)"] by simp
  then have "[0..<length (pre @ c # post)] = [0..<length pre] @ length pre # [Suc (length pre)..<length (pre @ c # post)]"
    by (simp add: upt_conv_Cons del: upt_Suc)
  moreover have "\<forall>i \<in> set [0..<length pre]. (pre @ c # post) ! i \<noteq> c"
    using assms by (auto simp: nth_append)
  then have "filter (\<lambda>i. (pre @ c # post) ! i = c) [0..<length pre] = []" by (simp add: filter_empty_conv)
  ultimately show ?thesis by (simp add: find_Some_hd_filter)
qed

lemma no_position: "c \<notin> set xs \<Longrightarrow> List.find (\<lambda>i. xs ! i = c) [0..<length xs] = None"
  by (auto simp: find_None_iff)

section \<open>Properties\<close>

text \<open>
  Decoding a bitlist inverts its SSZ encoding: on the encoding of any list of bits, \<open>bitSet\<close>
  answers every index inside it with that bit and every other index with a range error, so the
  length sentinel is never read as data.
\<close>

lemma bitSet_inverts_ssz:
  "bitSet (ssz_bitlist bs) i = (if unat i < length bs then Inr (bs ! unat i) else Inl ErrIndexRange)"
  by (rule bitSet_ssz)

text \<open>
  Property C20: an aggregated attestation answers for the right validator. Let the committee bits name
  some committees of the slot, and let the aggregation bits be the participation of those
  committees, one row after the other in ascending order. Then, whatever the rows contain, the answer
  for a validator of a named committee is its own bit, at its position in its own row, and a
  committee that is not named is answered with false.
\<close>

theorem aggregate_decodes_validator:
  assumes "att_CommitteeBits att = ssz_bitvector named" "length named = 64" "att_Index att = ''0''"
    and "att_AggregationBits att = ssz_bitlist (concat (map rows (filter (\<lambda>c. named ! c) [0..<64])))"
    and "True \<in> set named" "unat (duty_CommitteeIndex (ad_Duty d)) < 64"
    and "\<forall>c < 64. named ! c \<longrightarrow> 0 < length (rows c) \<and> length (rows c) \<le> 2048 \<and>
           lengths (of_nat c) = Some (of_nat (length (rows c)))"
    and "unat (ad_ValidatorCommitteeIndex d) < length (rows (unat (duty_CommitteeIndex (ad_Duty d))))"
    and "ad_CommitteeLength d = of_nat (length (rows (unat (duty_CommitteeIndex (ad_Duty d)))))"
  shows "attestationIncludesValidator att d (Some lengths) =
    Inr (named ! unat (duty_CommitteeIndex (ad_Duty d)) \<and>
         rows (unat (duty_CommitteeIndex (ad_Duty d))) ! unat (ad_ValidatorCommitteeIndex d), False)"
proof -
  define c where "c = unat (duty_CommitteeIndex (ad_Duty d))"
  define v where "v = unat (ad_ValidatorCommitteeIndex d)"
  let ?ixs = "filter (\<lambda>c. named ! c) [0..<64]"
  have bits: "att_CommitteeBits att \<noteq> []" by (simp add: assms(1) ssz_bitvector_def)
  have ix: "bitvectorIndices (att_CommitteeBits att) maxCommitteesPerSlot = Inr ?ixs"
    using bitvectorIndices_ssz [OF assms(2)] assms(1,5) by (simp add: maxCommitteesPerSlot_def)
  show ?thesis
  proof (cases "named ! c")
    case False
    then have "c \<notin> set ?ixs" by simp
    then show ?thesis using bits ix assms(3) False no_position [of c ?ixs] by (simp add: attestationIncludesValidator_def c_def)
  next
    case True
    then have "c \<in> set ?ixs" using assms(6) by (simp add: c_def)
    then obtain pre post where split: "?ixs = pre @ c # post" by (meson split_list)
    have "distinct (pre @ c # post)" by (simp flip: split)
    note pos = find_position [OF this]
    have "set pre \<subseteq> set ?ixs" unfolding split by auto
    then have "\<forall>x \<in> set pre. 0 < length (rows x) \<and> length (rows x) \<le> 2048 \<and> lengths (of_nat x) = Some (of_nat (length (rows x)))"
      using assms(7) by auto
    moreover have "length pre \<le> 64" using arg_cong [OF split, of length] length_filter_le [of "\<lambda>c. named ! c" "[0..<64]"] by simp
    ultimately obtain w where w: "offset_loop (Some lengths) 0 pre = Inr w" "unat w = (\<Sum>x\<leftarrow>pre. length (rows x))"
      and small: "(\<Sum>x\<leftarrow>pre. length (rows x)) \<le> 64 * 2048"
      by (rule aggregate_offset)
    have rc: "length (rows c) \<le> 2048" "v < length (rows c)" using assms(6-8) True by (auto simp: c_def v_def)
    have "unat (w + ad_ValidatorCommitteeIndex d) = (\<Sum>x\<leftarrow>pre. length (rows x)) + v"
      using w(2) small rc by (subst unat_add_lem [THEN iffD1]) (simp_all add: v_def)
    then have "bitSet (att_AggregationBits att) (w + ad_ValidatorCommitteeIndex d) = Inr (rows c ! v)"
      using concat_rows_nth [of v rows c pre post] rc(2) by (simp add: assms(4) bitSet_ssz split)
    moreover have "\<not> (ad_CommitteeLength d > 0 \<and> ad_ValidatorCommitteeIndex d \<ge> ad_CommitteeLength d)"
      using rc assms(9) by (simp add: word_le_nat_alt unat_small c_def v_def)
    ultimately show ?thesis
      using bits ix assms(3) True w(1) pos unfolding split
      by (simp add: attestationIncludesValidator_def c_def [symmetric] v_def [symmetric])
  qed
qed

lemma hex_DecodeString_repeat: "hex_val c \<noteq> None \<Longrightarrow> hex_DecodeString (replicate (2 * n) c) \<noteq> None"
  by (induction n) auto

lemma validateBeaconRoot_repeat:
  assumes "hex_val c \<noteq> None"
  shows "validateBeaconRoot (''0x'' @ replicate 64 c) = None"
  using hex_DecodeString_repeat [OF assms, of 32] by (simp add: validateBeaconRoot_def)

definition ex_att :: apiAttestation where
  "ex_att = \<lparr>att_AggregationBits = ssz_bitlist [False, True, True], att_CommitteeBits = ssz_bitvector ([True, True] @ replicate 62 False),
     att_Slot = ''100'', att_Index = ''0'', att_BeaconBlockRoot = ''0x'' @ replicate 64 (CHR ''a''),
     att_TargetEpoch = ''3'', att_TargetRoot = ''0x'' @ replicate 64 (CHR ''b'')\<rparr>"

definition ex_attester :: AttesterDuty where
  "ex_attester = \<lparr>ad_Duty = \<lparr>duty_Kind = DutyAttester, duty_Slot = 100, duty_ValidatorIndex = 7, duty_CommitteeIndex = 1\<rparr>,
     ad_ValidatorCommitteeIndex = 1, ad_CommitteeLength = 2, ad_CommitteesAtSlot = 2\<rparr>"

theorem aggregate_decodes_validator_witness:
  "attestationIncludesValidator ex_att ex_attester (Some [0 \<mapsto> 1, 1 \<mapsto> 2]) = Inr (True, False)"
proof -
  define named where "named = [True, True] @ replicate 62 False"
  define rows :: "nat \<Rightarrow> bool list" where "rows c = (if c = 0 then [False] else [True, True])" for c
  have n: "named ! c \<longleftrightarrow> c < 2" if "c < 64" for c
    using that by (auto simp: named_def nth_append less_Suc_eq nth_Cons split: nat.splits)
  have "filter (\<lambda>c. named ! c) [0..<64] = filter (\<lambda>c. c < 2) [0..<64]" by (rule filter_cong) (auto simp: n)
  also have "\<dots> = [0, 1]" by (simp add: upt_conv_Cons)
  finally have ixs: "filter (\<lambda>c. named ! c) [0..<64] = [0, 1]" .
  have "attestationIncludesValidator ex_att ex_attester (Some [0 \<mapsto> 1, 1 \<mapsto> 2]) =
      Inr (named ! 1 \<and> rows 1 ! 1, False)"
    using aggregate_decodes_validator [of ex_att named rows ex_attester "[0 \<mapsto> 1, 1 \<mapsto> 2]"]
    by (auto simp: ex_att_def ex_attester_def named_def [symmetric] ixs rows_def n less_2_cases_iff) (simp add: named_def)
  then show ?thesis by (simp add: n rows_def)
qed

text \<open>
  Two checks on the same attestation contradict each other. The check of a fetched block
  deliberately accepts a non-zero data index under Gloas, where it carries payload availability; the
  decoder then refuses every attestation of the Electra form with such an index, so the inclusion
  of any validator in it cannot be decided, whatever the duty.
\<close>

lemma gloas_attestation_refused:
  "\<exists>att. validateBlockAttestations [att] ''gloas'' = None \<and>
     (\<forall>d lengths. attestationIncludesValidator att d lengths = Inl ErrDataIndex)"
proof -
  let ?att = "ex_att\<lparr>att_Index := ''1'', att_AggregationBits := ''0x07'', att_CommitteeBits := ''0x0300000000000000''\<rparr>"
  have len: "bitlistLength [7] = 2" using bits_Len_unique [of 2 7] by (simp add: bitlistLength_def)
  have roots: "validateBeaconRoot (att_BeaconBlockRoot ?att) = None" "validateBeaconRoot (att_TargetRoot ?att) = None"
    using validateBeaconRoot_repeat [of "CHR ''a''"] validateBeaconRoot_repeat [of "CHR ''b''"]
    by (simp_all add: ex_att_def hex_val_def)
  have nums: "validate_att_number (att_Slot ?att) = None" "validate_att_number (att_Index ?att) = None"
    "validate_att_number (att_TargetEpoch ?att) = None"
    by (simp_all add: ex_att_def validate_att_number_def ParseUint_def is_digit_def digits_val_def digit_val_def)
  have hex: "validateBoundedHex ''0x0300000000000000'' 18 = None"
    by (simp add: validateBoundedHex_def hex_val_def)
  have bits: "validateBoundedBitlist ''0x07'' (2048 * 64) = None"
  proof -
    have "validateBoundedHex ''0x07'' 32772 = None" by (simp add: validateBoundedHex_def hex_val_def)
    then show ?thesis using len by (simp add: validateBoundedBitlist_def hex_val_def maxResponseBodyBytes_def)
  qed
  have "validateBlockAttestations [?att] ''gloas'' = None"
    using roots nums hex bits
    by (simp add: validateBlockAttestations_def validate_block_attestation_def maxElectraAttestations_def
        maxValidatorsPerCommittee_def maxCommitteesPerSlot_def forkRequiresZeroAttestationIndex_def ToLower_def lower_char_def)
  moreover have "attestationIncludesValidator ?att d lengths = Inl ErrDataIndex" for d lengths
    by (simp add: attestationIncludesValidator_def)
  ultimately show ?thesis by blast
qed

end
