(* ===== verification/Beacon.thy ===== *)
theory Beacon
  imports Bits Observation
begin

text \<open>
  What the Beacon API client makes of its responses (\<open>internal/source/beaconapi\<close>): block headers and
  canonical roots (\<open>blocks.go\<close>, \<open>canonical_roots.go\<close>), the choice between the two block endpoints, the
  scan of the inclusion window in \<open>CheckInclusion\<close>, duties (\<open>duties.go\<close>) and payload votes (\<open>payload.go\<close>).
  The node is a parameter: what it answers to each request, \<open>Inr None\<close> being a 404.
\<close>

datatype beacon_error =
    ErrStatus nat | ErrTransport | ErrContextDone | ErrMalformed | ErrMissing | ErrTimeout
  | ErrBits bits_error | ErrObservation domain_error

section \<open>Headers\<close>

record header_response =
  hr_ExecutionOptimistic :: "bool option"
  hr_Root :: string
  hr_Canonical :: bool
  hr_Slot :: string
  hr_ProposerIndex :: string

record blockHeader =
  bh_Slot :: slot
  bh_ProposerIndex :: validator_index
  bh_Root :: string

text \<open>The answers of the node, by request path.\<close>

record node =
  nd_header :: "string \<Rightarrow> beacon_error + header_response option"
  nd_attestations :: "slot \<Rightarrow> beacon_error + (apiAttestation list \<times> string) option"
  nd_block :: "slot \<Rightarrow> beacon_error + (apiAttestation list \<times> string) option"
  nd_committees :: "slot \<Rightarrow> beacon_error + (committee_index \<rightharpoonup> 64 word)"

definition fetchHeader :: "node \<Rightarrow> string \<Rightarrow> beacon_error + blockHeader option" where
  "fetchHeader nd ident =
     (case nd_header nd ident of
        Inl e \<Rightarrow> Inl e
      | Inr None \<Rightarrow> Inr None
      | Inr (Some resp) \<Rightarrow>
          (case hr_ExecutionOptimistic resp of
             None \<Rightarrow> Inl ErrMalformed
           | Some optimistic \<Rightarrow>
               if optimistic \<or> \<not> hr_Canonical resp then Inr None
               else case ParseUint (hr_Slot resp) of
                 None \<Rightarrow> Inl ErrMalformed
               | Some s \<Rightarrow>
                   (case ParseUint (hr_ProposerIndex resp) of
                      None \<Rightarrow> Inl ErrMalformed
                    | Some proposer \<Rightarrow>
                        (case validateBeaconRoot (hr_Root resp) of
                           Some e \<Rightarrow> Inl (ErrBits e)
                         | None \<Rightarrow> Inr (Some \<lparr>bh_Slot = of_nat s, bh_ProposerIndex = of_nat proposer, bh_Root = hr_Root resp\<rparr>)))))"

definition fetchBlockHeader :: "node \<Rightarrow> slot \<Rightarrow> beacon_error + blockHeader option" where
  "fetchBlockHeader nd s =
     (case fetchHeader nd (FormatUint (unat s)) of
        Inl e \<Rightarrow> Inl e
      | Inr None \<Rightarrow> Inr None
      | Inr (Some header) \<Rightarrow> if bh_Slot header \<noteq> s then Inl ErrMalformed else Inr (Some header))"

section \<open>Canonical roots\<close>

definition maxCanonicalRootLookback :: nat where "maxCanonicalRootLookback = 64"

text \<open>The loop of \<open>fetchCanonicalRootAtSlot\<close>, over the lookbacks still to try.\<close>

fun root_lookback :: "node \<Rightarrow> slot \<Rightarrow> nat list \<Rightarrow> beacon_error + string" where
  "root_lookback nd s [] = Inl ErrMissing"
| "root_lookback nd s (lookback # rest) =
     (case fetchBlockHeader nd (s - of_nat lookback) of
        Inl e \<Rightarrow> Inl e
      | Inr None \<Rightarrow> root_lookback nd s rest
      | Inr (Some header) \<Rightarrow>
          (case validateBeaconRoot (bh_Root header) of Some e \<Rightarrow> Inl (ErrBits e) | None \<Rightarrow> Inr (bh_Root header)))"

definition fetchCanonicalRootAtSlot :: "node \<Rightarrow> slot \<Rightarrow> beacon_error + string" where
  "fetchCanonicalRootAtSlot nd s = root_lookback nd s [0..<Suc (min maxCanonicalRootLookback (unat s))]"

text \<open>Whether the attested head and target are the canonical ones.\<close>

definition attestationRewardEvidence :: "node \<Rightarrow> slot \<Rightarrow> apiAttestation \<Rightarrow> beacon_error + bool \<times> bool" where
  "attestationRewardEvidence nd dutySlot att =
     (case validateBeaconRoot (att_BeaconBlockRoot att) of
        Some e \<Rightarrow> Inl (ErrBits e)
      | None \<Rightarrow>
          (case validateBeaconRoot (att_TargetRoot att) of
             Some e \<Rightarrow> Inl (ErrBits e)
           | None \<Rightarrow>
               (case ParseUint (att_TargetEpoch att) of
                  None \<Rightarrow> Inl ErrMalformed
                | Some targetEpoch \<Rightarrow>
                    if of_nat targetEpoch \<noteq> Slot_Epoch dutySlot then Inl ErrMalformed
                    else case fetchCanonicalRootAtSlot nd dutySlot of
                      Inl e \<Rightarrow> Inl e
                    | Inr canonicalHead \<Rightarrow>
                        (case fetchCanonicalRootAtSlot nd (Epoch_FirstSlot (of_nat targetEpoch)) of
                           Inl e \<Rightarrow> Inl e
                         | Inr canonicalTarget \<Rightarrow>
                             Inr (att_BeaconBlockRoot att = canonicalHead, att_TargetRoot att = canonicalTarget)))))"

section \<open>Block bodies\<close>

datatype endpointSupport = endpointUnknown | endpointSupported | endpointUnsupported

fun unsupportedEndpointError :: "beacon_error \<Rightarrow> bool" where
  "unsupportedEndpointError (ErrStatus code) = (code = 405 \<or> code = 501)"
| "unsupportedEndpointError _ = False"

definition fetchLegacyBlockBody ::
  "node \<Rightarrow> endpointSupport \<Rightarrow> slot \<Rightarrow> endpointSupport \<times> (beacon_error + (apiAttestation list \<times> string) option)" where
  "fetchLegacyBlockBody nd support s =
     (case nd_block nd s of
        Inl e \<Rightarrow> (support, Inl e)
      | Inr None \<Rightarrow> (support, Inr None)
      | Inr (Some body) \<Rightarrow> (if support = endpointUnknown then endpointUnsupported else support, Inr (Some body)))"

definition fetchBlockBodyUncached ::
  "node \<Rightarrow> endpointSupport \<Rightarrow> slot \<Rightarrow> endpointSupport \<times> (beacon_error + (apiAttestation list \<times> string) option)" where
  "fetchBlockBodyUncached nd support s =
     (if support = endpointUnsupported then fetchLegacyBlockBody nd support s
      else case nd_attestations nd s of
        Inr (Some body) \<Rightarrow> (endpointSupported, Inr (Some body))
      | Inl e \<Rightarrow>
          if \<not> unsupportedEndpointError e then (support, Inl e)
          else fetchLegacyBlockBody nd endpointUnsupported s
      | Inr None \<Rightarrow>
          if support = endpointSupported then (support, Inr None) else fetchLegacyBlockBody nd support s)"

text \<open>\<open>fetchBlockBody\<close> on a cache miss: the block is fetched and its attestations are checked.\<close>

definition fetchBlockBody ::
  "node \<Rightarrow> endpointSupport \<Rightarrow> slot \<Rightarrow> endpointSupport \<times> (beacon_error + apiAttestation list option)" where
  "fetchBlockBody nd support s =
     (case fetchBlockBodyUncached nd support s of
        (support', Inl e) \<Rightarrow> (support', Inl e)
      | (support', Inr None) \<Rightarrow> (support', Inr None)
      | (support', Inr (Some (atts, version))) \<Rightarrow>
          (support', case validateBlockAttestations atts version of
             Some e \<Rightarrow> Inl (ErrBits e) | None \<Rightarrow> Inr (Some atts)))"

section \<open>The inclusion window\<close>

text \<open>What one block says of the duty; the committee lengths are fetched when they are first needed.\<close>

definition block_decides ::
  "node \<Rightarrow> slot \<Rightarrow> AttesterDuty \<Rightarrow> committee_lengths \<Rightarrow> apiAttestation list \<Rightarrow>
   beacon_error + bool \<times> apiAttestation \<times> committee_lengths" where
  "block_decides nd wantSlot d lengths atts =
     (case attestationsIncludeValidator atts wantSlot d lengths of
        Inl e \<Rightarrow> Inl (ErrBits e)
      | Inr (included, needCommittees, found) \<Rightarrow>
          if \<not> needCommittees then Inr (included, found, lengths)
          else case nd_committees nd wantSlot of
            Inl e \<Rightarrow> Inl e
          | Inr m \<Rightarrow>
              (case attestationsIncludeValidator atts wantSlot d (Some m) of
                 Inl e \<Rightarrow> Inl (ErrBits e)
               | Inr (included', _, found') \<Rightarrow> Inr (included', found', Some m)))"

definition FormatBool :: "bool \<Rightarrow> string" where
  "FormatBool b = (if b then ''true'' else ''false'')"

definition included_draft ::
  "slot \<Rightarrow> AttesterDuty \<Rightarrow> slot \<Rightarrow> apiAttestation \<Rightarrow> bool \<Rightarrow> bool \<Rightarrow> gotime \<Rightarrow> Observation" where
  "included_draft wantSlot d s att headCorrect targetCorrect now =
     \<lparr>obs_Slot = wantSlot, obs_Kind = ObsAttestationIncluded, obs_At = now, obs_ClockOffset = 0,
      obs_ClockMeasured = False, obs_ClockSampleAt = time_zero, obs_Source = SourceBeaconAPI,
      obs_Attrs =
        [(AttrValidatorIndex, FormatUint (unat (duty_ValidatorIndex (ad_Duty d)))),
         (AttrInclusionDelay, FormatUint (unat (s - wantSlot))),
         (AttrHeadCorrect, FormatBool headCorrect), (AttrTargetCorrect, FormatBool targetCorrect)] @
        (if att_BeaconBlockRoot att \<noteq> [] then [(AttrBlockRoot, att_BeaconBlockRoot att)] else [])\<rparr>"

definition report_inclusion ::
  "node \<Rightarrow> slot \<Rightarrow> AttesterDuty \<Rightarrow> slot \<Rightarrow> apiAttestation \<Rightarrow> gotime \<Rightarrow> beacon_error + Observation option" where
  "report_inclusion nd wantSlot d s att now =
     (case attestationRewardEvidence nd wantSlot att of
        Inl e \<Rightarrow> Inl e
      | Inr (headCorrect, targetCorrect) \<Rightarrow>
          (case NewObservation (included_draft wantSlot d s att headCorrect targetCorrect now) of
             Inl e \<Rightarrow> Inl (ErrObservation e)
           | Inr obs \<Rightarrow> Inr (Some obs)))"

text \<open>
  The scan of the slots of the window. The fuel is the number of slots still to look at; \<open>None\<close> would
  mean that it ran out.
\<close>

fun scan_window ::
  "node \<Rightarrow> slot \<Rightarrow> AttesterDuty \<Rightarrow> slot \<Rightarrow> gotime \<Rightarrow> nat \<Rightarrow> slot \<Rightarrow> committee_lengths \<Rightarrow> endpointSupport \<Rightarrow>
   (beacon_error + Observation option) option" where
  "scan_window nd wantSlot d untilSlot now 0 s lengths support = None"
| "scan_window nd wantSlot d untilSlot now (Suc n) s lengths support =
     (case fetchBlockBody nd support s of
        (support', Inl e) \<Rightarrow> Some (Inl e)
      | (support', Inr None) \<Rightarrow>
          if s = untilSlot then Some (Inr None)
          else scan_window nd wantSlot d untilSlot now n (s + 1) lengths support'
      | (support', Inr (Some atts)) \<Rightarrow>
          (case block_decides nd wantSlot d lengths atts of
             Inl e \<Rightarrow> Some (Inl e)
           | Inr (False, _, lengths') \<Rightarrow>
               if s = untilSlot then Some (Inr None)
               else scan_window nd wantSlot d untilSlot now n (s + 1) lengths' support'
           | Inr (True, att, lengths') \<Rightarrow>
               Some (report_inclusion nd wantSlot d s att now)))"

text \<open>
  The wait for the validated head, over the polls it makes: the head, the time after the poll and
  whether the context ended during the pause. It returns nothing while the polls go on.
\<close>

record head_poll =
  hp_head :: "beacon_error + blockHeader option"
  hp_now :: gotime
  hp_ctxDone :: bool

fun wait_head :: "slot \<Rightarrow> gotime \<Rightarrow> head_poll list \<Rightarrow> (beacon_error + unit) option" where
  "wait_head untilSlot deadline [] = None"
| "wait_head untilSlot deadline (poll # polls) =
     (case hp_head poll of
        Inl e \<Rightarrow> Some (Inl e)
      | Inr head \<Rightarrow>
          if (case head of None \<Rightarrow> False | Some h \<Rightarrow> bh_Slot h \<ge> untilSlot) then Some (Inr ())
          else if \<not> Before (hp_now poll) deadline then Some (Inl ErrTimeout)
          else if hp_ctxDone poll then Some (Inl ErrContextDone)
          else wait_head untilSlot deadline polls)"

definition CheckInclusion ::
  "node \<Rightarrow> slot \<Rightarrow> AttesterDuty \<Rightarrow> slot \<Rightarrow> gotime \<Rightarrow> head_poll list \<Rightarrow> gotime \<Rightarrow> endpointSupport \<Rightarrow>
   (beacon_error + Observation option) option" where
  "CheckInclusion nd wantSlot d untilSlot deadline polls now support =
     (if untilSlot \<le> wantSlot then Some (Inl ErrMalformed)
      else case wait_head untilSlot deadline polls of
        None \<Rightarrow> None
      | Some (Inl e) \<Rightarrow> Some (Inl e)
      | Some (Inr _) \<Rightarrow>
          scan_window nd wantSlot d untilSlot now (unat (untilSlot - wantSlot)) (wantSlot + 1) None support)"

section \<open>Block existence\<close>

record sync_response =
  sy_HeadSlot :: string
  sy_SyncDistance :: string
  sy_IsSyncing :: bool
  sy_IsOptimistic :: bool
  sy_ELOffline :: bool

definition nodeReadyForCanonicalQuery :: "beacon_error + sync_response option \<Rightarrow> slot \<Rightarrow> beacon_error + bool" where
  "nodeReadyForCanonicalQuery status s =
     (case status of
        Inl e \<Rightarrow> Inl e
      | Inr None \<Rightarrow> Inl ErrMissing
      | Inr (Some st) \<Rightarrow>
          (case ParseUint (sy_HeadSlot st) of
             None \<Rightarrow> Inl ErrMalformed
           | Some headSlot \<Rightarrow>
               (case ParseUint (sy_SyncDistance st) of
                  None \<Rightarrow> Inl ErrMalformed
                | Some distance \<Rightarrow>
                    Inr (\<not> sy_IsSyncing st \<and> \<not> sy_IsOptimistic st \<and> \<not> sy_ELOffline st \<and> distance = 0 \<and>
                         headSlot > unat s))))"

definition beacon_draft :: "slot \<Rightarrow> ObservationKind \<Rightarrow> gotime \<Rightarrow> attrs \<Rightarrow> Observation" where
  "beacon_draft s kind now as =
     \<lparr>obs_Slot = s, obs_Kind = kind, obs_At = now, obs_ClockOffset = 0, obs_ClockMeasured = False,
      obs_ClockSampleAt = time_zero, obs_Source = SourceBeaconAPI, obs_Attrs = as\<rparr>"

definition found_observation :: "Observation \<Rightarrow> beacon_error + Observation option" where
  "found_observation draft = (case NewObservation draft of Inl e \<Rightarrow> Inl (ErrObservation e) | Inr ob \<Rightarrow> Inr (Some ob))"

definition buildBlockSeen :: "slot \<Rightarrow> blockHeader \<Rightarrow> gotime \<Rightarrow> beacon_error + Observation option" where
  "buildBlockSeen s header now =
     found_observation (beacon_draft s ObsBlockSeen now
       [(AttrProposerIndex, FormatUint (unat (bh_ProposerIndex header))), (AttrBlockRoot, bh_Root header)])"

text \<open>
  The polls of \<open>blockStatusAtDeadline\<close>: the syncing status, the time after it, and whether the context
  ended during the pause. After them the header is asked for once more.
\<close>

record sync_poll =
  sp_status :: "beacon_error + sync_response option"
  sp_now :: gotime
  sp_ctxDone :: bool

fun recovery_loop :: "slot \<Rightarrow> gotime \<Rightarrow> sync_poll list \<Rightarrow> (beacon_error + unit) option" where
  "recovery_loop s giveUpAt [] = None"
| "recovery_loop s giveUpAt (poll # polls) =
     (case nodeReadyForCanonicalQuery (sp_status poll) s of
        Inl e \<Rightarrow> Some (Inl e)
      | Inr True \<Rightarrow> Some (Inr ())
      | Inr False \<Rightarrow>
          if \<not> Before (sp_now poll) giveUpAt then Some (Inl ErrTimeout)
          else if sp_ctxDone poll then Some (Inl ErrContextDone)
          else recovery_loop s giveUpAt polls)"

definition blockStatusAtDeadline ::
  "node \<Rightarrow> slot \<Rightarrow> gotime \<Rightarrow> sync_poll list \<Rightarrow> gotime \<Rightarrow> (beacon_error + Observation option) option" where
  "blockStatusAtDeadline nd s giveUpAt polls now =
     (case recovery_loop s giveUpAt polls of
        None \<Rightarrow> None
      | Some (Inl e) \<Rightarrow> Some (Inl e)
      | Some (Inr _) \<Rightarrow>
          Some (case fetchBlockHeader nd s of
                  Inl e \<Rightarrow> Inl e
                | Inr (Some header) \<Rightarrow> buildBlockSeen s header now
                | Inr None \<Rightarrow> found_observation (beacon_draft s ObsBlockSkipped now [])))"

text \<open>The polls of \<open>BlockSeen\<close>: the header, whether the context ended, and the time after the poll.\<close>

record block_poll =
  bp_header :: "beacon_error + blockHeader option"
  bp_now :: gotime
  bp_ctxErr :: bool
  bp_ctxDone :: bool

fun BlockSeen ::
  "slot \<Rightarrow> gotime \<Rightarrow> (beacon_error + Observation option) option \<Rightarrow> block_poll list \<Rightarrow> (beacon_error + Observation option) option" where
  "BlockSeen s deadline atDeadline [] = None"
| "BlockSeen s deadline atDeadline (poll # polls) =
     (case bp_header poll of
        Inr (Some header) \<Rightarrow> Some (buildBlockSeen s header (bp_now poll))
      | r \<Rightarrow>
          if isl r \<and> bp_ctxErr poll then Some (Inl (projl r))
          else if \<not> Before (bp_now poll) deadline then atDeadline
          else if bp_ctxDone poll then Some (Inl ErrContextDone)
          else BlockSeen s deadline atDeadline polls)"

text \<open>\<open>headUpdatedUncached\<close>, over the same kind of polls of the canonical head.\<close>

fun headUpdatedUncached :: "slot \<Rightarrow> gotime \<Rightarrow> block_poll list \<Rightarrow> (beacon_error + Observation option) option" where
  "headUpdatedUncached s deadline [] = None"
| "headUpdatedUncached s deadline (poll # polls) =
     (let again = (if \<not> Before (bp_now poll) deadline then Some (Inr None)
                   else if bp_ctxDone poll then Some (Inl ErrContextDone)
                   else headUpdatedUncached s deadline polls)
      in case bp_header poll of
           Inl e \<Rightarrow> if bp_ctxErr poll then Some (Inl e) else again
         | Inr None \<Rightarrow> again
         | Inr (Some header) \<Rightarrow>
             if bh_Slot header = s
             then Some (found_observation (beacon_draft s ObsHeadUpdated (bp_now poll) [(AttrBlockRoot, bh_Root header)]))
             else if bh_Slot header > s then Some (Inr None)
             else again)"

end
