(* ===== verification/Inclusion.thy ===== *)
theory Inclusion
  imports Beacon Engine
begin

text \<open>
  The properties of the inclusion check (\<open>CheckInclusion\<close>) and of the skipped-slot claim
  (\<open>blockStatusAtDeadline\<close>) of \<open>internal/source/beaconapi/blocks.go\<close>, together with what the analysis
  engine reads from the observations they build.
\<close>

section \<open>The choice of endpoint is invisible\<close>

text \<open>Both endpoints serve the same block, or the newer one is not implemented.\<close>

definition endpoints_agree :: "node \<Rightarrow> bool" where
  "endpoints_agree nd \<longleftrightarrow>
     (\<forall>s. nd_attestations nd s = nd_block nd s \<or> nd_attestations nd s \<in> {Inl (ErrStatus 405), Inl (ErrStatus 501)})"

definition block_body :: "node \<Rightarrow> slot \<Rightarrow> beacon_error + apiAttestation list option" where
  "block_body nd s =
     (case nd_block nd s of
        Inl e \<Rightarrow> Inl e
      | Inr None \<Rightarrow> Inr None
      | Inr (Some (atts, version)) \<Rightarrow>
          (case validateBlockAttestations atts version of Some e \<Rightarrow> Inl (ErrBits e) | None \<Rightarrow> Inr (Some atts)))"

lemma fetchBlockBody_agrees:
  assumes "endpoints_agree nd"
  shows "snd (fetchBlockBody nd support s) = block_body nd s"
proof -
  have legacy: "snd (fetchLegacyBlockBody nd sup s) = nd_block nd s" for sup
    by (auto simp: fetchLegacyBlockBody_def split: sum.splits option.splits)
  have "nd_attestations nd s = nd_block nd s \<or> nd_attestations nd s = Inl (ErrStatus 405) \<or> nd_attestations nd s = Inl (ErrStatus 501)"
    using assms by (auto simp: endpoints_agree_def)
  then have "snd (fetchBlockBodyUncached nd support s) = nd_block nd s"
    using legacy by (elim disjE) (auto simp: fetchBlockBodyUncached_def split: sum.splits option.splits)
  then show ?thesis
    by (cases "fetchBlockBodyUncached nd support s")
      (auto simp: fetchBlockBody_def block_body_def split: sum.splits option.splits prod.splits)
qed

section \<open>Committee lengths on demand\<close>

text \<open>Lengths matter only for a committee that is not the first one named, so asking for them late loses nothing.\<close>

lemma includes_lazy:
  "attestationIncludesValidator att d None = attestationIncludesValidator att d (Some m) \<or>
   attestationIncludesValidator att d None = Inr (False, True)"
proof (cases "att_CommitteeBits att = [] \<or> att_Index att \<noteq> ''0''")
  case False
  then show ?thesis
  proof (cases "bitvectorIndices (att_CommitteeBits att) maxCommitteesPerSlot")
    case (Inr indices)
    let ?pos = "List.find (\<lambda>i. indices ! i = unat (duty_CommitteeIndex (ad_Duty d))) [0..<length indices]"
    consider "?pos = None" | "?pos = Some 0" | p where "?pos = Some (Suc p)" by (metis not0_implies_Suc option.exhaust)
    then show ?thesis using False Inr by cases (simp_all add: attestationIncludesValidator_def)
  qed (simp add: attestationIncludesValidator_def)
qed (auto simp: attestationIncludesValidator_def)

lemma includes_known: "attestationIncludesValidator att d (Some m) = Inr (b, need) \<Longrightarrow> \<not> need"
  by (auto simp: attestationIncludesValidator_def split: if_splits sum.splits option.splits)

lemma atts_include_known: "attestationsIncludeValidator atts want d (Some m) = Inr (b, need, att) \<Longrightarrow> \<not> need"
  by (induction atts) (auto split: if_splits sum.splits dest: includes_known)

lemma atts_include_lazy:
  "attestationsIncludeValidator atts want d None = attestationsIncludeValidator atts want d (Some m) \<or>
   (\<exists>b att. attestationsIncludeValidator atts want d None = Inr (b, True, att))"
proof (induction atts)
  case (Cons att atts)
  then show ?case using includes_lazy [of att d m] by (auto split: sum.splits prod.splits)
qed simp

lemma block_decides_eq:
  assumes "nd_committees nd wantSlot = Inr m" "lengths = None \<or> lengths = Some m"
  shows "case block_decides nd wantSlot d lengths atts of
      Inl e \<Rightarrow> (\<exists>e'. attestationsIncludeValidator atts wantSlot d (Some m) = Inl e' \<and> e = ErrBits e')
    | Inr (b, att, lengths') \<Rightarrow> attestationsIncludeValidator atts wantSlot d (Some m) = Inr (b, False, att) \<and>
        (lengths' = None \<or> lengths' = Some m)"
proof -
  note known = atts_include_known [of atts wantSlot d m]
  show ?thesis
  proof (cases "attestationsIncludeValidator atts wantSlot d lengths = attestationsIncludeValidator atts wantSlot d (Some m)")
    case True
    then show ?thesis using known assms by (auto simp: block_decides_def split: sum.splits prod.splits)
  next
    case False
    then have "\<exists>b att. attestationsIncludeValidator atts wantSlot d lengths = Inr (b, True, att)"
      using assms(2) atts_include_lazy [of atts wantSlot d m] by auto
    then show ?thesis using known assms(1) by (auto simp: block_decides_def split: sum.splits prod.splits)
  qed
qed

section \<open>The scan\<close>

text \<open>The specification: the block of a slot carries the validator's attestation of the duty slot.\<close>

definition included_at :: "node \<Rightarrow> slot \<Rightarrow> AttesterDuty \<Rightarrow> (committee_index \<rightharpoonup> 64 word) \<Rightarrow> slot \<Rightarrow> bool" where
  "included_at nd wantSlot d m s \<longleftrightarrow>
     (\<exists>atts att. block_body nd s = Inr (Some atts) \<and> attestationsIncludeValidator atts wantSlot d (Some m) = Inr (True, False, att))"

text \<open>What a scan from slot \<open>s\<close> may answer.\<close>

definition scan_answer ::
  "node \<Rightarrow> slot \<Rightarrow> AttesterDuty \<Rightarrow> (committee_index \<rightharpoonup> 64 word) \<Rightarrow> slot \<Rightarrow> gotime \<Rightarrow> slot \<Rightarrow> Observation option \<Rightarrow> bool" where
  "scan_answer nd wantSlot d m untilSlot now s answer \<longleftrightarrow>
     (case answer of
        None \<Rightarrow> \<forall>x. s \<le> x \<and> x \<le> untilSlot \<longrightarrow> \<not> included_at nd wantSlot d m x
      | Some ob \<Rightarrow>
          \<exists>x atts att h t. s \<le> x \<and> x \<le> untilSlot \<and> (\<forall>y. s \<le> y \<and> y < x \<longrightarrow> \<not> included_at nd wantSlot d m y) \<and>
            block_body nd x = Inr (Some atts) \<and> attestationsIncludeValidator atts wantSlot d (Some m) = Inr (True, False, att) \<and>
            attestationRewardEvidence nd wantSlot att = Inr (h, t) \<and>
            NewObservation (included_draft wantSlot d x att h t now) = Inr ob)"

lemma slot_interval:
  fixes s x u :: slot
  assumes "s < u"
  shows "s \<le> x \<longleftrightarrow> x = s \<or> s + 1 \<le> x" "unat (s + 1) = Suc (unat s)"
proof -
  have "unat s < unat u" using assms by (simp add: word_less_nat_alt)
  then have "unat s + 1 < 2 ^ 64" using unat64_less [of u] by simp
  then show n: "unat (s + 1) = Suc (unat s)" by (subst unat_add_lem [THEN iffD1]) simp_all
  show "s \<le> x \<longleftrightarrow> x = s \<or> s + 1 \<le> x" unfolding word_le_nat_alt n using word_unat_eq_iff [of x s] by auto
qed

lemma scan_answer_step:
  assumes "s < untilSlot" "\<not> included_at nd wantSlot d m s" "scan_answer nd wantSlot d m untilSlot now (s + 1) answer"
  shows "scan_answer nd wantSlot d m untilSlot now s answer"
proof (cases answer)
  case None
  then show ?thesis using assms slot_interval(1) [OF assms(1)] by (auto simp: scan_answer_def)
next
  case (Some ob)
  then show ?thesis
    using assms(2,3) slot_interval(1) [OF assms(1)] unfolding scan_answer_def by simp blast
qed

lemma scan_answer_last:
  assumes "\<not> included_at nd wantSlot d m s"
  shows "scan_answer nd wantSlot d m s now s None"
  using assms by (auto simp: scan_answer_def dest: antisym)

lemma report_inclusion_cases:
  "(\<exists>e. report_inclusion nd wantSlot d s att now = Inl e) \<or> (\<exists>ob. report_inclusion nd wantSlot d s att now = Inr (Some ob))"
  by (auto simp: report_inclusion_def split: sum.splits prod.splits)

lemma scan_answer_found:
  assumes "block_body nd s = Inr (Some atts)" "attestationsIncludeValidator atts wantSlot d (Some m) = Inr (True, False, att)"
    and "report_inclusion nd wantSlot d s att now = Inr (Some ob)" "s \<le> untilSlot"
  shows "scan_answer nd wantSlot d m untilSlot now s (Some ob)"
  using assms unfolding scan_answer_def report_inclusion_def
  by (auto split: sum.splits prod.splits intro!: exI [of _ s])

text \<open>One iteration, with the block of the slot and the verdict on it already looked up.\<close>

lemma scan_window_step [consumes 4, case_names stop found next_slot]:
  assumes "endpoints_agree nd" "nd_committees nd wantSlot = Inr m" "lengths = None \<or> lengths = Some m" "s \<le> untilSlot"
  obtains (stop) e where "scan_window nd wantSlot d untilSlot now (Suc n) s lengths support = Some (Inl e)"
  | (found) ob where "scan_window nd wantSlot d untilSlot now (Suc n) s lengths support = Some (Inr (Some ob))"
      "scan_answer nd wantSlot d m untilSlot now s (Some ob)"
  | (next_slot) sup l where "\<not> included_at nd wantSlot d m s" "l = None \<or> l = Some m"
      "scan_window nd wantSlot d untilSlot now (Suc n) s lengths support =
         (if s = untilSlot then Some (Inr None) else scan_window nd wantSlot d untilSlot now n (s + 1) l sup)"
proof -
  obtain sup r where fetch: "fetchBlockBody nd support s = (sup, r)" by fastforce
  then have body: "block_body nd s = r" using fetchBlockBody_agrees [OF assms(1), of support s] by simp
  consider e where "r = Inl e" | "r = Inr None" | atts where "r = Inr (Some atts)" by (metis old.sum.exhaust option.exhaust)
  then show thesis
  proof cases
    case (3 atts)
    note decides = block_decides_eq [OF assms(2,3), where d = d and atts = atts]
    show thesis
    proof (cases "block_decides nd wantSlot d lengths atts")
      case (Inr dec)
      obtain b att l where dec: "dec = (b, att, l)" by (cases dec)
      then have inc: "attestationsIncludeValidator atts wantSlot d (Some m) = Inr (b, False, att)" "l = None \<or> l = Some m"
        using decides Inr by auto
      show thesis
      proof (cases b)
        case False
        then have "\<not> included_at nd wantSlot d m s" using body 3 inc by (auto simp: included_at_def)
        then show thesis using next_slot [OF _ inc(2)] fetch 3 Inr dec False by simp
      next
        case True
        then have eq: "scan_window nd wantSlot d untilSlot now (Suc n) s lengths support = Some (report_inclusion nd wantSlot d s att now)"
          using fetch 3 Inr dec by simp
        consider e where "report_inclusion nd wantSlot d s att now = Inl e" | ob where "report_inclusion nd wantSlot d s att now = Inr (Some ob)"
          using report_inclusion_cases by blast
        then show thesis
          using stop found eq scan_answer_found [OF body [unfolded 3] _ _ assms(4)] inc(1) True by cases simp_all
      qed
    qed (use stop fetch 3 in simp)
  qed (use stop next_slot [of None] next_slot [of lengths] assms(3) fetch body in \<open>auto simp: included_at_def\<close>)
qed

lemma scan_window_spec:
  assumes agree: "endpoints_agree nd" and com: "nd_committees nd wantSlot = Inr m"
  shows "s \<le> untilSlot \<Longrightarrow> n = Suc (unat untilSlot - unat s) \<Longrightarrow> lengths = None \<or> lengths = Some m \<Longrightarrow>
    \<exists>r. scan_window nd wantSlot d untilSlot now n s lengths support = Some r \<and>
      (\<forall>answer. r = Inr answer \<longrightarrow> scan_answer nd wantSlot d m untilSlot now s answer)"
proof (induction n arbitrary: s lengths support)
  case (Suc n)
  from agree com Suc.prems(3,1) show ?case
  proof (cases rule: scan_window_step [where d = d and now = now and n = n and support = support])
    case (next_slot sup l)
    show ?thesis
    proof (cases "s = untilSlot")
      case True
      then show ?thesis using next_slot scan_answer_last [OF next_slot(1), of now] by simp
    next
      case False
      then have lt: "s < untilSlot" using Suc.prems(1) by simp
      then have "s + 1 \<le> untilSlot" "n = Suc (unat untilSlot - unat (s + 1))"
        using slot_interval [OF lt] Suc.prems(1,2) False by (auto simp: word_less_nat_alt)
      from Suc.IH [OF this next_slot(2), of sup] show ?thesis
        using False next_slot(3) scan_answer_step [OF lt next_slot(1)] by auto
    qed
  qed auto
qed simp

section \<open>What the engine reads\<close>

lemma included_observation:
  assumes "NewObservation (included_draft wantSlot d x att h t now) = Inr ob" "wantSlot < x"
  shows "Observation_Validate ob = None" "obs_Kind ob = ObsAttestationIncluded" "obs_Slot ob = wantSlot"
    and "inclusion_flags ob =
      \<lparr>rf_TimelySource = (unat (x - wantSlot) \<le> 5), rf_TimelyTarget = t, rf_TimelyHead = (unat (x - wantSlot) = 1 \<and> t \<and> h)\<rparr>"
proof -
  have ob: "ob = (included_draft wantSlot d x att h t now)\<lparr>obs_Attrs := map lower_root (obs_Attrs (included_draft wantSlot d x att h t now))\<rparr>"
    using assms(1) by (auto simp: NewObservation_def split: option.splits)
  show "Observation_Validate ob = None" using assms(1) by (rule NewObservation_valid)
  show "obs_Kind ob = ObsAttestationIncluded" "obs_Slot ob = wantSlot" by (simp_all add: ob included_draft_def)
  have "unat (x - wantSlot) < 2 ^ 64" using unat64_less [of "x - wantSlot"] by simp
  then have "Observation_Attr ob AttrInclusionDelay = Some (FormatUint (unat (x - wantSlot)))"
    "ParseUint (FormatUint (unat (x - wantSlot))) = Some (unat (x - wantSlot))"
    "Observation_Attr ob AttrTargetCorrect = Some (FormatBool t)" "Observation_Attr ob AttrHeadCorrect = Some (FormatBool h)"
    by (simp_all add: ob Observation_Attr_def included_draft_def lower_root_def ParseUint_FormatUint)
  then show "inclusion_flags ob =
      \<lparr>rf_TimelySource = (unat (x - wantSlot) \<le> 5), rf_TimelyTarget = t, rf_TimelyHead = (unat (x - wantSlot) = 1 \<and> t \<and> h)\<rparr>"
    by (simp add: inclusion_flags_def timelySourceMaxInclusionDelay_def FormatBool_def)
qed

section \<open>Properties\<close>


definition ex_node :: node where
  "ex_node = \<lparr>nd_header = (\<lambda>_. Inr None), nd_attestations = (\<lambda>_. Inl (ErrStatus 405)), nd_block = (\<lambda>_. Inr None),
     nd_committees = (\<lambda>_. Inr [0 \<mapsto> 1])\<rparr>"


text \<open>
  Property C19: a slot is called skipped only on good authority. When \<open>blockStatusAtDeadline\<close> reports
  \<open>block_skipped\<close>, the node had declared itself synced, not optimistic, with its execution client online
  and its head past the slot, and then had no canonical, execution-valid block for the slot; a node
  that never gets there within the budget yields an error instead.
\<close>

theorem skip_needs_synced_node:
  assumes "blockStatusAtDeadline nd s giveUpAt polls now = Some (Inr (Some ob))"
  shows "(obs_Kind ob = ObsBlockSkipped \<or> obs_Kind ob = ObsBlockSeen) \<and> obs_Slot ob = s \<and> Observation_Validate ob = None \<and>
    (obs_Kind ob = ObsBlockSkipped \<longrightarrow> fetchBlockHeader nd s = Inr None) \<and>
    (\<exists>poll st headSlot. poll \<in> set polls \<and> sp_status poll = Inr (Some st) \<and> ParseUint (sy_HeadSlot st) = Some headSlot \<and>
       unat s < headSlot \<and> ParseUint (sy_SyncDistance st) = Some 0 \<and> \<not> sy_IsSyncing st \<and> \<not> sy_IsOptimistic st \<and> \<not> sy_ELOffline st)"
proof -
  have loop: "\<exists>poll \<in> set polls. nodeReadyForCanonicalQuery (sp_status poll) s = Inr True" if "recovery_loop s giveUpAt polls = Some (Inr ())"
    using that by (induction polls) (auto split: sum.splits bool.splits if_splits)
  have built: "Observation_Validate ob = None \<and> obs_Kind ob = obs_Kind draft \<and> obs_Slot ob = obs_Slot draft"
    if "found_observation draft = Inr (Some ob)" for draft
  proof -
    have new: "NewObservation draft = Inr ob" using that by (simp add: found_observation_def split: sum.splits)
    then have "ob = draft\<lparr>obs_Attrs := map lower_root (obs_Attrs draft)\<rparr>" by (auto simp: NewObservation_def split: option.splits)
    with NewObservation_valid [OF new] show ?thesis by simp
  qed
  have rec: "recovery_loop s giveUpAt polls = Some (Inr ())"
    using assms by (auto simp: blockStatusAtDeadline_def split: option.splits sum.splits)
  obtain poll where "poll \<in> set polls" and ready: "nodeReadyForCanonicalQuery (sp_status poll) s = Inr True" using loop [OF rec] by blast
  moreover from ready obtain st headSlot where "sp_status poll = Inr (Some st)" "ParseUint (sy_HeadSlot st) = Some headSlot"
      "unat s < headSlot" "ParseUint (sy_SyncDistance st) = Some 0" "\<not> sy_IsSyncing st" "\<not> sy_IsOptimistic st" "\<not> sy_ELOffline st"
    unfolding nodeReadyForCanonicalQuery_def by (auto split: sum.splits option.splits)
  moreover have "(obs_Kind ob = ObsBlockSkipped \<or> obs_Kind ob = ObsBlockSeen) \<and> obs_Slot ob = s \<and> Observation_Validate ob = None \<and>
      (obs_Kind ob = ObsBlockSkipped \<longrightarrow> fetchBlockHeader nd s = Inr None)"
    using assms rec
    by (auto simp: blockStatusAtDeadline_def buildBlockSeen_def beacon_draft_def dest!: built split: sum.splits option.splits)
  ultimately show ?thesis by blast
qed

theorem skip_needs_synced_node_witness:
  "\<exists>ob. blockStatusAtDeadline ex_node 100 time_zero
      [\<lparr>sp_status = Inr (Some \<lparr>sy_HeadSlot = ''101'', sy_SyncDistance = ''0'', sy_IsSyncing = False, sy_IsOptimistic = False, sy_ELOffline = False\<rparr>),
        sp_now = time_zero, sp_ctxDone = False\<rparr>] \<lparr>t_ns = 5, t_loc = UTC\<rparr> = Some (Inr (Some ob)) \<and> obs_Slot ob = 100"
proof -
  let ?polls = "[\<lparr>sp_status = Inr (Some \<lparr>sy_HeadSlot = ''101'', sy_SyncDistance = ''0'', sy_IsSyncing = False, sy_IsOptimistic = False, sy_ELOffline = False\<rparr>),
        sp_now = time_zero, sp_ctxDone = False\<rparr>]"
  have parse: "ParseUint ''101'' = Some 101" "ParseUint ''0'' = Some 0"
    by (simp_all add: ParseUint_def is_digit_def digits_val_def digit_val_def)
  have rec: "recovery_loop 100 time_zero ?polls = Some (Inr ())" by (simp add: nodeReadyForCanonicalQuery_def parse)
  have "Observation_Validate (beacon_draft 100 ObsBlockSkipped \<lparr>t_ns = 5, t_loc = UTC\<rparr> []) = None"
    by (simp add: beacon_draft_def Observation_Validate_def validate_clock_def IsZero_def time_zero_def)
  then have "\<exists>ob. blockStatusAtDeadline ex_node 100 time_zero ?polls \<lparr>t_ns = 5, t_loc = UTC\<rparr> = Some (Inr (Some ob))"
    unfolding blockStatusAtDeadline_def rec
    by (simp add: fetchBlockHeader_def fetchHeader_def ex_node_def found_observation_def NewObservation_def)
  then show ?thesis using skip_needs_synced_node by blast
qed

end
