(* ===== verification/Duties.thy ===== *)
theory Duties
  imports Inclusion
begin

text \<open>
  Duties and committees as the Beacon API client accepts them (\<open>internal/source/beaconapi/duties.go\<close>,
  \<open>fetchCommitteeLengths\<close> of \<open>attestation_bits.go\<close>) and the payload-timeliness votes of \<open>payload.go\<close>.
\<close>

section \<open>Attester duties\<close>

definition maxAttesterDutyValidators :: nat where "maxAttesterDutyValidators = 64"

record attester_entry =
  ae_ValidatorIndex :: string
  ae_Slot :: string
  ae_CommitteeIndex :: string
  ae_CommitteeLength :: string
  ae_CommitteesAtSlot :: string
  ae_ValidatorCommitteeIndex :: string

text \<open>The loop over the response, with the validators seen so far.\<close>

fun attester_loop ::
  "epoch \<Rightarrow> validator_index list \<Rightarrow> validator_index list \<Rightarrow> attester_entry list \<Rightarrow> beacon_error + AttesterDuty list" where
  "attester_loop epoch requested seen [] = Inr []"
| "attester_loop epoch requested seen (entry # rest) =
     (case (ParseUint (ae_Slot entry), ParseUint (ae_ValidatorIndex entry), ParseUint (ae_CommitteeIndex entry),
            ParseUint (ae_CommitteeLength entry), ParseUint (ae_CommitteesAtSlot entry),
            ParseUint (ae_ValidatorCommitteeIndex entry)) of
        (Some s, Some vi, Some ci, Some cl, Some cs, Some vci) \<Rightarrow>
          if of_nat vi \<notin> set requested then Inl ErrMalformed
          else if of_nat vi \<in> set seen then Inl ErrMalformed
          else if Slot_Epoch (of_nat s) \<noteq> epoch then Inl ErrMalformed
          else if cl = 0 \<or> cs = 0 \<or> ci \<ge> cs \<or> vci \<ge> cl then Inl ErrMalformed
          else (case attester_loop epoch requested (of_nat vi # seen) rest of
                  Inl e \<Rightarrow> Inl e
                | Inr ds \<Rightarrow>
                    Inr (\<lparr>ad_Duty = \<lparr>duty_Kind = DutyAttester, duty_Slot = of_nat s, duty_ValidatorIndex = of_nat vi,
                                     duty_CommitteeIndex = of_nat ci\<rparr>,
                          ad_ValidatorCommitteeIndex = of_nat vci, ad_CommitteeLength = of_nat cl,
                          ad_CommitteesAtSlot = of_nat cs\<rparr> # ds))
      | _ \<Rightarrow> Inl ErrMalformed)"

definition FetchAttesterDuties ::
  "epoch \<Rightarrow> validator_index list \<Rightarrow> beacon_error + attester_entry list option \<Rightarrow> beacon_error + AttesterDuty list" where
  "FetchAttesterDuties epoch validators response =
     (if validators = [] then Inl ErrMalformed
      else if length validators > maxAttesterDutyValidators then Inl ErrMalformed
      else if \<not> distinct validators then Inl ErrMalformed
      else case response of
        Inl e \<Rightarrow> Inl e
      | Inr None \<Rightarrow> Inl ErrMissing
      | Inr (Some resp) \<Rightarrow>
          if length resp > length validators then Inl ErrMalformed
          else attester_loop epoch validators [] resp)"

section \<open>Proposer duties\<close>

record proposer_entry =
  pe_ValidatorIndex :: string
  pe_Slot :: string

fun proposer_loop :: "epoch \<Rightarrow> slot list \<Rightarrow> proposer_entry list \<Rightarrow> beacon_error + Duty list" where
  "proposer_loop epoch seen [] = Inr []"
| "proposer_loop epoch seen (entry # rest) =
     (case (ParseUint (pe_Slot entry), ParseUint (pe_ValidatorIndex entry)) of
        (Some s, Some vi) \<Rightarrow>
          if Slot_Epoch (of_nat s) \<noteq> epoch then Inl ErrMalformed
          else if of_nat s \<in> set seen then Inl ErrMalformed
          else (case proposer_loop epoch (of_nat s # seen) rest of
                  Inl e \<Rightarrow> Inl e
                | Inr ds \<Rightarrow>
                    Inr (\<lparr>duty_Kind = DutyProposer, duty_Slot = of_nat s, duty_ValidatorIndex = of_nat vi,
                          duty_CommitteeIndex = 0\<rparr> # ds))
      | _ \<Rightarrow> Inl ErrMalformed)"

definition FetchProposerDuties :: "epoch \<Rightarrow> beacon_error + proposer_entry list option \<Rightarrow> beacon_error + Duty list" where
  "FetchProposerDuties epoch response =
     (case response of
        Inl e \<Rightarrow> Inl e
      | Inr None \<Rightarrow> Inl ErrMissing
      | Inr (Some resp) \<Rightarrow>
          if length resp \<noteq> unat SlotsPerEpoch then Inl ErrMalformed else proposer_loop epoch [] resp)"

section \<open>Committee lengths\<close>

record committee_entry =
  ce_Index :: string
  ce_Slot :: string
  ce_Validators :: "string list"

fun committee_loop ::
  "slot \<Rightarrow> (committee_index \<rightharpoonup> 64 word) \<Rightarrow> committee_entry list \<Rightarrow> beacon_error + (committee_index \<rightharpoonup> 64 word)" where
  "committee_loop s lengths [] = Inr lengths"
| "committee_loop s lengths (c # rest) =
     (case ParseUint (ce_Index c) of
        None \<Rightarrow> Inl ErrMalformed
      | Some index \<Rightarrow>
          if ce_Slot c \<noteq> FormatUint (unat s) \<or> index \<ge> maxCommitteesPerSlot then Inl ErrMalformed
          else if ce_Validators c = [] \<or> length (ce_Validators c) > maxValidatorsPerCommittee then Inl ErrMalformed
          else if lengths (of_nat index) \<noteq> None then Inl ErrMalformed
          else committee_loop s (lengths(of_nat index \<mapsto> of_nat (length (ce_Validators c)))) rest)"

definition fetchCommitteeLengths ::
  "slot \<Rightarrow> 64 word \<Rightarrow> beacon_error + committee_entry list option \<Rightarrow> beacon_error + (committee_index \<rightharpoonup> 64 word)" where
  "fetchCommitteeLengths s expectedCount response =
     (case response of
        Inl e \<Rightarrow> Inl e
      | Inr None \<Rightarrow> Inl ErrMissing
      | Inr (Some committees) \<Rightarrow>
          if committees = [] \<or> length committees > maxCommitteesPerSlot then Inl ErrMalformed
          else if expectedCount > 0 \<and> length committees \<noteq> unat expectedCount then Inl ErrMalformed
          else committee_loop s Map.empty committees)"

section \<open>Payload votes\<close>

definition maxPayloadAttestations :: nat where "maxPayloadAttestations = 64"

record payloadAttestation =
  pa_Slot :: string
  pa_PayloadPresent :: bool

definition fetchPayloadAttestations ::
  "beacon_error + payloadAttestation list option \<Rightarrow> beacon_error + payloadAttestation list option" where
  "fetchPayloadAttestations response =
     (case response of
        Inl e \<Rightarrow> if unsupportedEndpointError e then Inr None else Inl e
      | Inr None \<Rightarrow> Inr None
      | Inr (Some votes) \<Rightarrow> if length votes > maxPayloadAttestations then Inl ErrMalformed else Inr (Some votes))"

definition votes_for :: "slot \<Rightarrow> payloadAttestation list \<Rightarrow> payloadAttestation list" where
  "votes_for s votes =
     filter (\<lambda>v. case ParseUint (pa_Slot v) of None \<Rightarrow> False | Some n \<Rightarrow> of_nat n = s) votes"

definition PayloadAttested ::
  "(slot \<Rightarrow> beacon_error + payloadAttestation list option) \<Rightarrow> slot \<Rightarrow> gotime \<Rightarrow> beacon_error + Observation option" where
  "PayloadAttested next_block s now =
     (case fetchPayloadAttestations (next_block (s + 1)) of
        Inl e \<Rightarrow> Inl e
      | Inr None \<Rightarrow> Inr None
      | Inr (Some votes) \<Rightarrow>
          (let counted = length (votes_for s votes);
               present = length (filter pa_PayloadPresent (votes_for s votes))
           in if counted = 0 then Inr None
              else found_observation (beacon_draft s ObsPayloadAttested now
                [(AttrPayloadPresent, FormatBool (present * 2 > counted)), (AttrPTCVotes, FormatUint counted)])))"

section \<open>Facts\<close>

lemma of_nat_less_uint64: "a < b \<Longrightarrow> b < 2 ^ 64 \<Longrightarrow> (of_nat a :: 64 word) < of_nat b"
  by (simp add: word_less_nat_alt unat_of_nat)

text \<open>What an accepted attester duty satisfies.\<close>

definition attester_duty_ok :: "epoch \<Rightarrow> AttesterDuty \<Rightarrow> bool" where
  "attester_duty_ok epoch d \<longleftrightarrow> Duty_Validate (ad_Duty d) = None \<and> Slot_Epoch (duty_Slot (ad_Duty d)) = epoch \<and>
     duty_CommitteeIndex (ad_Duty d) < ad_CommitteesAtSlot d \<and> ad_ValidatorCommitteeIndex d < ad_CommitteeLength d"

lemma attester_loop_ConsE:
  assumes "attester_loop epoch requested seen (entry # rest) = Inr ds"
  obtains d ds' where "ds = d # ds'" "attester_loop epoch requested (duty_ValidatorIndex (ad_Duty d) # seen) rest = Inr ds'"
    "attester_duty_ok epoch d" "duty_ValidatorIndex (ad_Duty d) \<in> set requested - set seen"
proof -
  obtain s vi ci cl cs vci where p: "ParseUint (ae_Slot entry) = Some s" "ParseUint (ae_ValidatorIndex entry) = Some vi"
      "ParseUint (ae_CommitteeIndex entry) = Some ci" "ParseUint (ae_CommitteeLength entry) = Some cl"
      "ParseUint (ae_CommitteesAtSlot entry) = Some cs" "ParseUint (ae_ValidatorCommitteeIndex entry) = Some vci"
    using assms by (auto split: option.splits)
  let ?d = "\<lparr>ad_Duty = \<lparr>duty_Kind = DutyAttester, duty_Slot = of_nat s, duty_ValidatorIndex = of_nat vi, duty_CommitteeIndex = of_nat ci\<rparr>,
      ad_ValidatorCommitteeIndex = of_nat vci, ad_CommitteeLength = of_nat cl, ad_CommitteesAtSlot = of_nat cs\<rparr>"
  have c: "of_nat vi \<in> set requested" "of_nat vi \<notin> set seen" "Slot_Epoch (of_nat s) = epoch" "ci < cs" "vci < cl"
    and rest: "\<exists>ds'. attester_loop epoch requested (of_nat vi # seen) rest = Inr ds' \<and> ds = ?d # ds'"
    using assms by (auto simp: p not_le split: if_splits sum.splits)
  have "attester_duty_ok epoch ?d"
    using c(3) of_nat_less_uint64 [OF c(4) ParseUint_bound [OF p(5)]] of_nat_less_uint64 [OF c(5) ParseUint_bound [OF p(4)]]
    by (simp add: attester_duty_ok_def Duty_Validate_def)
  with that [of ?d] rest c(1,2) show thesis by auto
qed

lemma attester_loop_ok:
  assumes "attester_loop epoch requested seen resp = Inr ds"
  shows "length ds = length resp \<and> distinct (map (\<lambda>d. duty_ValidatorIndex (ad_Duty d)) ds) \<and>
    (\<forall>d \<in> set ds. duty_ValidatorIndex (ad_Duty d) \<in> set requested - set seen \<and> attester_duty_ok epoch d)"
  using assms
proof (induction resp arbitrary: seen ds)
  case (Cons entry rest)
  from Cons.prems show ?case
  proof (rule attester_loop_ConsE)
    fix d ds'
    assume "ds = d # ds'" "attester_loop epoch requested (duty_ValidatorIndex (ad_Duty d) # seen) rest = Inr ds'"
      "attester_duty_ok epoch d" "duty_ValidatorIndex (ad_Duty d) \<in> set requested - set seen"
    with Cons.IH [of "duty_ValidatorIndex (ad_Duty d) # seen" ds'] show ?thesis by auto
  qed
qed simp

lemma proposer_loop_ok:
  assumes "proposer_loop epoch seen resp = Inr ds"
  shows "length ds = length resp \<and> distinct (map duty_Slot ds) \<and>
    (\<forall>d \<in> set ds. duty_Slot d \<notin> set seen \<and> Slot_Epoch (duty_Slot d) = epoch \<and> duty_Kind d = DutyProposer)"
  using assms
proof (induction resp arbitrary: seen ds)
  case (Cons entry rest)
  obtain s vi where p: "ParseUint (pe_Slot entry) = Some s" "ParseUint (pe_ValidatorIndex entry) = Some vi"
    using Cons.prems by (auto split: option.splits)
  let ?d = "\<lparr>duty_Kind = DutyProposer, duty_Slot = of_nat s, duty_ValidatorIndex = of_nat vi, duty_CommitteeIndex = 0\<rparr>"
  have c: "Slot_Epoch (of_nat s) = epoch" "of_nat s \<notin> set seen"
    and rest: "\<exists>ds'. proposer_loop epoch (of_nat s # seen) rest = Inr ds' \<and> ds = ?d # ds'"
    using Cons.prems by (auto simp: p split: if_splits sum.splits)
  then obtain ds' where e: "proposer_loop epoch (of_nat s # seen) rest = Inr ds'" "ds = ?d # ds'" by blast
  note ih = Cons.IH [OF e(1)]
  have "of_nat s \<notin> duty_Slot ` set ds'" using ih by fastforce
  moreover have "\<forall>d \<in> set ds'. duty_Slot d \<notin> set seen \<and> Slot_Epoch (duty_Slot d) = epoch \<and> duty_Kind d = DutyProposer"
    using ih by simp
  ultimately show ?case using ih c unfolding e(2) by simp
qed simp

text \<open>Thirty-two different slots of one epoch are all of its slots.\<close>

lemma epoch_slots_complete:
  assumes "distinct slots" "length slots = 32" "\<forall>s \<in> set slots. Slot_Epoch s = epoch" "Slot_Epoch x = epoch"
  shows "x \<in> set slots"
proof -
  let ?E = "{s. Slot_Epoch s = epoch}"
  have "inj_on unat ?E" by (simp add: inj_on_def word_unat_eq_iff)
  moreover have "unat ` ?E \<subseteq> {32 * unat epoch..<32 * unat epoch + 32}"
    by (auto simp: unat_Slot_Epoch)
  ultimately have E: "card ?E \<le> 32"
    using card_image [of unat ?E] card_mono [of "{32 * unat epoch..<32 * unat epoch + 32}" "unat ` ?E"] by simp
  have "set slots \<subseteq> ?E" "card (set slots) = 32" using assms by (auto simp: distinct_card)
  then have "set slots = ?E" using E by (intro card_seteq) auto
  then show ?thesis using assms(4) by simp
qed

lemma committee_loop_ok:
  assumes "committee_loop s lengths cs = Inr m"
    and "\<forall>c l. lengths c = Some l \<longrightarrow> unat c < 64 \<and> 0 < unat l \<and> unat l \<le> 2048"
  shows "\<forall>c l. m c = Some l \<longrightarrow> unat c < 64 \<and> 0 < unat l \<and> unat l \<le> 2048"
  using assms
proof (induction s lengths cs rule: committee_loop.induct)
  case (2 s lengths c rest)
  obtain index where i: "index < 64" "ce_Validators c \<noteq> []" "length (ce_Validators c) \<le> 2048"
      "committee_loop s (lengths(of_nat index \<mapsto> of_nat (length (ce_Validators c)))) rest = Inr m"
      "ParseUint (ce_Index c) = Some index" "\<not> (ce_Slot c \<noteq> FormatUint (unat s) \<or> index \<ge> maxCommitteesPerSlot)"
      "\<not> (ce_Validators c = [] \<or> length (ce_Validators c) > maxValidatorsPerCommittee)" "lengths (of_nat index) = None"
    using "2.prems"(1)
    by (auto simp: maxCommitteesPerSlot_def maxValidatorsPerCommittee_def not_le not_less split: option.splits if_splits)
  have "unat (of_nat index :: 64 word) = index" "unat (of_nat (length (ce_Validators c)) :: 64 word) = length (ce_Validators c)"
    using i(1,3) by (simp_all add: unat_small)
  then have "\<forall>c' l. (lengths(of_nat index \<mapsto> of_nat (length (ce_Validators c)))) c' = Some l \<longrightarrow>
      unat c' < 64 \<and> 0 < unat l \<and> unat l \<le> 2048"
    using i(1-3) "2.prems"(2) by auto
  with "2.IH" [OF i(5,6,7) _ i(4)] i(8) show ?case by blast
qed simp

lemma fetchCommitteeLengths_ok:
  assumes "fetchCommitteeLengths s expectedCount response = Inr m" "m c = Some l"
  shows "unat c < 64 \<and> 0 < unat l \<and> unat l \<le> 2048"
  using assms committee_loop_ok [of s Map.empty _ m] by (auto simp: fetchCommitteeLengths_def split: sum.splits option.splits if_splits)

lemma FetchAttesterDuties_loop:
  assumes "FetchAttesterDuties epoch validators response = Inr ds"
  shows "\<exists>resp. response = Inr (Some resp) \<and> attester_loop epoch validators [] resp = Inr ds"
  using assms by (auto simp: FetchAttesterDuties_def split: sum.splits option.splits if_splits)

lemma FetchProposerDuties_loop:
  assumes "FetchProposerDuties epoch response = Inr ds"
  shows "\<exists>resp. length resp = 32 \<and> proposer_loop epoch [] resp = Inr ds"
  using assms by (auto simp: FetchProposerDuties_def SlotsPerEpoch_def split: sum.splits option.splits if_splits)

text \<open>
  Property C33: every attester duty the client accepts is a valid duty of the requested epoch for a requested validator,
  its committee index lies inside the committees of the slot and its position inside the committee, and no validator
  is given two duties. A response with an unrequested, repeated, misplaced or out-of-range duty is refused as a whole.
\<close>

theorem FetchAttesterDuties_accepts:
  assumes "FetchAttesterDuties epoch validators response = Inr ds"
  shows "distinct (map (\<lambda>d. duty_ValidatorIndex (ad_Duty d)) ds) \<and>
    list_all (\<lambda>d. duty_ValidatorIndex (ad_Duty d) \<in> set validators \<and> attester_duty_ok epoch d) ds"
  using FetchAttesterDuties_loop [OF assms] by (auto simp: list_all_iff dest!: attester_loop_ok)

definition sample_attester_entry :: attester_entry where
  "sample_attester_entry = \<lparr>ae_ValidatorIndex = FormatUint 7, ae_Slot = FormatUint 33, ae_CommitteeIndex = FormatUint 1,
     ae_CommitteeLength = FormatUint 4, ae_CommitteesAtSlot = FormatUint 2, ae_ValidatorCommitteeIndex = FormatUint 3\<rparr>"

definition sample_attester_duty :: AttesterDuty where
  "sample_attester_duty = \<lparr>ad_Duty = \<lparr>duty_Kind = DutyAttester, duty_Slot = 33, duty_ValidatorIndex = 7, duty_CommitteeIndex = 1\<rparr>,
     ad_ValidatorCommitteeIndex = 3, ad_CommitteeLength = 4, ad_CommitteesAtSlot = 2\<rparr>"

lemma FetchAttesterDuties_sample:
  "FetchAttesterDuties 1 [7] (Inr (Some [sample_attester_entry])) = Inr [sample_attester_duty]"
  by (simp add: FetchAttesterDuties_def maxAttesterDutyValidators_def sample_attester_entry_def sample_attester_duty_def
      ParseUint_FormatUint Slot_Epoch_def SlotsPerEpoch_def)

theorem FetchAttesterDuties_accepts_witness:
  "attester_duty_ok 1 sample_attester_duty"
  using FetchAttesterDuties_accepts [OF FetchAttesterDuties_sample] by simp

text \<open>
  An accepted proposer response names each slot of the epoch exactly once: no slot is missing, none is
  repeated, and none lies outside the epoch.
\<close>

lemma FetchProposerDuties_complete:
  assumes "FetchProposerDuties epoch response = Inr ds"
  shows "\<forall>s. (Slot_Epoch s = epoch) = (\<exists>!d. d \<in> set ds \<and> duty_Slot d = s)"
proof
  fix s
  obtain resp where r: "length resp = 32" "proposer_loop epoch [] resp = Inr ds"
    using FetchProposerDuties_loop [OF assms] by blast
  note ok = proposer_loop_ok [OF r(2)]
  have inj: "inj_on duty_Slot (set ds)" using ok by (simp add: distinct_map)
  have "Slot_Epoch s = epoch \<longleftrightarrow> s \<in> set (map duty_Slot ds)"
    using epoch_slots_complete [of "map duty_Slot ds" epoch s] ok r(1) by auto
  then show "(Slot_Epoch s = epoch) = (\<exists>!d. d \<in> set ds \<and> duty_Slot d = s)"
    using inj by (auto simp: inj_on_def)
qed

definition sample_proposer_entry :: "nat \<Rightarrow> proposer_entry" where
  "sample_proposer_entry n = \<lparr>pe_ValidatorIndex = FormatUint 5, pe_Slot = FormatUint n\<rparr>"

definition sample_proposer_duty :: "nat \<Rightarrow> Duty" where
  "sample_proposer_duty n = \<lparr>duty_Kind = DutyProposer, duty_Slot = of_nat n, duty_ValidatorIndex = 5, duty_CommitteeIndex = 0\<rparr>"

lemma proposer_loop_sample:
  assumes "distinct ns" "\<forall>n \<in> set ns. n < 2 ^ 64 \<and> n div 32 = unat epoch \<and> of_nat n \<notin> set seen"
  shows "proposer_loop epoch seen (map sample_proposer_entry ns) = Inr (map sample_proposer_duty ns)"
  using assms
proof (induction ns arbitrary: seen)
  case (Cons n ns)
  have "Slot_Epoch (of_nat n) = epoch" using Cons.prems(2) by (simp add: word_unat_eq_iff unat_Slot_Epoch unat_of_nat)
  moreover have "\<forall>m \<in> set ns. (of_nat m :: slot) \<noteq> of_nat n"
    using Cons.prems by (auto simp: word_unat_eq_iff unat_of_nat)
  ultimately show ?case using Cons.prems Cons.IH [of "of_nat n # seen"]
    by (simp add: sample_proposer_entry_def sample_proposer_duty_def ParseUint_FormatUint)
qed simp

lemma FetchProposerDuties_sample:
  "FetchProposerDuties 1 (Inr (Some (map sample_proposer_entry [32..<64]))) = Inr (map sample_proposer_duty [32..<64])"
proof -
  have "n div 32 = 1" if "n \<in> set [32..<64]" for n :: nat using that by (intro div_nat_eqI) auto
  then show ?thesis using proposer_loop_sample [of "[32..<64]" 1 "[]"] by (simp add: FetchProposerDuties_def SlotsPerEpoch_def)
qed

text \<open>The verdict of the payload committee is the strict majority of the votes for the slot itself.\<close>

lemma PayloadAttested_votes:
  assumes "PayloadAttested next_block s now = Inr (Some ob)"
  obtains votes where "next_block (s + 1) = Inr (Some votes)" "votes_for s votes \<noteq> []" "length votes \<le> 64"
    "found_observation (beacon_draft s ObsPayloadAttested now
       [(AttrPayloadPresent, FormatBool (length (filter pa_PayloadPresent (votes_for s votes)) * 2 > length (votes_for s votes))),
        (AttrPTCVotes, FormatUint (length (votes_for s votes)))]) = Inr (Some ob)"
  using assms
  by (auto simp: PayloadAttested_def fetchPayloadAttestations_def maxPayloadAttestations_def Let_def not_less
      split: sum.splits option.splits if_splits)

end
