(* ===== verification/Pool.thy ===== *)
theory Pool
  imports Duties
begin

text \<open>
  The publication proxy (\<open>internal/source/beaconapi/attestations.go\<close>): the attestation pool is polled until the bit of the
  duty's validator appears. A poll that fails is like one that finds nothing, unless the context ended.
\<close>

definition poolIncludesAttestation ::
  "(slot \<Rightarrow> beacon_error + (committee_index \<rightharpoonup> 64 word)) \<Rightarrow> AttesterDuty \<Rightarrow> beacon_error + apiAttestation list option \<Rightarrow>
   beacon_error + bool \<times> apiAttestation" where
  "poolIncludesAttestation committees d response =
     (let s = duty_Slot (ad_Duty d)
      in case response of
           Inl e \<Rightarrow> Inl e
         | Inr None \<Rightarrow> Inr (False, zero_attestation)
         | Inr (Some atts) \<Rightarrow>
             (case attestationsIncludeValidator atts s d None of
                Inl e \<Rightarrow> Inl (ErrBits e)
              | Inr (included, needCommittees, att) \<Rightarrow>
                  if included \<or> \<not> needCommittees then Inr (included, att)
                  else case committees s of
                    Inl e \<Rightarrow> Inl e
                  | Inr m \<Rightarrow>
                      (case attestationsIncludeValidator atts s d (Some m) of
                         Inl e \<Rightarrow> Inl (ErrBits e)
                       | Inr (included', _, att') \<Rightarrow> Inr (included', att'))))"

record pool_poll =
  pp_response :: "beacon_error + apiAttestation list option"
  pp_committees :: "slot \<Rightarrow> beacon_error + (committee_index \<rightharpoonup> 64 word)"
  pp_now :: gotime
  pp_ctxErr :: bool
  pp_ctxDone :: bool

definition published_draft :: "AttesterDuty \<Rightarrow> apiAttestation \<Rightarrow> gotime \<Rightarrow> Observation" where
  "published_draft d att now = beacon_draft (duty_Slot (ad_Duty d)) ObsAttestationPublished now
     ([(AttrValidatorIndex, FormatUint (unat (duty_ValidatorIndex (ad_Duty d))))] @
      (if att_BeaconBlockRoot att \<noteq> [] then [(AttrBlockRoot, att_BeaconBlockRoot att)] else []))"

fun AttestationPublished :: "AttesterDuty \<Rightarrow> gotime \<Rightarrow> pool_poll list \<Rightarrow> (beacon_error + Observation option) option" where
  "AttestationPublished d deadline [] = None"
| "AttestationPublished d deadline (poll # polls) =
     (let again = (if \<not> Before (pp_now poll) deadline then Some (Inr None)
                   else if pp_ctxDone poll then Some (Inl ErrContextDone)
                   else AttestationPublished d deadline polls)
      in case poolIncludesAttestation (pp_committees poll) d (pp_response poll) of
           Inl e \<Rightarrow> if pp_ctxErr poll then Some (Inl e) else again
         | Inr (True, att) \<Rightarrow> Some (found_observation (published_draft d att (pp_now poll)))
         | Inr (False, _) \<Rightarrow> again)"

text \<open>A poll at or after the deadline is the last one.\<close>

lemma AttestationPublished_ends:
  assumes "poll \<in> set polls" "\<not> Before (pp_now poll) deadline"
  shows "AttestationPublished d deadline polls \<noteq> None"
  using assms by (induction polls) (auto simp: Let_def split: sum.splits prod.splits bool.splits)

text \<open>
  A publication is reported only from a pool that shows the validator's bit, with the time of the first poll that showed
  it: every earlier poll failed or found nothing, before the deadline.
\<close>

lemma AttestationPublished_first:
  assumes "AttestationPublished d deadline polls = Some (Inr (Some ob))"
  shows "\<exists>before poll after att. polls = before @ poll # after \<and>
    poolIncludesAttestation (pp_committees poll) d (pp_response poll) = Inr (True, att) \<and>
    found_observation (published_draft d att (pp_now poll)) = Inr (Some ob) \<and>
    (\<forall>p \<in> set before. Before (pp_now p) deadline \<and> (\<forall>att. poolIncludesAttestation (pp_committees p) d (pp_response p) \<noteq> Inr (True, att)))"
  using assms
proof (induction polls)
  case (Cons poll polls)
  show ?case
  proof (cases "\<exists>att. poolIncludesAttestation (pp_committees poll) d (pp_response poll) = Inr (True, att)")
    case True
    then show ?thesis using Cons.prems by (auto intro!: exI [of _ "[]"])
  next
    case False
    then have "Before (pp_now poll) deadline" "AttestationPublished d deadline polls = Some (Inr (Some ob))"
      using Cons.prems by (auto simp: Let_def split: sum.splits prod.splits bool.splits if_splits)
    moreover from this(2) obtain before p after att where "polls = before @ p # after"
      "poolIncludesAttestation (pp_committees p) d (pp_response p) = Inr (True, att)"
      "found_observation (published_draft d att (pp_now p)) = Inr (Some ob)"
      "\<forall>p \<in> set before. Before (pp_now p) deadline \<and> (\<forall>att. poolIncludesAttestation (pp_committees p) d (pp_response p) \<noteq> Inr (True, att))"
      using Cons.IH by blast
    ultimately show ?thesis using False by (intro exI [of _ "poll # before"] exI [of _ p] exI [of _ after] exI [of _ att]) simp
  qed
qed simp

end
