(* ===== verification/StreamHealth.thy ===== *)
theory StreamHealth
  imports Observation
begin

text \<open>
  The event-stream log (\<open>internal/app/streamhealth.go\<close>) and the fan-out of heads to the collectors
  (\<open>internal/app/headfanout.go\<close>). A logger is the list of lines it has written.
\<close>

section \<open>Stream health\<close>

definition streamReminderInterval :: duration where
  "streamReminderInterval = 15 * Minute"

record streamHealth =
  sh_last :: string
  sh_since :: gotime
  sh_reported :: gotime
  sh_count :: int

datatype log_line =
    StreamError string
  | StreamStillFailing string int duration
  | StreamRecovered int duration
  | DropSample string slot

definition newStreamHealth :: streamHealth where
  "newStreamHealth = \<lparr>sh_last = [], sh_since = time_zero, sh_reported = time_zero, sh_count = 0\<rparr>"

text \<open>\<open>Duration.Round(time.Second)\<close>: to the nearest second, halves away from zero, the type's limits at overflow.\<close>

definition round_second :: "duration \<Rightarrow> duration" where
  "round_second d =
     (if d < 0 then max (- (2 ^ 63)) (- ((- d + 500000000) div Second * Second))
      else min (2 ^ 63 - 1) ((d + 500000000) div Second * Second))"

definition stream_failed :: "gotime \<Rightarrow> string option \<Rightarrow> streamHealth \<Rightarrow> streamHealth \<times> log_line list" where
  "stream_failed now err h =
     (case err of
        None \<Rightarrow> (h, [])
      | Some message \<Rightarrow>
          if message \<noteq> sh_last h
          then (\<lparr>sh_last = message, sh_since = now, sh_reported = now, sh_count = 1\<rparr>, [StreamError message])
          else let h' = h\<lparr>sh_count := wrap64 (sh_count h + 1)\<rparr>
               in if Sub now (sh_reported h') < streamReminderInterval then (h', [])
                  else (h'\<lparr>sh_reported := now\<rparr>, [StreamStillFailing message (sh_count h') (round_second (Sub now (sh_since h')))]))"

definition stream_recovered :: "gotime \<Rightarrow> streamHealth \<Rightarrow> streamHealth \<times> log_line list" where
  "stream_recovered now h =
     (if sh_count h = 0 then (h, [])
      else (newStreamHealth, [StreamRecovered (sh_count h) (round_second (Sub now (sh_since h)))]))"

section \<open>Head fan-out\<close>

text \<open>A collector's channel: what is queued and how much fits; \<open>None\<close> is the nil channel of a collector not wired.\<close>

record job_channel =
  ch_queue :: "Observation list"
  ch_capacity :: nat

record headFanout =
  hf_timing :: "job_channel option"
  hf_baseline :: "job_channel option"

definition offer :: "string \<Rightarrow> Observation \<Rightarrow> job_channel option \<Rightarrow> job_channel option \<times> log_line list" where
  "offer what head jobs =
     (case jobs of
        None \<Rightarrow> (None, [])
      | Some ch \<Rightarrow>
          if length (ch_queue ch) < ch_capacity ch then (Some (ch\<lparr>ch_queue := ch_queue ch @ [head]\<rparr>), [])
          else (Some ch, [DropSample what (obs_Slot head)]))"

definition headFanout_send :: "Observation \<Rightarrow> headFanout option \<Rightarrow> headFanout option \<times> log_line list" where
  "headFanout_send head fanout =
     (case fanout of
        None \<Rightarrow> (None, [])
      | Some f \<Rightarrow>
          if obs_Kind head \<noteq> ObsHeadUpdated then (Some f, [])
          else let (t, l1) = offer ''block timing'' head (hf_timing f);
                   (b, l2) = offer ''network baseline'' head (hf_baseline f)
               in (Some \<lparr>hf_timing = t, hf_baseline = b\<rparr>, l1 @ l2))"

section \<open>Facts\<close>

fun run_failures :: "streamHealth \<Rightarrow> (gotime \<times> string) list \<Rightarrow> streamHealth \<times> (gotime \<times> log_line) list" where
  "run_failures h [] = (h, [])"
| "run_failures h ((now, message) # rest) =
     (let (h1, ls) = stream_failed now (Some message) h; (h2, ls') = run_failures h1 rest
      in (h2, map (Pair now) ls @ ls'))"

text \<open>Consecutive lines about one repeating failure are at least a reminder interval apart.\<close>

lemma run_failures_same:
  assumes "sh_last h = message" "\<forall>(t, m) \<in> set fs. m = message"
  shows "adjacent (\<lambda>t t'. streamReminderInterval \<le> Sub t' t) (sh_reported h # map fst (snd (run_failures h fs)))"
  using assms
proof (induction fs arbitrary: h)
  case (Cons f fs)
  obtain now m where f: "f = (now, m)" by fastforce
  have m: "m = message" using Cons.prems(2) f by simp
  obtain h1 ls where s: "stream_failed now (Some message) h = (h1, ls)" by fastforce
  have l: "sh_last h1 = message" and
    "ls = [] \<and> sh_reported h1 = sh_reported h \<or> (\<exists>x. ls = [x]) \<and> sh_reported h1 = now \<and> streamReminderInterval \<le> Sub now (sh_reported h)"
    using s Cons.prems(1) by (auto simp: stream_failed_def Let_def not_less split: if_splits)
  with Cons.IH [of h1] Cons.prems(2) show ?case by (auto simp: f m s Let_def split: prod.split)
qed simp

lemma adjacent_gap_count:
  assumes "adjacent (\<lambda>t t'. g \<le> Sub t' t) (t0 # ts)" "0 < g"
  shows "int (length ts) * g \<le> t_ns (last (t0 # ts)) - t_ns t0"
  using assms
proof (induction ts arbitrary: t0)
  case (Cons t ts)
  have "g \<le> t_ns t - t_ns t0" using Cons.prems by (auto simp: Sub_def clamp64_def int64_defs)
  moreover have "int (length ts) * g \<le> t_ns (last (t # ts)) - t_ns t" using Cons by simp
  ultimately show ?case by (simp add: algebra_simps)
qed simp

lemma run_failures_times: "fst ` set (snd (run_failures h fs)) \<subseteq> fst ` set fs"
proof (induction fs arbitrary: h)
  case (Cons f fs)
  obtain now m where f: "f = (now, m)" by fastforce
  obtain h1 ls where s: "stream_failed now (Some m) h = (h1, ls)" by fastforce
  have "snd (run_failures h (f # fs)) = map (Pair now) ls @ snd (run_failures h1 fs)" by (simp add: f s case_prod_beta)
  then show ?case using Cons.IH [of h1] by (auto simp: f image_iff subset_iff) 
qed simp

text \<open>
  However often one failure repeats within a period \<open>D\<close>, the log gets at most one line for its start and one
  per whole reminder interval of that period; the first is written at once.
\<close>

lemma stream_log_bounded:
  assumes "list_all (\<lambda>(t, m). m = message \<and> t_ns t \<le> t_ns t0 + D) ((t0, message) # fs)" "message \<noteq> sh_last h"
  shows "hd (snd (run_failures h ((t0, message) # fs))) = (t0, StreamError message) \<and>
    int (length (snd (run_failures h ((t0, message) # fs)))) \<le> 1 + D div streamReminderInterval"
proof -
  let ?h = "\<lparr>sh_last = message, sh_since = t0, sh_reported = t0, sh_count = 1\<rparr>"
  let ?ls = "snd (run_failures ?h fs)"
  have run: "snd (run_failures h ((t0, message) # fs)) = (t0, StreamError message) # ?ls"
    using assms(2) by (simp add: stream_failed_def Let_def split: prod.split)
  have "adjacent (\<lambda>t t'. streamReminderInterval \<le> Sub t' t) (t0 # map fst ?ls)"
    using run_failures_same [of ?h message fs] assms(1) by (auto simp: list_all_iff)
  then have gap: "int (length ?ls) * streamReminderInterval \<le> t_ns (last (t0 # map fst ?ls)) - t_ns t0"
    using adjacent_gap_count [of streamReminderInterval t0 "map fst ?ls"] by (simp add: streamReminderInterval_def)
  have D: "0 \<le> D" "\<forall>t \<in> fst ` set fs. t_ns t \<le> t_ns t0 + D" using assms(1) by (auto simp: list_all_iff)
  have "t_ns (last (t0 # map fst ?ls)) \<le> t_ns t0 + D"
  proof (cases "?ls = []")
    case False
    then have "last (map fst ?ls) \<in> fst ` set ?ls" by (metis Nil_is_map_conv last_in_set list.set_map)
    then have "last (map fst ?ls) \<in> fst ` set fs" using run_failures_times [of ?h fs] by blast
    then have "t_ns (last (map fst ?ls)) \<le> t_ns t0 + D" using D(2) by blast
    then show ?thesis using False by simp
  qed (use D(1) in simp)
  with gap have "int (length ?ls) * streamReminderInterval \<le> D" by linarith
  then have "int (length ?ls) \<le> D div streamReminderInterval"
    using zdiv_mono1 [of "int (length ?ls) * streamReminderInterval" D streamReminderInterval] by (simp add: streamReminderInterval_def)
  then show ?thesis unfolding run by simp
qed

text \<open>A head never blocks the sender, never overfills a channel, and reaches every wired collector that has room.\<close>

lemma headFanout_send_room:
  assumes "headFanout_send head (Some f) = (Some f', ls)" "obs_Kind head = ObsHeadUpdated"
  shows "hf_timing f = Some ch \<Longrightarrow> \<exists>ch'. hf_timing f' = Some ch' \<and> ch_capacity ch' = ch_capacity ch \<and>
      ch_queue ch' = (if length (ch_queue ch) < ch_capacity ch then ch_queue ch @ [head] else ch_queue ch)"
    and "hf_baseline f = Some ch \<Longrightarrow> \<exists>ch'. hf_baseline f' = Some ch' \<and> ch_capacity ch' = ch_capacity ch \<and>
      ch_queue ch' = (if length (ch_queue ch) < ch_capacity ch then ch_queue ch @ [head] else ch_queue ch)"
  using assms by (force simp: headFanout_send_def offer_def split: option.splits prod.splits if_splits)+

end
