(* ===== verification/Metrics.thy ===== *)
theory Metrics
  imports RuleSupport
begin

text \<open>
  Local measurements: the Prometheus lines of the consensus client (\<open>internal/source/promscrape\<close>, \<open>internal/source/peers.go\<close>),
  the host's \<open>/proc\<close> files (\<open>internal/source/hostmetrics\<close>) and the per-slot Engine windows and block arrivals that
  \<open>internal/app/blocktiming.go\<close> derives from them. The text of a response or of a file is given; reading it is not modelled.
\<close>

section \<open>Text\<close>

text \<open>Length of the white-space rune at the head of a byte sequence, zero when there is none.\<close>

definition space_length :: "nat list \<Rightarrow> nat" where
  "space_length bs =
     (case bs of
        a # rest \<Rightarrow>
          if ascii_space a then 1
          else (case rest of
                  b # rest' \<Rightarrow>
                    if a = 194 \<and> b \<in> {133, 160} then 2
                    else (case rest' of
                            c # _ \<Rightarrow>
                              if (a, b, c) = (225, 154, 128) \<or> a = 226 \<and> b = 128 \<and> (128 \<le> c \<and> c \<le> 138 \<or> c \<in> {168, 169, 175}) \<or>
                                 (a, b, c) = (226, 129, 159) \<or> (a, b, c) = (227, 128, 128) then 3 else 0
                          | [] \<Rightarrow> 0)
                | [] \<Rightarrow> 0)
      | [] \<Rightarrow> 0)"

lemma space_length_Nil [simp]: "space_length [] = 0"
  by (simp add: space_length_def)

lemma drop_space_less: "0 < space_length (map of_char s) \<Longrightarrow> length s - space_length (map of_char s) < length s" for s :: string
  by (cases s) auto

function trim_left :: "string \<Rightarrow> string" where
  "trim_left s = (let n = space_length (map of_char s) in if n = 0 then s else trim_left (drop n s))"
  by pat_completeness auto
termination by (relation "measure length") (auto intro: drop_space_less)

text \<open>A white-space rune at the end: its last one, two or three bytes are one.\<close>

definition space_suffix :: "string \<Rightarrow> nat" where
  "space_suffix s =
     (if s \<noteq> [] \<and> space_length (map of_char (drop (length s - 1) s)) = 1 then 1
      else if length s \<ge> 2 \<and> space_length (map of_char (drop (length s - 2) s)) = 2 then 2
      else if length s \<ge> 3 \<and> space_length (map of_char (drop (length s - 3) s)) = 3 then 3 else 0)"

function trim_right :: "string \<Rightarrow> string" where
  "trim_right s = (let n = space_suffix s in if n = 0 then s else trim_right (take (length s - n) s))"
  by pat_completeness auto
termination by (relation "measure length") (auto simp: space_suffix_def split: if_splits)

declare trim_left.simps [simp del] trim_right.simps [simp del]

definition TrimSpace :: "string \<Rightarrow> string" where
  "TrimSpace s = trim_right (trim_left s)"

definition CutPrefix :: "string \<Rightarrow> string \<Rightarrow> string option" where
  "CutPrefix s p = (if HasPrefix s p then Some (drop (length p) s) else None)"

text \<open>\<open>strings.Fields\<close>: the pieces between runs of white space. \<open>cur\<close> is the piece being read, reversed.\<close>

function fields_from :: "string \<Rightarrow> string \<Rightarrow> string list" where
  "fields_from cur s =
     (let emit = (if cur = [] then [] else [rev cur]); n = space_length (map of_char s)
      in case s of
           [] \<Rightarrow> emit
         | c # s' \<Rightarrow> if n = 0 then fields_from (c # cur) s' else emit @ fields_from [] (drop n s))"
  by pat_completeness auto
termination by (relation "measure (\<lambda>(_, s). length s)") auto

declare fields_from.simps [simp del]

definition Fields :: "string \<Rightarrow> string list" where
  "Fields s = fields_from [] s"

text \<open>\<open>strings.Split(s, "\n")\<close> and the first piece, \<open>strings.Cut(s, "\n")\<close>.\<close>

fun split_lines :: "string \<Rightarrow> string list" where
  "split_lines [] = [[]]"
| "split_lines (c # s) =
     (if c = CHR 0x0A then [] # split_lines s
      else case split_lines s of [] \<Rightarrow> [[c]] | l # ls \<Rightarrow> (c # l) # ls)"

definition first_line :: "string \<Rightarrow> string" where
  "first_line s = takeWhile (\<lambda>c. c \<noteq> CHR 0x0A) s"

section \<open>Prometheus lines\<close>

datatype metric_error = ErrTooManyLines | ErrParse | ErrValue | ErrNotFound | ErrOrder | ErrNotAdvanced | ErrSlot | ErrClient
  | ErrDeadline | ErrCounters | ErrSample domain_error

definition maxMetricLines :: nat where "maxMetricLines = 100000"

text \<open>The data lines among the lines of the body: comments and empty lines are passed over.\<close>

definition metric_lines :: "string list \<Rightarrow> metric_error + string list" where
  "metric_lines body =
     (let lines = filter (\<lambda>line. \<not> HasPrefix line ''#'' \<and> line \<noteq> []) body
      in if length lines > maxMetricLines then Inl ErrTooManyLines else Inr lines)"

record BlockTiming =
  bt_Slot :: slot
  bt_Propagation :: duration
  bt_SampledAt :: gotime

text \<open>One line, with what the lines before gave; \<open>oob\<close> is the platform's result of a conversion out of range.\<close>

definition timing_line ::
  "int \<Rightarrow> string \<Rightarrow> duration option \<times> slot option \<Rightarrow> string \<Rightarrow> metric_error + duration option \<times> slot option" where
  "timing_line oob prefix acc line =
     (let head_slot = (\<lambda>p. case CutPrefix line ''beacon_head_slot '' of
            None \<Rightarrow> Inr (p, snd acc)
          | Some value \<Rightarrow>
              (case ParseUint (TrimSpace value) of None \<Rightarrow> Inl ErrParse | Some s \<Rightarrow> Inr (p, Some (of_nat s))))
      in case CutPrefix line prefix of
           None \<Rightarrow> head_slot (fst acc)
         | Some value \<Rightarrow>
             (case ParseFloat (TrimSpace value) of
                None \<Rightarrow> Inl ErrParse
              | Some ms \<Rightarrow>
                  if f_lt ms (FFin 0) \<or> \<not> f_finite ms \<or> f_lt maxMilliseconds ms then Inl ErrValue
                  else head_slot (Some (ms_to_duration oob ms))))"

fun timing_loop ::
  "int \<Rightarrow> string \<Rightarrow> duration option \<times> slot option \<Rightarrow> string list \<Rightarrow> metric_error + duration option \<times> slot option" where
  "timing_loop oob prefix acc [] = Inr acc"
| "timing_loop oob prefix acc (line # lines) =
     (case timing_line oob prefix acc line of Inl e \<Rightarrow> Inl e | Inr acc' \<Rightarrow> timing_loop oob prefix acc' lines)"

definition sampleBlockTiming :: "int \<Rightarrow> string \<Rightarrow> gotime \<Rightarrow> metric_error + string list \<Rightarrow> metric_error + BlockTiming" where
  "sampleBlockTiming oob prefix now response =
     (case response of
        Inl e \<Rightarrow> Inl e
      | Inr lines \<Rightarrow>
          (case timing_loop oob prefix (None, None) lines of
             Inl e \<Rightarrow> Inl e
           | Inr (Some p, Some s) \<Rightarrow> Inr \<lparr>bt_Slot = s, bt_Propagation = p, bt_SampledAt = now\<rparr>
           | Inr _ \<Rightarrow> Inl ErrNotFound))"

datatype ConsensusClient = ConsensusLighthouse | ConsensusPrysm | ConsensusOther string

fun timing_metric :: "ConsensusClient \<Rightarrow> string option" where
  "timing_metric ConsensusLighthouse = Some ''beacon_block_delay_observed_slot_start ''"
| "timing_metric ConsensusPrysm = Some ''block_arrival_latency_milliseconds_gauge ''"
| "timing_metric (ConsensusOther _) = None"

definition SampleBlockTiming :: "int \<Rightarrow> ConsensusClient \<Rightarrow> gotime \<Rightarrow> metric_error + string list \<Rightarrow> metric_error + BlockTiming" where
  "SampleBlockTiming oob client now response =
     (case timing_metric client of None \<Rightarrow> Inl ErrClient | Some prefix \<Rightarrow> sampleBlockTiming oob prefix now response)"

text \<open>The polls of \<open>SampleBlockTimingForSlot\<close>: the timing read, and whether the deadline passed in the pause after it.\<close>

fun SampleBlockTimingForSlot :: "slot \<Rightarrow> ((metric_error + BlockTiming) \<times> bool) list \<Rightarrow> (metric_error + BlockTiming) option" where
  "SampleBlockTimingForSlot expected [] = None"
| "SampleBlockTimingForSlot expected ((poll, passed) # polls) =
     (case poll of
        Inl e \<Rightarrow> Some (Inl e)
      | Inr timing \<Rightarrow>
          if bt_Slot timing = expected then Some (Inr timing)
          else if bt_Slot timing > expected then Some (Inl ErrSlot)
          else if passed then Some (Inl ErrDeadline)
          else SampleBlockTimingForSlot expected polls)"

section \<open>Engine counters\<close>

record EngineCounter =
  ec_Count :: nat
  ec_SumMS :: f64

record EngineCounters =
  es_SampledAt :: gotime
  es_NewPayload :: EngineCounter
  es_ForkchoiceUpdated :: EngineCounter

record EngineCallWindow =
  ew_At :: gotime
  ew_Method :: string
  ew_Count :: nat
  ew_DurationMS :: f64

record engineMetricSet =
  em_newPayloadSum :: string
  em_newPayloadCount :: string
  em_forkchoiceSum :: string
  em_forkchoiceCount :: string
  em_sumScaleToMS :: f64

fun engine_metrics :: "ConsensusClient \<Rightarrow> engineMetricSet option" where
  "engine_metrics ConsensusLighthouse = Some
     \<lparr>em_newPayloadSum = ''execution_layer_request_times_sum{method=\"new_payload\"}'',
      em_newPayloadCount = ''execution_layer_request_times_count{method=\"new_payload\"}'',
      em_forkchoiceSum = ''execution_layer_request_times_sum{method=\"forkchoice_updated\"}'',
      em_forkchoiceCount = ''execution_layer_request_times_count{method=\"forkchoice_updated\"}'', em_sumScaleToMS = FFin 1000\<rparr>"
| "engine_metrics ConsensusPrysm = Some
     \<lparr>em_newPayloadSum = ''new_payload_v1_latency_milliseconds_sum'', em_newPayloadCount = ''new_payload_v1_latency_milliseconds_count'',
      em_forkchoiceSum = ''forkchoice_updated_v1_latency_milliseconds_sum'',
      em_forkchoiceCount = ''forkchoice_updated_v1_latency_milliseconds_count'', em_sumScaleToMS = FFin 1\<rparr>"
| "engine_metrics (ConsensusOther _) = None"

definition exactMetricValue :: "string \<Rightarrow> string \<Rightarrow> metric_error + f64 option" where
  "exactMetricValue line name =
     (case CutPrefix line (name @ '' '') of
        None \<Rightarrow> Inr None
      | Some rest \<Rightarrow>
          (case ParseFloat (TrimSpace rest) of
             None \<Rightarrow> Inl ErrParse
           | Some v \<Rightarrow> if f_lt v (FFin 0) \<or> \<not> f_finite v then Inl ErrParse else Inr (Some v)))"

text \<open>
  The test against \<open>math.MaxUint64\<close>, which as a float is 2^64, lets 2^64 itself through; the conversion is then out of
  range and \<open>oob\<close> stands for the platform's result.
\<close>

definition counterValue :: "nat \<Rightarrow> f64 \<Rightarrow> metric_error + nat" where
  "counterValue oob v =
     (case v of
        FFin q \<Rightarrow>
          if q \<noteq> of_int (f_trunc q) \<or> q > 2 ^ 64 then Inl ErrValue
          else if q = 2 ^ 64 then Inr oob else Inr (nat (f_trunc q))
      | _ \<Rightarrow> Inl ErrValue)"

text \<open>The scan: every line is tried against every name, a later line overwrites an earlier one.\<close>

fun names_loop :: "string \<Rightarrow> (string \<rightharpoonup> f64) \<Rightarrow> string list \<Rightarrow> metric_error + (string \<rightharpoonup> f64)" where
  "names_loop line values [] = Inr values"
| "names_loop line values (name # names) =
     (case exactMetricValue line name of
        Inl e \<Rightarrow> Inl e
      | Inr None \<Rightarrow> names_loop line values names
      | Inr (Some v) \<Rightarrow> names_loop line (values(name \<mapsto> v)) names)"

fun values_loop :: "string list \<Rightarrow> (string \<rightharpoonup> f64) \<Rightarrow> string list \<Rightarrow> metric_error + (string \<rightharpoonup> f64)" where
  "values_loop wanted values [] = Inr values"
| "values_loop wanted values (line # lines) =
     (case names_loop line values wanted of Inl e \<Rightarrow> Inl e | Inr values' \<Rightarrow> values_loop wanted values' lines)"

definition sampleEngineCounters ::
  "nat \<Rightarrow> engineMetricSet \<Rightarrow> gotime \<Rightarrow> metric_error + string list \<Rightarrow> metric_error + EngineCounters" where
  "sampleEngineCounters oob names now response =
     (case response of
        Inl e \<Rightarrow> Inl e
      | Inr lines \<Rightarrow>
          (case values_loop [em_newPayloadSum names, em_newPayloadCount names, em_forkchoiceSum names, em_forkchoiceCount names]
             Map.empty lines of
             Inl e \<Rightarrow> Inl e
           | Inr values \<Rightarrow>
               (case (values (em_newPayloadSum names), values (em_newPayloadCount names),
                      values (em_forkchoiceSum names), values (em_forkchoiceCount names)) of
                  (Some ns, Some nc, Some fs, Some fc) \<Rightarrow>
                    (case counterValue oob nc of
                       Inl e \<Rightarrow> Inl e
                     | Inr newCount \<Rightarrow>
                         (case counterValue oob fc of
                            Inl e \<Rightarrow> Inl e
                          | Inr fcCount \<Rightarrow>
                              Inr \<lparr>es_SampledAt = now,
                                   es_NewPayload = \<lparr>ec_Count = newCount, ec_SumMS = f_mul ns (em_sumScaleToMS names)\<rparr>,
                                   es_ForkchoiceUpdated = \<lparr>ec_Count = fcCount, ec_SumMS = f_mul fs (em_sumScaleToMS names)\<rparr>\<rparr>))
                | _ \<Rightarrow> Inl ErrNotFound)))"

definition engine_call :: "gotime \<Rightarrow> string \<Rightarrow> EngineCounter \<Rightarrow> EngineCounter \<Rightarrow> metric_error + EngineCallWindow" where
  "engine_call t method before after =
     (if ec_Count after \<le> ec_Count before then Inl ErrNotAdvanced
      else let durationMS = f_sub (ec_SumMS after) (ec_SumMS before)
           in if f_lt durationMS (FFin 0) \<or> \<not> f_finite durationMS then Inl ErrValue
              else Inr \<lparr>ew_At = t, ew_Method = method, ew_Count = ec_Count after - ec_Count before, ew_DurationMS = durationMS\<rparr>)"

definition EngineCallsBetween :: "EngineCounters \<Rightarrow> EngineCounters \<Rightarrow> metric_error + EngineCallWindow list" where
  "EngineCallsBetween before after =
     (if IsZero (es_SampledAt before) \<or> IsZero (es_SampledAt after) \<or> Before (es_SampledAt after) (es_SampledAt before) then Inl ErrOrder
      else case engine_call (es_SampledAt after) EngineMethodNewPayload (es_NewPayload before) (es_NewPayload after) of
        Inl e \<Rightarrow> Inl e
      | Inr c1 \<Rightarrow>
          (case engine_call (es_SampledAt after) EngineMethodForkchoiceUpdated (es_ForkchoiceUpdated before) (es_ForkchoiceUpdated after) of
             Inl e \<Rightarrow> Inl e
           | Inr c2 \<Rightarrow> Inr [c1, c2]))"

end
