(* ===== verification/EngineWindows.thy ===== *)
theory EngineWindows
  imports Metrics
begin

text \<open>
  What \<open>internal/app/blocktiming.go\<close> derives from the measurements of one head: the Engine calls between the heads of two
  consecutive slots, the arrival of the block, and the slots already processed; and the start of a slot
  (\<open>internal/source/beaconapi/genesis.go\<close>).
\<close>

section \<open>Definitions\<close>

record GenesisInfo =
  gi_GenesisTime :: gotime
  gi_SecondsPerSlot :: duration

definition GenesisInfo_SlotStart :: "GenesisInfo \<Rightarrow> nat \<Rightarrow> gotime" where
  "GenesisInfo_SlotStart g s =
     (if gi_SecondsPerSlot g \<le> 0 \<or> int s > int64_max div gi_SecondsPerSlot g then Add (gi_GenesisTime g) int64_max
      else Add (gi_GenesisTime g) (int s * gi_SecondsPerSlot g))"

record engineWindowTracker =
  wt_ready :: bool
  wt_slot :: slot
  wt_counters :: "EngineCounters option"

definition new_tracker :: engineWindowTracker where
  "new_tracker = \<lparr>wt_ready = False, wt_slot = 0, wt_counters = None\<rparr>"

text \<open>\<open>advance\<close>: the tracker always remembers the last snapshot; \<open>Inr None\<close> is a warm-up point.\<close>

definition tracker_advance ::
  "slot \<Rightarrow> EngineCounters \<Rightarrow> engineWindowTracker \<Rightarrow> engineWindowTracker \<times> (metric_error + EngineCallWindow list option)" where
  "tracker_advance s after t =
     (let t' = \<lparr>wt_ready = True, wt_slot = s, wt_counters = Some after\<rparr>
      in if \<not> wt_ready t then (t', Inr None)
         else if s \<le> wt_slot t \<or> s - wt_slot t \<noteq> 1 then (t', Inr None)
         else case wt_counters t of
           None \<Rightarrow> (t', Inr None)
         | Some before \<Rightarrow>
             (t', case EngineCallsBetween before after of Inl e \<Rightarrow> Inl e | Inr calls \<Rightarrow> Inr (Some calls)))"

text \<open>One head of \<open>runBlockTiming\<close>: a failed sample of the counters resets the tracker.\<close>

definition window_step ::
  "slot \<Rightarrow> metric_error + EngineCounters \<Rightarrow> engineWindowTracker \<Rightarrow> engineWindowTracker \<times> EngineCallWindow list option" where
  "window_step s sample t =
     (case sample of
        Inl _ \<Rightarrow> (new_tracker, None)
      | Inr after \<Rightarrow>
          (case tracker_advance s after t of
             (t', Inr (Some calls)) \<Rightarrow> (t', Some calls)
           | (t', _) \<Rightarrow> (t', None)))"

text \<open>The slots already processed, at most 64: the least one goes.\<close>

definition note_processed :: "slot \<Rightarrow> slot list \<Rightarrow> slot list option" where
  "note_processed s processed =
     (if s \<in> set processed then None
      else let p = s # processed in Some (if length p > 64 then removeAll (Min (set p)) p else p))"

definition blockSeenFromTiming :: "Observation \<Rightarrow> BlockTiming \<Rightarrow> GenesisInfo \<Rightarrow> metric_error + Observation" where
  "blockSeenFromTiming head timing g =
     (if obs_Kind head \<noteq> ObsHeadUpdated then Inl ErrValue
      else if bt_Slot timing \<noteq> obs_Slot head then Inl ErrSlot
      else let blockAt = Add (GenesisInfo_SlotStart g (unat (obs_Slot head))) (bt_Propagation timing)
           in if After blockAt (obs_At head) then Inl ErrOrder
              else (case NewObservation
                \<lparr>obs_Slot = obs_Slot head, obs_Kind = ObsBlockSeen, obs_At = blockAt, obs_ClockOffset = 0, obs_ClockMeasured = False,
                 obs_ClockSampleAt = time_zero, obs_Source = SourcePromScrape,
                 obs_Attrs = (case Observation_Attr head AttrBlockRoot of None \<Rightarrow> [] | Some r \<Rightarrow> [(AttrBlockRoot, r)])\<rparr> of
                Inl e \<Rightarrow> Inl (ErrSample e) | Inr ob \<Rightarrow> Inr ob))"

section \<open>Facts\<close>

lemma engine_call_facts:
  assumes "engine_call t m before after = Inr w"
  shows "ew_Method w = m \<and> 0 < ew_Count w \<and> ew_Count w = ec_Count after - ec_Count before \<and> f_finite (ew_DurationMS w) \<and>
    \<not> f_lt (ew_DurationMS w) (FFin 0)"
  using assms by (auto simp: engine_call_def Let_def split: if_splits)

lemma EngineCallsBetween_facts:
  assumes "EngineCallsBetween before after = Inr calls"
  shows "map ew_Method calls = [EngineMethodNewPayload, EngineMethodForkchoiceUpdated] \<and>
    (\<forall>w \<in> set calls. 0 < ew_Count w \<and> f_finite (ew_DurationMS w) \<and> \<not> f_lt (ew_DurationMS w) (FFin 0))"
  using assms by (auto simp: EngineCallsBetween_def split: if_splits sum.splits dest!: engine_call_facts)

fun run_windows :: "engineWindowTracker \<Rightarrow> (slot \<times> (metric_error + EngineCounters)) list \<Rightarrow> EngineCallWindow list option list" where
  "run_windows t [] = []"
| "run_windows t ((s, sample) # heads) = (let (t', r) = window_step s sample t in r # run_windows t' heads)"

text \<open>What the tracker remembers of the heads so far: the last one, if its sample succeeded.\<close>

definition remembers :: "engineWindowTracker \<Rightarrow> (slot \<times> (metric_error + EngineCounters)) option \<Rightarrow> bool" where
  "remembers t prev \<longleftrightarrow>
     (case prev of
        Some (s, Inr counters) \<Rightarrow> wt_ready t \<and> wt_slot t = s \<and> wt_counters t = Some counters
      | _ \<Rightarrow> \<not> wt_ready t)"

lemma window_step_remembers: "window_step s sample t = (t', r) \<Longrightarrow> remembers t' (Some (s, sample))"
  by (auto simp: window_step_def tracker_advance_def remembers_def new_tracker_def Let_def split: sum.splits option.splits if_splits prod.splits)

lemma window_step_exact:
  assumes "window_step s sample t = (t', Some calls)" "remembers t prev"
  shows "\<exists>s0 before after. prev = Some (s0, Inr before) \<and> sample = Inr after \<and> s0 < s \<and> s = s0 + 1 \<and> EngineCallsBetween before after = Inr calls"
proof -
  obtain after before where a: "sample = Inr after" "wt_ready t" "\<not> s \<le> wt_slot t" "s - wt_slot t = 1" "wt_counters t = Some before"
    "EngineCallsBetween before after = Inr calls"
    using assms(1) by (auto simp: window_step_def tracker_advance_def Let_def split: sum.splits option.splits if_splits prod.splits)
  moreover obtain s0 where "prev = Some (s0, Inr before)" "wt_slot t = s0"
    using assms(2) a(2,5) by (auto simp: remembers_def split: option.splits prod.splits sum.splits)
  moreover have "s = wt_slot t + 1" using a(4) by (metis add.commute diff_add_cancel)
  ultimately show ?thesis by (auto simp: not_le)
qed

lemma run_windows_length [simp]: "length (run_windows t heads) = length heads"
  by (induction heads arbitrary: t) (auto simp: Let_def split: prod.split)

lemma run_windows_exact:
  assumes "remembers t prev" "i < length heads" "run_windows t heads ! i = Some calls"
  shows "\<exists>s0 before after. (if i = 0 then prev else Some (heads ! (i - 1))) = Some (s0, Inr before) \<and>
    heads ! i = (s0 + 1, Inr after) \<and> s0 < s0 + 1 \<and> EngineCallsBetween before after = Inr calls"
  using assms
proof (induction heads arbitrary: t prev i)
  case (Cons h heads)
  obtain s sample where h: "h = (s, sample)" by fastforce
  obtain t' r where st: "window_step s sample t = (t', r)" by fastforce
  note mem = window_step_remembers [OF st]
  show ?case
  proof (cases i)
    case 0
    then have "window_step s sample t = (t', Some calls)" using Cons.prems(3) by (simp add: h st)
    from window_step_exact [OF this Cons.prems(1)] 0 h show ?thesis by auto
  next
    case (Suc j)
    then have "j < length heads" "run_windows t' heads ! j = Some calls" using Cons.prems by (simp_all add: h st)
    from Cons.IH [OF mem this] show ?thesis by (cases j) (auto simp: Suc h)
  qed
qed simp

text \<open>
  An Engine window is attributed to a slot only when it is exactly the work between that head and the head of
  the slot before: the previous head was sampled, its slot is the predecessor, and the figures are the differences of the
  two snapshots. Start-up, gaps, repeats and failed samples never yield a window.
\<close>

lemma engine_windows_consecutive:
  assumes "i < length heads" "run_windows new_tracker heads ! i = Some calls"
  shows "\<exists>s0 before after. 0 < i \<and> heads ! (i - 1) = (s0, Inr before) \<and> heads ! i = (s0 + 1, Inr after) \<and> s0 < s0 + 1 \<and>
    EngineCallsBetween before after = Inr calls \<and> map ew_Method calls = [EngineMethodNewPayload, EngineMethodForkchoiceUpdated] \<and>
    list_all (\<lambda>w. 0 < ew_Count w \<and> f_finite (ew_DurationMS w)) calls"
proof -
  have "remembers new_tracker None" by (simp add: remembers_def new_tracker_def)
  from run_windows_exact [OF this assms] obtain s0 before after where
    w: "(if i = 0 then None else Some (heads ! (i - 1))) = Some (s0, Inr before)" "heads ! i = (s0 + 1, Inr after)" "s0 < s0 + 1"
    "EngineCallsBetween before after = Inr calls" by blast
  then show ?thesis using EngineCallsBetween_facts [OF w(4)]
    by (intro exI [of _ s0] exI [of _ before] exI [of _ after]) (auto simp: list_all_iff split: if_splits)
qed

definition snapshot :: "nat \<Rightarrow> EngineCounters" where
  "snapshot n = \<lparr>es_SampledAt = \<lparr>t_ns = int n, t_loc = UTC\<rparr>, es_NewPayload = \<lparr>ec_Count = n, ec_SumMS = FFin 1\<rparr>,
     es_ForkchoiceUpdated = \<lparr>ec_Count = n, ec_SumMS = FFin 1\<rparr>\<rparr>"

lemma snapshots_window:
  "run_windows new_tracker [(7, Inr (snapshot 1)), (8, Inr (snapshot 2))] ! 1 =
     Some [\<lparr>ew_At = \<lparr>t_ns = 2, t_loc = UTC\<rparr>, ew_Method = EngineMethodNewPayload, ew_Count = 1, ew_DurationMS = FFin 0\<rparr>,
           \<lparr>ew_At = \<lparr>t_ns = 2, t_loc = UTC\<rparr>, ew_Method = EngineMethodForkchoiceUpdated, ew_Count = 1, ew_DurationMS = FFin 0\<rparr>]"
  by (simp add: window_step_def tracker_advance_def new_tracker_def snapshot_def EngineCallsBetween_def engine_call_def IsZero_def
      Before_def f_sub_def fround_numeral)

text \<open>The processed set never exceeds 64 slots, and a slot is processed at most once while it is remembered.\<close>

lemma note_processed_bound:
  assumes "length processed \<le> 64" "note_processed s processed = Some p"
  shows "length p \<le> 64 \<and> s \<notin> set processed"
proof -
  have "length (removeAll (Min (set (s # processed))) (s # processed)) < length (s # processed)"
    using Min_in [of "set (s # processed)"] by (intro length_removeAll_less) simp
  with assms show ?thesis by (auto simp: note_processed_def Let_def split: if_splits)
qed

end
