(* ===== verification/NodeSchedule.thy ===== *)
theory NodeSchedule
  imports Beacon EngineWindows
begin

text \<open>
  The slot schedule a node publishes (\<open>internal/source/beaconapi/spec.go\<close>), the genesis it reports
  (\<open>internal/source/beaconapi/genesis.go\<close>) and which schedule the daemon and the one-shot commands adopt
  (\<open>internal/app/nodeschedule.go\<close>). Decoded responses are arguments; a response not found is \<open>None\<close>.
\<close>

section \<open>The node's spec\<close>

text \<open>A value of the spec object, as far as decoding it into a string tells values apart; \<open>null\<close> leaves the string empty.\<close>

datatype json_value = JNull | JString string | JOther

type_synonym spec_data = "(string \<times> json_value) list"

datatype schedule_error = SpecFetch beacon_error | SpecUnusable domain_error

definition forkUnscheduled :: nat where "forkUnscheduled = 18446744073709551615"
definition basisPoints :: int where "basisPoints = 10000"
definition maxSupportedSlotSeconds :: nat where "maxSupportedSlotSeconds = 60"

definition specUint :: "spec_data \<Rightarrow> string \<Rightarrow> nat option" where
  "specUint data key =
     (case map_of data key of
        None \<Rightarrow> None
      | Some message \<Rightarrow>
          (case (case message of JNull \<Rightarrow> Some [] | JString raw \<Rightarrow> Some raw | JOther \<Rightarrow> None) of
             None \<Rightarrow> None
           | Some raw \<Rightarrow> if raw = [] \<or> length raw > 20 then None else ParseUint raw))"

text \<open>\<open>Duration.Round\<close>: to the nearest multiple of \<open>m\<close>, halves away from zero, the type's limits at overflow.\<close>

definition Duration_Round :: "duration \<Rightarrow> duration \<Rightarrow> duration" where
  "Duration_Round d m =
     (if m \<le> 0 then d
      else let r = go_rem d m
           in if d < 0
              then (if 2 * (- r) < m then d - r
                    else if d - m - r < int64_min then int64_min else d - m - r)
              else if 2 * r < m then d - r
              else if d + m - r > int64_max then int64_max else d + m - r)"

definition deadlineFromBPS :: "duration \<Rightarrow> nat \<Rightarrow> duration" where
  "deadlineFromBPS slotLen bps =
     (if int bps > basisPoints then slotLen
      else Duration_Round (go_div (wrap64 (slotLen * int bps)) basisPoints) Millisecond)"

definition post_epbs :: "spec_data \<Rightarrow> nat \<Rightarrow> bool" where
  "post_epbs data headEpoch \<longleftrightarrow>
     (case specUint data ''GLOAS_FORK_EPOCH'' of None \<Rightarrow> False | Some e \<Rightarrow> e \<noteq> forkUnscheduled \<and> headEpoch \<ge> e)"

text \<open>The basis points that apply: of the attestation, and once the fork is reached of the payload and its committee.\<close>

definition due_bps :: "spec_data \<Rightarrow> nat \<Rightarrow> (nat \<times> (nat \<times> nat) option) option" where
  "due_bps data headEpoch =
     (case specUint data ''ATTESTATION_DUE_BPS'' of
        None \<Rightarrow> None
      | Some attestationBPS \<Rightarrow>
          if post_epbs data headEpoch
          then case (specUint data ''PAYLOAD_DUE_BPS'', specUint data ''PAYLOAD_ATTESTATION_DUE_BPS'') of
                 (Some payloadBPS, Some ptcBPS) \<Rightarrow>
                   Some (case specUint data ''ATTESTATION_DUE_BPS_GLOAS'' of None \<Rightarrow> attestationBPS | Some bps \<Rightarrow> bps,
                         Some (payloadBPS, ptcBPS))
               | _ \<Rightarrow> None
          else Some (attestationBPS, None))"

definition derive_schedule :: "duration \<Rightarrow> nat \<Rightarrow> nat \<Rightarrow> (nat \<times> nat) option \<Rightarrow> SlotSchedule" where
  "derive_schedule slotLen attestationBPS aggregateBPS epbs =
     \<lparr>sched_SecondsPerSlot = slotLen, sched_AttestationDeadline = deadlineFromBPS slotLen attestationBPS,
      sched_AggregationDeadline = deadlineFromBPS slotLen aggregateBPS,
      sched_PayloadRevealDeadline = (case epbs of None \<Rightarrow> 0 | Some (payloadBPS, _) \<Rightarrow> deadlineFromBPS slotLen payloadBPS),
      sched_PTCDeadline = (case epbs of None \<Rightarrow> 0 | Some (_, ptcBPS) \<Rightarrow> deadlineFromBPS slotLen ptcBPS)\<rparr>"

definition FetchSchedule ::
  "beacon_error + spec_data option \<Rightarrow> nat \<Rightarrow> schedule_error + SlotSchedule option" where
  "FetchSchedule response headEpoch =
     (case response of
        Inl e \<Rightarrow> Inl (SpecFetch e)
      | Inr None \<Rightarrow> Inr None
      | Inr (Some data) \<Rightarrow>
          if data = [] then Inr None
          else (case specUint data ''SECONDS_PER_SLOT'' of
             None \<Rightarrow> Inr None
           | Some secondsPerSlot \<Rightarrow>
               if secondsPerSlot = 0 \<or> secondsPerSlot > maxSupportedSlotSeconds then Inr None
               else case (due_bps data headEpoch, specUint data ''AGGREGATE_DUE_BPS'') of
                 (Some (attestationBPS, epbs), Some aggregateBPS) \<Rightarrow>
                   (let schedule = derive_schedule (int secondsPerSlot * Second) attestationBPS aggregateBPS epbs
                    in case SlotSchedule_Validate schedule of Some e \<Rightarrow> Inl (SpecUnusable e) | None \<Rightarrow> Inr (Some schedule))
               | _ \<Rightarrow> Inr None))"

section \<open>Genesis\<close>

datatype genesis_error =
    GenesisFetch beacon_error | NoGenesis | BadGenesisTime string | GenesisSpecFetch beacon_error
  | BadSecondsPerSlot string | SecondsPerSlotRange int

definition time_Unix :: "int \<Rightarrow> gotime" where
  "time_Unix sec = \<lparr>t_ns = wrap64 (sec + 62135596800) * 1000000000, t_loc = UTC\<rparr>"

text \<open>The two responses: \<open>genesis_time\<close>, and \<open>SECONDS_PER_SLOT\<close>, which stays empty when it is missing.\<close>

definition FetchGenesis :: "beacon_error + string option \<Rightarrow> beacon_error + string \<Rightarrow> genesis_error + GenesisInfo" where
  "FetchGenesis genesis spec =
     (case genesis of
        Inl e \<Rightarrow> Inl (GenesisFetch e)
      | Inr None \<Rightarrow> Inl NoGenesis
      | Inr (Some genesisText) \<Rightarrow>
          (case ParseInt 64 genesisText of
             None \<Rightarrow> Inl (BadGenesisTime genesisText)
           | Some genesisUnix \<Rightarrow>
               (case spec of
                  Inl e \<Rightarrow> Inl (GenesisSpecFetch e)
                | Inr secondsText \<Rightarrow>
                    (case ParseInt 64 secondsText of
                       None \<Rightarrow> Inl (BadSecondsPerSlot secondsText)
                     | Some secondsPerSlot \<Rightarrow>
                         if secondsPerSlot \<le> 0 \<or> secondsPerSlot > 60 then Inl (SecondsPerSlotRange secondsPerSlot)
                         else Inr \<lparr>gi_GenesisTime = time_Unix genesisUnix, gi_SecondsPerSlot = secondsPerSlot * Second\<rparr>))))"

definition validateBaselineGenesis :: "GenesisInfo \<Rightarrow> GenesisInfo \<Rightarrow> bool" where
  "validateBaselineGenesis watched baseline \<longleftrightarrow>
     \<not> (\<not> time_Equal (gi_GenesisTime baseline) (gi_GenesisTime watched) \<or> gi_SecondsPerSlot baseline \<noteq> gi_SecondsPerSlot watched)"

section \<open>Which schedule is used\<close>

definition currentEpoch :: "GenesisInfo \<Rightarrow> gotime \<Rightarrow> nat" where
  "currentEpoch g now =
     (if gi_SecondsPerSlot g \<le> 0 \<or> Before now (gi_GenesisTime g) then 0
      else nat (go_div (Sub now (gi_GenesisTime g)) (gi_SecondsPerSlot g)) div unat SlotsPerEpoch)"

text \<open>The spec is the node's answer when it is asked, \<open>now\<close> the clock then.\<close>

definition adoptNodeSchedule ::
  "beacon_error + spec_data option \<Rightarrow> gotime \<Rightarrow> GenesisInfo \<Rightarrow> SlotSchedule \<Rightarrow> SlotSchedule" where
  "adoptNodeSchedule spec now g configured =
     (if configured \<noteq> MainnetPreEPBS then configured
      else case FetchSchedule spec (currentEpoch g now) of
        Inl _ \<Rightarrow> configured
      | Inr None \<Rightarrow> configured
      | Inr (Some fetched) \<Rightarrow> if fetched = configured then configured else fetched)"

definition ResolveSchedule ::
  "string \<Rightarrow> genesis_error + GenesisInfo \<Rightarrow> beacon_error + spec_data option \<Rightarrow> gotime \<Rightarrow> SlotSchedule \<Rightarrow> SlotSchedule" where
  "ResolveSchedule beaconAPI genesis spec now configured =
     (if beaconAPI = [] \<or> configured \<noteq> MainnetPreEPBS then configured
      else case genesis of
        Inl _ \<Rightarrow> configured
      | Inr g \<Rightarrow> adoptNodeSchedule spec now g configured)"

section \<open>Deadlines\<close>

text \<open>The deadline a schedule should have: whole milliseconds, and the exact fraction of the slot up to rounding.\<close>

definition near_bps :: "duration \<Rightarrow> nat \<Rightarrow> duration \<Rightarrow> bool" where
  "near_bps slotLen bps d \<longleftrightarrow> d mod Millisecond = 0 \<and> 0 \<le> d \<and> d \<le> slotLen \<and>
     \<bar>10000 * d - slotLen * int (min bps 10000)\<bar> \<le> 5000009999"

lemma Round_nonneg:
  assumes "0 \<le> d" "d \<le> 60000000000"
  shows "Duration_Round d Millisecond mod Millisecond = 0" "0 \<le> Duration_Round d Millisecond"
    "\<bar>Duration_Round d Millisecond - d\<bar> \<le> 500000"
proof -
  define q r where "q = d div 1000000" and "r = d mod 1000000"
  have d: "d = 1000000 * q + r" "0 \<le> r" "r < 1000000" "0 \<le> q" using assms(1) by (simp_all add: q_def r_def pos_imp_zdiv_nonneg_iff)
  have "go_rem d Millisecond = r" using assms(1) by (simp add: r_def)
  then have "Duration_Round d Millisecond = (if 2 * r < 1000000 then 1000000 * q else 1000000 * (q + 1))"
    using d assms by (simp add: Duration_Round_def int64_max_def)
  then show "Duration_Round d Millisecond mod Millisecond = 0" "0 \<le> Duration_Round d Millisecond"
    "\<bar>Duration_Round d Millisecond - d\<bar> \<le> 500000"
    using d by auto
qed

lemma Round_le:
  assumes "0 \<le> d" "d \<le> 1000000 * k" "1000000 * k \<le> 60000000000"
  shows "Duration_Round d Millisecond \<le> 1000000 * k"
proof -
  obtain q where q: "Duration_Round d Millisecond = 1000000 * q" using Round_nonneg(1) [of d] assms by (auto simp: mod_eq_0_iff_dvd)
  have "1000000 * q \<le> 1000000 * k + 500000" using Round_nonneg(3) [of d] assms q by linarith
  then have "q \<le> k" by linarith
  with q show ?thesis by simp
qed

lemma deadlineFromBPS_near:
  assumes "0 < n" "n \<le> 60"
  shows "near_bps (int n * Second) bps (deadlineFromBPS (int n * Second) bps)"
proof (cases "bps \<le> 10000")
  case True
  define p where "p = int n * Second * int bps"
  have nb: "int n * int bps \<le> 60 * 10000" using assms(2) True by (intro mult_mono) auto
  have p: "0 \<le> p" "p \<le> 600000000000000" using nb by (simp_all add: p_def mult.commute)
  have w: "wrap64 p = p" using p by (simp add: wrap64_def)
  define m where "m = p div 10000"
  have m: "0 \<le> m" "10000 * m \<le> p" "p < 10000 * m + 10000" using p(1) by (simp_all add: m_def pos_imp_zdiv_nonneg_iff)
  have "p \<le> int n * Second * 10000" using True mult_left_mono [of "int bps" 10000 "int n"] by (simp add: p_def mult.commute)
  then have mn: "m \<le> 1000000 * (1000 * int n)" using m by linarith
  have sl: "1000000 * (1000 * int n) \<le> 60000000000" using assms(2) by simp
  have "deadlineFromBPS (int n * Second) bps = Duration_Round m Millisecond"
    using True p(1) w by (simp add: deadlineFromBPS_def basisPoints_def p_def [symmetric] m_def)
  moreover have "min bps 10000 = bps" using True by simp
  moreover have "\<bar>10000 * Duration_Round m Millisecond - p\<bar> \<le> 5000009999" using Round_nonneg(3) [of m] m mn sl by linarith
  ultimately show ?thesis
    using Round_nonneg(1,2) [of m] Round_le [OF m(1) mn sl] m mn sl by (simp add: near_bps_def p_def)
next
  case False
  have "int n * 1000000000 = 1000 * int n * 1000000" by simp
  then have "int n * 1000000000 mod 1000000 = 0" by (metis mod_mult_self2_is_0)
  with False show ?thesis by (simp add: deadlineFromBPS_def basisPoints_def near_bps_def min_def)
qed

section \<open>Accepted schedules\<close>

lemma FetchSchedule_Some:
  "FetchSchedule (Inr (Some data)) headEpoch = Inr (Some sc) \<longleftrightarrow>
     (\<exists>n att epbs agg. specUint data ''SECONDS_PER_SLOT'' = Some n \<and> 1 \<le> n \<and> n \<le> 60 \<and> due_bps data headEpoch = Some (att, epbs) \<and>
        specUint data ''AGGREGATE_DUE_BPS'' = Some agg \<and> sc = derive_schedule (int n * Second) att agg epbs \<and>
        SlotSchedule_Validate sc = None)"
  by (cases "data = []") (auto simp: FetchSchedule_def specUint_def [of "[]"] maxSupportedSlotSeconds_def Let_def split: option.splits if_splits)

lemma due_bps_fork: "due_bps data headEpoch = Some (att, epbs) \<Longrightarrow> epbs \<noteq> None \<longleftrightarrow> post_epbs data headEpoch"
  by (auto simp: due_bps_def split: option.splits if_splits)

text \<open>
  A schedule taken from a node is usable and is the one the node states. It passes validation, its slot is a
  whole number of seconds between 1 and 60, each deadline is the node's basis points of the slot to the nearest millisecond
  (half a millisecond and the nanosecond lost by integer division at most), and it has payload deadlines only once the
  chain has reached the epoch the node schedules the fork for.
\<close>

lemma FetchSchedule_sound:
  assumes "FetchSchedule (Inr (Some data)) headEpoch = Inr (Some sc)"
  shows "SlotSchedule_Validate sc = None \<and>
    (\<exists>n att epbs agg. specUint data ''SECONDS_PER_SLOT'' = Some n \<and> sched_SecondsPerSlot sc = int n * Second \<and> 1 \<le> n \<and> n \<le> 60 \<and>
       due_bps data headEpoch = Some (att, epbs) \<and> near_bps (int n * Second) att (sched_AttestationDeadline sc) \<and>
       specUint data ''AGGREGATE_DUE_BPS'' = Some agg \<and> near_bps (int n * Second) agg (sched_AggregationDeadline sc) \<and>
       (case epbs of
          None \<Rightarrow> \<not> post_epbs data headEpoch \<and> sched_PayloadRevealDeadline sc = 0 \<and> sched_PTCDeadline sc = 0
        | Some (payload, ptc) \<Rightarrow> post_epbs data headEpoch \<and> near_bps (int n * Second) payload (sched_PayloadRevealDeadline sc) \<and>
            near_bps (int n * Second) ptc (sched_PTCDeadline sc)))"
proof -
  obtain n att epbs agg where a: "specUint data ''SECONDS_PER_SLOT'' = Some n" "1 \<le> n" "n \<le> 60" "due_bps data headEpoch = Some (att, epbs)"
    "specUint data ''AGGREGATE_DUE_BPS'' = Some agg" "sc = derive_schedule (int n * Second) att agg epbs" "SlotSchedule_Validate sc = None"
    using assms by (auto simp: FetchSchedule_Some)
  from a(2) have "0 < n" by simp
  note near = deadlineFromBPS_near [OF this a(3)]
  show ?thesis
    using a(1-5,7) near due_bps_fork [OF a(4)]
    by (intro conjI exI [of _ n] exI [of _ att] exI [of _ epbs] exI [of _ agg]) (auto simp: a(6) derive_schedule_def split: option.split)
qed

section \<open>The epoch of the clock\<close>

lemma le_div_iff:
  fixes a b c :: int
  assumes "0 < c"
  shows "a \<le> b div c \<longleftrightarrow> a * c \<le> b"
proof
  assume "a \<le> b div c"
  then have "a * c \<le> b div c * c" using assms by (simp add: mult_right_mono)
  also have "\<dots> \<le> b" using assms pos_mod_sign [of c b] div_mult_mod_eq [of b c] by linarith
  finally show "a * c \<le> b" .
next
  assume "a * c \<le> b"
  from zdiv_mono1 [OF this assms] show "a \<le> b div c" using assms by simp
qed

lemma SlotStart_exact:
  assumes "0 < gi_SecondsPerSlot g" "int s * gi_SecondsPerSlot g \<le> int64_max"
  shows "GenesisInfo_SlotStart g s = Add (gi_GenesisTime g) (int s * gi_SecondsPerSlot g)"
proof -
  have "int s \<le> int64_max div gi_SecondsPerSlot g" using assms by (simp add: le_div_iff)
  with assms(1) show ?thesis by (simp add: GenesisInfo_SlotStart_def)
qed

lemma currentEpoch_reached:
  assumes "0 < gi_SecondsPerSlot g" "int (32 * e) * gi_SecondsPerSlot g \<le> int64_max"
  shows "e \<le> currentEpoch g now \<longleftrightarrow> e = 0 \<or> \<not> Before now (GenesisInfo_SlotStart g (32 * e))"
proof -
  define sec d where "sec = gi_SecondsPerSlot g" and "d = t_ns now - t_ns (gi_GenesisTime g)"
  have sec: "0 < sec" "int (32 * e) * sec \<le> int64_max" using assms by (simp_all add: sec_def)
  have late: "\<not> Before now (GenesisInfo_SlotStart g (32 * e)) \<longleftrightarrow> int (32 * e) * sec \<le> d"
    using SlotStart_exact [OF assms] by (auto simp: Before_def Add_def sec_def d_def)
  show ?thesis
  proof (cases "Before now (gi_GenesisTime g)")
    case True
    then have "d < 0" by (simp add: Before_def d_def)
    moreover have "0 \<le> int (32 * e) * sec" using sec(1) by simp
    ultimately have "\<not> int (32 * e) * sec \<le> d" by linarith
    then show ?thesis using True late by (auto simp: currentEpoch_def)
  next
    case False
    then have d: "0 \<le> d" by (simp add: Before_def d_def)
    have "e \<le> currentEpoch g now \<longleftrightarrow> int (32 * e) \<le> Sub now (gi_GenesisTime g) div sec"
    proof -
      define k where "k = Sub now (gi_GenesisTime g) div sec"
      have S: "0 \<le> Sub now (gi_GenesisTime g)" using d by (simp add: Sub_def d_def [symmetric] clamp64_def int64_defs)
      then have "0 \<le> k" using sec(1) by (simp add: k_def pos_imp_zdiv_nonneg_iff)
      moreover have "currentEpoch g now = nat k div 32" using False sec(1) S by (simp add: currentEpoch_def SlotsPerEpoch_def k_def sec_def)
      moreover have "e \<le> nat k div 32 \<longleftrightarrow> 32 * e \<le> nat k" by (simp add: less_eq_div_iff_mult_less_eq mult.commute)
      ultimately show ?thesis by (simp add: k_def nat_le_iff le_nat_iff)
    qed
    also have "\<dots> \<longleftrightarrow> int (32 * e) * sec \<le> Sub now (gi_GenesisTime g)"
      using sec(1) by (rule le_div_iff)
    also have "\<dots> \<longleftrightarrow> int (32 * e) * sec \<le> d" using sec d by (auto simp: Sub_def d_def [symmetric] clamp64_def int64_defs)
    finally show ?thesis using late d by auto
  qed
qed

section \<open>Adoption\<close>

text \<open>An operator's own schedule is left alone, and an unusable answer changes nothing.\<close>

lemma adoptNodeSchedule_cases:
  "adoptNodeSchedule spec now g configured =
     (if configured = MainnetPreEPBS
      then case FetchSchedule spec (currentEpoch g now) of Inr (Some fetched) \<Rightarrow> fetched | _ \<Rightarrow> configured
      else configured)"
  by (auto simp: adoptNodeSchedule_def split: sum.split option.split)

lemma adoptNodeSchedule_valid:
  "SlotSchedule_Validate configured = None \<Longrightarrow> SlotSchedule_Validate (adoptNodeSchedule spec now g configured) = None"
proof -
  assume c: "SlotSchedule_Validate configured = None"
  have "SlotSchedule_Validate sc = None" if "FetchSchedule spec e = Inr (Some sc)" for sc e
  proof -
    have "\<exists>data. spec = Inr (Some data)" using that by (simp add: FetchSchedule_def split: sum.splits option.splits)
    then show ?thesis using that by (auto simp: FetchSchedule_Some)
  qed
  with c show ?thesis by (auto simp: adoptNodeSchedule_cases split: sum.split option.split)
qed

text \<open>The spec that gives the slot length of genesis gives the same one to the schedule.\<close>

lemma genesis_schedule_agree:
  assumes "FetchGenesis genesis (Inr raw) = Inr g" "FetchSchedule (Inr (Some data)) e = Inr (Some sc)"
    "map_of data ''SECONDS_PER_SLOT'' = Some (JString raw)"
  shows "sched_SecondsPerSlot sc = gi_SecondsPerSlot g"
proof -
  obtain k where k: "ParseInt 64 raw = Some k" "gi_SecondsPerSlot g = k * Second"
    using assms(1) by (auto simp: FetchGenesis_def split: sum.splits option.splits if_splits)
  obtain n where n: "ParseUint raw = Some n" "raw \<noteq> []" "sched_SecondsPerSlot sc = int n * Second"
    using assms(2,3) by (auto simp: FetchSchedule_Some specUint_def derive_schedule_def split: if_splits)
  have "is_digit (hd raw)" using n(1,2) by (cases raw) (auto simp: ParseUint_def split: if_splits)
  then have "hd raw \<noteq> CHR ''-''" "hd raw \<noteq> CHR ''+''" using is_digit_not_sign by auto
  with k(1) n(1,2) have "k = int n" by (auto simp: ParseInt_def Let_def split: if_splits)
  with k n show ?thesis by simp
qed

lemma FetchSchedule_fork:
  "post_epbs data e = post_epbs data e' \<Longrightarrow> FetchSchedule (Inr (Some data)) e = FetchSchedule (Inr (Some data)) e'"
proof -
  assume "post_epbs data e = post_epbs data e'"
  then have "due_bps data e = due_bps data e'" by (simp only: due_bps_def)
  then show ?thesis by (simp only: FetchSchedule_def sum.case option.case)
qed

text \<open>
  Which schedule a slot is judged by depends on when the question is asked. With a fork scheduled at epoch
  \<open>e\<close>, a daemon that starts at any instant before the fork adopts the node's schedule from before it, and a command that asks
  at any instant after it, about whichever slot, resolves to the schedule after it: the slot does not enter the choice.
\<close>

lemma schedule_follows_the_asking_time:
  assumes "specUint data ''GLOAS_FORK_EPOCH'' = Some e" "0 < e" "e \<noteq> forkUnscheduled"
    "FetchSchedule (Inr (Some data)) 0 = Inr (Some pre)" "FetchSchedule (Inr (Some data)) e = Inr (Some post)"
    "0 < gi_SecondsPerSlot g" "int (32 * e) * gi_SecondsPerSlot g \<le> int64_max"
    "Before daemonStart (GenesisInfo_SlotStart g (32 * e))" "\<not> Before asked (GenesisInfo_SlotStart g (32 * e))" "url \<noteq> []"
  shows "adoptNodeSchedule (Inr (Some data)) daemonStart g MainnetPreEPBS = pre \<and>
    ResolveSchedule url (Inr g) (Inr (Some data)) asked MainnetPreEPBS = post"
proof -
  note reached = currentEpoch_reached [OF assms(6,7)]
  have "post_epbs data (currentEpoch g daemonStart) = post_epbs data 0" "post_epbs data (currentEpoch g asked) = post_epbs data e"
    using reached [of daemonStart] reached [of asked] assms(1-3,8,9) by (auto simp: post_epbs_def)
  then have "FetchSchedule (Inr (Some data)) (currentEpoch g daemonStart) = Inr (Some pre)"
    "FetchSchedule (Inr (Some data)) (currentEpoch g asked) = Inr (Some post)"
    using FetchSchedule_fork assms(4,5) by metis+
  then show ?thesis using assms(10) by (simp add: ResolveSchedule_def adoptNodeSchedule_cases)
qed

section \<open>Mainnet and the fork\<close>

definition fork_spec :: spec_data where
  "fork_spec = [(''SECONDS_PER_SLOT'', JString ''12''), (''ATTESTATION_DUE_BPS'', JString ''3333''), (''AGGREGATE_DUE_BPS'', JString ''6667''),
     (''GLOAS_FORK_EPOCH'', JString ''10''), (''ATTESTATION_DUE_BPS_GLOAS'', JString ''2500''), (''PAYLOAD_DUE_BPS'', JString ''5000''),
     (''PAYLOAD_ATTESTATION_DUE_BPS'', JString ''7500''), (''BLOB_SCHEDULE'', JOther)]"

definition fork_genesis :: GenesisInfo where
  "fork_genesis = \<lparr>gi_GenesisTime = time_Unix 1600000000, gi_SecondsPerSlot = 12 * Second\<rparr>"

definition glamsterdam :: SlotSchedule where
  "glamsterdam = \<lparr>sched_SecondsPerSlot = 12 * Second, sched_AttestationDeadline = 3 * Second, sched_AggregationDeadline = 8 * Second,
     sched_PayloadRevealDeadline = 6 * Second, sched_PTCDeadline = 9 * Second\<rparr>"

lemma spec_numbers:
  "ParseUint ''12'' = Some 12" "ParseUint ''3333'' = Some 3333" "ParseUint ''6667'' = Some 6667" "ParseUint ''10'' = Some 10"
  "ParseUint ''2500'' = Some 2500" "ParseUint ''5000'' = Some 5000" "ParseUint ''7500'' = Some 7500"
  by (simp_all add: ParseUint_def digits_val_def digit_val_def is_digit_def)

lemma fork_spec_values:
  "specUint fork_spec ''SECONDS_PER_SLOT'' = Some 12" "specUint fork_spec ''ATTESTATION_DUE_BPS'' = Some 3333"
  "specUint fork_spec ''AGGREGATE_DUE_BPS'' = Some 6667" "specUint fork_spec ''GLOAS_FORK_EPOCH'' = Some 10"
  "specUint fork_spec ''ATTESTATION_DUE_BPS_GLOAS'' = Some 2500" "specUint fork_spec ''PAYLOAD_DUE_BPS'' = Some 5000"
  "specUint fork_spec ''PAYLOAD_ATTESTATION_DUE_BPS'' = Some 7500"
  by (simp_all add: specUint_def fork_spec_def spec_numbers)

text \<open>The documented boundaries: mainnet's constants give exactly 4 s and 8 s, the fork's 3 s, 6 s and 9 s.\<close>

lemma mainnet_deadlines:
  "deadlineFromBPS (12 * Second) 3333 = 4 * Second" "deadlineFromBPS (12 * Second) 6667 = 8 * Second"
  "deadlineFromBPS (12 * Second) 2500 = 3 * Second" "deadlineFromBPS (12 * Second) 5000 = 6 * Second"
  "deadlineFromBPS (12 * Second) 7500 = 9 * Second"
  by (simp_all add: deadlineFromBPS_def basisPoints_def wrap64_def Duration_Round_def go_rem_def go_div_def int64_max_def)

lemma fork_schedules:
  "FetchSchedule (Inr (Some fork_spec)) 0 = Inr (Some MainnetPreEPBS)" "FetchSchedule (Inr (Some fork_spec)) 10 = Inr (Some glamsterdam)"
proof -
  have "derive_schedule (12 * Second) 3333 6667 None = MainnetPreEPBS"
    "derive_schedule (12 * Second) 2500 6667 (Some (5000, 7500)) = glamsterdam"
    using mainnet_deadlines by (simp_all add: derive_schedule_def MainnetPreEPBS_def glamsterdam_def)
  moreover have "SlotSchedule_Validate MainnetPreEPBS = None" "SlotSchedule_Validate glamsterdam = None"
    by (simp_all add: SlotSchedule_Validate_def MainnetPreEPBS_def glamsterdam_def maxSupportedSlotDuration_def)
  ultimately show "FetchSchedule (Inr (Some fork_spec)) 0 = Inr (Some MainnetPreEPBS)"
    "FetchSchedule (Inr (Some fork_spec)) 10 = Inr (Some glamsterdam)"
    by (simp_all add: FetchSchedule_Some due_bps_def post_epbs_def fork_spec_values forkUnscheduled_def)
qed

end
