(* ===== verification/DutyTracking.thy ===== *)
theory DutyTracking
  imports Explain ClockStamp Pool StreamHealth NodeSchedule
begin

text \<open>
  \<open>internal/app/duty_tracking.go\<close> and \<open>internal/exporter/exporter.go\<close>: the duties of an epoch, the collection of one duty's
  facts, the marker that says the collection is complete, and the verdict counted for the duty. What the collector's calls
  answer, the clock readings and whether a statement reaches the database are the fields of \<open>track_env\<close>.
\<close>

section \<open>Duties of an epoch\<close>

definition watchDeadlineSlots :: int where "watchDeadlineSlots = 3"
definition inclusionPollSlack :: int where "inclusionPollSlack = 2"
definition dutyFetchRetry :: duration where "dutyFetchRetry = 5 * Second"

definition collectionWindowEnd :: "slot \<Rightarrow> gotime \<Rightarrow> duration \<Rightarrow> gotime" where
  "collectionWindowEnd s slotStart slotDuration =
     Add (Slot_CollectionWindowEnd s slotStart slotDuration) (wrap64 (inclusionPollSlack * slotDuration))"

definition dutyWindowOpen :: "gotime \<Rightarrow> gotime \<Rightarrow> duration \<Rightarrow> bool" where
  "dutyWindowOpen now slotStart slotDuration \<longleftrightarrow> Before now (Add slotStart (wrap64 (watchDeadlineSlots * slotDuration)))"

definition duty_draft :: "slot \<Rightarrow> ObservationKind \<Rightarrow> gotime \<Rightarrow> SourceID \<Rightarrow> validator_index \<Rightarrow> Observation" where
  "duty_draft s kind now src v =
     \<lparr>obs_Slot = s, obs_Kind = kind, obs_At = now, obs_ClockOffset = 0, obs_ClockMeasured = False, obs_ClockSampleAt = time_zero,
      obs_Source = src, obs_Attrs = [(AttrValidatorIndex, FormatUint (unat v))]\<rparr>"

text \<open>A write reaches the database, or the statement fails (a cancelled context, a busy file).\<close>

definition store_write :: "bool \<Rightarrow> Observation \<Rightarrow> database \<Rightarrow> store_error + database" where
  "store_write reaches ob db = (if reaches then WriteObservation ob db else Inl StoreBusy)"

text \<open>What the loop over the duties meets for one of them: the two clock reads, the tracker, and the statement.\<close>

record assign_env =
  ae_windowNow :: gotime
  ae_now :: gotime
  ae_clock :: "Tracker option"
  ae_reaches :: bool

fun assign_duties ::
  "GenesisInfo \<Rightarrow> duration \<Rightarrow> (AttesterDuty \<times> assign_env) list \<Rightarrow> database \<Rightarrow> database \<times> AttesterDuty list" where
  "assign_duties g maxAge [] db = (db, [])"
| "assign_duties g maxAge ((d, env) # rest) db =
     (let s = duty_Slot (ad_Duty d); v = duty_ValidatorIndex (ad_Duty d)
      in if \<not> dutyWindowOpen (ae_windowNow env) (GenesisInfo_SlotStart g (unat s)) (gi_SecondsPerSlot g) then assign_duties g maxAge rest db
         else case NewObservation (duty_draft s ObsDutyAssigned (ae_now env) SourceBeaconAPI v) of
           Inl _ \<Rightarrow> assign_duties g maxAge rest db
         | Inr ob \<Rightarrow>
             (case store_write (ae_reaches env) (stampClock (ae_clock env) maxAge ob) db of
                Inl _ \<Rightarrow> assign_duties g maxAge rest db
              | Inr db' \<Rightarrow> (let (db'', tracked) = assign_duties g maxAge rest db' in (db'', d # tracked))))"

text \<open>One turn of \<open>runDutyTracking\<close>: what it does and how long it then waits.\<close>

datatype duty_turn =
    AwaitGenesis duration
  | RetryFetch epoch duration
  | FetchAgain epoch
  | TrackEpoch epoch "AttesterDuty list" duration

definition slot_at :: "GenesisInfo \<Rightarrow> gotime \<Rightarrow> slot" where
  "slot_at g now = of_int (go_div (Sub now (gi_GenesisTime g)) (gi_SecondsPerSlot g))"

definition next_epoch_start :: "GenesisInfo \<Rightarrow> epoch \<Rightarrow> gotime" where
  "next_epoch_start g e = GenesisInfo_SlotStart g (unat (Epoch_FirstSlot (e + 1)))"

text \<open>\<open>now\<close> is the clock at the top of the turn, \<open>later\<close> the clock when the wait is computed.\<close>

definition duty_turn_at ::
  "GenesisInfo \<Rightarrow> gotime \<Rightarrow> gotime \<Rightarrow> (epoch \<Rightarrow> beacon_error + AttesterDuty list) \<Rightarrow> duty_turn" where
  "duty_turn_at g now later fetch =
     (let untilGenesis = Sub (gi_GenesisTime g) now
      in if untilGenesis > 0 then AwaitGenesis untilGenesis
         else let e = Slot_Epoch (slot_at g now)
              in case fetch e of
                   Inl _ \<Rightarrow>
                     (let retry = min dutyFetchRetry (Sub (next_epoch_start g e) later)
                      in if retry \<le> 0 then FetchAgain e else RetryFetch e retry)
                 | Inr duties \<Rightarrow> TrackEpoch e duties (Sub (next_epoch_start g e) later))"

section \<open>One duty\<close>

datatype track_step = StepBlockSeen | StepHeadUpdated | StepAttestationPublished | StepInclusion | StepPayload | StepCompleted

record track_env =
  te_slotCtxErr :: bool
  te_polls :: "track_step \<Rightarrow> beacon_error + Observation option"
  te_clock :: "track_step \<Rightarrow> Tracker option"
  te_reaches :: "track_step \<Rightarrow> bool"
  te_order :: "track_step list"
  te_endCtxErr :: bool
  te_now :: gotime
  te_open :: "store_error option"

record duty_state =
  ds_db :: database
  ds_failed :: bool
  ds_heads :: "headFanout option"

definition collect :: "track_env \<Rightarrow> duration \<Rightarrow> duty_state \<Rightarrow> track_step \<Rightarrow> duty_state" where
  "collect env maxAge st k =
     (case te_polls env k of
        Inl _ \<Rightarrow> st\<lparr>ds_failed := True\<rparr>
      | Inr None \<Rightarrow> st
      | Inr (Some ob) \<Rightarrow>
          (let trusted = stampClock (te_clock env k) maxAge ob
           in case store_write (te_reaches env k) trusted (ds_db st) of
                Inl _ \<Rightarrow> st\<lparr>ds_failed := True\<rparr>
              | Inr db' \<Rightarrow>
                  st\<lparr>ds_db := db',
                     ds_heads := (if k = StepHeadUpdated then fst (headFanout_send trusted (ds_heads st)) else ds_heads st)\<rparr>))"

definition mark_completed :: "track_env \<Rightarrow> duration \<Rightarrow> Duty \<Rightarrow> duty_state \<Rightarrow> duty_state" where
  "mark_completed env maxAge d st =
     (if ds_failed st then st
      else case NewObservation (duty_draft (duty_Slot d) ObsCollectionCompleted (te_now env) SourceDerived (duty_ValidatorIndex d)) of
        Inl _ \<Rightarrow> st
      | Inr completed \<Rightarrow>
          (case store_write (te_reaches env StepCompleted) (stampClock (te_clock env StepCompleted) maxAge completed) (ds_db st) of
             Inl _ \<Rightarrow> st
           | Inr db' \<Rightarrow> st\<lparr>ds_db := db'\<rparr>))"

text \<open>
  The three polls of the slot run at the same time; \<open>te_order\<close> is the order in which they finish. The second component is
  the verdict recorded, if any.
\<close>

definition trackDuty ::
  "int \<Rightarrow> track_env \<Rightarrow> AttesterDuty \<Rightarrow> SlotSchedule \<Rightarrow> Config \<Rightarrow> duration \<Rightarrow> duty_state \<Rightarrow> duty_state \<times> Verdict option" where
  "trackDuty oob env d schedule cfg maxAge st =
     (if te_slotCtxErr env then (st, None)
      else let st1 = foldl (collect env maxAge) st (te_order env);
               st2 = collect env maxAge st1 StepInclusion;
               st3 = (if SlotSchedule_IsPostEPBS schedule then collect env maxAge st2 StepPayload else st2)
           in if te_endCtxErr env then (st3, None)
              else let st4 = mark_completed env maxAge (ad_Duty d) st3;
                       opened = (case te_open env of Some e \<Rightarrow> Inl e | None \<Rightarrow> Inr (ds_db st4))
                   in (st4, case ExplainForValidator oob opened (duty_Slot (ad_Duty d)) (duty_ValidatorIndex (ad_Duty d)) schedule cfg of
                              Inl _ \<Rightarrow> None
                            | Inr v \<Rightarrow> Some v))"

section \<open>The exporter\<close>

fun Outcome_str :: "Outcome \<Rightarrow> string" where
  "Outcome_str OutcomeNoDuty = ''no_duty''"
| "Outcome_str OutcomeOK = ''ok''"
| "Outcome_str OutcomeDegraded = ''degraded''"
| "Outcome_str OutcomeMissed = ''missed''"
| "Outcome_str (OutcomeOther s) = s"

definition causeNone :: string where "causeNone = ''none''"

type_synonym series = "string \<times> string"

definition verdict_series :: "Verdict \<Rightarrow> series" where
  "verdict_series v =
     (let cause = CauseID_str (Verdict_ReportedCause v)
      in (if cause = [] then causeNone else cause, Outcome_str (v_Outcome v)))"

definition Exporter_Record :: "Verdict \<Rightarrow> (series \<Rightarrow> nat) \<Rightarrow> (series \<Rightarrow> nat)" where
  "Exporter_Record v counters = counters(verdict_series v := counters (verdict_series v) + 1)"

section \<open>What a tracked duty writes\<close>

definition stamped :: "track_env \<Rightarrow> duration \<Rightarrow> track_step \<Rightarrow> Observation \<Rightarrow> Observation" where
  "stamped env maxAge k ob = stampClock (te_clock env k) maxAge ob"

definition accepted :: "track_env \<Rightarrow> duration \<Rightarrow> track_step \<Rightarrow> Observation \<Rightarrow> bool" where
  "accepted env maxAge k ob \<longleftrightarrow> te_reaches env k \<and> Observation_Validate (stamped env maxAge k ob) = None \<and>
     unat (obs_Slot ob) \<le> MaxInt64"

text \<open>A step succeeds when its poll does and what it found is stored.\<close>

definition step_ok :: "track_env \<Rightarrow> duration \<Rightarrow> track_step \<Rightarrow> bool" where
  "step_ok env maxAge k \<longleftrightarrow>
     (case te_polls env k of Inl _ \<Rightarrow> False | Inr None \<Rightarrow> True | Inr (Some ob) \<Rightarrow> accepted env maxAge k ob)"

definition step_writes :: "track_env \<Rightarrow> duration \<Rightarrow> track_step \<Rightarrow> Observation list" where
  "step_writes env maxAge k =
     (case te_polls env k of Inr (Some ob) \<Rightarrow> if accepted env maxAge k ob then [stamped env maxAge k ob] else [] | _ \<Rightarrow> [])"

lemma stampClock_keeps [simp]:
  "obs_Slot (stampClock tr maxAge ob) = obs_Slot ob" "obs_Kind (stampClock tr maxAge ob) = obs_Kind ob"
  "obs_Attrs (stampClock tr maxAge ob) = obs_Attrs ob" "obs_Source (stampClock tr maxAge ob) = obs_Source ob"
  by (auto simp: stampClock_def stampClockProvenance_def Let_def split: option.split prod.split)

lemma store_write_accepted:
  "\<not> accepted env maxAge k ob \<Longrightarrow> \<exists>e. store_write (te_reaches env k) (stamped env maxAge k ob) db = Inl e"
  "accepted env maxAge k ob \<Longrightarrow> \<exists>db'. WriteObservation (stamped env maxAge k ob) db = Inr db'"
  by (auto simp: store_write_def accepted_def WriteObservation_def stamped_def split: option.splits)

lemma collect_writes:
  "write_all (step_writes env maxAge k) (ds_db st) = Inr (ds_db (collect env maxAge st k))"
  "ds_failed (collect env maxAge st k) = (ds_failed st \<or> \<not> step_ok env maxAge k)"
proof -
  consider (error) e where "te_polls env k = Inl e" | (none) "te_polls env k = Inr None"
    | (refused) ob where "te_polls env k = Inr (Some ob)" "\<not> accepted env maxAge k ob"
    | (written) ob where "te_polls env k = Inr (Some ob)" "accepted env maxAge k ob"
    by (metis option.exhaust sum.exhaust)
  then have "write_all (step_writes env maxAge k) (ds_db st) = Inr (ds_db (collect env maxAge st k)) \<and>
      ds_failed (collect env maxAge st k) = (ds_failed st \<or> \<not> step_ok env maxAge k)"
  proof cases
    case refused
    then show ?thesis using store_write_accepted(1) [OF refused(2), of "ds_db st"]
      by (auto simp: collect_def step_writes_def step_ok_def stamped_def)
  next
    case written
    obtain db' where "WriteObservation (stamped env maxAge k ob) (ds_db st) = Inr db'" using store_write_accepted(2) [OF written(2)] by blast
    then show ?thesis using written by (simp add: collect_def step_writes_def step_ok_def stamped_def store_write_def accepted_def)
  qed (simp_all add: collect_def step_writes_def step_ok_def)
  then show "write_all (step_writes env maxAge k) (ds_db st) = Inr (ds_db (collect env maxAge st k))"
    "ds_failed (collect env maxAge st k) = (ds_failed st \<or> \<not> step_ok env maxAge k)" by auto
qed

lemma write_all_append:
  "write_all (xs @ ys) db = (case write_all xs db of Inl e \<Rightarrow> Inl e | Inr db' \<Rightarrow> write_all ys db')"
  by (induction xs arbitrary: db) (auto split: sum.split)

lemma collects_writes:
  "write_all (concat (map (step_writes env maxAge) ks)) (ds_db st) = Inr (ds_db (foldl (collect env maxAge) st ks)) \<and>
   ds_failed (foldl (collect env maxAge) st ks) = (ds_failed st \<or> \<not> list_all (step_ok env maxAge) ks)"
proof (induction ks arbitrary: st)
  case (Cons k ks)
  then show ?case using collect_writes(1) [of env maxAge k st] collect_writes(2) [of env maxAge st k] by (auto simp: write_all_append)
qed simp

definition track_steps :: "track_env \<Rightarrow> SlotSchedule \<Rightarrow> track_step list" where
  "track_steps env schedule = te_order env @ [StepInclusion] @ (if SlotSchedule_IsPostEPBS schedule then [StepPayload] else [])"

definition completion_marker :: "track_env \<Rightarrow> duration \<Rightarrow> Duty \<Rightarrow> Observation" where
  "completion_marker env maxAge d =
     stamped env maxAge StepCompleted (duty_draft (duty_Slot d) ObsCollectionCompleted (te_now env) SourceDerived (duty_ValidatorIndex d))"

lemma duty_draft_lower [simp]: "map lower_root (obs_Attrs (duty_draft s k now src v)) = obs_Attrs (duty_draft s k now src v)"
  by (simp add: duty_draft_def lower_root_def)

lemma duty_draft_Slot [simp]: "obs_Slot (duty_draft s k now src v) = s"
  by (simp add: duty_draft_def)

lemma NewObservation_duty_draft:
  "NewObservation (duty_draft s k now src v) =
     (case Observation_Validate (duty_draft s k now src v) of Some e \<Rightarrow> Inl e | None \<Rightarrow> Inr (duty_draft s k now src v))"
  by (simp add: NewObservation_def split: option.split)

text \<open>The completion marker is stored exactly when nothing failed and it is itself a valid observation that reaches the database.\<close>

definition marker_ok :: "track_env \<Rightarrow> duration \<Rightarrow> Duty \<Rightarrow> bool" where
  "marker_ok env maxAge d \<longleftrightarrow>
     Observation_Validate (duty_draft (duty_Slot d) ObsCollectionCompleted (te_now env) SourceDerived (duty_ValidatorIndex d)) = None \<and>
     accepted env maxAge StepCompleted (duty_draft (duty_Slot d) ObsCollectionCompleted (te_now env) SourceDerived (duty_ValidatorIndex d))"

lemma mark_completed_writes:
  "write_all (if \<not> ds_failed st \<and> marker_ok env maxAge d then [completion_marker env maxAge d] else []) (ds_db st) =
     Inr (ds_db (mark_completed env maxAge d st))"
proof -
  let ?c = "duty_draft (duty_Slot d) ObsCollectionCompleted (te_now env) SourceDerived (duty_ValidatorIndex d)"
  consider "ds_failed st \<or> Observation_Validate ?c \<noteq> None" | (refused) "\<not> ds_failed st" "Observation_Validate ?c = None" "\<not> accepted env maxAge StepCompleted ?c"
    | (written) "\<not> ds_failed st" "Observation_Validate ?c = None" "accepted env maxAge StepCompleted ?c" by blast
  then show ?thesis
  proof cases
    case 1
    then show ?thesis by (auto simp: mark_completed_def NewObservation_duty_draft marker_ok_def split: option.split)
  next
    case refused
    then show ?thesis using store_write_accepted(1) [OF refused(3), of "ds_db st"]
      by (auto simp: mark_completed_def NewObservation_duty_draft marker_ok_def stamped_def)
  next
    case written
    obtain db' where "WriteObservation (stamped env maxAge StepCompleted ?c) (ds_db st) = Inr db'" using store_write_accepted(2) [OF written(3)] by blast
    then show ?thesis using written
      by (simp add: mark_completed_def NewObservation_duty_draft marker_ok_def completion_marker_def stamped_def store_write_def accepted_def)
  qed
qed

lemma trackDuty_writes:
  assumes "\<not> te_slotCtxErr env" "\<not> ds_failed st"
  shows "write_all
     (concat (map (step_writes env maxAge) (track_steps env schedule)) @
      (if \<not> te_endCtxErr env \<and> list_all (step_ok env maxAge) (track_steps env schedule) \<and> marker_ok env maxAge (ad_Duty d)
       then [completion_marker env maxAge (ad_Duty d)] else []))
     (ds_db st) = Inr (ds_db (fst (trackDuty oob env d schedule cfg maxAge st)))"
proof -
  define st3 where "st3 = foldl (collect env maxAge) st (track_steps env schedule)"
  have st3: "(let st1 = foldl (collect env maxAge) st (te_order env); st2 = collect env maxAge st1 StepInclusion
      in if SlotSchedule_IsPostEPBS schedule then collect env maxAge st2 StepPayload else st2) = st3"
    by (simp add: st3_def track_steps_def Let_def)
  have db: "ds_db (fst (trackDuty oob env d schedule cfg maxAge st)) =
      (if te_endCtxErr env then ds_db st3 else ds_db (mark_completed env maxAge (ad_Duty d) st3))"
    using st3 assms(1) by (auto simp: trackDuty_def Let_def)
  have w: "write_all (concat (map (step_writes env maxAge) (track_steps env schedule))) (ds_db st) = Inr (ds_db st3)"
    and f: "ds_failed st3 = (\<not> list_all (step_ok env maxAge) (track_steps env schedule))"
    using collects_writes [of env maxAge "track_steps env schedule" st] assms(2) by (simp_all add: st3_def)
  show ?thesis
  proof (cases "te_endCtxErr env")
    case True
    then show ?thesis using w db by simp
  next
    case False
    then show ?thesis using w db f mark_completed_writes [of st3 env maxAge "ad_Duty d"] by (simp add: write_all_append)
  qed
qed

text \<open>
  Property C9: a duty is marked complete only when it is. From a fresh state, tracking a duty appends to the store what
  its steps found, in the order in which they finished, and then the completion marker exactly when the daemon is still running
  and every step of the duty, the payload vote after the fork included, was polled and stored without an error.
\<close>

theorem trackDuty_completion:
  assumes "\<not> te_slotCtxErr env" "\<not> ds_failed st"
  shows "\<exists>obs. write_all obs (ds_db st) = Inr (ds_db (fst (trackDuty oob env d schedule cfg maxAge st))) \<and>
    obs = concat (map (step_writes env maxAge) (track_steps env schedule)) @
      (if \<not> te_endCtxErr env \<and> list_all (step_ok env maxAge) (track_steps env schedule) \<and> marker_ok env maxAge (ad_Duty d)
       then [completion_marker env maxAge (ad_Duty d)] else [])"
  using trackDuty_writes [OF assms] by blast

section \<open>When the marker is accepted\<close>

lemma stampClock_At: "obs_ClockOffset ob = 0 \<Longrightarrow> obs_Kind ob \<noteq> ObsSlotStart \<Longrightarrow>
    t_ns (obs_At (stampClock tr maxAge ob)) = t_ns (obs_At ob) + obs_ClockOffset (stampClock tr maxAge ob)"
  by (auto simp: stampClock_def stampClockProvenance_def Let_def in_UTC_def split: option.split prod.split)

lemma completion_marker_sel [simp]:
  "obs_Slot (completion_marker env maxAge d) = duty_Slot d" "obs_Kind (completion_marker env maxAge d) = ObsCollectionCompleted"
  "obs_Attrs (completion_marker env maxAge d) = [(AttrValidatorIndex, FormatUint (unat (duty_ValidatorIndex d)))]"
  "t_ns (obs_At (completion_marker env maxAge d)) = t_ns (te_now env) + obs_ClockOffset (completion_marker env maxAge d)"
  using stampClock_At [of "duty_draft (duty_Slot d) ObsCollectionCompleted (te_now env) SourceDerived (duty_ValidatorIndex d)"]
  by (simp_all add: completion_marker_def stamped_def duty_draft_def)

lemma collectionWindowEnd_slack:
  assumes "0 < sec" "sec \<le> Minute"
  shows "t_ns (collectionWindowEnd s start sec) = t_ns (Slot_CollectionWindowEnd s start sec) + 2 * sec"
proof -
  have "wrap64 (2 * sec) = 2 * sec" using assms by (simp add: wrap64_def)
  then show ?thesis by (simp add: collectionWindowEnd_def inclusionPollSlack_def)
qed

text \<open>
  A marker written once the wait is over lies past the inclusion window, whatever the lateness, unless the local clock is
  more than the two slots of slack ahead of the server.
\<close>

lemma completion_marker_after_window:
  assumes "0 < sec" "sec \<le> Minute" "\<not> Before (te_now env) (collectionWindowEnd s start sec)"
    "- 2 * sec \<le> obs_ClockOffset (completion_marker env maxAge d)"
  shows "\<not> Before (obs_At (completion_marker env maxAge d)) (Slot_CollectionWindowEnd s start sec)"
  using assms collectionWindowEnd_slack [OF assms(1,2)] by (simp add: Before_def)

lemma list_all2_to: "list_all2 P xs ys \<Longrightarrow> x \<in> set xs \<Longrightarrow> \<exists>y \<in> set ys. P x y"
  by (induction rule: list_all2_induct) auto

lemma json_text_digits: "list_all is_digit s \<Longrightarrow> json_text s = s"
proof (induction s)
  case (Cons c s)
  then have "of_char c < (128 :: nat)" by (simp add: is_digit_def)
  with Cons show ?case by (simp add: Let_def)
qed simp

text \<open>A slot whose stored completion of a duty precedes the end of the inclusion window has no verdict for that duty.\<close>

lemma early_completion_unexplained:
  assumes row: "observation_row i ob \<in> set (db_observations db)" "obs_Kind ob = ObsCollectionCompleted" "obs_Slot ob = s"
      "obs_Attrs ob = [(AttrValidatorIndex, FormatUint (unat v))]" "storable_time (obs_At ob)"
    and starts: "\<forall>r \<in> set (db_observations db). or_slot r = int (unat s) \<and> or_kind r = ObsSlotStart \<longrightarrow> parse_timeLayout (or_at r) = Some start"
    and early: "Before (obs_At ob) (Slot_CollectionWindowEnd s start (sched_SecondsPerSlot schedule))"
  shows "ExplainForValidator oob (Inr db) s v schedule cfg \<noteq> Inr r"
proof
  assume "ExplainForValidator oob (Inr db) s v schedule cfg = Inr r"
  then obtain t found obs duty reorgs first samples where found: "ObservationsForSlot s db = Inr found"
    and sel: "selectDutyObservations s found (Some v) = Inr (obs, duty)" and re: "load_window_reorgs s duty db = Inr reorgs"
    and first: "List.find (\<lambda>ob. obs_Kind ob = ObsSlotStart) obs = Some first"
    and asm: "assemble_slot oob schedule s (obs_At first) obs reorgs duty samples = Inr t"
    by (auto simp: ExplainForValidator_Inr GetTimeline_Inr)
  note selD = sel [unfolded selectDutyObservations_Some]
  have re: "\<forall>ob \<in> set reorgs. window_reorg s ob"
    using re selD ReorgsBetweenSlots_window by (auto simp: load_window_reorgs_def attester_duty_def)
  have f: "\<forall>ob \<in> set obs. obs_Slot ob = s" using selected_subset [OF sel] ObservationsForSlot_slot [OF found] by blast
  have facts: "Timeline_Validate t = None \<and> tl_Slot t = s \<and> tl_SlotStart t = obs_At first \<and> tl_Schedule t = schedule \<and> tl_Duty t = duty \<and>
      mset (tl_Observations t) = mset obs \<and> mset (tl_Reorgs t) = mset reorgs \<and> mset (tl_Samples t) = mset samples"
    using selD by (intro assemble_slot_facts [OF asm _ f re]) (simp add: attester_duty_def)
  have rows: "list_all2 (\<lambda>r ob. scanObservation r = Inr ob) (slot_rows s db) found" using found by (simp add: ObservationsForSlot_Inr)
  have start: "obs_At first = start"
  proof -
    have "first \<in> set found" "obs_Kind first = ObsSlotStart" using find_SomeD [OF first] selected_subset [OF sel] by auto
    then obtain q where "q \<in> set (slot_rows s db)" "scanObservation q = Inr first" using list_all2_from [OF rows] by blast
    then show ?thesis using scanObservation_InrD [of q first] starts \<open>obs_Kind first = ObsSlotStart\<close> by (auto simp: slot_rows_def)
  qed
  obtain m where m: "m \<in> set found" "scanObservation (observation_row i ob) = Inr m"
  proof -
    have "observation_row i ob \<in> set (slot_rows s db)" using row by (simp add: slot_rows_def observation_row_def)
    with that list_all2_to [OF rows] show ?thesis by blast
  qed
  have ms: "obs_Kind m = ObsCollectionCompleted" "obs_At m = obs_At ob" "observationValidator m = Inr v"
    using scanObservation_InrD [OF m(2)] row parse_format_timeLayout [OF row(5)] json_text_digits [of "FormatUint (unat v)"]
    by (simp_all add: observation_row_def observationValidator_def Observation_Attr_def lower_root_def FormatUint_digits ParseUint_FormatUint unat64_less)
  have "m \<in> set obs" using m(1) ms selD by (auto simp: evidence_for_def)
  then have "m \<in> set (tl_Observations t)" using facts mset_eq_setD by metis
  then have "m \<in> set (completions t)" by (simp add: completions_def ms)
  moreover have "length (completions t) \<le> 1" using Timeline_ValidateD(11) facts by blast
  ultimately have c: "completions t = [m]" by (cases "completions t") auto
  have "validate_completion t = None" using facts by (simp add: Timeline_Validate_def)
  then show False using c facts selD start early ms by (simp add: validate_completion_def attester_duty_def)
qed

lemma WriteObservation_rows:
  "WriteObservation ob db = Inr db' \<Longrightarrow> db_observations db' = db_observations db @ [observation_row (db_next_observation db) ob]"
  by (auto simp: WriteObservation_def split: option.splits if_splits)

lemma write_all_rows:
  "write_all obs db = Inr db' \<Longrightarrow>
     (\<forall>r \<in> set (db_observations db'). r \<in> set (db_observations db) \<or> (\<exists>i. \<exists>ob \<in> set obs. r = observation_row i ob)) \<and>
     (\<forall>ob \<in> set obs. \<exists>i. observation_row i ob \<in> set (db_observations db')) \<and> set (db_observations db) \<subseteq> set (db_observations db')"
proof (induction obs arbitrary: db)
  case (Cons ob obs)
  then obtain db1 where w: "WriteObservation ob db = Inr db1" "write_all obs db1 = Inr db'" by (auto split: sum.splits)
  from Cons.IH [OF w(2)] WriteObservation_rows [OF w(1)] show ?case by auto
qed simp

lemma trackDuty_verdict:
  assumes "\<not> te_slotCtxErr env" "\<not> te_endCtxErr env"
  shows "snd (trackDuty oob env d schedule cfg maxAge st) =
    (case ExplainForValidator oob (case te_open env of Some e \<Rightarrow> Inl e | None \<Rightarrow> Inr (ds_db (fst (trackDuty oob env d schedule cfg maxAge st))))
            (duty_Slot (ad_Duty d)) (duty_ValidatorIndex (ad_Duty d)) schedule cfg of
       Inl _ \<Rightarrow> None | Inr v \<Rightarrow> Some v)"
  using assms by (cases "te_open env") (simp_all add: trackDuty_def Let_def)

text \<open>
  Property C10: a clock far ahead costs the verdict. When every step of a duty succeeds and its completion marker is stored,
  but correcting the marker by the measured offset puts it before the end of the inclusion window (the local clock is more
  than two slots fast), no verdict is recorded for the duty at all, although the drift rule exists to report such a clock.
\<close>

theorem fast_clock_loses_verdict:
  fixes env :: track_env and d :: AttesterDuty and maxAge :: duration
  defines "marker \<equiv> completion_marker env maxAge (ad_Duty d)"
  assumes "\<not> te_slotCtxErr env" "\<not> te_endCtxErr env" "\<not> ds_failed st"
    and ok: "list_all (step_ok env maxAge) (track_steps env schedule)" "marker_ok env maxAge (ad_Duty d)"
    and starts: "list_all (\<lambda>r. or_slot r = int (unat (duty_Slot (ad_Duty d))) \<and> or_kind r = ObsSlotStart \<longrightarrow>
      parse_timeLayout (or_at r) = Some start) (db_observations (ds_db st))"
    and kinds: "list_all (\<lambda>k. list_all (\<lambda>ob. obs_Kind ob \<noteq> ObsSlotStart) (step_writes env maxAge k)) (track_steps env schedule)"
    and mt: "storable_time (obs_At marker)"
    and fast: "t_ns (te_now env) + obs_ClockOffset marker <
      t_ns (Slot_CollectionWindowEnd (duty_Slot (ad_Duty d)) start (sched_SecondsPerSlot schedule))"
  shows "snd (trackDuty oob env d schedule cfg maxAge st) = None"
proof -
  let ?s = "duty_Slot (ad_Duty d)" and ?v = "duty_ValidatorIndex (ad_Duty d)"
  define db where "db = ds_db (fst (trackDuty oob env d schedule cfg maxAge st))"
  define obs where "obs = concat (map (step_writes env maxAge) (track_steps env schedule)) @ [marker]"
  have w: "write_all obs (ds_db st) = Inr db"
    using trackDuty_writes [of env st maxAge schedule d oob cfg] assms(2-4) ok by (simp add: db_def obs_def marker_def)
  note rows = write_all_rows [OF w]
  obtain i where i: "observation_row i marker \<in> set (db_observations db)" using rows by (auto simp: obs_def)
  have kind: "obs_Kind ob \<noteq> ObsSlotStart" if "ob \<in> set obs" for ob
    using that kinds by (auto simp: obs_def list_all_iff marker_def)
  have "\<forall>r \<in> set (db_observations db). or_slot r = int (unat ?s) \<and> or_kind r = ObsSlotStart \<longrightarrow> parse_timeLayout (or_at r) = Some start"
    using rows kind starts by (auto simp: list_all_iff observation_row_def) 
  then have "ExplainForValidator oob (Inr db) ?s ?v schedule cfg \<noteq> Inr r" for r
    using i mt fast by (intro early_completion_unexplained [of i marker]) (simp_all add: marker_def Before_def)
  moreover have "ExplainForValidator oob (Inl e) ?s ?v schedule cfg \<noteq> Inr r" for e r
    by (simp add: ExplainForValidator_def GetTimelineForValidatorSelection_def)
  ultimately show ?thesis
    using trackDuty_verdict [OF assms(2,3), of oob d schedule cfg maxAge st] by (auto simp: db_def split: sum.splits option.splits)
qed

section \<open>Duties under way at a start\<close>

lemma dutyWindowOpen_iff:
  assumes "0 < sec" "sec \<le> Minute"
  shows "dutyWindowOpen now start sec \<longleftrightarrow> t_ns now < t_ns start + 3 * sec"
proof -
  have "wrap64 (3 * sec) = 3 * sec" using assms by (simp add: wrap64_def)
  then show ?thesis by (simp add: dutyWindowOpen_def watchDeadlineSlots_def Before_def)
qed

text \<open>A duty is tracked when its window is open and its assignment can be stored.\<close>

definition trackable :: "GenesisInfo \<Rightarrow> duration \<Rightarrow> AttesterDuty \<times> assign_env \<Rightarrow> bool" where
  "trackable g maxAge = (\<lambda>(d, env).
     let ob = duty_draft (duty_Slot (ad_Duty d)) ObsDutyAssigned (ae_now env) SourceBeaconAPI (duty_ValidatorIndex (ad_Duty d))
     in dutyWindowOpen (ae_windowNow env) (GenesisInfo_SlotStart g (unat (duty_Slot (ad_Duty d)))) (gi_SecondsPerSlot g) \<and>
        Observation_Validate ob = None \<and> ae_reaches env \<and> Observation_Validate (stampClock (ae_clock env) maxAge ob) = None \<and>
        unat (duty_Slot (ad_Duty d)) \<le> MaxInt64)"

lemma assign_duties_tracked:
  assumes "assign_duties g maxAge ds db = (db', tracked)"
  shows "tracked = map fst (filter (trackable g maxAge) ds)"
  using assms
proof (induction ds arbitrary: db db' tracked)
  case (Cons x ds)
  obtain d env where x: "x = (d, env)" by fastforce
  from Cons show ?case
    by (auto simp: x trackable_def Let_def NewObservation_duty_draft store_write_def WriteObservation_def
        split: option.splits if_splits prod.splits sum.splits)
qed simp

lemma published_time:
  assumes "AttestationPublished d deadline polls = Some (Inr (Some ob))"
  shows "\<exists>p \<in> set polls. obs_At ob = pp_now p"
proof -
  obtain before p after att where p: "polls = before @ p # after" "found_observation (published_draft d att (pp_now p)) = Inr (Some ob)"
    using AttestationPublished_first [OF assms] by blast
  have "obs_At ob = pp_now p"
    using p(2) by (auto simp: found_observation_def NewObservation_def published_draft_def beacon_draft_def split: option.splits)
  with p(1) show ?thesis by auto
qed

text \<open>
  A daemon started in the middle of a duty misdates its publication. A duty fetched up to three slots after its
  slot began is still tracked, and whatever publication the daemon then finds in the pool is dated by its own first poll: when
  it started after the attestation deadline the attestation counts as published late, however early it really was.
\<close>

lemma late_start_dates_publication_late:
  assumes "assign_duties g maxAge ds db = (db', tracked)" "(d, env) \<in> set ds" "trackable g maxAge (d, env)"
    and "After (ae_windowNow env) (SlotSchedule_AttestationDeadlineAt schedule (GenesisInfo_SlotStart g (unat (duty_Slot (ad_Duty d)))))"
    and "list_all (\<lambda>p. \<not> Before (pp_now p) (ae_windowNow env)) polls"
    and "AttestationPublished d watchDeadline polls = Some (Inr (Some ob))"
  shows "d \<in> set tracked \<and>
    After (obs_At ob) (SlotSchedule_AttestationDeadlineAt schedule (GenesisInfo_SlotStart g (unat (duty_Slot (ad_Duty d)))))"
proof
  show "d \<in> set tracked" using assign_duties_tracked [OF assms(1)] assms(2,3) by force
  obtain p where p: "p \<in> set polls" "obs_At ob = pp_now p" using published_time [OF assms(6)] by blast
  then have "\<not> Before (pp_now p) (ae_windowNow env)" using assms(5) by (simp add: list_all_iff)
  then show "After (obs_At ob) (SlotSchedule_AttestationDeadlineAt schedule (GenesisInfo_SlotStart g (unat (duty_Slot (ad_Duty d)))))"
    using assms(4) p(2) by (simp add: After_def Before_def)
qed

section \<open>Epoch by epoch\<close>

lemma slot_at_epoch:
  assumes "0 < gi_SecondsPerSlot g" "\<not> Before now (gi_GenesisTime g)"
  shows "unat (Slot_Epoch (slot_at g now)) = currentEpoch g now"
proof -
  define k where "k = Sub now (gi_GenesisTime g)"
  have k: "0 \<le> k" "k \<le> int64_max" using assms(2) by (simp_all add: k_def Sub_def clamp64_def Before_def int64_defs)
  have "k div gi_SecondsPerSlot g \<le> k" using zdiv_mono2 [OF k(1), of 1 "gi_SecondsPerSlot g"] assms(1) by simp
  then have lt: "k div gi_SecondsPerSlot g < 2 ^ 64" using k(2) by (simp add: int64_max_def)
  have "0 \<le> k div gi_SecondsPerSlot g" using k(1) assms(1) by (simp add: pos_imp_zdiv_nonneg_iff)
  then obtain n where n: "k div gi_SecondsPerSlot g = int n" using nonneg_int_cases by blast
  with lt have "n < 2 ^ 64" by simp
  with n have "unat (of_int (k div gi_SecondsPerSlot g) :: 64 word) = nat (k div gi_SecondsPerSlot g)" by (simp add: unat_of_nat)
  then show ?thesis using assms k by (simp add: unat_Slot_Epoch slot_at_def currentEpoch_def SlotsPerEpoch_def k_def)
qed

lemma next_epoch_start_exact:
  assumes "0 < gi_SecondsPerSlot g" "int (32 * (unat e + 1)) * gi_SecondsPerSlot g \<le> int64_max"
  shows "next_epoch_start g e = GenesisInfo_SlotStart g (32 * (unat e + 1))"
proof -
  have "int n * 1 \<le> int n * gi_SecondsPerSlot g" for n using assms(1) by (intro mult_left_mono) auto
  then have "int (32 * (unat e + 1)) \<le> int64_max" using assms(2) by (metis order_trans mult.right_neutral)
  then have "int (32 * (unat e + 1)) < int (2 ^ 63)" by (simp add: int64_max_def)
  then have small: "32 * (unat e + 1) < 2 ^ 63" by (simp only: of_nat_less_iff)
  have "unat (e + 1) = unat e + 1" using small by (simp add: unat_word_ariths)
  with small have "unat (Epoch_FirstSlot (e + 1)) = 32 * (unat e + 1)"
    by (simp add: Epoch_FirstSlot_def SlotsPerEpoch_def unat_word_ariths)
  then show ?thesis by (simp add: next_epoch_start_def)
qed


section \<open>The series of the exporter\<close>

definition series_labels :: "series set" where
  "series_labels = set (map CauseID_str CauseIDs @ [causeNone]) \<times> {''no_duty'', ''ok'', ''degraded'', ''missed''}"

lemma CauseID_Valid_listed: "CauseID_Valid c \<Longrightarrow> c \<in> set CauseIDs"
  by (cases c) (simp_all add: CauseIDs_def)

text \<open>
  The exporter's series are bounded. Recording any sequence of valid verdicts touches at most 80 series: the 19
  documented causes and \<open>none\<close>, times the four outcomes; and the counters add up to the number of verdicts.
\<close>

lemma exporter_series_bounded:
  assumes "list_all (\<lambda>v. Verdict_Validate v = None) vs"
  shows "card series_labels = 80 \<and> {l. foldr Exporter_Record vs (\<lambda>_. 0) l \<noteq> 0} \<subseteq> series_labels \<and>
    sum (foldr Exporter_Record vs (\<lambda>_. 0)) series_labels = length vs"
proof -
  have card: "card series_labels = 80"
    by (simp add: series_labels_def card_cartesian_product CauseIDs_def causeNone_def)
  have fin: "finite series_labels" by (simp add: series_labels_def)
  have label: "verdict_series v \<in> series_labels" if "Verdict_Validate v = None" for v
  proof -
    have o: "Outcome_str (v_Outcome v) \<in> {''no_duty'', ''ok'', ''degraded'', ''missed''}"
      using that by (cases "v_Outcome v") (auto simp: Verdict_Validate_def)
    have "CauseID_str (Verdict_ReportedCause v) = [] \<or> CauseID_Valid (Verdict_ReportedCause v)"
      using that by (auto simp: Verdict_Validate_def Verdict_validateCause_def Verdict_ReportedCause_def split: if_splits)
    then have "(if CauseID_str (Verdict_ReportedCause v) = [] then causeNone else CauseID_str (Verdict_ReportedCause v))
        \<in> set (map CauseID_str CauseIDs @ [causeNone])"
      using CauseID_Valid_listed [of "Verdict_ReportedCause v"] by auto
    with o show ?thesis by (simp only: verdict_series_def series_labels_def Let_def mem_Times_iff fst_conv snd_conv simp_thms)
  qed
  have "{l. foldr Exporter_Record vs (\<lambda>_. 0) l \<noteq> 0} \<subseteq> series_labels \<and> sum (foldr Exporter_Record vs (\<lambda>_. 0)) series_labels = length vs"
    using assms
  proof (induction vs)
    case (Cons v vs)
    let ?c = "foldr Exporter_Record vs (\<lambda>_. 0)" and ?l = "verdict_series v"
    have l: "?l \<in> series_labels" using label Cons.prems by simp
    have step: "foldr Exporter_Record (v # vs) (\<lambda>_. 0) = ?c(?l := ?c ?l + 1)" by (simp add: Exporter_Record_def)
    have "sum (?c(?l := ?c ?l + 1)) series_labels = sum ?c series_labels + 1"
      using fin l by (simp add: sum.remove [OF fin l])
    moreover have "{x. (?c(?l := ?c ?l + 1)) x \<noteq> 0} \<subseteq> series_labels" using Cons l by auto
    ultimately show ?case unfolding step using Cons by simp
  qed simp
  with card show ?thesis by blast
qed

section \<open>A duty in full\<close>

text \<open>Validator 7 owes an attestation in slot 100 of the shared slot; the local clock is \<open>fast\<close> nanoseconds ahead.\<close>

definition fast_tracker :: "duration \<Rightarrow> Tracker" where
  "fast_tracker fast = \<lparr>tr_last = \<lparr>rd_Server = ''ntp:123'', rd_At = Add ex_start 740000000000, rd_Offset = - fast, rd_RoundTrip = 4000000\<rparr>,
     tr_syncAt = Add ex_start 740000000000, tr_have = True\<rparr>"

definition quiet_env :: "duration \<Rightarrow> track_env" where
  "quiet_env fast =
     \<lparr>te_slotCtxErr = False, te_polls = (\<lambda>_. Inr None), te_clock = (\<lambda>_. Some (fast_tracker fast)), te_reaches = (\<lambda>_. True),
      te_order = [StepHeadUpdated, StepBlockSeen, StepAttestationPublished], te_endCtxErr = False,
      te_now = Add ex_start 744000000000, te_open = None\<rparr>"

definition fresh_state :: duty_state where
  "fresh_state = \<lparr>ds_db = shared_db, ds_failed = False, ds_heads = None\<rparr>"

lemma quiet_steps:
  "\<not> te_slotCtxErr (quiet_env f)" "\<not> te_endCtxErr (quiet_env f)" "\<not> ds_failed fresh_state"
  "list_all (step_ok (quiet_env f) maxAge) (track_steps (quiet_env f) MainnetPreEPBS)"
  "step_writes (quiet_env f) maxAge k = []"
  by (simp_all add: quiet_env_def fresh_state_def step_ok_def step_writes_def track_steps_def SlotSchedule_IsPostEPBS_def)

lemma quiet_now: "te_now (quiet_env f) = Add ex_start 744000000000" "duty_Slot (ad_Duty ex_attester) = 100"
  by (simp_all add: quiet_env_def ex_attester_def)

lemma quiet_marker:
  "completion_marker (quiet_env 25000000000) 60000000000 (ad_Duty ex_attester) =
     \<lparr>obs_Slot = 100, obs_Kind = ObsCollectionCompleted, obs_At = Add ex_start 719000000000, obs_ClockOffset = - 25000000000,
      obs_ClockMeasured = True, obs_ClockSampleAt = Add ex_start 715000000000, obs_Source = SourceDerived,
      obs_Attrs = [(AttrValidatorIndex, FormatUint 7)]\<rparr>"
  by (simp add: completion_marker_def stamped_def stampClock_def stampClockProvenance_def LastKnownGood_def quiet_env_def fast_tracker_def
      duty_draft_def ex_attester_def absoluteDuration_def Sub_def clamp64_def int64_defs in_UTC_def Add_def ex_start_def IsZero_def time_zero_def)

lemma seven_attr: "is_uint (FormatUint 7)" "length (FormatUint 7) = 1"
  by (simp_all add: is_uint_def ParseUint_FormatUint) (simp add: FormatUint_eval)

lemma quiet_marker_ok: "marker_ok (quiet_env 25000000000) 60000000000 (ad_Duty ex_attester)"
proof -
  let ?c = "duty_draft (duty_Slot (ad_Duty ex_attester)) ObsCollectionCompleted (te_now (quiet_env 25000000000)) SourceDerived
    (duty_ValidatorIndex (ad_Duty ex_attester))"
  have "Observation_Validate ?c = None"
    by (simp add: duty_draft_def ex_attester_def quiet_env_def ex_start_def ex_validate seven_attr time_zero_def)
  moreover have "accepted (quiet_env 25000000000) 60000000000 StepCompleted ?c"
    using quiet_marker unfolding completion_marker_def accepted_def
    by (simp add: ex_start_def ex_validate seven_attr MaxInt64_def ex_attester_def quiet_env_def)
  ultimately show ?thesis by (simp add: marker_ok_def)
qed

theorem trackDuty_completion_witness:
  "\<exists>db. write_all [completion_marker (quiet_env 25000000000) 60000000000 (ad_Duty ex_attester)] shared_db = Inr db \<and>
     db = ds_db (fst (trackDuty 0 (quiet_env 25000000000) ex_attester MainnetPreEPBS DefaultConfig 60000000000 fresh_state))"
proof -
  have none: "concat (map (step_writes (quiet_env 25000000000) 60000000000) (track_steps (quiet_env 25000000000) MainnetPreEPBS)) = []"
    by (simp add: quiet_steps(5))
  show ?thesis
    using trackDuty_completion [OF quiet_steps(1) [of 25000000000] quiet_steps(3), where maxAge = 60000000000 and schedule = MainnetPreEPBS and
        d = ex_attester and oob = 0 and cfg = DefaultConfig] quiet_steps(2,4) quiet_marker_ok
    unfolding none by (simp add: fresh_state_def)
qed

theorem fast_clock_loses_verdict_witness:
  "snd (trackDuty 0 (quiet_env 25000000000) ex_attester MainnetPreEPBS DefaultConfig 60000000000 fresh_state) = None"
proof (rule fast_clock_loses_verdict [where start = ex_start, OF quiet_steps(1-4) quiet_marker_ok])
  have "storable_time ex_start" "Add ex_start 0 = ex_start" by (simp_all add: storable_time_def ex_start_def Add_def)
  then show "list_all (\<lambda>r. or_slot r = int (unat (duty_Slot (ad_Duty ex_attester))) \<and> or_kind r = ObsSlotStart \<longrightarrow>
      parse_timeLayout (or_at r) = Some ex_start) (db_observations (ds_db fresh_state))"
    using parse_format_timeLayout [of ex_start]
    by (simp add: fresh_state_def shared_db_def shared_slot_def observation_row_def ex_obs_def Add_def)
qed (simp_all add: quiet_steps(5) list_all_iff quiet_marker storable_time_def ex_start_def quiet_now ex_window_end del: completion_marker_sel)

lemma chain_turn:
  "duty_turn_at fork_genesis (GenesisInfo_SlotStart fork_genesis 100) (GenesisInfo_SlotStart fork_genesis 100) (\<lambda>_. Inl ErrTimeout) =
     RetryFetch 3 (5 * Second)"
  by (simp add: duty_turn_at_def slot_at_def next_epoch_start_def GenesisInfo_SlotStart_def fork_genesis_def time_Unix_def wrap64_def
      Sub_def clamp64_def int64_defs Slot_Epoch_def Epoch_FirstSlot_def SlotsPerEpoch_def dutyFetchRetry_def)


definition pool_attestation :: apiAttestation where
  "pool_attestation = \<lparr>att_AggregationBits = ''0x06'', att_CommitteeBits = [], att_Slot = ''100'', att_Index = ''1'',
     att_BeaconBlockRoot = [], att_TargetEpoch = ''3'', att_TargetRoot = []\<rparr>"

lemma pool_shows_validator: "poolIncludesAttestation nodes ex_attester (Inr (Some [pool_attestation])) = Inr (True, pool_attestation)"
proof -
  have "bitSet ''0x06'' 1 = Inr True" by code_simp
  moreover have "FormatUint 100 = ''100''" by code_simp
  moreover have "FormatUint 1 = ''1''" by code_simp
  ultimately show ?thesis
    by (simp add: poolIncludesAttestation_def attestationIncludesValidator_def pool_attestation_def ex_attester_def)
qed

text \<open>The daemon comes up 18 s into the slot; the attestation has been in the pool since before the deadline.\<close>

definition late_env :: assign_env where
  "late_env = \<lparr>ae_windowNow = Add ex_start 18000000000, ae_now = Add ex_start 18000000000, ae_clock = None, ae_reaches = True\<rparr>"

definition late_poll :: pool_poll where
  "late_poll = \<lparr>pp_response = Inr (Some [pool_attestation]), pp_committees = (\<lambda>_. Inl ErrMissing), pp_now = Add ex_start 18500000000,
     pp_ctxErr = False, pp_ctxDone = False\<rparr>"

definition late_genesis :: GenesisInfo where
  "late_genesis = \<lparr>gi_GenesisTime = Add ex_start (- 1200000000000), gi_SecondsPerSlot = 12 * Second\<rparr>"

lemma late_slot_start: "GenesisInfo_SlotStart late_genesis 100 = ex_start"
  by (simp add: GenesisInfo_SlotStart_def late_genesis_def Add_def ex_start_def int64_max_def)

end
