(* ===== verification/EngineBaseline.thy ===== *)
theory EngineBaseline
  imports GoSort
begin

text \<open>
  \<open>internal/source/enginebaseline.go\<close>: the bounded rolling window of per-slot Engine API totals and
  its 99th percentile, the baseline R-300 compares a slot with.
\<close>

definition EngineBaselineMinSamples :: nat where "EngineBaselineMinSamples = 32"
definition EngineBaselineMaxSamples :: nat where "EngineBaselineMaxSamples = 256"

record EngineBaseline =
  eb_totals :: "f64 list"

definition EngineBaseline_Add :: "EngineBaseline \<Rightarrow> f64 \<Rightarrow> EngineBaseline" where
  "EngineBaseline_Add b totalMS =
     (if f_lt totalMS (FFin 0) \<or> \<not> f_finite totalMS then b
      else if length (eb_totals b) = EngineBaselineMaxSamples
      then b\<lparr>eb_totals := (tl (eb_totals b) @ [last (eb_totals b)])[length (eb_totals b) - 1 := totalMS]\<rparr>
      else b\<lparr>eb_totals := eb_totals b @ [totalMS]\<rparr>)"

definition EngineBaseline_Len :: "EngineBaseline \<Rightarrow> nat" where
  "EngineBaseline_Len b = length (eb_totals b)"

definition f_ceil :: "f64 \<Rightarrow> int" where
  "f_ceil x = \<lceil>fin_value x\<rceil>"

text \<open>\<open>int(math.Ceil(0.99*float64(n))) - 1\<close>, with the constant rounded as the compiler rounds it.\<close>

definition p99_index :: "nat \<Rightarrow> int" where
  "p99_index n = f_ceil (f_mul (fround (99 / 100)) (f_of_int (int n))) - 1"

definition EngineBaseline_P99 :: "EngineBaseline \<Rightarrow> f64 option" where
  "EngineBaseline_P99 b =
     (if length (eb_totals b) < EngineBaselineMinSamples then None
      else Some (Float64s (eb_totals b) ! nat (p99_index (length (eb_totals b)))))"

section \<open>The window\<close>

definition usable :: "f64 \<Rightarrow> bool" where
  "usable x \<longleftrightarrow> (\<exists>q. x = FFin q \<and> 0 \<le> q)"

lemma usable_iff: "usable x \<longleftrightarrow> \<not> f_lt x (FFin 0) \<and> f_finite x"
  by (cases x) (auto simp: usable_def)

lemma EngineBaseline_Add_window:
  assumes "length (eb_totals b) \<le> 256"
  shows "eb_totals (EngineBaseline_Add b x) =
    (if usable x then drop (length (eb_totals b) + 1 - 256) (eb_totals b @ [x]) else eb_totals b)"
proof (cases "usable x \<and> length (eb_totals b) = 256")
  case True
  then have "eb_totals b \<noteq> []" by auto
  then have "(tl (eb_totals b) @ [last (eb_totals b)])[length (eb_totals b) - 1 := x] = tl (eb_totals b) @ [x]"
    by (simp add: list_update_append)
  with True \<open>eb_totals b \<noteq> []\<close> show ?thesis
    by (simp add: EngineBaseline_Add_def usable_iff EngineBaselineMaxSamples_def drop_Suc)
next
  case False
  with assms show ?thesis by (auto simp: EngineBaseline_Add_def usable_iff EngineBaselineMaxSamples_def)
qed

lemma drop_window: "drop (length (drop (length w - 256) w) + 1 - 256) (drop (length w - 256) w @ [x])
    = drop (length w + 1 - 256) (w @ [x])"
proof (cases "length w \<le> 255")
  case False
  then have "drop (length w - 256) w @ [x] = drop (length w - 256) (w @ [x])" by simp
  moreover have "length (drop (length w - 256) w) + 1 - 256 + (length w - 256) = length w + 1 - 256"
    using False by simp
  ultimately show ?thesis by (simp only: drop_drop)
qed simp

lemma adds_window:
  "eb_totals (foldl EngineBaseline_Add \<lparr>eb_totals = []\<rparr> xs) =
     drop (length (filter usable xs) - 256) (filter usable xs)"
proof (induction xs rule: rev_induct)
  case (snoc x xs)
  have len: "length (drop (length (filter usable xs) - 256) (filter usable xs)) \<le> 256" by simp
  show ?case
    using EngineBaseline_Add_window [of "foldl EngineBaseline_Add \<lparr>eb_totals = []\<rparr> xs" x] snoc len
      drop_window [of "filter usable xs" x] by simp
qed simp

section \<open>The percentile\<close>

lemma p99_constant: "\<exists>c. fround (99 / 100) = FFin c \<and> \<bar>c - 99 / 100\<bar> \<le> 1 / 2 ^ 54"
  using fround_err_unit [of "99 / 100"] by auto

text \<open>Between two whole numbers, away from the lower one, rounding cannot reach it.\<close>

lemma ceil_fround_between:
  assumes "0 \<le> k" "k < 1000" "of_int k + 1 / 128 \<le> q" "q \<le> of_int k + 1"
  shows "f_ceil (fround q) = k + 1"
proof -
  have lo: "fround (of_int (128 * k + 1) / 2 ^ 7) = FFin (of_int (128 * k + 1) / 2 ^ 7)"
    using assms(1,2) by (intro fround_dyadic) auto
  have hi: "fround (of_int (k + 1)) = FFin (of_int (k + 1))" using assms(1,2) by (intro fround_int_exact) auto
  have "f_le (fround (of_int (128 * k + 1) / 2 ^ 7)) (fround q)" "f_le (fround q) (fround (of_int (k + 1)))"
    using assms(3,4) by (auto intro!: fround_mono)
  then obtain r where "fround q = FFin r" "of_int (128 * k + 1) / 2 ^ 7 \<le> r" "r \<le> of_int (k + 1)"
    unfolding lo hi by (cases "fround q") auto
  then show ?thesis by (simp add: f_ceil_def ceiling_eq_iff)
qed

lemma fround_near_int:
  assumes "j = 6 \<or> j = 7" "2 ^ j < k" "k < 2 ^ (j + 1)" "\<bar>q - of_int k\<bar> < 2 ^ j / 2 ^ 53"
  shows "fround q = FFin (of_int k)"
proof -
  have r: "round_half_even (q / 2 powi (int j - 52)) = k * 2 ^ (52 - j)"
    using assms by (intro round_half_even_unique) (auto simp: power_int_minus field_simps)
  have "(of_int (2 ^ j + 1) :: rat) \<le> of_int k" "(of_int (k + 1) :: rat) \<le> of_int (2 ^ (j + 1))"
    using assms by (simp_all only: of_int_le_iff)
  then have "(2 ^ j + 1 :: rat) \<le> of_int k" "of_int k + 1 \<le> (2 ^ (j + 1) :: rat)"
    by (simp_all only: of_int_add of_int_power of_int_numeral of_int_1)
  moreover have "\<bar>q - of_int k\<bar> < 1" using assms(1,4) by auto
  ultimately have "2 ^ j \<le> q" "q < 2 ^ (j + 1)" by linarith+
  then have "2 powi int j \<le> q" "q < 2 powi (int j + 1)" using assms(1) by auto
  then have "fround q = FFin (of_int (k * 2 ^ (52 - j)) * 2 powi (int j - 52))"
    using assms(1) r by (intro fround_evalI) auto
  then show ?thesis using assms(1) by (auto simp: power_int_minus)
qed

lemma p99_product:
  assumes "c * of_nat n = (q :: rat)" "\<bar>c - 99 / 100\<bar> \<le> 1 / 2 ^ 54" "n \<le> 256"
  shows "\<bar>q - 99 * of_nat n / 100\<bar> \<le> of_nat n / 2 ^ 54"
proof -
  have "q - 99 * of_nat n / 100 = (c - 99 / 100) * of_nat n" using assms(1) by (simp add: algebra_simps)
  then have "\<bar>q - 99 * of_nat n / 100\<bar> = \<bar>c - 99 / 100\<bar> * of_nat n" by (simp add: abs_mult)
  also have "\<dots> \<le> 1 / 2 ^ 54 * of_nat n" using assms(2) by (intro mult_right_mono) simp_all
  finally show ?thesis by simp
qed

lemma p99_index_ceil:
  assumes "32 \<le> n" "n \<le> 256"
  shows "p99_index n = int ((99 * n + 99) div 100) - 1"
proof -
  obtain c where c: "fround (99 / 100) = FFin c" "\<bar>c - 99 / 100\<bar> \<le> 1 / 2 ^ 54" using p99_constant by blast
  define q where "q = c * of_nat n"
  have "f_of_int (int n) = FFin (of_nat n)" using assms f_of_int_exact [of "int n"] by simp
  then have idx: "p99_index n = f_ceil (fround q) - 1" using c by (simp add: p99_index_def q_def)
  have err: "\<bar>q - 99 * of_nat n / 100\<bar> \<le> of_nat n / 2 ^ 54" using p99_product q_def c(2) assms(2) by blast
  define k r where "k = 99 * n div 100" and "r = 99 * n mod 100"
  have kr: "99 * n = 100 * k + r" "r < 100" by (auto simp: k_def r_def)
  then have kr': "99 * (of_nat n :: rat) = 100 * of_nat k + of_nat r"
    by (metis of_nat_add of_nat_mult of_nat_numeral)
  have "of_nat n / 2 ^ 54 \<le> (1 / 1000 :: rat)" using assms(2) by (simp add: divide_le_eq)
  with err have err': "\<bar>q - 99 * of_nat n / 100\<bar> \<le> 1 / 1000" by linarith
  have "f_ceil (fround q) = int ((99 * n + 99) div 100)"
  proof (cases "r = 0")
    case True
    then have "100 dvd 99 * n" by (simp add: r_def mod_eq_0_iff_dvd)
    then have "100 dvd n" by (simp add: coprime_dvd_mult_right_iff coprime_iff_gcd_eq_1 gcd_non_0_nat)
    then obtain m where "n = 100 * m" ..
    then have "n = 100 \<or> n = 200" using assms by auto
    then show ?thesis
    proof
      assume "n = 100"
      then have "fround q = FFin (of_int 99)" using err by (intro fround_near_int [where j = 6]) auto
      with \<open>n = 100\<close> show ?thesis by (simp add: f_ceil_def)
    next
      assume "n = 200"
      then have "fround q = FFin (of_int 198)" using err by (intro fround_near_int [where j = 7]) auto
      with \<open>n = 200\<close> show ?thesis by (simp add: f_ceil_def)
    qed
  next
    case False
    then have "1 \<le> (of_nat r :: rat)" "(of_nat r :: rat) \<le> 99" using kr(2) by simp_all
    then have "of_int (int k) + 1 / 128 \<le> q" "q \<le> of_int (int k) + 1"
      using err' kr' unfolding of_int_of_nat_eq by linarith+
    moreover have "k < 1000" using kr assms(2) by linarith
    ultimately have "f_ceil (fround q) = int k + 1" by (intro ceil_fround_between) simp_all
    moreover have "(99 * n + 99) div 100 = k + 1" using False kr by (simp add: kr(1))
    ultimately show ?thesis by simp
  qed
  with idx show ?thesis by simp
qed

lemma sorted_rank:
  assumes "sorted (map key ys)" "i < length ys"
  shows "Suc i \<le> length (filter (\<lambda>x. key x \<le> key (ys ! i)) ys)"
    and "length (filter (\<lambda>x. key x < key (ys ! i)) ys) \<le> i"
proof -
  have le: "key (ys ! a) \<le> key (ys ! b)" if "a \<le> b" "b < length ys" for a b
    using assms(1) that by (simp add: sorted_iff_nth_mono)
  have "card {..i} \<le> card {j. j < length ys \<and> key (ys ! j) \<le> key (ys ! i)}"
    using le assms(2) by (intro card_mono) auto
  then show "Suc i \<le> length (filter (\<lambda>x. key x \<le> key (ys ! i)) ys)"
    by (simp add: length_filter_conv_card)
  have "card {j. j < length ys \<and> key (ys ! j) < key (ys ! i)} \<le> card {..<i}"
    using le by (intro card_mono) (auto simp: not_less [symmetric])
  then show "length (filter (\<lambda>x. key x < key (ys ! i)) ys) \<le> i"
    by (simp add: length_filter_conv_card)
qed

lemma EngineBaseline_P99_rank:
  assumes usable: "\<forall>x \<in> set (eb_totals b). usable x" and len: "length (eb_totals b) \<le> 256"
    and p: "EngineBaseline_P99 b = Some v"
  shows "v \<in> set (eb_totals b)"
    and "99 * length (eb_totals b) \<le> 100 * length (filter (\<lambda>x. f_le x v) (eb_totals b))"
    and "100 * length (filter (\<lambda>x. f_lt x v) (eb_totals b)) < 99 * length (eb_totals b)"
proof -
  define w ys where "w = eb_totals b" and "ys = sort_key fin_value w"
  define i where "i = (99 * length w + 99) div 100 - 1"
  have n: "32 \<le> length w" using p by (simp add: EngineBaseline_P99_def EngineBaselineMinSamples_def w_def split: if_splits)
  have fin: "\<forall>x \<in> set w. f_finite x" using usable by (simp add: w_def usable_iff)
  have "nat (p99_index (length w)) = i" using n len p99_index_ceil [of "length w"] by (simp add: w_def i_def)
  then have v: "v = ys ! i" using p Float64s_sorted [OF fin]
    by (simp add: EngineBaseline_P99_def w_def ys_def split: if_splits)
  have i: "i < length ys" "99 * length w \<le> 100 * Suc i" "100 * i < 99 * length w"
    using n by (auto simp: i_def ys_def)
  have sorted: "sorted (map fin_value ys)" by (simp add: ys_def)
  have ys: "set ys = set w" "mset ys = mset w" by (simp_all add: ys_def)
  then have v_in: "v \<in> set w" using v i(1) nth_mem by blast
  have le_lt: "(fin_value x \<le> fin_value v) = f_le x v" "(fin_value x < fin_value v) = f_lt x v" if "x \<in> set w" for x
    using fin v_in that by (cases x; cases v; fastforce)+
  have cmp: "filter (\<lambda>x. fin_value x \<le> fin_value v) w = filter (\<lambda>x. f_le x v) w"
    "filter (\<lambda>x. fin_value x < fin_value v) w = filter (\<lambda>x. f_lt x v) w"
    by (simp_all add: le_lt cong: filter_cong)
  have len_eq: "length (filter P ys) = length (filter P w)" for P
    using ys(2) by (metis mset_filter size_mset)
  show "v \<in> set (eb_totals b)" using v_in by (simp add: w_def)
  show "99 * length (eb_totals b) \<le> 100 * length (filter (\<lambda>x. f_le x v) (eb_totals b))"
    using sorted_rank(1) [OF sorted i(1)] i(2) by (simp add: v [symmetric] len_eq cmp w_def [symmetric])
  show "100 * length (filter (\<lambda>x. f_lt x v) (eb_totals b)) < 99 * length (eb_totals b)"
    using sorted_rank(2) [OF sorted i(1)] i(3) by (simp add: v [symmetric] len_eq cmp w_def [symmetric])
qed

section \<open>Properties\<close>

text \<open>
  However many totals are recorded, the window holds exactly the last 256 of them that
  are finite and not negative, so memory is bounded and a bad value never displaces a good one; and
  the percentile is withheld exactly while fewer than 32 of those have been recorded.
\<close>

lemma engine_window_exact:
  fixes xs :: "f64 list"
  defines "good \<equiv> filter (\<lambda>x. f_finite x \<and> \<not> f_lt x (FFin 0)) xs"
    and "b \<equiv> foldl EngineBaseline_Add \<lparr>eb_totals = []\<rparr> xs"
  shows "eb_totals b = drop (length good - EngineBaselineMaxSamples) good \<and>
    EngineBaseline_Len b = min (length good) 256 \<and>
    (EngineBaseline_P99 b = None \<longleftrightarrow> length good < EngineBaselineMinSamples)"
proof -
  have "good = filter usable xs" by (auto simp: good_def usable_iff intro!: filter_cong)
  then have w: "eb_totals b = drop (length good - 256) good" by (simp add: b_def adds_window)
  then have "EngineBaseline_Len b = min (length good) 256" by (simp add: EngineBaseline_Len_def)
  moreover have "EngineBaseline_P99 b = None \<longleftrightarrow> length good < EngineBaselineMinSamples"
    using w by (auto simp: EngineBaseline_P99_def EngineBaselineMinSamples_def)
  ultimately show ?thesis using w by (simp add: EngineBaselineMaxSamples_def)
qed

text \<open>
  The reported 99th percentile is the nearest-rank one, in spite of the floating-point
  index computation: it is a recorded total, at least 99% of the window is at or below it and fewer
  than 99% are strictly below it.
\<close>

lemma engine_P99_nearest_rank:
  assumes "EngineBaseline_P99 (foldl EngineBaseline_Add \<lparr>eb_totals = []\<rparr> xs) = Some v"
  defines "w \<equiv> eb_totals (foldl EngineBaseline_Add \<lparr>eb_totals = []\<rparr> xs)"
  shows "v \<in> set w \<and> v \<in> set xs \<and> 99 * length w \<le> 100 * length (filter (\<lambda>x. f_le x v) w) \<and>
    100 * length (filter (\<lambda>x. f_lt x v) w) < 99 * length w"
proof -
  have w: "w = drop (length (filter usable xs) - 256) (filter usable xs)" by (simp add: w_def adds_window)
  then have sub: "set w \<subseteq> set (filter usable xs)" by (simp only: set_drop_subset)
  have "length w \<le> 256" by (simp add: w)
  moreover have "\<forall>x \<in> set w. usable x" using sub by auto
  ultimately show ?thesis
    using EngineBaseline_P99_rank [OF _ _ assms(1)] sub unfolding w_def by auto
qed

end
