(* ===== verification/HostMetrics.thy ===== *)
theory HostMetrics
  imports Metrics
begin

text \<open>
  The host's figures (\<open>internal/source/hostmetrics\<close>): the share of CPU time stolen by the hypervisor between two readings of
  \<open>/proc/stat\<close>, and the pressure figures of \<open>/proc/pressure\<close>.
\<close>

section \<open>CPU steal\<close>

definition MetricCPUStealPct :: string where "MetricCPUStealPct = ''host_cpu_steal_pct''"
definition cpuStatFields :: nat where "cpuStatFields = 10"
definition stealFieldIndex :: nat where "stealFieldIndex = 7"

record cpuTicks =
  ct_total :: "64 word"
  ct_steal :: "64 word"

record CPUSteal =
  cs_prev :: cpuTicks
  cs_hasPrev :: bool

definition newCPUSteal :: CPUSteal where
  "newCPUSteal = \<lparr>cs_prev = \<lparr>ct_total = 0, ct_steal = 0\<rparr>, cs_hasPrev = False\<rparr>"

fun parse_all :: "string list \<Rightarrow> nat list option" where
  "parse_all [] = Some []"
| "parse_all (f # fs) = (case ParseUint f of None \<Rightarrow> None | Some v \<Rightarrow> map_option ((#) v) (parse_all fs))"

text \<open>The sum of the counters, refused when it would wrap.\<close>

fun tick_total :: "64 word \<Rightarrow> 64 word list \<Rightarrow> 64 word option" where
  "tick_total t [] = Some t"
| "tick_total t (v # vs) = (if - 1 - t < v then None else tick_total (t + v) vs)"

definition readCPUTicks :: "string \<Rightarrow> metric_error + cpuTicks" where
  "readCPUTicks content =
     (let fields = Fields (first_line content)
      in if fields = [] \<or> hd fields \<noteq> ''cpu'' then Inl ErrParse
         else let values = tl fields
              in if length values < cpuStatFields then Inl ErrParse
                 else case parse_all (take cpuStatFields values) of
                   None \<Rightarrow> Inl ErrParse
                 | Some vs \<Rightarrow>
                     (let ws = map of_nat vs :: 64 word list
                      in case tick_total 0 (take (stealFieldIndex + 1) ws) of
                           None \<Rightarrow> Inl ErrValue
                         | Some t \<Rightarrow> Inr \<lparr>ct_total = t, ct_steal = ws ! stealFieldIndex\<rparr>))"

definition host_sample :: "string \<Rightarrow> f64 \<Rightarrow> gotime \<Rightarrow> MetricSample" where
  "host_sample name v now =
     \<lparr>ms_At = now, ms_Component = ComponentHost, ms_Name = name, ms_Value = v, ms_ClockOffset = 0, ms_ClockMeasured = False,
      ms_ClockSampleAt = time_zero, ms_Source = SourceHostMetrics\<rparr>"

definition checked_sample :: "MetricSample \<Rightarrow> metric_error + MetricSample" where
  "checked_sample m = (case MetricSample_Validate m of Some e \<Rightarrow> Inl (ErrSample e) | None \<Rightarrow> Inr m)"

definition CPUSteal_sample :: "metric_error + cpuTicks \<Rightarrow> gotime \<Rightarrow> CPUSteal \<Rightarrow> CPUSteal \<times> (metric_error + MetricSample option)" where
  "CPUSteal_sample reading now c =
     (case reading of
        Inl e \<Rightarrow> (c, Inl e)
      | Inr ticks \<Rightarrow>
          (let c' = \<lparr>cs_prev = ticks, cs_hasPrev = True\<rparr>; prev = cs_prev c
           in if \<not> cs_hasPrev c then (c', Inr None)
              else if ct_total ticks < ct_total prev \<or> ct_steal ticks < ct_steal prev then (c', Inl ErrCounters)
              else let totalDelta = ct_total ticks - ct_total prev; stealDelta = ct_steal ticks - ct_steal prev
                   in if totalDelta = 0 then (c', Inl ErrCounters)
                      else if stealDelta > totalDelta then (c', Inl ErrCounters)
                      else let pct = f_mul (f_div (f_of_int (uint stealDelta)) (f_of_int (uint totalDelta))) (FFin 100)
                           in (c', case checked_sample (host_sample MetricCPUStealPct pct now) of
                                     Inl e \<Rightarrow> Inl e | Inr m \<Rightarrow> Inr (Some m))))"

section \<open>Pressure\<close>

definition MetricIOWaitPct :: string where "MetricIOWaitPct = ''host_iowait_pct''"
definition MetricMemPressurePct :: string where "MetricMemPressurePct = ''host_mem_pressure_pct''"

definition avg10_value :: "string \<Rightarrow> metric_error + f64" where
  "avg10_value value =
     (case ParseFloat value of
        None \<Rightarrow> Inl ErrParse
      | Some v \<Rightarrow> if \<not> f_finite v \<or> f_lt v (FFin 0) \<or> f_lt (FFin 100) v then Inl ErrValue else Inr v)"

text \<open>The first line that starts with \<open>some\<close> decides, by its first \<open>avg10=\<close> field.\<close>

fun psi_loop :: "string list \<Rightarrow> metric_error + f64" where
  "psi_loop [] = Inl ErrNotFound"
| "psi_loop (line # lines) =
     (let fields = Fields line
      in if fields = [] \<or> hd fields \<noteq> ''some'' then psi_loop lines
         else case find_map (\<lambda>f. CutPrefix f ''avg10='') (tl fields) of
           None \<Rightarrow> Inl ErrNotFound
         | Some value \<Rightarrow> avg10_value value)"

definition parsePSISomeAvg10 :: "string \<Rightarrow> metric_error + f64" where
  "parsePSISomeAvg10 psiOutput = psi_loop (split_lines psiOutput)"

definition samplePressure :: "string \<Rightarrow> string \<Rightarrow> gotime \<Rightarrow> metric_error + MetricSample" where
  "samplePressure content name now =
     (case parsePSISomeAvg10 content of Inl e \<Rightarrow> Inl e | Inr avg10 \<Rightarrow> checked_sample (host_sample name avg10 now))"

section \<open>Facts\<close>

lemma tick_total_exact: "tick_total t vs = Some r \<Longrightarrow> uint r = uint t + (\<Sum>v\<leftarrow>vs. uint v)"
proof (induction vs arbitrary: t)
  case (Cons v vs)
  then have "\<not> - 1 - t < v" and r: "tick_total (t + v) vs = Some r" by (auto split: if_splits)
  then have "uint v \<le> uint (- 1 - t)" by (simp add: word_le_def not_less)
  also have "uint (- 1 - t) = 2 ^ 64 - 1 - uint t"
    using uint_bounded [of t] by (simp add: uint_sub_if_size word_size unsigned_minus_1_eq_mask mask_eq_exp_minus_1)
  finally have "uint (t + v) = uint t + uint v" by (simp add: uint_add_lem [symmetric])
  with Cons.IH [OF r] show ?case by simp
qed simp

lemma f_of_uint_ratio:
  assumes "0 \<le> v" "v \<le> n" "0 < n" "n < 2 ^ 64"
  shows "\<exists>a b. f_of_int v = FFin a \<and> f_of_int n = FFin b \<and> 0 \<le> a \<and> a \<le> b \<and> 1 \<le> b"
proof -
  have fin: "\<exists>a. f_of_int k = FFin a" if "0 \<le> k" "k < 2 ^ 64" for k
    using fround_bounded [of "of_int k" 64] that by (force simp: f_of_int_def power_int_def)
  then obtain a b where ab: "f_of_int v = FFin a" "f_of_int n = FFin b" using assms by fastforce
  moreover have "f_le (f_of_int 0) (f_of_int v)" "f_le (f_of_int v) (f_of_int n)" "f_le (f_of_int 1) (f_of_int n)"
    using assms by (auto intro!: f_of_int_mono)
  ultimately show ?thesis by (simp add: f_of_int_exact)
qed

text \<open>A percentage of two counts stays between 0 and 100 under rounding.\<close>

lemma percentage_bounds:
  assumes "0 \<le> v" "v \<le> n" "0 < n" "n < 2 ^ 64"
  shows "\<exists>q. f_mul (f_div (f_of_int v) (f_of_int n)) (FFin 100) = FFin q \<and> 0 \<le> q \<and> q \<le> 100"
proof -
  obtain a b where ab: "f_of_int v = FFin a" "f_of_int n = FFin b" "0 \<le> a" "a \<le> b" "1 \<le> b"
    using f_of_uint_ratio [OF assms] by blast
  then have "0 \<le> a / b" "a / b \<le> 1" by simp_all
  then obtain r where r: "fround (a / b) = FFin r" "0 \<le> r" "r \<le> 1" using fround_err_unit by blast
  have "f_le (FFin 0) (fround (r * 100))" using r by (intro fround_nonneg) simp
  moreover have "f_le (fround (r * 100)) (fround (of_int 100))" using r by (intro fround_mono) simp
  moreover have "fround (of_int 100) = FFin 100" using f_of_int_exact [of 100] by (simp add: f_of_int_def)
  ultimately have "\<exists>q. fround (r * 100) = FFin q \<and> 0 \<le> q \<and> q \<le> 100"
    by (cases "fround (r * 100)") auto
  with ab r show ?thesis by auto
qed

text \<open>
  A reported CPU steal figure is a percentage: it is computed from two readings whose counters did not go
  back, over the ticks that elapsed between them, and lies between 0 and 100; each reading replaces the one kept before.
\<close>

lemma cpu_steal_percentage:
  assumes "CPUSteal_sample (Inr ticks) now c = (c', Inr (Some m))"
  shows "cs_prev c' = ticks \<and> cs_hasPrev c \<and> ct_total (cs_prev c) < ct_total ticks \<and> ct_steal (cs_prev c) \<le> ct_steal ticks \<and>
    uint (ct_steal ticks - ct_steal (cs_prev c)) \<le> uint (ct_total ticks - ct_total (cs_prev c)) \<and>
    (\<exists>q. ms_Value m = FFin q \<and> 0 \<le> q \<and> q \<le> 100)"
proof -
  let ?t = "ct_total ticks - ct_total (cs_prev c)" and ?s = "ct_steal ticks - ct_steal (cs_prev c)"
  have c: "c' = \<lparr>cs_prev = ticks, cs_hasPrev = True\<rparr>" "cs_hasPrev c" "\<not> ct_total ticks < ct_total (cs_prev c)"
    "\<not> ct_steal ticks < ct_steal (cs_prev c)" "?t \<noteq> 0" "\<not> ?s > ?t"
    and m: "checked_sample (host_sample MetricCPUStealPct (f_mul (f_div (f_of_int (uint ?s)) (f_of_int (uint ?t))) (FFin 100)) now) = Inr m"
    using assms by (auto simp: CPUSteal_sample_def Let_def split: if_splits sum.splits)
  have "0 < uint ?t" using c(5) by (metis uint_ge_0 le_less uint_0_iff)
  then have "\<exists>q. f_mul (f_div (f_of_int (uint ?s)) (f_of_int (uint ?t))) (FFin 100) = FFin q \<and> 0 \<le> q \<and> q \<le> 100"
    using c(6) uint_bounded [of ?t] by (intro percentage_bounds) (auto simp: word_le_def not_less)
  moreover have "ct_total (cs_prev c) < ct_total ticks" using c(3,5) by (metis eq_iff_diff_eq_0 linorder_neqE)
  ultimately show ?thesis using c m
    by (auto simp: checked_sample_def host_sample_def not_less word_le_def split: option.splits)
qed

definition stat_before :: cpuTicks where "stat_before = \<lparr>ct_total = 1000, ct_steal = 10\<rparr>"
definition stat_after :: cpuTicks where "stat_after = \<lparr>ct_total = 1100, ct_steal = 60\<rparr>"

lemma steal_sample:
  "CPUSteal_sample (Inr stat_after) (Add time_zero Second) \<lparr>cs_prev = stat_before, cs_hasPrev = True\<rparr> =
     (\<lparr>cs_prev = stat_after, cs_hasPrev = True\<rparr>, Inr (Some (host_sample MetricCPUStealPct (FFin 50) (Add time_zero Second))))"
proof -
  have "f_mul (f_div (f_of_int 50) (f_of_int 100)) (FFin 100) = FFin 50"
    using fround_dyadic [of 1 1] by (simp add: f_of_int_exact fround_numeral)
  then show ?thesis
    by (simp add: CPUSteal_sample_def stat_before_def stat_after_def Let_def checked_sample_def host_sample_def MetricSample_Validate_def
        MetricCPUStealPct_def maxMetricNameBytes_def validate_clock_def IsZero_def check_def first_error.simps)
qed

end
