(* ===== verification/GoFormat.thy ===== *)
theory GoFormat
  imports GoFloat
begin

text \<open>
  \<open>strconv.FormatFloat(x, 'f', -1, 64)\<close>: the shortest decimal that reads back as \<open>x\<close>. The digits are chosen as in the
  library's \<open>roundShortest\<close>: the decimals of a given number of places below and above \<open>x\<close> are tried with ever more places,
  until one lies in the interval that rounds to \<open>x\<close>. The result is proved to be parsed to the same value.
\<close>

section \<open>Digits\<close>

text \<open>The neighbours' midpoints; just above a power of two the lower neighbour is closer.\<close>

definition lower_mid :: "rat \<Rightarrow> rat" where
  "lower_mid q =
     (let e = fexp q in if q = 2 powi (e + 52) \<and> - 1074 < e then q - 2 powi (e - 2) else q - 2 powi (e - 1))"

definition upper_mid :: "rat \<Rightarrow> rat" where
  "upper_mid q = q + 2 powi (fexp q - 1)"

definition even_mantissa :: "rat \<Rightarrow> bool" where
  "even_mantissa q \<longleftrightarrow> even \<lfloor>q / 2 powi fexp q\<rfloor>"

definition okdown :: "rat \<Rightarrow> int \<Rightarrow> bool" where
  "okdown q p \<longleftrightarrow>
     (let v = of_int \<lfloor>q / 10 powi p\<rfloor> * 10 powi p in lower_mid q < v \<or> even_mantissa q \<and> v = lower_mid q)"

definition okup :: "rat \<Rightarrow> int \<Rightarrow> bool" where
  "okup q p \<longleftrightarrow>
     (let v = of_int (\<lfloor>q / 10 powi p\<rfloor> + 1) * 10 powi p in v < upper_mid q \<or> even_mantissa q \<and> v = upper_mid q)"

definition digits_at :: "rat \<Rightarrow> int \<Rightarrow> int" where
  "digits_at q p =
     (if okdown q p \<and> okup q p then round_half_even (q / 10 powi p)
      else if okdown q p then \<lfloor>q / 10 powi p\<rfloor> else \<lfloor>q / 10 powi p\<rfloor> + 1)"

text \<open>The places run from above the first digit down to where \<open>q\<close> is a whole number of units.\<close>

definition roundShortest :: "rat \<Rightarrow> int \<times> int" where
  "roundShortest q =
     (case List.find (\<lambda>p. okdown q p \<or> okup q p) (rev [min 0 (fexp q)..int (length (FormatUint (nat \<lfloor>upper_mid q\<rfloor>)))]) of
        Some p \<Rightarrow> (digits_at q p, p)
      | None \<Rightarrow> (0, 0))"

definition decimal_text :: "nat \<Rightarrow> int \<Rightarrow> string" where
  "decimal_text n p =
     (if 0 \<le> p then FormatUint (n * 10 ^ nat p)
      else FormatUint (n div 10 ^ nat (- p)) @ CHR ''.'' # pad_zeros (nat (- p)) (FormatUint (n mod 10 ^ nat (- p))))"

definition FormatFloat :: "f64 \<Rightarrow> string" where
  "FormatFloat x =
     (case x of
        FNaN \<Rightarrow> ''NaN''
      | FInf neg \<Rightarrow> if neg then ''-Inf'' else ''+Inf''
      | FFin q \<Rightarrow>
          if q = 0 then ''0''
          else let (n, p) = roundShortest \<bar>q\<bar> in (if q < 0 then ''-'' else []) @ decimal_text (nat n) p)"

definition representable :: "rat \<Rightarrow> bool" where
  "representable q \<longleftrightarrow> fround q = FFin q"

section \<open>The interval of a float\<close>

lemma representable_mantissa:
  assumes "representable q" "0 < q"
  obtains m where "q = of_int m * 2 powi fexp q" "0 < m" "fmag q = q" "q < f64_limit"
proof -
  have f: "fmag q = q" "q < f64_limit" using assms by (auto simp: representable_def fround_def Let_def split: if_splits)
  then have eq: "q = of_int (round_half_even (q / 2 powi fexp q)) * 2 powi fexp q" by (simp add: fmag_def)
  moreover have "0 < round_half_even (q / 2 powi fexp q)"
    using assms(2) eq by (metis of_int_0_less_iff powi2_pos zero_less_mult_pos2)
  ultimately show ?thesis using that f by blast
qed

lemma mantissa_bounds:
  assumes "0 < q" "q = of_int m * 2 powi fexp q"
  shows "m < 2 ^ 53" "- 1074 < fexp q \<Longrightarrow> 2 ^ 52 \<le> m"
proof -
  have b: "2 powi ilog2 q \<le> q" "q < 2 powi (ilog2 q + 1)" using ilog2_bounds [OF assms(1)] by auto
  have "ilog2 q + 1 \<le> fexp q + 53" by (simp add: fexp_def)
  then have "q < 2 powi (fexp q + 53)" using b(2) powi2_mono by (metis less_le_trans)
  also have "\<dots> = 2 ^ 53 * 2 powi fexp q" by (simp add: power_int_add)
  finally have "(of_int m :: rat) * 2 powi fexp q < 2 ^ 53 * 2 powi fexp q" using assms(2) by simp
  then have "(of_int m :: rat) < of_int (2 ^ 53)" by simp
  then show "m < 2 ^ 53" by (simp only: of_int_less_iff)
  assume "- 1074 < fexp q"
  then have "ilog2 q = fexp q + 52" by (simp add: fexp_def)
  then have "2 ^ 52 * 2 powi fexp q \<le> (of_int m :: rat) * 2 powi fexp q" using b(1) assms(2) by (simp add: power_int_add)
  then have "of_int (2 ^ 52) \<le> (of_int m :: rat)" by simp
  then show "2 ^ 52 \<le> m" by (simp only: of_int_le_iff)
qed

lemma fexp_unique:
  assumes "2 powi (e + 52) \<le> v \<or> e = - 1074" "v < 2 powi (e + 53)" "- 1074 \<le> e" "0 < v"
  shows "fexp v = e"
proof -
  have b: "2 powi ilog2 v \<le> v" "v < 2 powi (ilog2 v + 1)" using ilog2_bounds [OF assms(4)] by auto
  have "ilog2 v \<le> e + 52"
  proof (rule ccontr)
    assume "\<not> ?thesis"
    then have "(2 :: rat) powi (e + 53) \<le> 2 powi ilog2 v" by (intro powi2_mono) simp
    with b(1) assms(2) show False by linarith
  qed
  moreover have "ilog2 v \<ge> e + 52 \<or> e = - 1074"
  proof (rule disjCI, rule ccontr)
    assume "e \<noteq> - 1074" "\<not> e + 52 \<le> ilog2 v"
    then have "(2 :: rat) powi (ilog2 v + 1) \<le> 2 powi (e + 52)" by (intro powi2_mono) simp
    with b(2) assms(1) \<open>e \<noteq> - 1074\<close> show False by auto
  qed
  ultimately show ?thesis using assms(3) by (auto simp: fexp_def)
qed

lemma round_half_even_near:
  assumes "\<bar>x - of_int m\<bar> < 1 / 2 \<or> even m \<and> \<bar>x - of_int m\<bar> = 1 / 2"
  shows "round_half_even x = m"
proof (cases "\<bar>x - of_int m\<bar> < 1 / 2")
  case True
  then show ?thesis by (rule round_half_even_unique)
next
  case False
  then have "even m" "x = of_int m + 1 / 2 \<or> x = of_int (m - 1) + 1 / 2" using assms by (auto simp: abs_if field_simps split: if_splits)
  then obtain k where k: "even m" "x = of_int k + 1 / 2" "k = m \<or> k = m - 1" by blast
  then have "\<lfloor>x\<rfloor> = k" by linarith
  then show ?thesis using k by (auto simp: round_half_even_def Let_def)
qed


lemma mid_order:
  assumes "0 < q" "q = of_int m * 2 powi fexp q" "0 < m"
  shows "0 < lower_mid q" "lower_mid q < q" "q < upper_mid q"
proof -
  have "2 powi (fexp q - 2) < (2 :: rat) powi fexp q" "2 powi (fexp q - 1) < (2 :: rat) powi fexp q"
    by (simp_all add: power_int_strict_increasing)
  moreover have "(2 :: rat) powi fexp q \<le> q" using assms(2,3) by (metis (no_types, lifting) mult_le_cancel_right1 of_int_1_le_iff
    int_one_le_iff_zero_less less_le_not_le powi2_pos)
  ultimately show "0 < lower_mid q" by (simp add: lower_mid_def Let_def)
qed (simp_all add: lower_mid_def upper_mid_def Let_def)

lemma fmag_below_power:
  assumes "q = 2 powi (e + 52)" "- 1074 < e" "q - 2 powi e / 4 \<le> v" "v < q"
  shows "fmag v = q"
proof -
  have q': "q = of_int (2 ^ 53) * 2 powi (e - 1)" and half: "2 powi (e - 1) = (2 :: rat) powi e / 2"
    using assms(1) by (simp_all add: power_int_add power_int_diff)
  have below: "(2 :: rat) powi (e - 1 + 52) \<le> q - 2 powi e / 4" using assms(1) by (simp add: power_int_add power_int_diff)
  then have v0: "0 < v" using assms(3) powi2_pos [of "e - 1 + 52"] by linarith
  have "fexp v = e - 1"
  proof (rule fexp_unique)
    show "v < 2 powi (e - 1 + 53)" using assms(1,4) by (simp add: add.commute)
    show "2 powi (e - 1 + 52) \<le> v \<or> e - 1 = - 1074" using below assms(3) by simp
  qed (use assms(2) v0 in simp_all)
  moreover have "\<bar>v / 2 powi (e - 1) - of_int (2 ^ 53)\<bar> \<le> 1 / 2"
    using assms(3,4) q' by (simp add: abs_le_iff field_simps half)
  then have "round_half_even (v / 2 powi (e - 1)) = 2 ^ 53" by (intro round_half_even_near) (auto simp: less_le)
  ultimately show ?thesis using q' by (simp add: fmag_def)
qed

lemma fmag_within_half:
  assumes "q = of_int m * 2 powi e" "- 1074 \<le> e" "m < 2 ^ 53" "- 1074 < e \<Longrightarrow> 2 ^ 52 \<le> m" "0 < v"
    and "- 1074 < e \<Longrightarrow> v < q \<Longrightarrow> m \<noteq> 2 ^ 52" and half: "\<bar>v - q\<bar> \<le> 2 powi e / 2" "even m \<or> \<bar>v - q\<bar> \<noteq> 2 powi e / 2"
  shows "fmag v = q"
proof -
  have pw: "(2 :: rat) powi (e + 53) = 9007199254740992 * 2 powi e" "(2 :: rat) powi (e + 52) = 4503599627370496 * 2 powi e"
    by (simp_all add: power_int_add)
  have "fexp v = e"
  proof (rule fexp_unique)
    have "(of_int m :: rat) \<le> of_int (2 ^ 53 - 1)" using assms(3) by (simp only: of_int_le_iff)
    then have "q \<le> 9007199254740991 * 2 powi e" by (simp add: assms(1))
    then show "v < 2 powi (e + 53)" using half(1) powi2_pos [of e] unfolding pw by linarith
    show "2 powi (e + 52) \<le> v \<or> e = - 1074"
    proof (rule disjCI)
      assume "e \<noteq> - 1074"
      with assms(2,4,6) have m: "2 ^ 52 \<le> m" "v < q \<longrightarrow> 2 ^ 52 + 1 \<le> m" by auto
      then have "of_int (2 ^ 52) \<le> (of_int m :: rat)" "v < q \<longrightarrow> of_int (2 ^ 52 + 1) \<le> (of_int m :: rat)" by (simp_all only: of_int_le_iff)
      then have "4503599627370496 * 2 powi e \<le> q" "v < q \<longrightarrow> 4503599627370497 * 2 powi e \<le> q" by (simp_all add: assms(1))
      then show "2 powi (e + 52) \<le> v" using half(1) powi2_pos [of e] unfolding pw by (cases "v < q") linarith+
    qed
  qed (use assms(2,5) in simp_all)
  moreover have "round_half_even (v / 2 powi e) = m"
  proof (rule round_half_even_near)
    have "v / 2 powi e - of_int m = (v - q) / 2 powi e" by (simp add: assms(1) diff_divide_distrib)
    then show "\<bar>v / 2 powi e - of_int m\<bar> < 1 / 2 \<or> even m \<and> \<bar>v / 2 powi e - of_int m\<bar> = 1 / 2"
      using half by (auto simp: abs_divide field_simps less_le)
  qed
  ultimately show ?thesis using assms(1) by (simp add: fmag_def)
qed

lemma interval_rounds_back:
  assumes "representable q" "0 < q" "lower_mid q \<le> v" "v \<le> upper_mid q" "lower_mid q < v \<and> v < upper_mid q \<or> even_mantissa q"
  shows "fround v = FFin q"
proof -
  obtain m where m: "q = of_int m * 2 powi fexp q" "0 < m" and fin: "q < f64_limit"
    using representable_mantissa [OF assms(1,2)] by blast
  define e where "e = fexp q"
  have qe: "q = of_int m * 2 powi e" and e: "- 1074 \<le> e" using m(1) by (simp_all add: e_def fexp_def)
  have v0: "0 < v" using mid_order(1) [OF assms(2) m] assms(3) by linarith
  have mant: "m < 2 ^ 53" "- 1074 < e \<Longrightarrow> 2 ^ 52 \<le> m" using mantissa_bounds [OF assms(2) m(1)] by (simp_all add: e_def)
  have ev: "even_mantissa q \<longleftrightarrow> even m"
    using m(1) by (simp add: even_mantissa_def) (metis floor_of_int nonzero_mult_div_cancel_right powi2_pos less_irrefl)
  have half: "2 powi (e - 1) = (2 :: rat) powi e / 2" "2 powi (e - 2) = (2 :: rat) powi e / 4" by (simp_all add: power_int_diff)
  have lm: "lower_mid q = (if q = 2 powi (e + 52) \<and> - 1074 < e then q - 2 powi e / 4 else q - 2 powi e / 2)"
    and um: "upper_mid q = q + 2 powi e / 2"
    unfolding lower_mid_def upper_mid_def Let_def e_def [symmetric] half by simp_all
  have "fmag v = q"
  proof (cases "q = 2 powi (e + 52) \<and> - 1074 < e \<and> v < q")
    case True
    then show ?thesis using assms(3) unfolding lm by (intro fmag_below_power) auto
  next
    case False
    have "\<bar>v - q\<bar> \<le> 2 powi e / 2" using False assms(3,4) unfolding lm um by (cases "v < q") (auto split: if_splits)
    moreover have "\<bar>v - q\<bar> \<noteq> 2 powi e / 2" if "lower_mid q < v" "v < upper_mid q"
      using that False unfolding lm um by (auto simp: abs_if split: if_splits)
    moreover have "- 1074 < e \<Longrightarrow> v < q \<Longrightarrow> m \<noteq> 2 ^ 52" using False by (auto simp: qe power_int_add)
    ultimately show ?thesis using qe e mant v0 assms(5) ev by (intro fmag_within_half) auto
  qed
  then show ?thesis using v0 fin by (simp add: fround_def Let_def)
qed

section \<open>Reading the text back\<close>

lemma okdown_rounds:
  assumes "representable q" "0 < q" "okdown q p"
  shows "fround (of_int \<lfloor>q / 10 powi p\<rfloor> * 10 powi p) = FFin q"
proof -
  have "of_int \<lfloor>q / 10 powi p\<rfloor> * 10 powi p \<le> q" by (metis floor_divide_lower zero_less_numeral zero_less_power_int)
  moreover obtain m where "q = of_int m * 2 powi fexp q" "0 < m" using representable_mantissa [OF assms(1,2)] by blast
  ultimately have "of_int \<lfloor>q / 10 powi p\<rfloor> * 10 powi p < upper_mid q" using mid_order(3) [OF assms(2)] by fastforce
  then show ?thesis using assms by (intro interval_rounds_back) (auto simp: okdown_def Let_def)
qed

lemma okup_rounds:
  assumes "representable q" "0 < q" "okup q p"
  shows "fround (of_int (\<lfloor>q / 10 powi p\<rfloor> + 1) * 10 powi p) = FFin q"
proof -
  have "q < of_int (\<lfloor>q / 10 powi p\<rfloor> + 1) * 10 powi p"
    by (metis floor_divide_upper of_int_1 of_int_add zero_less_numeral zero_less_power_int)
  moreover obtain m where "q = of_int m * 2 powi fexp q" "0 < m" using representable_mantissa [OF assms(1,2)] by blast
  ultimately have "lower_mid q < of_int (\<lfloor>q / 10 powi p\<rfloor> + 1) * 10 powi p" using mid_order(2) [OF assms(2)] by fastforce
  then show ?thesis using assms by (intro interval_rounds_back) (auto simp: okup_def Let_def)
qed

lemma digits_at_rounds:
  assumes "representable q" "0 < q" "okdown q p \<or> okup q p"
  shows "fround (of_int (digits_at q p) * 10 powi p) = FFin q" "0 \<le> digits_at q p"
proof -
  have "round_half_even (q / 10 powi p) \<in> {\<lfloor>q / 10 powi p\<rfloor>, \<lfloor>q / 10 powi p\<rfloor> + 1}" by (auto simp: round_half_even_def Let_def)
  then have "digits_at q p = \<lfloor>q / 10 powi p\<rfloor> \<and> okdown q p \<or> digits_at q p = \<lfloor>q / 10 powi p\<rfloor> + 1 \<and> okup q p"
    using assms(3) by (cases "okdown q p"; cases "okup q p") (simp_all add: digits_at_def)
  then show "fround (of_int (digits_at q p) * 10 powi p) = FFin q"
    using okdown_rounds [OF assms(1,2)] okup_rounds [OF assms(1,2)] by auto
  have "0 \<le> \<lfloor>q / 10 powi p\<rfloor>" using assms(2) by simp
  moreover have "\<lfloor>q / 10 powi p\<rfloor> \<le> digits_at q p" using floor_le_round(1) by (simp add: digits_at_def)
  ultimately show "0 \<le> digits_at q p" by linarith
qed

lemma okdown_exact:
  assumes "representable q" "0 < q"
  shows "okdown q (min 0 (fexp q))"
proof -
  obtain m where m: "q = of_int m * 2 powi fexp q" "0 < m" using representable_mantissa [OF assms] by blast
  have "q / 10 powi (min 0 (fexp q)) = of_int (m * (if fexp q < 0 then 5 ^ nat (- fexp q) else 2 ^ nat (fexp q)))"
  proof (cases "fexp q < 0")
    case True
    then have "(10 :: rat) powi fexp q = 2 powi fexp q * 5 powi fexp q" by (metis mult_numeral_1_right numeral_times_numeral
      power_int_mult_distrib num_double numeral_Bit0 mult_2 numeral_code(2))
    then show ?thesis using True m(1) by (simp add: power_int_def field_simps)
  qed (use m(1) in \<open>simp add: power_int_def\<close>)
  then have "of_int \<lfloor>q / 10 powi (min 0 (fexp q))\<rfloor> * 10 powi (min 0 (fexp q)) = q"
    by (simp only: floor_of_int) (metis nonzero_divide_eq_eq power_int_eq_0_iff zero_neq_numeral)
  then show ?thesis using mid_order(2) [OF assms(2) m] by (simp add: okdown_def)
qed

lemma roundShortest_rounds:
  assumes "representable q" "0 < q" "roundShortest q = (n, p)"
  shows "fround (of_int n * 10 powi p) = FFin q" "0 \<le> n"
proof -
  let ?ps = "rev [min 0 (fexp q)..int (length (FormatUint (nat \<lfloor>upper_mid q\<rfloor>)))]"
  have "min 0 (fexp q) \<in> set ?ps" by simp
  then have "List.find (\<lambda>p. okdown q p \<or> okup q p) ?ps \<noteq> None"
    using okdown_exact [OF assms(1,2)] by (auto simp: find_None_iff)
  then obtain p' where p': "List.find (\<lambda>p. okdown q p \<or> okup q p) ?ps = Some p'" by blast
  then have "okdown q p' \<or> okup q p'" by (auto simp: find_Some_iff)
  then show "fround (of_int n * 10 powi p) = FFin q" "0 \<le> n"
    using p' assms(3) digits_at_rounds [OF assms(1,2)] by (auto simp: roundShortest_def)
qed

lemma mantissa_val_digits: "list_all is_digit s \<Longrightarrow> mantissa_val 10 s = digits_val s"
proof (induction s rule: rev_induct)
  case (snoc c s)
  moreover from this have "hex_val c = Some (digit_val c)" by (simp add: hex_val_def is_digit_def digit_val_def)
  ultimately show ?case by (simp add: mantissa_val_def)
qed (simp add: mantissa_val_def)

lemma read_number_decimal:
  assumes "list_all is_digit a" "list_all is_digit b" "a \<noteq> []"
  shows "read_number False a = Some (of_nat (digits_val a))"
    "read_number False (a @ CHR ''.'' # b) = Some (of_nat (digits_val (a @ b)) / 10 ^ length b)"
proof -
  let ?r = "\<lambda>c. is_digit c \<or> c = CHR ''_''"
  have run: "takeWhile ?r s = s" "dropWhile ?r s = []" "filter is_digit s = s" if "list_all is_digit s" for s
    using that by (induction s) auto
  have dot: "\<not> ?r CHR ''.''" by (simp add: is_digit_def)
  then have whole: "takeWhile ?r (a @ CHR ''.'' # b) = a" "dropWhile ?r (a @ CHR ''.'' # b) = CHR ''.'' # b"
    using assms(1) by (simp_all add: takeWhile_append dropWhile_append list_all_iff)
  show "read_number False (a @ CHR ''.'' # b) = Some (of_nat (digits_val (a @ b)) / 10 ^ length b)"
    using assms by (simp add: read_number_def Let_def whole run mantissa_val_digits)
  show "read_number False a = Some (of_nat (digits_val a))"
    using assms by (simp add: read_number_def Let_def run mantissa_val_digits)
qed

lemma ParseFloat_decimal:
  assumes "is_digit c" "list_all (\<lambda>d. is_digit d \<or> d = CHR ''.'') s" "read_number False (c # s) = Some q" "fround q = FFin r"
  shows "ParseFloat (c # s) = Some (FFin r)" "ParseFloat (CHR ''-'' # c # s) = Some (FFin (- r))"
proof -
  have c: "c \<noteq> CHR ''-''" "c \<noteq> CHR ''+''" "lower_char c = c" "c \<noteq> CHR ''i''" "c \<noteq> CHR ''n''" "c \<noteq> CHR ''_''" "lower_char CHR ''-'' = CHR ''-''"
    using assms(1) by (auto simp: is_digit_def lower_char_def)
  have under: "CHR ''_'' \<notin> set s" using assms(2) by (auto simp: list_all_iff is_digit_def)
  have hex: "\<not> base_prefix ''x'' (c # s)"
    using assms(2) by (cases s) (auto simp: base_prefix_def lower_char_def is_digit_def split: if_splits)
  have special: "parse_special (c # s) = None" "parse_special (CHR ''-'' # c # s) = None"
    using c by (auto simp: parse_special_def strip_sign_def ToLower_def)
  then show "ParseFloat (c # s) = Some (FFin r)"
    using c under hex assms(3,4) by (simp add: ParseFloat_def strip_sign_def)
  have "fround (- q) = FFin (- r)" using assms(4) by (simp add: fround_minus)
  then show "ParseFloat (CHR ''-'' # c # s) = Some (FFin (- r))"
    using special c under hex assms(3) by (simp add: ParseFloat_def strip_sign_def)
qed

lemma decimal_text_reads:
  obtains c s where "decimal_text n p = c # s" "is_digit c" "list_all (\<lambda>d. is_digit d \<or> d = CHR ''.'') s"
    "read_number False (c # s) = Some (of_nat n * 10 powi p)"
proof -
  have u: "list_all is_digit (FormatUint m)" "FormatUint m \<noteq> []" "digits_val (FormatUint m) = m" for m using FormatUint_digits [of m] by auto
  have "read_number False (decimal_text n p) = Some (of_nat n * 10 powi p)"
  proof (cases "0 \<le> p")
    case True
    then show ?thesis using read_number_decimal(1) [OF u(1) _ u(2), of "[]"] by (simp add: decimal_text_def u(3) power_int_def)
  next
    case False
    let ?k = "nat (- p)"
    have "pad_zeros ?k (FormatUint (n mod 10 ^ ?k)) = fixed_digits ?k (n mod 10 ^ ?k)" using False by (intro pad_FormatUint) auto
    moreover have "digits_val (FormatUint (n div 10 ^ ?k) @ fixed_digits ?k (n mod 10 ^ ?k)) = n"
      by (simp add: digits_val_append u(3) fixed_digits_val) presburger
    ultimately show ?thesis using False read_number_decimal(2) [OF u(1) _ u(2), of "fixed_digits ?k (n mod 10 ^ ?k)"]
      by (simp add: decimal_text_def power_int_def field_simps)
  qed
  moreover have "decimal_text n p \<noteq> []" "is_digit (hd (decimal_text n p))" "list_all (\<lambda>d. is_digit d \<or> d = CHR ''.'') (decimal_text n p)"
    using u FormatUint_hd_digit by (auto simp: decimal_text_def list_all_iff pad_zeros_def) (auto simp: is_digit_def)
  ultimately show ?thesis using that by (cases "decimal_text n p") auto
qed

lemma ParseFloat_FormatFloat:
  assumes "representable q"
  shows "ParseFloat (FormatFloat (FFin q)) = Some (FFin q)"
proof (cases "q = 0")
  case True
  then show ?thesis by (simp add: FormatFloat_def) (simp add: ParseFloat_def parse_special_def strip_sign_def ToLower_def lower_char_def
      base_prefix_def read_number_def is_digit_def mantissa_val_def hex_val_def fround_def Let_def)
next
  case False
  obtain n p where np: "roundShortest \<bar>q\<bar> = (n, p)" by fastforce
  have "representable \<bar>q\<bar>" using assms False by (auto simp: representable_def abs_if fround_minus)
  then have r: "fround (of_int n * 10 powi p) = FFin \<bar>q\<bar>" "0 \<le> n" using roundShortest_rounds [OF _ _ np] False by auto
  obtain c s where t: "decimal_text (nat n) p = c # s" "is_digit c" "list_all (\<lambda>d. is_digit d \<or> d = CHR ''.'') s"
    "read_number False (c # s) = Some (of_nat (nat n) * 10 powi p)" by (rule decimal_text_reads)
  then show ?thesis using ParseFloat_decimal [OF t(2,3,4), of "\<bar>q\<bar>"] r False np
    by (cases "q < 0") (auto simp: FormatFloat_def)
qed

section \<open>Rounded values\<close>

lemma fmag_idem:
  assumes "0 < q"
  shows "fmag (fmag q) = fmag q"
proof -
  define k where "k = round_half_even (q / 2 powi fexp q)"
  have r: "fmag q = of_int k * 2 powi fexp q" by (simp add: fmag_def k_def)
  have top: "fmag q \<le> 2 powi (fexp q + 53)" using fmag_le_power [OF assms, of 53] fexp_upper [OF assms] by simp
  consider "fmag q = 0" | "fmag q = 2 powi (fexp q + 53)" | "0 < fmag q" "fmag q < 2 powi (fexp q + 53)"
    using top fmag_nonneg [of q] assms by fastforce
  then show ?thesis
  proof cases
    case 1
    then show ?thesis using round_half_even_int [of 0] by (simp add: fmag_def)
  next
    case 2
    then show ?thesis using fmag_power [of "fexp q + 53"] by (simp add: fexp_def)
  next
    case 3
    have "ilog2 (fmag q) < fexp q + 53"
    proof (rule ccontr)
      assume "\<not> ?thesis"
      then have "(2 :: rat) powi (fexp q + 53) \<le> 2 powi ilog2 (fmag q)" by (intro powi2_mono) simp
      then show False using ilog2_bounds(1) [OF 3(1)] 3(2) by linarith
    qed
    then have le: "fexp (fmag q) \<le> fexp q" by (auto simp: fexp_def)
    have "(2 :: rat) ^ nat (fexp q - fexp (fmag q)) * 2 powi fexp (fmag q) = 2 powi fexp q"
      using le by (simp add: power_int_add [symmetric] flip: power_int_of_nat)
    then have "fmag q = of_int (k * 2 ^ nat (fexp q - fexp (fmag q))) * 2 powi fexp (fmag q)"
      by (simp add: r mult.assoc)
    then show ?thesis by (rule fmag_exact)
  qed
qed

lemma fround_representable:
  assumes "fround q = FFin r"
  shows "representable r"
proof (cases "q = 0 \<or> r = 0")
  case True
  then show ?thesis using assms by (auto simp: representable_def fround_def)
next
  case False
  then have m: "\<bar>r\<bar> = fmag \<bar>q\<bar>" "\<not> f64_limit \<le> fmag \<bar>q\<bar>"
    using assms fmag_nonneg [of "\<bar>q\<bar>"] by (auto simp: fround_def Let_def split: if_splits)
  then have "fmag \<bar>r\<bar> = \<bar>r\<bar>" using fmag_idem [of "\<bar>q\<bar>"] False by simp
  then show ?thesis using m False by (auto simp: representable_def fround_def Let_def abs_if split: if_splits)
qed

lemma fround_rel_err:
  assumes "2 powi (- 1022) \<le> q" "fround q = FFin r"
  shows "\<bar>r - q\<bar> \<le> q / 2 ^ 53"
proof -
  have q: "0 < q" using assms(1) by (rule less_le_trans [OF powi2_pos])
  have "- 1022 \<le> ilog2 q"
  proof (rule ccontr)
    assume "\<not> ?thesis"
    then have "(2 :: rat) powi (ilog2 q + 1) \<le> 2 powi (- 1022)" by (intro powi2_mono) simp
    then show False using ilog2_bounds(2) [OF q] assms(1) by linarith
  qed
  then have e: "fexp q = ilog2 q - 52" by (simp add: fexp_def)
  let ?x = "q / 2 powi fexp q"
  have "r = fmag q" using assms(2) q by (auto simp: fround_def Let_def split: if_splits)
  then have "r - q = (of_int (round_half_even ?x) - ?x) * 2 powi fexp q" by (simp add: fmag_def left_diff_distrib)
  then have "\<bar>r - q\<bar> = \<bar>of_int (round_half_even ?x) - ?x\<bar> * 2 powi fexp q" by (simp only: abs_mult abs_of_pos [OF powi2_pos])
  also have "\<dots> \<le> 1 / 2 * 2 powi fexp q" using round_half_even_err [of ?x] by (intro mult_right_mono) simp_all
  also have "\<dots> = 2 powi ilog2 q / 2 ^ 53" by (simp add: e power_int_diff)
  also have "\<dots> \<le> q / 2 ^ 53" using ilog2_bounds(1) [OF q] by (intro divide_right_mono) simp_all
  finally show ?thesis .
qed

lemma text_1000: "FormatFloat (FFin 1000) = ''1000''"
proof -
  have e: "fexp 1000 = - 43" by (rule fexp_unique) simp_all
  have mids: "lower_mid 1000 = 1000 - 1 / 2 ^ 44" "upper_mid 1000 = 1000 + 1 / 2 ^ 44"
    by (simp_all add: lower_mid_def upper_mid_def e power_int_minus_divide)
  have "\<lfloor>1000 + 1 / 2 ^ 44 :: rat\<rfloor> = 1000" by (rule floor_unique) simp_all
  then have len: "length (FormatUint (nat \<lfloor>upper_mid 1000\<rfloor>)) = 4" by (simp add: mids FormatUint_eval)
  have ps: "rev [min 0 (- 43)..int 4] = 4 # 3 # rev [- 43..2]" by (simp add: upto.simps [of "- 1"] upto.simps [of 0] upto.simps [of 1])
  have "\<lfloor>1 / 10 :: rat\<rfloor> = 0" by (rule floor_unique) simp_all
  then have "\<not> okdown 1000 4" "\<not> okup 1000 4" "okdown 1000 3" "\<not> okup 1000 3" by (simp_all add: okdown_def okup_def mids)
  then have "roundShortest 1000 = (1, 3)" unfolding roundShortest_def e len ps by (simp add: digits_at_def)
  then show ?thesis by (simp add: FormatFloat_def decimal_text_def FormatUint_eval digit_char_eval)
qed

lemma parse_1000: "ParseFloat ''1000'' = Some (FFin 1000)"
  using ParseFloat_FormatFloat [of 1000] by (simp add: text_1000 representable_def fround_numeral)

end
