(* ===== verification/Collectors.thy ===== *)
theory Collectors
  imports DutyTracking EngineBaseline HostMetrics GoFormat
begin

text \<open>
  The collecting loops of the daemon: \<open>internal/app/networkbaseline.go\<close>, \<open>internal/app/blocktiming.go\<close> and the slot clock, peer,
  host and retention loops of \<open>internal/app/watch.go\<close>. A loop is a function of one turn: what arrived, what the measurements
  returned and what the clock said are its arguments, and the database it leaves is its result.
\<close>

section \<open>The network baseline\<close>

datatype baseline_error = NotHead | OtherSlot slot | NegativePropagation | StaleGauge | BeforeSlot | BaselineRejected domain_error

definition baseline_draft :: "slot \<Rightarrow> gotime \<Rightarrow> SourceID \<Rightarrow> duration \<Rightarrow> Observation" where
  "baseline_draft s t src propagation =
     (let propagationMS = FormatFloat (to_ms propagation)
      in \<lparr>obs_Slot = s, obs_Kind = ObsNetworkBaselineSampled, obs_At = t, obs_ClockOffset = 0, obs_ClockMeasured = False,
          obs_ClockSampleAt = time_zero, obs_Source = src,
          obs_Attrs = [(AttrBlockArrivalP50MS, propagationMS), (AttrBlockArrivalP90MS, propagationMS), (AttrSampleCount, ''1'')]\<rparr>)"

definition new_baseline :: "Observation \<Rightarrow> baseline_error + Observation" where
  "new_baseline draft = (case NewObservation draft of Inl e \<Rightarrow> Inl (BaselineRejected e) | Inr ob \<Rightarrow> Inr ob)"

definition networkBaselineFromTiming :: "Observation \<Rightarrow> BlockTiming \<Rightarrow> GenesisInfo \<Rightarrow> baseline_error + Observation" where
  "networkBaselineFromTiming head timing g =
     (if obs_Kind head \<noteq> ObsHeadUpdated then Inl NotHead
      else if bt_Slot timing \<noteq> obs_Slot head then Inl (OtherSlot (bt_Slot timing))
      else if bt_Propagation timing < 0 then Inl NegativePropagation
      else let arrivedAt = Add (GenesisInfo_SlotStart g (unat (bt_Slot timing))) (bt_Propagation timing)
           in if After arrivedAt (bt_SampledAt timing) then Inl StaleGauge
              else new_baseline (baseline_draft (obs_Slot head) (bt_SampledAt timing) SourcePromScrape (bt_Propagation timing)))"

definition baselineFromArrival :: "slot \<Rightarrow> gotime \<Rightarrow> gotime \<Rightarrow> baseline_error + Observation" where
  "baselineFromArrival s slotStart arrivedAt =
     (let propagation = Sub arrivedAt slotStart
      in if propagation < 0 then Inl BeforeSlot
         else new_baseline (baseline_draft s arrivedAt SourceBeaconAPI propagation))"

text \<open>One head of \<open>runNetworkBaseline\<close>: the slots seen and the database.\<close>

record baseline_job =
  bj_head :: Observation
  bj_timing :: "metric_error + BlockTiming"
  bj_clock :: "Tracker option"
  bj_reaches :: bool

definition write_or_log :: "bool \<Rightarrow> Observation \<Rightarrow> database \<Rightarrow> database" where
  "write_or_log reaches ob db = (case store_write reaches ob db of Inl _ \<Rightarrow> db | Inr db' \<Rightarrow> db')"

definition baseline_head :: "GenesisInfo \<Rightarrow> duration \<Rightarrow> baseline_job \<Rightarrow> slot list \<times> database \<Rightarrow> slot list \<times> database" where
  "baseline_head g maxAge job st =
     (case note_processed (obs_Slot (bj_head job)) (fst st) of
        None \<Rightarrow> st
      | Some seen \<Rightarrow>
          (seen,
           case bj_timing job of
             Inl _ \<Rightarrow> snd st
           | Inr timing \<Rightarrow>
               (case networkBaselineFromTiming (bj_head job) timing g of
                  Inl _ \<Rightarrow> snd st
                | Inr ob \<Rightarrow> write_or_log (bj_reaches job) (stampClockProvenance (bj_clock job) maxAge ob False) (snd st))))"

definition blockTimingCatchupWindow :: duration where
  "blockTimingCatchupWindow = 3 * Second"

text \<open>A turn of \<open>runNetworkBaselineFromAPI\<close>: it waits for genesis, or polls the next slot from its start to a deadline.\<close>

datatype api_turn = ApiAwaitGenesis gotime | ApiPoll slot gotime gotime

definition api_turn_at :: "GenesisInfo \<Rightarrow> gotime \<Rightarrow> api_turn" where
  "api_turn_at g now =
     (if Sub (gi_GenesisTime g) now > 0 then ApiAwaitGenesis (gi_GenesisTime g)
      else let currentSlot = slot_at g now; nextStart = GenesisInfo_SlotStart g (unat (currentSlot + 1))
           in ApiPoll (currentSlot + 1) nextStart (Add nextStart (wrap64 (blockTimingCatchupWindow + gi_SecondsPerSlot g))))"

definition api_arrival :: "duration \<Rightarrow> Tracker option \<Rightarrow> bool \<Rightarrow> slot \<Rightarrow> gotime \<Rightarrow> beacon_error + Observation option \<Rightarrow> database \<Rightarrow> database" where
  "api_arrival maxAge clk reaches s start seen db =
     (case seen of
        Inl _ \<Rightarrow> db
      | Inr None \<Rightarrow> db
      | Inr (Some ob) \<Rightarrow>
          (case baselineFromArrival s start (obs_At ob) of
             Inl _ \<Rightarrow> db
           | Inr baseline \<Rightarrow> write_or_log reaches (stampClockProvenance clk maxAge baseline False) db))"

section \<open>Block timing and Engine calls\<close>

definition engine_call_draft :: "slot \<Rightarrow> EngineCallWindow \<Rightarrow> Observation" where
  "engine_call_draft s call =
     \<lparr>obs_Slot = s, obs_Kind = ObsEngineCall, obs_At = ew_At call, obs_ClockOffset = 0, obs_ClockMeasured = False,
      obs_ClockSampleAt = time_zero, obs_Source = SourcePromScrape,
      obs_Attrs = [(AttrEngineMethod, ew_Method call), (AttrDurationMS, FormatFloat (ew_DurationMS call)),
                   (AttrSampleCount, FormatUint (ew_Count call))]\<rparr>"

text \<open>What one head meets: the two scrapes, and for every stamp and statement the tracker and whether it goes through.\<close>

datatype timing_write = WriteBlockSeen | WriteP99 | WriteCall string

record timing_job =
  tj_head :: Observation
  tj_headClock :: "Tracker option"
  tj_timing :: "metric_error + BlockTiming"
  tj_counters :: "metric_error + EngineCounters"
  tj_clock :: "timing_write \<Rightarrow> Tracker option"
  tj_reaches :: "timing_write \<Rightarrow> bool"

record timing_state =
  ts_processed :: "slot list"
  ts_windows :: engineWindowTracker
  ts_baseline :: EngineBaseline
  ts_db :: database

definition write_block_seen :: "GenesisInfo \<Rightarrow> duration \<Rightarrow> timing_job \<Rightarrow> database \<Rightarrow> database" where
  "write_block_seen g maxAge job db =
     (case tj_timing job of
        Inl _ \<Rightarrow> db
      | Inr timing \<Rightarrow>
          (case blockSeenFromTiming (stampClock (tj_headClock job) maxAge (tj_head job)) timing g of
             Inl _ \<Rightarrow> db
           | Inr ob \<Rightarrow>
               write_or_log (tj_reaches job WriteBlockSeen) (stampClockProvenance (tj_clock job WriteBlockSeen) maxAge ob False) db))"

definition MetricELEngineCallsP99MS :: string where
  "MetricELEngineCallsP99MS = ''el_engine_calls_p99_ms''"

definition p99_sample :: "GenesisInfo \<Rightarrow> slot \<Rightarrow> f64 \<Rightarrow> MetricSample" where
  "p99_sample g s p99 =
     \<lparr>ms_At = GenesisInfo_SlotStart g (unat s), ms_Component = ComponentEL, ms_Name = MetricELEngineCallsP99MS, ms_Value = p99,
      ms_ClockOffset = 0, ms_ClockMeasured = False, ms_ClockSampleAt = time_zero, ms_Source = SourceDerived\<rparr>"

definition write_p99 :: "GenesisInfo \<Rightarrow> timing_job \<Rightarrow> EngineBaseline \<Rightarrow> database \<Rightarrow> database" where
  "write_p99 g job baseline db =
     (case EngineBaseline_P99 baseline of
        None \<Rightarrow> db
      | Some p99 \<Rightarrow>
          if \<not> tj_reaches job WriteP99 then db
          else (case WriteSample (p99_sample g (obs_Slot (tj_head job)) p99) db of Inl _ \<Rightarrow> db | Inr db' \<Rightarrow> db'))"

definition write_call :: "duration \<Rightarrow> timing_job \<Rightarrow> database \<Rightarrow> EngineCallWindow \<Rightarrow> database" where
  "write_call maxAge job db call =
     (case NewObservation (engine_call_draft (obs_Slot (tj_head job)) call) of
        Inl _ \<Rightarrow> db
      | Inr ob \<Rightarrow>
          write_or_log (tj_reaches job (WriteCall (ew_Method call))) (stampClock (tj_clock job (WriteCall (ew_Method call))) maxAge ob) db)"

definition total_ms :: "EngineCallWindow list \<Rightarrow> f64" where
  "total_ms calls = foldl (\<lambda>acc call. f_add acc (ew_DurationMS call)) (FFin 0) calls"

definition timing_head :: "GenesisInfo \<Rightarrow> duration \<Rightarrow> timing_job \<Rightarrow> timing_state \<Rightarrow> timing_state" where
  "timing_head g maxAge job st =
     (case note_processed (obs_Slot (tj_head job)) (ts_processed st) of
        None \<Rightarrow> st
      | Some processed \<Rightarrow>
          let db1 = write_block_seen g maxAge job (ts_db st);
              (windows, calls) = window_step (obs_Slot (tj_head job)) (tj_counters job) (ts_windows st);
              st1 = st\<lparr>ts_processed := processed, ts_windows := windows, ts_db := db1\<rparr>
          in case calls of
               None \<Rightarrow> st1
             | Some cs \<Rightarrow>
                 st1\<lparr>ts_db := foldl (write_call maxAge job) (write_p99 g job (ts_baseline st) db1) cs,
                     ts_baseline := EngineBaseline_Add (ts_baseline st) (total_ms cs)\<rparr>)"

section \<open>The slot clock and the sampling loops\<close>

datatype clock_turn = ClockAwait duration | ClockTick slot gotime gotime

definition slot_clock_turn :: "GenesisInfo \<Rightarrow> gotime \<Rightarrow> clock_turn" where
  "slot_clock_turn g now =
     (let untilGenesis = Sub (gi_GenesisTime g) now
      in if untilGenesis > 0 then ClockAwait untilGenesis
         else let currentSlot = slot_at g now
              in ClockTick currentSlot (GenesisInfo_SlotStart g (unat currentSlot)) (GenesisInfo_SlotStart g (unat (currentSlot + 1))))"

definition slot_start_draft :: "slot \<Rightarrow> gotime \<Rightarrow> Observation" where
  "slot_start_draft s slotStart =
     \<lparr>obs_Slot = s, obs_Kind = ObsSlotStart, obs_At = slotStart, obs_ClockOffset = 0, obs_ClockMeasured = False,
      obs_ClockSampleAt = time_zero, obs_Source = SourceDerived, obs_Attrs = []\<rparr>"

definition slot_clock_write :: "GenesisInfo \<Rightarrow> duration \<Rightarrow> gotime \<Rightarrow> Tracker option \<Rightarrow> bool \<Rightarrow> database \<Rightarrow> database" where
  "slot_clock_write g maxAge now clk reaches db =
     (case slot_clock_turn g now of
        ClockAwait _ \<Rightarrow> db
      | ClockTick s slotStart _ \<Rightarrow>
          (case NewObservation (slot_start_draft s slotStart) of
             Inl _ \<Rightarrow> db
           | Inr ob \<Rightarrow> write_or_log reaches (stampClock clk maxAge ob) db))"

text \<open>A tick of the peer and of the host sampler: a sample that could not be taken is passed over.\<close>

definition sample_tick :: "duration \<Rightarrow> ('e + MetricSample) \<times> Tracker option \<times> bool \<Rightarrow> database \<Rightarrow> database" where
  "sample_tick maxAge tick db =
     (case tick of
        (Inl _, _, _) \<Rightarrow> db
      | (Inr m, clk, reaches) \<Rightarrow>
          if \<not> reaches then db
          else (case WriteSample (stampSampleClock clk maxAge m) db of Inl _ \<Rightarrow> db | Inr db' \<Rightarrow> db'))"

section \<open>Milliseconds and back\<close>

text \<open>One rounding adds at most \<open>2\<^sup>-\<^sup>5\<^sup>3\<close> to the relative error.\<close>

definition rel_err :: "rat \<Rightarrow> rat \<Rightarrow> rat \<Rightarrow> bool" where
  "rel_err a q r \<longleftrightarrow> \<bar>r - q\<bar> \<le> a * q"

lemma rel_err_scale: "rel_err a q r \<Longrightarrow> 0 \<le> c \<Longrightarrow> rel_err a (c * q) (c * r)"
proof -
  assume a: "rel_err a q r" "0 \<le> c"
  have "\<bar>c * r - c * q\<bar> = c * \<bar>r - q\<bar>" using a(2) by (simp add: abs_mult flip: right_diff_distrib)
  also have "\<dots> \<le> c * (a * q)" using a by (intro mult_left_mono) (simp_all add: rel_err_def)
  finally show ?thesis by (simp add: rel_err_def ac_simps)
qed

lemma rel_err_mono: "rel_err a q r \<Longrightarrow> a \<le> b \<Longrightarrow> 0 \<le> q \<Longrightarrow> rel_err b q r"
  unfolding rel_err_def by (meson mult_right_mono order_trans)

lemma rel_err_fround:
  assumes "rel_err a q p" "0 \<le> a" "a \<le> 1 / 2" "q = 0 \<or> 1 / 2 ^ 40 \<le> q" "q \<le> 2 ^ 60"
  shows "\<exists>r. fround p = FFin r \<and> rel_err (a + (1 + a) / 2 ^ 53) q r \<and> 0 \<le> r"
proof (cases "q = 0")
  case True
  then show ?thesis using assms(1) by (auto simp: rel_err_def fround_def)
next
  case False
  then have q: "1 / 2 ^ 40 \<le> q" "0 < q" using assms(4) by (auto intro: less_le_trans)
  have "a * q \<le> 1 / 2 * q" using assms(3) q by (intro mult_right_mono) simp_all
  moreover have pq: "\<bar>p - q\<bar> \<le> a * q" using assms(1) by (simp add: rel_err_def)
  ultimately have p: "\<bar>p - q\<bar> \<le> a * q" "q / 2 \<le> p" "p \<le> 2 * q" using q(2) unfolding abs_le_iff by linarith+
  have "p \<le> 2 powi 61" using p(3) assms(5) by simp
  then obtain r where r: "fround p = FFin r" using fround_bounded [of p 61] p(2) q(2) by (auto simp: abs_if)
  have "(2 :: rat) powi (- 1022) \<le> 2 powi (- 41)" by (rule powi2_mono) simp
  then have "(2 :: rat) powi (- 1022) \<le> p" using p(2) q(1) by (simp add: power_int_minus_divide)
  then have "\<bar>r - p\<bar> \<le> p / 2 ^ 53" using r by (rule fround_rel_err)
  moreover have "p / 2 ^ 53 \<le> ((1 + a) * q) / 2 ^ 53" using p(1) by (intro divide_right_mono) (auto simp: abs_le_iff algebra_simps)
  ultimately have "\<bar>r - q\<bar> \<le> a * q + ((1 + a) * q) / 2 ^ 53" using p(1) by linarith
  then have "rel_err (a + (1 + a) / 2 ^ 53) q r" by (simp add: rel_err_def algebra_simps add_divide_distrib)
  moreover have "f_le (FFin 0) (FFin r)" using fround_nonneg [of p] p(2) q(2) r by simp
  ultimately show ?thesis using r by auto
qed

lemma Seconds_close:
  assumes "0 \<le> d" "d \<le> 2 ^ 50"
  shows "\<exists>r. Seconds d = FFin r \<and> rel_err (3 / 2 ^ 53) (of_int d / 1000000000) r \<and> 0 \<le> r"
proof -
  define s n :: rat where "s = of_int (d div 1000000000)" and "n = of_int (d mod 1000000000)"
  have whole: "of_int d / 1000000000 = s + n / 1000000000"
  proof -
    have "d = d div 1000000000 * 1000000000 + d mod 1000000000" by simp
    then have "(of_int d :: rat) = s * 1000000000 + n" unfolding s_def n_def by (metis of_int_add of_int_mult of_int_numeral)
    then show ?thesis by simp
  qed
  have n: "0 \<le> n" "n < 1000000000" "n = 0 \<or> 1 \<le> n" using assms(1) by (auto simp: n_def)
  have s: "0 \<le> s" "s = 0 \<or> 1 \<le> s" "s \<le> 2 ^ 50" using assms by (auto simp: s_def)
  have ops: "go_div d Second = d div 1000000000" "go_rem d Second = d mod 1000000000" using assms(1) by simp_all
  have exact: "f_of_int (d div 1000000000) = FFin s" "f_of_int (d mod 1000000000) = FFin n"
    using assms by (simp_all add: s_def n_def f_of_int_exact)
  obtain x where x: "fround (n / 1000000000) = FFin x" "rel_err (1 / 2 ^ 53) (n / 1000000000) x" "0 \<le> x"
    using rel_err_fround [of 0 "n / 1000000000" "n / 1000000000"] n by (auto simp: rel_err_def)
  then have "rel_err (1 / 2 ^ 53) (s + n / 1000000000) (s + x)" using s(1) by (auto simp: rel_err_def)
  then obtain r where r: "fround (s + x) = FFin r" "rel_err (1 / 2 ^ 53 + (1 + 1 / 2 ^ 53) / 2 ^ 53) (s + n / 1000000000) r" "0 \<le> r"
    using rel_err_fround [of "1 / 2 ^ 53" "s + n / 1000000000" "s + x"] n s by auto
  moreover have "Seconds d = FFin r" using r(1) x(1) by (simp add: Seconds_def ops exact)
  moreover have "rel_err (3 / 2 ^ 53) (s + n / 1000000000) r" using r(2) n(1) s(1) by (elim rel_err_mono) simp_all
  ultimately show ?thesis unfolding whole by blast
qed

lemma to_ms_reading:
  assumes "0 \<le> d" "d \<le> 2 ^ 50"
  obtains v r where "to_ms d = FFin v" "representable v" "0 \<le> v" "v \<le> 2 ^ 40"
    "f_to_int64 (f_mul (FFin v) (f_of_int 1000000)) = Some r" "0 \<le> r" "d - 1 \<le> r" "r \<le> d"
proof -
  let ?d = "of_int d :: rat"
  have d: "?d = 0 \<or> 1 \<le> ?d" "0 \<le> ?d" "?d \<le> 2 ^ 50" using assms by (auto simp flip: of_int_le_iff)
  obtain s where s: "Seconds d = FFin s" "rel_err (3 / 2 ^ 53) (?d / 1000000000) s" "0 \<le> s" using Seconds_close [OF assms] by blast
  have "rel_err (3 / 2 ^ 53) (?d / 1000000) (s * 1000)" using rel_err_scale [OF s(2), of 1000] by (simp add: mult.commute)
  then obtain v where v: "fround (s * 1000) = FFin v" "rel_err (3 / 2 ^ 53 + (1 + 3 / 2 ^ 53) / 2 ^ 53) (?d / 1000000) v" "0 \<le> v"
    using rel_err_fround [of "3 / 2 ^ 53" "?d / 1000000" "s * 1000"] d by auto
  then have v5: "rel_err (5 / 2 ^ 53) (?d / 1000000) v" using d(2) by (elim rel_err_mono) simp_all
  have "rel_err (5 / 2 ^ 53) ?d (v * 1000000)" using rel_err_scale [OF v5, of 1000000] by (simp add: mult.commute)
  then obtain r where r: "fround (v * 1000000) = FFin r" "rel_err (5 / 2 ^ 53 + (1 + 5 / 2 ^ 53) / 2 ^ 53) ?d r" "0 \<le> r"
    using rel_err_fround [of "5 / 2 ^ 53" ?d "v * 1000000"] d by auto
  then have "rel_err (7 / 2 ^ 53) ?d r" using d(2) by (elim rel_err_mono) simp_all
  then have "\<bar>r - ?d\<bar> < 1" using d(3) by (simp add: rel_err_def)
  then have fl: "d - 1 \<le> \<lfloor>r\<rfloor>" "\<lfloor>r\<rfloor> \<le> d" by (auto simp: abs_less_iff) linarith+
  have "rel_err 1 (?d / 1000000) v" using v5 d(2) by (elim rel_err_mono) simp_all
  then have "v - ?d / 1000000 \<le> ?d / 1000000" unfolding rel_err_def mult_1_left by (rule order_trans [OF abs_ge_self])
  then have "v \<le> 2 ^ 40" using d(3) by simp
  moreover have "d \<le> 1125899906842624" using assms(2) by simp
  then have "in_int64 \<lfloor>r\<rfloor>" using fl assms(1) unfolding int64_defs by linarith
  then have "f_to_int64 (f_mul (FFin v) (f_of_int 1000000)) = Some \<lfloor>r\<rfloor>"
    using r(1,3) by (simp add: f_of_int_exact f_trunc_def)
  moreover have "to_ms d = FFin v" using s(1) v(1) by (simp add: to_ms_def)
  ultimately show ?thesis using that v(1,3) r(3) fl fround_representable by (metis zero_le_floor)
qed

section \<open>What the rules read back\<close>

lemma new_baseline_attrs:
  assumes "new_baseline (baseline_draft s t src d) = Inr ob"
  shows "obs_Slot ob = s" "obs_Kind ob = ObsNetworkBaselineSampled" "obs_At ob = t" "obs_Source ob = src"
    "obs_Attrs ob = obs_Attrs (baseline_draft s t src d)"
  using assms by (auto simp: new_baseline_def NewObservation_def baseline_draft_def lower_root_def Let_def split: sum.splits option.splits)

lemma baseline_reading:
  assumes "new_baseline (baseline_draft s t src d) = Inr ob" "0 \<le> d" "d \<le> 2 ^ 50" "src \<in> {SourcePromScrape, SourceBeaconAPI}"
  shows "\<exists>r. d - 1 \<le> r \<and> r \<le> d \<and> 0 \<le> r \<and>
    NetworkBaselineFromObservation oob ob =
      Inr \<lparr>nb_Slot = s, nb_BlockArrivalP50 = r, nb_BlockArrivalP90 = r, nb_SampleCount = 1, nb_Source = src\<rparr>"
proof -
  obtain v r where v: "to_ms d = FFin v" "representable v" "0 \<le> v" "v \<le> 2 ^ 40"
    and r: "f_to_int64 (f_mul (FFin v) (f_of_int 1000000)) = Some r" "0 \<le> r" "d - 1 \<le> r" "r \<le> d" using to_ms_reading [OF assms(2,3)] by blast
  have parse: "ParseFloat (FormatFloat (FFin v)) = Some (FFin v)" by (rule ParseFloat_FormatFloat [OF v(2)])
  have one: "ParseInt 32 ''1'' = Some 1" by (simp add: ParseInt_def ParseUint_def is_digit_def digits_val_def digit_val_def Let_def)
  have attrs: "obs_Attrs ob = [(AttrBlockArrivalP50MS, FormatFloat (FFin v)), (AttrBlockArrivalP90MS, FormatFloat (FFin v)), (AttrSampleCount, ''1'')]"
    using new_baseline_attrs(5) [OF assms(1)] v(1) by (simp add: baseline_draft_def Let_def)
  have "\<not> f_lt maxMilliseconds (FFin v)" using v(4) by (simp add: maxMilliseconds_eq)
  then have "baselineDurationAttr oob ob AttrBlockArrivalP50MS = Inr r" "baselineDurationAttr oob ob AttrBlockArrivalP90MS = Inr r"
    using v(3) r(1) parse by (simp_all add: baselineDurationAttr_def Observation_Attr_def attrs ms_to_duration_def)
  moreover have "NetworkBaseline_Validate \<lparr>nb_Slot = s, nb_BlockArrivalP50 = r, nb_BlockArrivalP90 = r, nb_SampleCount = 1, nb_Source = src\<rparr> = None"
    using assms(4) r(2) by (auto simp: NetworkBaseline_Validate_def)
  ultimately have "NetworkBaselineFromObservation oob ob =
      Inr \<lparr>nb_Slot = s, nb_BlockArrivalP50 = r, nb_BlockArrivalP90 = r, nb_SampleCount = 1, nb_Source = src\<rparr>"
    using new_baseline_attrs(1-4) [OF assms(1)] one by (simp add: NetworkBaselineFromObservation_def Observation_Attr_def attrs)
  with r show ?thesis by blast
qed

lemma networkBaselineFromTiming_Inr:
  assumes "networkBaselineFromTiming head timing g = Inr ob"
  shows "0 \<le> bt_Propagation timing"
    "new_baseline (baseline_draft (obs_Slot head) (bt_SampledAt timing) SourcePromScrape (bt_Propagation timing)) = Inr ob"
    "\<not> After (Add (GenesisInfo_SlotStart g (unat (obs_Slot head))) (bt_Propagation timing)) (bt_SampledAt timing)"
  using assms by (auto simp: networkBaselineFromTiming_def Let_def split: if_splits)

lemma baselineFromArrival_Inr:
  assumes "baselineFromArrival s start arrived = Inr ob"
  shows "0 \<le> Sub arrived start" "new_baseline (baseline_draft s arrived SourceBeaconAPI (Sub arrived start)) = Inr ob"
  using assms unfolding baselineFromArrival_def Let_def by (metis Inl_Inr_False not_less)+

text \<open>
  Property C27: the network baseline the rules judge by is the arrival that was measured. Whether it was scraped or polled from the
  independent node, an accepted baseline decodes to one sample with both percentiles equal to the measured propagation, or to
  one nanosecond less because the conversion from milliseconds truncates; and a scraped one is never of an arrival later than
  the moment of the scrape.
\<close>

theorem baseline_reads_back:
  assumes "networkBaselineFromTiming head timing g = Inr ob \<and> s = obs_Slot head \<and> src = SourcePromScrape \<and> d = bt_Propagation timing \<or>
      baselineFromArrival s start arrived = Inr ob \<and> src = SourceBeaconAPI \<and> d = Sub arrived start"
    and "d \<le> 2 ^ 50"
  shows "(\<exists>r. d - 1 \<le> r \<and> r \<le> d \<and> 0 \<le> r \<and>
      NetworkBaselineFromObservation oob ob =
        Inr \<lparr>nb_Slot = s, nb_BlockArrivalP50 = r, nb_BlockArrivalP90 = r, nb_SampleCount = 1, nb_Source = src\<rparr>) \<and>
    (networkBaselineFromTiming head timing g = Inr ob \<longrightarrow>
       \<not> After (Add (GenesisInfo_SlotStart g (unat (obs_Slot head))) (bt_Propagation timing)) (obs_At ob))"
proof (intro conjI impI)
  obtain t where "new_baseline (baseline_draft s t src d) = Inr ob" "0 \<le> d" "src \<in> {SourcePromScrape, SourceBeaconAPI}"
    using assms(1) networkBaselineFromTiming_Inr(1,2) baselineFromArrival_Inr by blast
  then show "\<exists>r. d - 1 \<le> r \<and> r \<le> d \<and> 0 \<le> r \<and> NetworkBaselineFromObservation oob ob =
      Inr \<lparr>nb_Slot = s, nb_BlockArrivalP50 = r, nb_BlockArrivalP90 = r, nb_SampleCount = 1, nb_Source = src\<rparr>"
    using assms(2) by (intro baseline_reading)
next
  assume "networkBaselineFromTiming head timing g = Inr ob"
  then show "\<not> After (Add (GenesisInfo_SlotStart g (unat (obs_Slot head))) (bt_Propagation timing)) (obs_At ob)"
    using networkBaselineFromTiming_Inr(2,3) new_baseline_attrs(3) by metis
qed

section \<open>Engine calls\<close>

lemma map_filter_filter: "(\<And>x. \<not> P x \<Longrightarrow> f x = None) \<Longrightarrow> List.map_filter f xs = List.map_filter f (filter P xs)"
  by (induction xs) (auto simp: List.map_filter_def)

lemma EngineCallsBetween_representable:
  assumes "EngineCallsBetween before after = Inr calls" "call \<in> set calls"
  obtains v where "ew_DurationMS call = FFin v" "representable v" "0 \<le> v"
proof -
  obtain a b where ab: "ew_DurationMS call = f_sub a b" "f_finite (f_sub a b)" "\<not> f_lt (f_sub a b) (FFin 0)"
    using assms by (auto simp: EngineCallsBetween_def engine_call_def Let_def split: if_splits sum.splits)
  then obtain v where v: "f_sub a b = FFin v" "0 \<le> v" by (auto simp: f_finite_iff)
  then obtain p q where "a = FFin p" "b = FFin q" by (cases a; cases b) (auto simp: f_sub_def split: if_splits)
  then have "fround (p - q) = FFin v" using v(1) by (simp add: f_sub_def)
  then show ?thesis using that [of v] v ab(1) fround_representable [of "p - q" v] by simp
qed

lemma stampClock_sel [simp]:
  "obs_Slot (stampClock tr maxAge ob) = obs_Slot ob" "obs_Kind (stampClock tr maxAge ob) = obs_Kind ob"
  "obs_Source (stampClock tr maxAge ob) = obs_Source ob" "obs_Attrs (stampClock tr maxAge ob) = obs_Attrs ob"
  by (auto simp: stampClock_def stampClockProvenance_def Let_def split: option.split prod.split)

lemma engine_call_read_back:
  assumes "EngineCallsBetween before after = Inr calls" "call \<in> set calls" "ew_Count call < 2 ^ 64"
    "NewObservation (engine_call_draft s call) = Inr ob"
  shows "parse_engine_call (stampClock tr maxAge ob) =
    Some \<lparr>ec_at = obs_At (stampClock tr maxAge ob), ec_method = ew_Method call, ec_count = ew_Count call, ec_durationMS = ew_DurationMS call\<rparr>"
proof -
  obtain v where v: "ew_DurationMS call = FFin v" "representable v" "0 \<le> v" using EngineCallsBetween_representable [OF assms(1,2)] by blast
  have "ew_Method call \<in> set (map ew_Method calls)" using assms(2) by simp
  then have m: "ew_Method call \<in> {EngineMethodNewPayload, EngineMethodForkchoiceUpdated}" "0 < ew_Count call"
    using EngineCallsBetween_facts [OF assms(1)] assms(2) by (simp_all del: set_map)
  have "obs_Kind ob = ObsEngineCall" "obs_Source ob = SourcePromScrape" "obs_Attrs ob = obs_Attrs (engine_call_draft s call)"
    using assms(4) by (auto simp: NewObservation_def engine_call_draft_def lower_root_def split: option.splits)
  then show ?thesis using v m ParseFloat_FormatFloat [OF v(2)] ParseUint_FormatUint [OF assms(3)]
    by (auto simp: parse_engine_call_def Observation_Attr_def engine_call_draft_def)
qed


section \<open>The slot clock\<close>

lemma slot_clock_turn_eq:
  assumes "0 < gi_SecondsPerSlot g" "t_ns (gi_GenesisTime g) + int n * gi_SecondsPerSlot g \<le> t_ns now"
    "t_ns now < t_ns (gi_GenesisTime g) + int (n + 1) * gi_SecondsPerSlot g" "int (n + 1) * gi_SecondsPerSlot g < 2 ^ 62"
  shows "slot_clock_turn g now = ClockTick (of_nat n) (Add (gi_GenesisTime g) (int n * gi_SecondsPerSlot g))
    (Add (gi_GenesisTime g) (int (n + 1) * gi_SecondsPerSlot g))"
proof -
  let ?p = "gi_SecondsPerSlot g"
  define k where "k = t_ns now - t_ns (gi_GenesisTime g)"
  have split: "int (n + 1) * ?p = int n * ?p + ?p" and nn: "0 \<le> int n * ?p" using assms(1) by (simp_all add: algebra_simps)
  have k: "int n * ?p \<le> k" "k < int n * ?p + ?p" "0 \<le> k" "k < 2 ^ 62" using assms nn unfolding k_def split by linarith+
  have "int (n + 1) * 1 \<le> int (n + 1) * ?p" using assms(1) by (intro mult_left_mono) simp_all
  then have "int (n + 1) < 2 ^ 62" using assms(4) by (metis le_less_trans mult.right_neutral)
  then have n: "n + 1 < 2 ^ 62" by (metis of_nat_less_iff of_nat_numeral of_nat_power)
  have "k div ?p = int n" using k(1,2) by (intro int_div_pos_eq [of _ _ _ "k - int n * ?p"]) (simp_all add: mult.commute)
  then have "slot_at g now = of_nat n"
    using k assms(1) by (simp add: slot_at_def Sub_def clamp64_def int64_defs k_def [symmetric])
  moreover have small: "unat (of_nat m :: 64 word) = m" if "m < 2 ^ 62" for m using that by (simp add: unat_of_nat)
  have "unat (of_nat n :: 64 word) = n" "unat (of_nat n + 1 :: 64 word) = n + 1"
    using n small [of n] small [of "n + 1"] by (simp_all add: add.commute)
  moreover have "GenesisInfo_SlotStart g m = Add (gi_GenesisTime g) (int m * ?p)" if "m \<le> n + 1" for m
  proof (rule SlotStart_exact [OF assms(1)])
    have "int m * ?p \<le> int (n + 1) * ?p" using that assms(1) by (intro mult_right_mono) simp_all
    then show "int m * ?p \<le> int64_max" using assms(4) by (simp add: int64_max_def)
  qed
  moreover have "\<not> 0 < Sub (gi_GenesisTime g) now" using k(3) by (simp add: Sub_def clamp64_def k_def int64_defs)
  ultimately show ?thesis by (simp add: slot_clock_turn_def Let_def)
qed

text \<open>
  The slot clock misses no slot and names none twice. A turn after genesis writes the start of the slot the clock is
  in and then sleeps to the start of the next; a wake-up before that next slot is over writes exactly the next slot, starting
  where this one ended.
\<close>

lemma slot_clock_tiles:
  assumes "0 < gi_SecondsPerSlot g" "gi_SecondsPerSlot g \<le> 2 ^ 36" "t_ns (gi_GenesisTime g) \<le> t_ns now"
    "t_ns now - t_ns (gi_GenesisTime g) < 2 ^ 61"
  shows "\<exists>s start wake. slot_clock_turn g now = ClockTick s start wake \<and> \<not> After start now \<and> Before now wake \<and>
    t_ns wake = t_ns start + gi_SecondsPerSlot g \<and>
    (\<forall>later. \<not> Before later wake \<and> t_ns later < t_ns wake + gi_SecondsPerSlot g \<longrightarrow>
       (\<exists>wake'. slot_clock_turn g later = ClockTick (s + 1) wake wake'))"
proof -
  let ?p = "gi_SecondsPerSlot g" and ?G = "t_ns (gi_GenesisTime g)"
  define n where "n = nat ((t_ns now - ?G) div ?p)"
  have n: "int n = (t_ns now - ?G) div ?p" using assms(1,3) by (simp add: n_def pos_imp_zdiv_nonneg_iff)
  have b: "int n * ?p \<le> t_ns now - ?G" "t_ns now - ?G < int n * ?p + ?p"
    using pos_mod_sign [of ?p "t_ns now - ?G"] pos_mod_bound [of ?p "t_ns now - ?G"] div_mult_mod_eq [of "t_ns now - ?G" ?p] assms(1)
    unfolding n by linarith+
  have turn: "slot_clock_turn g t = ClockTick (of_nat m) (Add (gi_GenesisTime g) (int m * ?p)) (Add (gi_GenesisTime g) (int (m + 1) * ?p))"
    if "m \<le> n + 1" "?G + int m * ?p \<le> t_ns t" "t_ns t < ?G + int (m + 1) * ?p" for t m
  proof (rule slot_clock_turn_eq [OF assms(1) that(2,3)])
    have "int (m + 1) * ?p \<le> (int n + 2) * ?p" using that(1) assms(1) by (intro mult_right_mono) simp_all
    then show "int (m + 1) * ?p < 2 ^ 62" using b(1) assms(2,4) by (simp add: algebra_simps)
  qed
  have "slot_clock_turn g now = ClockTick (of_nat n) (Add (gi_GenesisTime g) (int n * ?p)) (Add (gi_GenesisTime g) (int (n + 1) * ?p))"
    using b by (intro turn) (simp_all add: algebra_simps)
  moreover have "\<exists>w. slot_clock_turn g later = ClockTick (of_nat n + 1) (Add (gi_GenesisTime g) (int (n + 1) * ?p)) w"
    if "\<not> Before later (Add (gi_GenesisTime g) (int (n + 1) * ?p))" "t_ns later < t_ns (Add (gi_GenesisTime g) (int (n + 1) * ?p)) + ?p" for later
    using turn [of "n + 1" later] that by (simp add: Before_def algebra_simps)
  ultimately show ?thesis using b by (auto simp: Before_def After_def algebra_simps)
qed

section \<open>Concrete measurements\<close>

lemma ms_1000: "is_float_where (\<lambda>f. \<not> f_lt f (FFin 0) \<and> \<not> f_lt maxMilliseconds f) ''1000''"
  by (simp add: is_float_where_def parse_1000 maxMilliseconds_eq)

lemma to_ms_second: "to_ms 1000000000 = FFin 1000"
  by (simp add: to_ms_def Seconds_def f_of_int_exact fround_numeral)

lemma second_baseline: "new_baseline (baseline_draft 100 (Add ex_start 1000000000) SourceBeaconAPI 1000000000) =
    Inr (baseline_draft 100 (Add ex_start 1000000000) SourceBeaconAPI 1000000000)"
proof -
  have "Observation_Validate (baseline_draft 100 (Add ex_start 1000000000) SourceBeaconAPI 1000000000) = None"
    by (simp add: baseline_draft_def Let_def to_ms_second text_1000 ex_validate ex_start_def time_zero_def ms_1000)
  then show ?thesis by (simp add: new_baseline_def NewObservation_def) (simp add: baseline_draft_def lower_root_def Let_def)
qed

theorem baseline_reads_back_witness:
  "\<exists>ob r. baselineFromArrival 100 ex_start (Add ex_start 1000000000) = Inr ob \<and> 999999999 \<le> r \<and> r \<le> 1000000000 \<and>
     NetworkBaselineFromObservation 0 ob =
       Inr \<lparr>nb_Slot = 100, nb_BlockArrivalP50 = r, nb_BlockArrivalP90 = r, nb_SampleCount = 1, nb_Source = SourceBeaconAPI\<rparr>"
proof -
  let ?ob = "baseline_draft 100 (Add ex_start 1000000000) SourceBeaconAPI 1000000000"
  have d: "Sub (Add ex_start 1000000000) ex_start = 1000000000" by (simp add: Sub_def Add_def clamp64_def int64_defs)
  then have "baselineFromArrival 100 ex_start (Add ex_start 1000000000) = Inr ?ob" by (simp add: baselineFromArrival_def second_baseline)
  then show ?thesis
    using baseline_reads_back [of undefined undefined undefined ?ob 100 SourceBeaconAPI 1000000000 ex_start "Add ex_start 1000000000" 0] d by auto
qed

definition ex_counter :: "nat \<Rightarrow> f64 \<Rightarrow> EngineCounters" where
  "ex_counter n ms = \<lparr>es_SampledAt = Add ex_start (int n), es_NewPayload = \<lparr>ec_Count = n, ec_SumMS = ms\<rparr>,
     es_ForkchoiceUpdated = \<lparr>ec_Count = n, ec_SumMS = ms\<rparr>\<rparr>"

definition ex_call :: "string \<Rightarrow> EngineCallWindow" where
  "ex_call m = \<lparr>ew_At = Add ex_start 2, ew_Method = m, ew_Count = 1, ew_DurationMS = FFin 1000\<rparr>"

lemma ex_window: "EngineCallsBetween (ex_counter 1 (FFin 0)) (ex_counter 2 (FFin 1000)) =
    Inr [ex_call EngineMethodNewPayload, ex_call EngineMethodForkchoiceUpdated]"
  by (simp add: EngineCallsBetween_def engine_call_def ex_counter_def ex_call_def f_sub_def fround_numeral Let_def IsZero_def Before_def ex_start_def Add_def)

lemma ex_call_accepted: "m \<in> {EngineMethodNewPayload, EngineMethodForkchoiceUpdated} \<Longrightarrow>
    NewObservation (engine_call_draft 100 (ex_call m)) = Inr (engine_call_draft 100 (ex_call m))"
proof -
  assume m: "m \<in> {EngineMethodNewPayload, EngineMethodForkchoiceUpdated}"
  have "Observation_Validate (engine_call_draft 100 (ex_call m)) = None" using m
    by (auto simp: engine_call_draft_def ex_call_def text_1000 ex_validate ex_start_def time_zero_def ms_1000
        FormatUint_eval digit_char_eval is_uint_def ParseUint_def is_digit_def digits_val_def digit_val_def
        EngineMethodNewPayload_def EngineMethodForkchoiceUpdated_def)
  then show ?thesis by (simp add: NewObservation_def) (simp add: engine_call_draft_def lower_root_def)
qed


end
