(* ===== verification/FaultTiming.thy ===== *)
theory FaultTiming
  imports Collectors
begin

text \<open>
  What the fault injector measures around a slot: \<open>tools/faultinjector/observe_timing.go\<close> (the head of the slot from the event
  stream and the header poll at once, and the arrival gauge watched through its change) and \<open>observe_engine_baseline.go\<close>.
  Events, scrapes and the ends of waits are arguments.
\<close>

section \<open>The head of a slot\<close>

text \<open>
  What \<open>select\<close> receives, in order. The deadline carries what the stream was committed to deliver at that instant, where
  \<open>None\<close> is the closed channel.
\<close>

datatype head_event =
    StreamObs Observation | StreamClosed | Polled "beacon_error + Observation option" | DeadlineElapsed "Observation option list" | CtxDone

datatype head_error = SlotSkipped slot | NotObserved "beacon_error option" | HeadCtxErr

fun queuedHead :: "slot \<Rightarrow> Observation option list \<Rightarrow> Observation option" where
  "queuedHead s [] = None"
| "queuedHead s (None # _) = None"
| "queuedHead s (Some ob # rest) = (if obs_Kind ob = ObsHeadUpdated \<and> obs_Slot ob = s then Some ob else queuedHead s rest)"

text \<open>The loop: whether the stream and the poll are still listened to, and the error of the poll. \<open>None\<close> is: still waiting.\<close>

fun head_wait :: "slot \<Rightarrow> bool \<Rightarrow> bool \<Rightarrow> beacon_error option \<Rightarrow> head_event list \<Rightarrow> (head_error + Observation) option" where
  "head_wait s stream poll pollErr [] = None"
| "head_wait s stream poll pollErr (ev # rest) =
     (case ev of
        StreamObs ob \<Rightarrow>
          if \<not> stream \<or> obs_Kind ob \<noteq> ObsHeadUpdated then head_wait s stream poll pollErr rest
          else if obs_Slot ob = s then Some (Inr ob)
          else if obs_Slot ob > s then Some (Inl (SlotSkipped (obs_Slot ob)))
          else head_wait s stream poll pollErr rest
      | StreamClosed \<Rightarrow> head_wait s False poll pollErr rest
      | Polled result \<Rightarrow>
          if \<not> poll then head_wait s stream poll pollErr rest
          else (case result of
                  Inr (Some ob) \<Rightarrow> Some (Inr ob)
                | Inr None \<Rightarrow> head_wait s stream False None rest
                | Inl e \<Rightarrow> head_wait s stream False (Some e) rest)
      | DeadlineElapsed queued \<Rightarrow>
          (case (if stream then queuedHead s queued else None) of
             Some head \<Rightarrow> Some (Inr head)
           | None \<Rightarrow> Some (Inl (NotObserved pollErr)))
      | CtxDone \<Rightarrow> Some (Inl HeadCtxErr))"

definition observeHeadForSlot :: "slot \<Rightarrow> head_event list \<Rightarrow> (head_error + Observation) option" where
  "observeHeadForSlot s events = head_wait s True True None events"

section \<open>The arrival gauge\<close>

text \<open>One round: the answer, whether the caller's context had ended after a failure, and whether the deadline ended the pause.\<close>

record timing_round =
  tr_answer :: "metric_error + BlockTiming"
  tr_ctxDone :: bool
  tr_deadline :: bool

datatype watch_error = ScrapeCancelled metric_error | GaugeAdvanced slot | NeverReadable metric_error | RemainedAt slot "metric_error option"

definition blockTimingNotSampled :: "slot \<Rightarrow> bool \<Rightarrow> metric_error option \<Rightarrow> watch_error" where
  "blockTimingNotSampled lastSlot sawSlot lastErr =
     (case lastErr of
        Some e \<Rightarrow> if \<not> sawSlot then NeverReadable e else RemainedAt lastSlot (Some e)
      | None \<Rightarrow> RemainedAt lastSlot None)"

fun watch_loop :: "slot \<Rightarrow> slot \<Rightarrow> bool \<Rightarrow> metric_error option \<Rightarrow> timing_round list \<Rightarrow> (watch_error + BlockTiming) option" where
  "watch_loop s lastSlot sawSlot lastErr [] = None"
| "watch_loop s lastSlot sawSlot lastErr (r # rest) =
     (case tr_answer r of
        Inl e \<Rightarrow>
          if tr_ctxDone r then Some (Inl (ScrapeCancelled e))
          else if tr_deadline r then Some (Inl (blockTimingNotSampled lastSlot sawSlot (Some e)))
          else watch_loop s lastSlot sawSlot (Some e) rest
      | Inr timing \<Rightarrow>
          if bt_Slot timing = s then Some (Inr timing)
          else if bt_Slot timing > s then Some (Inl (GaugeAdvanced (bt_Slot timing)))
          else if tr_deadline r then Some (Inl (blockTimingNotSampled (bt_Slot timing) True lastErr))
          else watch_loop s (bt_Slot timing) True lastErr rest)"

definition watchBlockTimingForSlot :: "slot \<Rightarrow> timing_round list \<Rightarrow> (watch_error + BlockTiming) option" where
  "watchBlockTimingForSlot s rounds = watch_loop s 0 False None rounds"

text \<open>\<open>observeHeadTiming\<close>: an arrival without the head that validated it is dropped, the Engine counters are read after both.\<close>

record headTimingResult =
  ht_Head :: "head_error + Observation"
  ht_Timing :: "watch_error + BlockTiming"
  ht_Engine :: "(metric_error + EngineCounters) option"

definition observeHeadTiming ::
  "bool \<Rightarrow> head_error + Observation \<Rightarrow> watch_error + BlockTiming \<Rightarrow> metric_error + EngineCounters \<Rightarrow> headTimingResult" where
  "observeHeadTiming sampleEngine head timing counters =
     (case head of
        Inl e \<Rightarrow> \<lparr>ht_Head = Inl e, ht_Timing = Inr \<lparr>bt_Slot = 0, bt_Propagation = 0, bt_SampledAt = time_zero\<rparr>, ht_Engine = None\<rparr>
      | Inr ob \<Rightarrow> \<lparr>ht_Head = Inr ob, ht_Timing = timing, ht_Engine = (if sampleEngine then Some counters else None)\<rparr>)"

section \<open>The Engine baseline\<close>

record baseline_round =
  br_ctxDone :: bool
  br_counters :: "metric_error + EngineCounters"

datatype baseline_failure = BaselineCtxErr | TooFewTotals nat nat nat | P99Missing nat | SampleInvalid domain_error

text \<open>The loop; the first argument counts the attempts that are left. The number of attempts is returned with the result.\<close>

fun collect_loop :: "nat \<Rightarrow> (nat \<Rightarrow> baseline_round) \<Rightarrow> nat \<Rightarrow> nat \<Rightarrow> EngineCounters option \<Rightarrow> EngineBaseline \<Rightarrow> nat \<times> (baseline_failure + EngineBaseline)" where
  "collect_loop left rounds attempt failures previous baseline =
     (if EngineBaseline_Len baseline \<ge> EngineBaselineMinSamples then (attempt, Inr baseline)
      else if br_ctxDone (rounds attempt) then (attempt, Inl BaselineCtxErr)
      else case left of
             0 \<Rightarrow> (attempt, Inl (TooFewTotals (EngineBaseline_Len baseline) attempt failures))
           | Suc left' \<Rightarrow>
               (case br_counters (rounds attempt) of
                  Inl _ \<Rightarrow> collect_loop left' rounds (attempt + 1) (failures + 1) None baseline
                | Inr counters \<Rightarrow>
                    (case previous of
                       None \<Rightarrow> collect_loop left' rounds (attempt + 1) failures (Some counters) baseline
                     | Some before \<Rightarrow>
                         (case EngineCallsBetween before counters of
                            Inl _ \<Rightarrow> collect_loop left' rounds (attempt + 1) (failures + 1) None baseline
                          | Inr calls \<Rightarrow>
                              collect_loop left' rounds (attempt + 1) failures (Some counters) (EngineBaseline_Add baseline (total_ms calls))))))"

declare collect_loop.simps [simp del]

definition baseline_sample :: "gotime \<Rightarrow> f64 \<Rightarrow> MetricSample" where
  "baseline_sample now p99 =
     \<lparr>ms_At = in_UTC now, ms_Component = ComponentEL, ms_Name = MetricELEngineCallsP99MS, ms_Value = p99,
      ms_ClockOffset = 0, ms_ClockMeasured = False, ms_ClockSampleAt = time_zero, ms_Source = SourceDerived\<rparr>"

definition collectEngineBaseline :: "(nat \<Rightarrow> baseline_round) \<Rightarrow> gotime \<Rightarrow> nat \<times> (baseline_failure + MetricSample)" where
  "collectEngineBaseline rounds now =
     (case collect_loop (EngineBaselineMinSamples * 3) rounds 0 0 None \<lparr>eb_totals = []\<rparr> of
        (attempts, Inl e) \<Rightarrow> (attempts, Inl e)
      | (attempts, Inr baseline) \<Rightarrow>
          (attempts,
           case EngineBaseline_P99 baseline of
             None \<Rightarrow> Inl (P99Missing (EngineBaseline_Len baseline))
           | Some p99 \<Rightarrow>
               (case MetricSample_Validate (baseline_sample now p99) of
                  Some e \<Rightarrow> Inl (SampleInvalid e)
                | None \<Rightarrow> Inr (baseline_sample now p99))))"

section \<open>Properties\<close>

text \<open>An event that decides nothing yet: a head of an earlier slot, another event, or a poll without an answer.\<close>

definition undecided :: "slot \<Rightarrow> head_event \<Rightarrow> bool" where
  "undecided s ev =
     (case ev of
        StreamObs ob \<Rightarrow> obs_Kind ob \<noteq> ObsHeadUpdated \<or> obs_Slot ob < s
      | Polled r \<Rightarrow> (case r of Inr (Some _) \<Rightarrow> False | _ \<Rightarrow> True)
      | _ \<Rightarrow> False)"

lemma head_wait_undecided:
  "list_all (undecided s) before \<Longrightarrow> \<exists>poll' pollErr'. head_wait s stream poll pollErr (before @ rest) = head_wait s stream poll' pollErr' rest"
proof (induction before arbitrary: poll pollErr)
  case (Cons ev before)
  have quiet: "list_all (undecided s) before" "undecided s ev" using Cons.prems by simp_all
  show ?case
  proof (cases ev)
    case (StreamObs ob)
    then have "head_wait s stream poll pollErr ((ev # before) @ rest) = head_wait s stream poll pollErr (before @ rest)"
      using quiet(2) by (auto simp: undecided_def)
    then show ?thesis using Cons.IH [OF quiet(1)] by simp
  next
    case (Polled r)
    have "\<exists>p e. head_wait s stream poll pollErr ((ev # before) @ rest) = head_wait s stream p e (before @ rest)"
      using quiet(2) Polled by (cases poll) (auto simp: undecided_def split: sum.splits option.splits)
    then show ?thesis using Cons.IH [OF quiet(1)] by metis
  qed (use quiet(2) in \<open>simp_all add: undecided_def\<close>)
qed auto

lemma queuedHead_Some: "queuedHead s q = Some ob \<Longrightarrow> Some ob \<in> set q \<and> obs_Kind ob = ObsHeadUpdated \<and> obs_Slot ob = s"
  by (induction s q rule: queuedHead.induct) (auto split: if_splits)


lemma watch_loop_Inr:
  "watch_loop s lastSlot sawSlot lastErr rounds = Some (Inr t) \<longleftrightarrow>
     (\<exists>before r after. rounds = before @ r # after \<and> tr_answer r = Inr t \<and> bt_Slot t = s \<and>
        (\<forall>x \<in> set before. \<not> tr_deadline x \<and> (case tr_answer x of Inl _ \<Rightarrow> \<not> tr_ctxDone x | Inr u \<Rightarrow> bt_Slot u < s)))"
proof (induction rounds arbitrary: lastSlot sawSlot lastErr)
  case (Cons r rounds)
  let ?quiet = "\<lambda>x. \<not> tr_deadline x \<and> (case tr_answer x of Inl _ \<Rightarrow> \<not> tr_ctxDone x | Inr u \<Rightarrow> bt_Slot u < s)"
  have split: "(\<exists>before x after. r # rounds = before @ x # after \<and> tr_answer x = Inr t \<and> bt_Slot t = s \<and> (\<forall>x \<in> set before. ?quiet x)) \<longleftrightarrow>
      tr_answer r = Inr t \<and> bt_Slot t = s \<or>
      ?quiet r \<and> (\<exists>before x after. rounds = before @ x # after \<and> tr_answer x = Inr t \<and> bt_Slot t = s \<and> (\<forall>x \<in> set before. ?quiet x))"
    (is "?L \<longleftrightarrow> ?R")
  proof
    assume ?L
    then obtain before x after where b: "r # rounds = before @ x # after" "tr_answer x = Inr t" "bt_Slot t = s" "\<forall>x \<in> set before. ?quiet x" by blast
    then show ?R by (cases before) auto
  next
    assume ?R
    then show ?L
    proof
      assume "?quiet r \<and> (\<exists>before x after. rounds = before @ x # after \<and> tr_answer x = Inr t \<and> bt_Slot t = s \<and> (\<forall>x \<in> set before. ?quiet x))"
      then obtain before x after where "?quiet r" "rounds = before @ x # after" "tr_answer x = Inr t" "bt_Slot t = s" "\<forall>x \<in> set before. ?quiet x" by blast
      then show ?L by (intro exI [of _ "r # before"] exI [of _ x] exI [of _ after]) auto
    qed (intro exI [of _ "[]"] exI [of _ r] exI [of _ rounds], simp)
  qed
  show ?case unfolding split by (cases "tr_answer r") (auto simp: Cons.IH not_less)
qed simp

text \<open>
  A missed scrape costs nothing. The arrival of the slot is measured exactly when some scrape before the deadline
  reads it and every scrape before that one either failed, the context still being alive, or read an earlier slot.
\<close>

lemma watch_tolerates_failures:
  "watchBlockTimingForSlot s rounds = Some (Inr t) \<longleftrightarrow>
     (\<exists>before r after. rounds = before @ r # after \<and> tr_answer r = Inr t \<and> bt_Slot t = s \<and>
        (\<forall>x \<in> set before. \<not> tr_deadline x \<and> (case tr_answer x of Inl _ \<Rightarrow> \<not> tr_ctxDone x | Inr u \<Rightarrow> bt_Slot u < s)))"
  unfolding watchBlockTimingForSlot_def by (rule watch_loop_Inr)

text \<open>The total of the window between two consecutive scrapes.\<close>

definition window_total :: "(nat \<Rightarrow> baseline_round) \<Rightarrow> nat \<Rightarrow> f64 \<Rightarrow> bool" where
  "window_total rounds i x \<longleftrightarrow>
     (\<exists>a b calls. br_counters (rounds i) = Inr a \<and> br_counters (rounds (i + 1)) = Inr b \<and> EngineCallsBetween a b = Inr calls \<and> x = total_ms calls)"

definition loop_inv :: "(nat \<Rightarrow> baseline_round) \<Rightarrow> nat \<Rightarrow> EngineCounters option \<Rightarrow> EngineBaseline \<Rightarrow> bool" where
  "loop_inv rounds attempt previous b \<longleftrightarrow>
     length (eb_totals b) \<le> 32 \<and> length (eb_totals b) \<le> attempt - 1 \<and>
     (\<forall>x \<in> set (eb_totals b). usable x \<and> (\<exists>i. i + 1 < attempt \<and> window_total rounds i x)) \<and>
     (\<forall>a. previous = Some a \<longrightarrow> 0 < attempt \<and> br_counters (rounds (attempt - 1)) = Inr a)"

lemma loop_inv_skip:
  assumes "loop_inv rounds attempt previous b" "\<And>a. previous' = Some a \<Longrightarrow> br_counters (rounds attempt) = Inr a"
  shows "loop_inv rounds (attempt + 1) previous' b"
  using assms by (auto simp: loop_inv_def) (meson Suc_lessD)

lemma loop_inv_add:
  assumes "loop_inv rounds attempt (Some a) b" "length (eb_totals b) < 32" "br_counters (rounds attempt) = Inr c" "EngineCallsBetween a c = Inr calls"
  shows "loop_inv rounds (attempt + 1) (Some c) (EngineBaseline_Add b (total_ms calls))"
proof -
  have a: "0 < attempt" "br_counters (rounds (attempt - 1)) = Inr a" using assms(1) by (auto simp: loop_inv_def)
  then have w: "window_total rounds (attempt - 1) (total_ms calls)" using assms(3,4) by (auto simp: window_total_def)
  have skip: "loop_inv rounds (attempt + 1) (Some c) b" by (rule loop_inv_skip [OF assms(1)]) (use assms(3) in simp)
  show ?thesis
  proof (cases "usable (total_ms calls)")
    case True
    then have "eb_totals (EngineBaseline_Add b (total_ms calls)) = eb_totals b @ [total_ms calls]"
      using assms(2) by (simp add: EngineBaseline_Add_def usable_iff EngineBaselineMaxSamples_def)
    moreover have "\<exists>i. i + 1 < attempt + 1 \<and> window_total rounds i (total_ms calls)" using w a(1) by (intro exI [of _ "attempt - 1"]) simp
    moreover have "length (eb_totals b) \<le> attempt - 1" using assms(1) by (simp add: loop_inv_def)
    ultimately show ?thesis using skip True assms(2) a(1) by (auto simp: loop_inv_def)
  next
    case False
    then have "EngineBaseline_Add b (total_ms calls) = b" by (auto simp: EngineBaseline_Add_def usable_iff)
    then show ?thesis using skip by simp
  qed
qed

lemma loop_inv_forget: "loop_inv rounds attempt previous b \<Longrightarrow> loop_inv rounds attempt None b"
  by (simp add: loop_inv_def)

lemma collect_loop_inv:
  assumes "collect_loop left rounds attempt failures previous b = (n, r)" "loop_inv rounds attempt previous b"
  shows "n \<le> attempt + left \<and> (\<forall>b'. r = Inr b' \<longrightarrow> loop_inv rounds n None b' \<and> 32 \<le> length (eb_totals b'))"
  using assms
proof (induction left arbitrary: attempt failures previous b)
  case 0
  then show ?case using loop_inv_forget
    by (auto simp: collect_loop.simps [of 0] EngineBaseline_Len_def EngineBaselineMinSamples_def split: if_splits)
next
  case (Suc left)
  have ih: "n \<le> Suc attempt + left \<and> (\<forall>b'. r = Inr b' \<longrightarrow> loop_inv rounds n None b' \<and> 32 \<le> length (eb_totals b'))"
    if "collect_loop left rounds (attempt + 1) f p b' = (n, r)" "loop_inv rounds (attempt + 1) p b'" for f p b'
    using Suc.IH [OF that] by simp
  note step = Suc.prems(1) [unfolded collect_loop.simps [of "Suc left"] EngineBaseline_Len_def EngineBaselineMinSamples_def]
  show ?case
  proof (cases "32 \<le> length (eb_totals b) \<or> br_ctxDone (rounds attempt)")
    case True
    then show ?thesis using step loop_inv_forget [OF Suc.prems(2)] by (auto split: if_splits)
  next
    case False
    then have small: "length (eb_totals b) < 32" by simp
    show ?thesis
      using step False Suc.prems(2)
        ih [OF _ loop_inv_skip [OF Suc.prems(2)]] ih [OF _ loop_inv_add [OF _ small]]
      by (auto split: sum.splits option.splits)
  qed
qed

text \<open>
  Property C39: the Engine baseline ends and is measured. At most 96 scrapes are taken whatever the node answers; a sample is valid,
  takes at least 33 of them, and is the 99th percentile of exactly 32 totals, each finite, not negative and the cost between
  two consecutive scrapes.
\<close>

theorem collectEngineBaseline_bounded:
  "case collectEngineBaseline rounds now of
     (attempts, Inl _) \<Rightarrow> attempts \<le> 96
   | (attempts, Inr m) \<Rightarrow> attempts \<le> 96 \<and> 33 \<le> attempts \<and> MetricSample_Validate m = None \<and>
       (\<exists>totals. length totals = 32 \<and> EngineBaseline_P99 \<lparr>eb_totals = totals\<rparr> = Some (ms_Value m) \<and>
          list_all (\<lambda>x. usable x \<and> (\<exists>i. i + 1 < attempts \<and> window_total rounds i x)) totals)"
proof -
  obtain n r where l: "collect_loop (EngineBaselineMinSamples * 3) rounds 0 0 None \<lparr>eb_totals = []\<rparr> = (n, r)" by fastforce
  have "loop_inv rounds 0 None \<lparr>eb_totals = []\<rparr>" by (simp add: loop_inv_def)
  note inv = collect_loop_inv [OF l this]
  show ?thesis
  proof (cases r)
    case (Inl e)
    then show ?thesis using l inv by (simp add: collectEngineBaseline_def EngineBaselineMinSamples_def)
  next
    case (Inr b)
    then have b: "loop_inv rounds n None b" "length (eb_totals b) = 32" using inv by (auto simp: loop_inv_def)
    have n: "n \<le> 96" "33 \<le> n" using inv b by (auto simp: loop_inv_def EngineBaselineMinSamples_def)
    obtain p99 where p: "EngineBaseline_P99 b = Some p99" using b(2) by (simp add: EngineBaseline_P99_def EngineBaselineMinSamples_def)
    then have "EngineBaseline_P99 \<lparr>eb_totals = eb_totals b\<rparr> = Some p99" by (cases b) simp
    moreover have "list_all (\<lambda>x. usable x \<and> (\<exists>i. i + 1 < n \<and> window_total rounds i x)) (eb_totals b)"
      using b(1) by (auto simp: loop_inv_def list_all_iff)
    ultimately show ?thesis using l Inr p n b(2)
      by (auto simp: collectEngineBaseline_def baseline_sample_def split: option.splits intro!: exI [of _ "eb_totals b"])
  qed
qed

section \<open>A head between two polls\<close>


end
