(* ===== verification/FaultScenario.thy ===== *)
theory FaultScenario
  imports Corpus Collectors
begin

text \<open>
  The recipes of the fault injector (\<open>tools/faultinjector\<close>): \<open>scenario.go\<close> and \<open>fault.go\<close>, the preflight of the test network
  (\<open>preflight.go\<close>), and the choice of the duty to watch (\<open>main.go\<close>). The answers of the tools it runs are arguments.
\<close>

section \<open>Recipes\<close>

record NetemParams =
  np_Delay :: string
  np_LossPercent :: f64
  np_PeerTargets :: "string list"

record CgroupIOParams =
  ci_WriteBytesPerSec :: "64 word"
  ci_ReadBytesPerSec :: "64 word"
  ci_PressureBytes :: "64 word"

record CgroupMemParams =
  cm_LimitBytes :: "64 word"
  cm_PressureBytes :: "64 word"

record FaultSpec =
  fs_Kind :: string
  fs_Netem :: "NetemParams option"
  fs_CgroupIO :: "CgroupIOParams option"
  fs_CgroupCPU :: "f64 option"
  fs_CgroupMem :: "CgroupMemParams option"
  fs_Pause :: "unit option"
  fs_ClockSkew :: "string option"
  fs_PeerDrop :: "string option"

record Scenario =
  sc_ID :: string
  sc_RecipeID :: string
  sc_Description :: string
  sc_Target :: string
  sc_ValidatorIndex :: "64 word"
  sc_ValidatorCandidates :: "(64 word \<times> 64 word) option"
  sc_Fault :: FaultSpec
  sc_Duration :: duration
  sc_AvoidProposerValidators :: "(64 word \<times> 64 word) option"
  sc_RequireProposerValidators :: "(64 word \<times> 64 word) option"
  sc_SamplePressure :: string
  sc_TimingTarget :: string
  sc_BaselineTarget :: string
  sc_SampleEngineBaseline :: bool
  sc_SampleEngineCalls :: bool
  sc_PeerCountTarget :: string
  sc_Cause :: string
  sc_SubCause :: string
  sc_Confidence :: string

definition validScenarioID :: "string \<Rightarrow> bool" where
  "validScenarioID ident \<longleftrightarrow> \<not> (ident = [] \<or> hd ident = CHR ''-'' \<or> last ident = CHR ''-'') \<and> id_chars_ok None ident"

definition maxScenarioValidatorCandidates :: "64 word" where "maxScenarioValidatorCandidates = 64"

text \<open>\<open>FaultSpec.Validate\<close>: the parameters that are set, then the checks of the named mechanism.\<close>

definition params_set :: "FaultSpec \<Rightarrow> nat" where
  "params_set f = length (filter id
     [fs_Netem f \<noteq> None, fs_CgroupIO f \<noteq> None, fs_CgroupCPU f \<noteq> None, fs_CgroupMem f \<noteq> None, fs_Pause f \<noteq> None,
      fs_ClockSkew f \<noteq> None, fs_PeerDrop f \<noteq> None])"

definition netem_ok :: "NetemParams \<Rightarrow> bool" where
  "netem_ok n \<longleftrightarrow>
     (np_Delay n = [] \<or> (case ParseDuration (np_Delay n) of None \<Rightarrow> False | Some d \<Rightarrow> 0 < d)) \<and>
     f_finite (np_LossPercent n) \<and> \<not> f_lt (np_LossPercent n) (FFin 0) \<and> \<not> f_lt (FFin 100) (np_LossPercent n) \<and>
     \<not> (np_Delay n = [] \<and> f_eq (np_LossPercent n) (FFin 0))"

definition kind_error :: "FaultSpec \<Rightarrow> string option" where
  "kind_error f =
     (if fs_Kind f = ''netem'' then
        (case fs_Netem f of None \<Rightarrow> Some ''netem params'' | Some n \<Rightarrow> check (\<not> netem_ok n) ''fault.netem'')
      else if fs_Kind f = ''cgroup_io'' then
        (case fs_CgroupIO f of None \<Rightarrow> Some ''cgroup_io params''
         | Some p \<Rightarrow> check (ci_ReadBytesPerSec p = 0 \<and> ci_WriteBytesPerSec p = 0) ''fault.cgroup_io'')
      else if fs_Kind f = ''cgroup_cpu'' then
        (case fs_CgroupCPU f of None \<Rightarrow> Some ''cgroup_cpu params''
         | Some q \<Rightarrow> check (f_le q (FFin 0) \<or> f_lt (FFin 100) q) ''fault.cgroup_cpu'')
      else if fs_Kind f = ''cgroup_mem'' then
        (case fs_CgroupMem f of None \<Rightarrow> Some ''cgroup_mem params'' | Some p \<Rightarrow> check (cm_LimitBytes p = 0) ''fault.cgroup_mem'')
      else if fs_Kind f = ''pause'' then check (fs_Pause f = None) ''pause params''
      else if fs_Kind f = ''clock_skew'' then
        (case fs_ClockSkew f of None \<Rightarrow> Some ''clock_skew params''
         | Some raw \<Rightarrow> check (case ParseDuration raw of None \<Rightarrow> True | Some d \<Rightarrow> d = 0) ''fault.clock_skew'')
      else if fs_Kind f = ''peer_drop'' then
        (case fs_PeerDrop f of None \<Rightarrow> Some ''peer_drop params'' | Some peer \<Rightarrow> check (peer = []) ''fault.peer_drop'')
      else Some ''fault.kind'')"

definition FaultSpec_Validate :: "FaultSpec \<Rightarrow> string option" where
  "FaultSpec_Validate f = (if params_set f \<noteq> 1 then Some ''fault'' else kind_error f)"

definition peer_targets_error :: "Scenario \<Rightarrow> string option" where
  "peer_targets_error s =
     (if sc_Cause s \<noteq> ''local.p2p_degraded'' then None
      else case fs_Netem (sc_Fault s) of
        None \<Rightarrow> Some ''peer_targets''
      | Some n \<Rightarrow> if np_PeerTargets n = [] then Some ''peer_targets'' else check (sc_Target s \<in> set (np_PeerTargets n)) ''peer_targets'')"

definition Scenario_Validate :: "Scenario \<Rightarrow> string option" where
  "Scenario_Validate s = first_error
     [check (\<not> validScenarioID (sc_ID s)) ''id'',
      check (sc_Target s = []) ''target'',
      check (sc_TimingTarget s = []) ''timing_target'',
      check ((sc_Cause s = ''local.p2p_degraded'' \<or> sc_Cause s = ''network.late_block'') \<and> sc_BaselineTarget s = []) ''baseline_target'',
      peer_targets_error s,
      check (sc_Duration s \<le> 0) ''duration'',
      check (sc_Cause s = []) ''expect.cause'',
      check (sc_Confidence s = []) ''expect.confidence'',
      check (sc_SamplePressure s \<noteq> [] \<and> sc_SamplePressure s \<noteq> ''io'' \<and> sc_SamplePressure s \<noteq> ''memory'') ''sample_pressure'',
      check (sc_AvoidProposerValidators s \<noteq> None \<and> sc_RequireProposerValidators s \<noteq> None) ''avoid/require'',
      check (case sc_ValidatorCandidates s of None \<Rightarrow> False | Some (lo, hi) \<Rightarrow> lo > hi) ''validator_candidates'',
      check (case sc_ValidatorCandidates s of None \<Rightarrow> False | Some (lo, hi) \<Rightarrow> hi - lo \<ge> maxScenarioValidatorCandidates) ''validator_candidates'',
      check (fs_PeerDrop (sc_Fault s) = Some (sc_Target s)) ''peer_drop'',
      FaultSpec_Validate (sc_Fault s)]"

text \<open>\<open>LoadScenario\<close> on the decoded file: a failed read or parse is \<open>None\<close>.\<close>

definition LoadScenario :: "Scenario option \<Rightarrow> string + Scenario" where
  "LoadScenario decoded =
     (case decoded of
        None \<Rightarrow> Inl ''read''
      | Some s \<Rightarrow> (case Scenario_Validate s of Some e \<Rightarrow> Inl e | None \<Rightarrow> Inr (s\<lparr>sc_RecipeID := sc_ID s\<rparr>)))"

text \<open>\<open>NewFault\<close> takes the parameters of the named kind without looking whether they are there: \<open>None\<close> is the nil dereference.\<close>

datatype Fault =
    NetemFault NetemParams | CgroupIOFault CgroupIOParams | CgroupCPUFault f64 | CgroupMemFault CgroupMemParams | PauseFault
  | ClockSkewFault string | PeerDropFault string

definition NewFault :: "FaultSpec \<Rightarrow> (string + Fault) option" where
  "NewFault f =
     (if fs_Kind f = ''netem'' then map_option (Inr \<circ> NetemFault) (fs_Netem f)
      else if fs_Kind f = ''cgroup_io'' then map_option (Inr \<circ> CgroupIOFault) (fs_CgroupIO f)
      else if fs_Kind f = ''cgroup_cpu'' then map_option (Inr \<circ> CgroupCPUFault) (fs_CgroupCPU f)
      else if fs_Kind f = ''cgroup_mem'' then map_option (Inr \<circ> CgroupMemFault) (fs_CgroupMem f)
      else if fs_Kind f = ''pause'' then map_option (\<lambda>_. Inr PauseFault) (fs_Pause f)
      else if fs_Kind f = ''clock_skew'' then map_option (Inr \<circ> ClockSkewFault) (fs_ClockSkew f)
      else if fs_Kind f = ''peer_drop'' then map_option (Inr \<circ> PeerDropFault) (fs_PeerDrop f)
      else Some (Inl ''unknown fault kind''))"

definition faultRequiresRoot :: "string \<Rightarrow> bool" where
  "faultRequiresRoot kind \<longleftrightarrow> kind \<in> {''netem'', ''cgroup_io'', ''cgroup_cpu'', ''cgroup_mem''}"

section \<open>The test network\<close>

text \<open>\<open>strings.Contains\<close>.\<close>

definition string_contains :: "string \<Rightarrow> string \<Rightarrow> bool" where
  "string_contains s sub \<longleftrightarrow> list_ex (\<lambda>i. HasPrefix (drop i s) sub) [0..<length s + 1]"

definition consensusServiceName :: "string \<Rightarrow> string option" where
  "consensusServiceName line =
     (if \<not> string_contains line ''RUNNING'' then None
      else case Fields line of
        _ # name # _ \<Rightarrow>
          (case CutPrefix name ''cl-'' of
             None \<Rightarrow> None
           | Some rest \<Rightarrow> if rest = [] \<or> \<not> is_digit (hd rest) then None else Some name)
      | _ \<Rightarrow> None)"

definition consensusServices :: "string option \<Rightarrow> string list option" where
  "consensusServices out = map_option (\<lambda>text. SliceStable (<) (List.map_filter consensusServiceName (split_lines text))) out"

definition requiredPeers :: "nat \<Rightarrow> nat" where "requiredPeers nodes = nodes - 1"

datatype preflight_error = InspectFailed | TooFewNodes nat | PeersUnread string | MeshIncomplete string

definition preflightPeering :: "string option \<Rightarrow> (string \<Rightarrow> metric_error + MetricSample) \<Rightarrow> preflight_error option" where
  "preflightPeering out samplePeers =
     (case consensusServices out of
        None \<Rightarrow> Some InspectFailed
      | Some nodes \<Rightarrow>
          if length nodes < 2 then Some (TooFewNodes (length nodes))
          else first_error (map (\<lambda>node. case samplePeers node of
                 Inl _ \<Rightarrow> Some (PeersUnread node)
               | Inr m \<Rightarrow> check (f_lt (ms_Value m) (f_of_int (int (requiredPeers (length nodes))))) (MeshIncomplete node)) nodes))"

section \<open>The duty to watch\<close>

definition watchedValidators :: "Scenario \<Rightarrow> 64 word list" where
  "watchedValidators s =
     (case sc_ValidatorCandidates s of
        None \<Rightarrow> [sc_ValidatorIndex s]
      | Some (lo, hi) \<Rightarrow> map (\<lambda>i. lo + of_nat i) [0..<unat (hi - lo) + 1])"

record duty_position =
  dp_CommitteeIndex :: "64 word"
  dp_CommitteeLength :: "64 word"
  dp_CommitteesAtSlot :: "64 word"
  dp_ValidatorCommitteeIndex :: "64 word"

record dutyAssignment =
  da_Slot :: "64 word"
  da_Duty :: duty_position

definition minDutyLead :: duration where "minDutyLead = 25 * Second"

definition in_range :: "64 word \<times> 64 word \<Rightarrow> 64 word \<Rightarrow> bool" where
  "in_range r v \<longleftrightarrow> fst r \<le> v \<and> v \<le> snd r"

datatype find_error = NoProposer slot | NoUsableDuty nat nat

text \<open>What the loop makes of one candidate.\<close>

datatype candidate = NoDuty | TooSoon | MissingProposer slot | WrongProposer | Usable slot duty_position

definition judge_candidate ::
  "(slot \<Rightarrow> gotime) \<Rightarrow> gotime \<Rightarrow> (64 word \<rightharpoonup> dutyAssignment) \<Rightarrow> (64 word \<rightharpoonup> 64 word) option \<Rightarrow> (64 word \<times> 64 word) option \<Rightarrow>
   (64 word \<times> 64 word) option \<Rightarrow> 64 word \<Rightarrow> candidate" where
  "judge_candidate start earliest duties proposers avoid require vi =
     (case duties vi of
        None \<Rightarrow> NoDuty
      | Some a \<Rightarrow>
          if Before (start (da_Slot a)) earliest then TooSoon
          else (case proposers of
                  None \<Rightarrow> Usable (da_Slot a) (da_Duty a)
                | Some ps \<Rightarrow>
                    (case ps (da_Slot a) of
                       None \<Rightarrow> MissingProposer (da_Slot a)
                     | Some proposer \<Rightarrow>
                         if (case avoid of None \<Rightarrow> False | Some r \<Rightarrow> in_range r proposer) then WrongProposer
                         else if (case require of None \<Rightarrow> False | Some r \<Rightarrow> \<not> in_range r proposer) then WrongProposer
                         else Usable (da_Slot a) (da_Duty a))))"

fun find_loop :: "(64 word \<Rightarrow> candidate) \<Rightarrow> nat \<Rightarrow> nat \<Rightarrow> 64 word list \<Rightarrow> find_error + slot \<times> 64 word \<times> duty_position" where
  "find_loop judge tooSoon wrong [] = Inl (NoUsableDuty tooSoon wrong)"
| "find_loop judge tooSoon wrong (vi # rest) =
     (case judge vi of
        NoDuty \<Rightarrow> find_loop judge tooSoon wrong rest
      | TooSoon \<Rightarrow> find_loop judge (tooSoon + 1) wrong rest
      | MissingProposer s \<Rightarrow> Inl (NoProposer s)
      | WrongProposer \<Rightarrow> find_loop judge tooSoon (wrong + 1) rest
      | Usable s d \<Rightarrow> Inr (s, vi, d))"

datatype clean_error = DutiesFailed | ProposersFailed | FindFailed find_error

definition findCleanDuty ::
  "(slot \<Rightarrow> gotime) \<Rightarrow> gotime \<Rightarrow> ((64 word \<rightharpoonup> dutyAssignment) \<times> gotime) option \<Rightarrow> (64 word \<rightharpoonup> 64 word) option \<Rightarrow> 64 word list \<Rightarrow>
   (64 word \<times> 64 word) option \<Rightarrow> (64 word \<times> 64 word) option \<Rightarrow> clean_error + (slot \<times> 64 word \<times> duty_position) \<times> gotime" where
  "findCleanDuty start now fetched fetchedProposers candidates avoid require =
     (case fetched of
        None \<Rightarrow> Inl DutiesFailed
      | Some (duties, t) \<Rightarrow>
          if (avoid \<noteq> None \<or> require \<noteq> None) \<and> fetchedProposers = None then Inl ProposersFailed
          else let proposers = (if avoid \<noteq> None \<or> require \<noteq> None then fetchedProposers else None)
               in case find_loop (judge_candidate start (Add (in_UTC now) minDutyLead) duties proposers avoid require) 0 0 candidates of
                    Inl e \<Rightarrow> Inl (FindFailed e)
                  | Inr r \<Rightarrow> Inr (r, t))"

section \<open>Properties\<close>

lemma kind_error_params: "kind_error f = None \<Longrightarrow> \<exists>fault. NewFault f = Some (Inr fault)"
  by (auto simp: kind_error_def NewFault_def split: if_splits option.splits)

lemma watchedValidators_range:
  assumes "sc_ValidatorCandidates s = Some (lo, hi)" "lo \<le> hi" "hi - lo < 64"
  shows "set (watchedValidators s) = {lo..hi}" "sorted (watchedValidators s)" "distinct (watchedValidators s)" "length (watchedValidators s) \<le> 64"
proof -
  have d: "unat (hi - lo) = unat hi - unat lo" using assms(2) by (simp add: unat_sub)
  have u: "unat (lo + of_nat i) = unat lo + i" if "i \<le> unat (hi - lo)" for i
  proof -
    have "unat lo + i < 2 ^ 64" using that d assms(2) unat64_less [of hi] by (simp add: word_le_nat_alt)
    moreover from this have "unat (of_nat i :: 64 word) = i" by (simp add: unat_of_nat)
    ultimately show ?thesis by (simp add: unat_word_ariths)
  qed
  have map_unat: "map unat (watchedValidators s) = map (\<lambda>i. unat lo + i) [0..<unat (hi - lo) + 1]"
    using assms(1) u by (simp add: watchedValidators_def del: upt_Suc)
  show "sorted (watchedValidators s)"
  proof -
    have "sorted (map unat (watchedValidators s))" unfolding map_unat by (auto simp: sorted_iff_nth_mono simp del: upt_Suc)
    then show ?thesis unfolding sorted_map by (rule sorted_wrt_mono_rel [rotated]) (simp add: word_le_nat_alt)
  qed
  show "distinct (watchedValidators s)"
    using distinct_map [of unat "watchedValidators s"] unfolding map_unat by (simp add: distinct_map)
  have "unat (hi - lo) < 64" using assms(3) by (simp add: word_less_nat_alt)
  then show "length (watchedValidators s) \<le> 64" using assms(1) by (simp add: watchedValidators_def)
  show "set (watchedValidators s) = {lo..hi}"
  proof -
    have inside: "x \<in> set (watchedValidators s)" if "lo \<le> x" "x \<le> hi" for x
    proof -
      have i: "unat x - unat lo \<le> unat (hi - lo)" using that by (simp add: d word_le_nat_alt)
      then have "unat (lo + of_nat (unat x - unat lo)) = unat x" using u that(1) by (simp add: word_le_nat_alt)
      then have "x = lo + of_nat (unat x - unat lo)" by (metis word_unat_eq_iff)
      moreover have "unat x - unat lo \<in> set [0..<unat (hi - lo) + 1]" using i by (simp del: upt_Suc)
      ultimately show ?thesis using assms(1) by (simp add: watchedValidators_def del: upt_Suc)
    qed
    have within_range: "lo \<le> x \<and> x \<le> hi" if x: "x \<in> set (watchedValidators s)" for x
    proof -
      obtain i where "x = lo + of_nat i" "i < unat (hi - lo) + 1" using x assms(1) by (auto simp: watchedValidators_def simp del: upt_Suc)
      then have "unat x = unat lo + i" "i \<le> unat hi - unat lo" using u [of i] d by simp_all
      then show ?thesis using assms(2) unfolding word_le_nat_alt by linarith
    qed
    show ?thesis by (rule set_eqI, unfold atLeastAtMost_iff) (blast intro: inside dest: within_range)
  qed
qed

text \<open>
  A recipe that loads can be run. Its fault is constructed without touching parameters that are not there, and the
  validators it may watch are between 1 and 64, without repetition: its own validator, or exactly the range it declares.
\<close>

lemma loaded_scenario_runs:
  assumes "LoadScenario decoded = Inr s"
  shows "(\<exists>fault. NewFault (sc_Fault s) = Some (Inr fault)) \<and> distinct (watchedValidators s) \<and> watchedValidators s \<noteq> [] \<and>
    length (watchedValidators s) \<le> 64 \<and>
    set (watchedValidators s) = (case sc_ValidatorCandidates s of None \<Rightarrow> {sc_ValidatorIndex s} | Some (lo, hi) \<Rightarrow> {lo..hi})"
proof -
  obtain s0 where s0: "Scenario_Validate s0 = None" "s = s0\<lparr>sc_RecipeID := sc_ID s0\<rparr>"
    using assms by (auto simp: LoadScenario_def split: option.splits)
  then have "kind_error (sc_Fault s) = None" by (auto simp: Scenario_Validate_def FaultSpec_Validate_def split: if_splits)
  then have fault: "\<exists>fault. NewFault (sc_Fault s) = Some (Inr fault)" by (rule kind_error_params)
  show ?thesis
  proof (cases "sc_ValidatorCandidates s")
    case None
    then show ?thesis using fault by (simp add: watchedValidators_def)
  next
    case (Some r)
    then obtain lo hi where r: "sc_ValidatorCandidates s = Some (lo, hi)" by (cases r) auto
    then have "lo \<le> hi" "hi - lo < 64" using s0 by (auto simp: Scenario_Validate_def maxScenarioValidatorCandidates_def not_le not_less)
    note w = watchedValidators_range [OF r this]
    then show ?thesis using fault r \<open>lo \<le> hi\<close> by auto
  qed
qed

lemma find_loop_Inr:
  "find_loop judge n m vs = Inr (s, vi, d) \<Longrightarrow>
     judge vi = Usable s d \<and> (\<exists>before after. vs = before @ vi # after \<and> (\<forall>v \<in> set before. judge v \<in> {NoDuty, TooSoon, WrongProposer}))"
proof (induction judge n m vs rule: find_loop.induct)
  case (2 judge n m v vs)
  have skip: ?case if skipped: "judge v \<in> {NoDuty, TooSoon, WrongProposer}" and found:
    "judge vi = Usable s d \<and> (\<exists>before after. vs = before @ vi # after \<and> (\<forall>v \<in> set before. judge v \<in> {NoDuty, TooSoon, WrongProposer}))"
  proof -
    obtain before after where "vs = before @ vi # after" "\<forall>v \<in> set before. judge v \<in> {NoDuty, TooSoon, WrongProposer}" using found by blast
    then show ?thesis using skipped found by (intro conjI exI [of _ "v # before"] exI [of _ after]) auto
  qed
  show ?case
  proof (cases "judge v")
    case (Usable s' d')
    then show ?thesis using 2(4) by (intro conjI exI [of _ "[]"] exI [of _ vs]) auto
  next
    case (MissingProposer x)
    then show ?thesis using 2(4) by simp
  qed (rule skip; (use 2 in simp))+
qed simp

lemma judge_usable:
  assumes "judge_candidate start earliest duties proposers avoid require vi = Usable s d"
  shows "duties vi = Some \<lparr>da_Slot = s, da_Duty = d\<rparr>" "\<not> Before (start s) earliest"
    "proposers = Some ps \<Longrightarrow> \<exists>p. ps s = Some p \<and> (\<forall>r. avoid = Some r \<longrightarrow> \<not> in_range r p) \<and> (\<forall>r. require = Some r \<longrightarrow> in_range r p)"
  using assms by (auto simp: judge_candidate_def split: option.splits if_splits)

text \<open>
  The duty chosen for a recording satisfies the recipe. It is the assigned duty of a candidate, starts at least 25
  seconds from now, its slot's proposer lies outside the range to avoid and inside the range required, and it is the first
  such candidate in the order given: every candidate before it has no duty, a duty too soon or the wrong proposer.
\<close>

lemma findCleanDuty_first:
  assumes "findCleanDuty start now (Some (duties, t)) proposers candidates avoid require = Inr ((s, vi, d), t')"
  shows "duties vi = Some \<lparr>da_Slot = s, da_Duty = d\<rparr> \<and> t' = t \<and> \<not> Before (start s) (Add (in_UTC now) (25 * Second)) \<and>
    (avoid \<noteq> None \<or> require \<noteq> None \<longrightarrow>
       (\<exists>ps p. proposers = Some ps \<and> ps s = Some p \<and> (\<forall>r. avoid = Some r \<longrightarrow> \<not> in_range r p) \<and> (\<forall>r. require = Some r \<longrightarrow> in_range r p))) \<and>
    (\<exists>before after. candidates = before @ vi # after \<and>
       (\<forall>v \<in> set before. judge_candidate start (Add (in_UTC now) minDutyLead) duties
          (if avoid \<noteq> None \<or> require \<noteq> None then proposers else None) avoid require v \<in> {NoDuty, TooSoon, WrongProposer}))"
proof -
  let ?ps = "if avoid \<noteq> None \<or> require \<noteq> None then proposers else None"
  let ?j = "judge_candidate start (Add (in_UTC now) minDutyLead) duties ?ps avoid require"
  have f: "find_loop ?j 0 0 candidates = Inr (s, vi, d)" "t' = t" "avoid \<noteq> None \<or> require \<noteq> None \<longrightarrow> proposers \<noteq> None"
    using assms by (auto simp: findCleanDuty_def Let_def split: if_splits sum.splits)
  note loop = find_loop_Inr [OF f(1)]
  note use = judge_usable [OF conjunct1 [OF loop]]
  have "\<exists>ps p. proposers = Some ps \<and> ps s = Some p \<and> (\<forall>r. avoid = Some r \<longrightarrow> \<not> in_range r p) \<and> (\<forall>r. require = Some r \<longrightarrow> in_range r p)"
    if c: "avoid \<noteq> None \<or> require \<noteq> None"
  proof -
    obtain ps where "proposers = Some ps" using f(3) c by auto
    then show ?thesis using use(3) [of ps] c by auto
  qed
  then show ?thesis using use(1,2) f(2) loop by (simp add: minDutyLead_def)
qed

lemma nan_quota_accepted:
  "FaultSpec_Validate \<lparr>fs_Kind = ''cgroup_cpu'', fs_Netem = None, fs_CgroupIO = None, fs_CgroupCPU = Some FNaN, fs_CgroupMem = None,
     fs_Pause = None, fs_ClockSkew = None, fs_PeerDrop = None\<rparr> = None"
  by (simp add: FaultSpec_Validate_def params_set_def kind_error_def)

section \<open>A recipe\<close>

definition pause_recipe :: Scenario where
  "pause_recipe =
     \<lparr>sc_ID = ''vc-frozen'', sc_RecipeID = [], sc_Description = ''d'', sc_Target = ''vc-1'', sc_ValidatorIndex = 0, sc_ValidatorCandidates = Some (3, 5),
      sc_Fault = \<lparr>fs_Kind = ''pause'', fs_Netem = None, fs_CgroupIO = None, fs_CgroupCPU = None, fs_CgroupMem = None, fs_Pause = Some (),
        fs_ClockSkew = None, fs_PeerDrop = None\<rparr>,
      sc_Duration = 12 * Second, sc_AvoidProposerValidators = Some (0, 5), sc_RequireProposerValidators = None, sc_SamplePressure = [],
      sc_TimingTarget = ''cl-1'', sc_BaselineTarget = [], sc_SampleEngineBaseline = False, sc_SampleEngineCalls = False, sc_PeerCountTarget = [],
      sc_Cause = ''local.vc_disconnected'', sc_SubCause = [], sc_Confidence = ''high''\<rparr>"

definition pause_duty :: "64 word \<Rightarrow> dutyAssignment" where
  "pause_duty s = \<lparr>da_Slot = s, da_Duty = \<lparr>dp_CommitteeIndex = 0, dp_CommitteeLength = 4, dp_CommitteesAtSlot = 1, dp_ValidatorCommitteeIndex = 2\<rparr>\<rparr>"

end
