(* ===== verification/FaultObserve.thy ===== *)
theory FaultObserve
  imports FaultTiming FaultScenario Inclusion Duties NodeSchedule
begin

text \<open>
  The fault injector's own observer (\<open>tools/faultinjector/observe.go\<close>, \<open>observe_attestation.go\<close>). It is a second implementation of
  what the daemon's Beacon API client does: its comments say that both must record the same fact the same way, and the
  properties below compare them. Its \<open>bitSet\<close>, \<open>bitlistLength\<close>, \<open>bitvectorIndices\<close> and \<open>validateBeaconRoot\<close> are the daemon's word for
  word and share their definitions. Decoded responses are arguments; \<open>None\<close> is a 404, and for the pool also a 410.
\<close>

section \<open>The chain\<close>

record Observer =
  obv_GenesisTime :: gotime
  obv_SecondsPerSlot :: duration
  obv_NodeRecoveryBudget :: duration

definition defaultNodeRecoveryBudget :: duration where "defaultNodeRecoveryBudget = 3 * Minute"

definition NewObserver :: "beacon_error + string \<Rightarrow> beacon_error + string \<Rightarrow> genesis_error + Observer" where
  "NewObserver genesis spec =
     (case genesis of
        Inl e \<Rightarrow> Inl (GenesisFetch e)
      | Inr genesisText \<Rightarrow>
          (case ParseInt 64 genesisText of
             None \<Rightarrow> Inl (BadGenesisTime genesisText)
           | Some genesisUnix \<Rightarrow>
               (case spec of
                  Inl e \<Rightarrow> Inl (GenesisSpecFetch e)
                | Inr secondsText \<Rightarrow>
                    (case ParseInt 64 secondsText of
                       None \<Rightarrow> Inl (BadSecondsPerSlot secondsText)
                     | Some secondsPerSlot \<Rightarrow>
                         if secondsPerSlot \<le> 0 \<or> secondsPerSlot > 60 then Inl (SecondsPerSlotRange secondsPerSlot)
                         else Inr \<lparr>obv_GenesisTime = NodeSchedule.time_Unix genesisUnix, obv_SecondsPerSlot = secondsPerSlot * Second,
                                   obv_NodeRecoveryBudget = defaultNodeRecoveryBudget\<rparr>))))"

definition Observer_SlotStart :: "Observer \<Rightarrow> slot \<Rightarrow> gotime" where
  "Observer_SlotStart o' s = Add (obv_GenesisTime o') (wrap64 (sint s * obv_SecondsPerSlot o'))"

section \<open>Duties\<close>

fun duties_loop :: "(64 word \<rightharpoonup> dutyAssignment) \<Rightarrow> attester_entry list \<Rightarrow> beacon_error + (64 word \<rightharpoonup> dutyAssignment)" where
  "duties_loop out [] = Inr out"
| "duties_loop out (entry # rest) =
     (case (ParseUint (ae_ValidatorIndex entry), ParseUint (ae_Slot entry), ParseUint (ae_CommitteeIndex entry),
            ParseUint (ae_CommitteeLength entry), ParseUint (ae_CommitteesAtSlot entry), ParseUint (ae_ValidatorCommitteeIndex entry)) of
        (Some vi, Some s, Some ci, Some cl, Some cs, Some vci) \<Rightarrow>
          if cl = 0 \<or> cs = 0 \<or> ci \<ge> cs \<or> vci \<ge> cl then Inl ErrMalformed
          else duties_loop (out(of_nat vi \<mapsto>
                 \<lparr>da_Slot = of_nat s,
                  da_Duty = \<lparr>dp_CommitteeIndex = of_nat ci, dp_CommitteeLength = of_nat cl, dp_CommitteesAtSlot = of_nat cs,
                             dp_ValidatorCommitteeIndex = of_nat vci\<rparr>\<rparr>)) rest
      | _ \<Rightarrow> Inl ErrMalformed)"

definition Observer_FetchDuties :: "gotime \<Rightarrow> beacon_error + attester_entry list \<Rightarrow> beacon_error + (64 word \<rightharpoonup> dutyAssignment) \<times> gotime" where
  "Observer_FetchDuties now response =
     (case response of
        Inl e \<Rightarrow> Inl e
      | Inr entries \<Rightarrow> (case duties_loop Map.empty entries of Inl e \<Rightarrow> Inl e | Inr out \<Rightarrow> Inr (out, in_UTC now)))"

fun proposers_loop :: "(64 word \<rightharpoonup> 64 word) \<Rightarrow> proposer_entry list \<Rightarrow> beacon_error + (64 word \<rightharpoonup> 64 word)" where
  "proposers_loop out [] = Inr out"
| "proposers_loop out (d # rest) =
     (case (ParseUint (pe_Slot d), ParseUint (pe_ValidatorIndex d)) of
        (Some s, Some vi) \<Rightarrow> proposers_loop (out(of_nat s \<mapsto> of_nat vi)) rest
      | _ \<Rightarrow> Inl ErrMalformed)"

definition Observer_FetchProposers :: "beacon_error + proposer_entry list \<Rightarrow> beacon_error + (64 word \<rightharpoonup> 64 word)" where
  "Observer_FetchProposers response = (case response of Inl e \<Rightarrow> Inl e | Inr entries \<Rightarrow> proposers_loop Map.empty entries)"

section \<open>Headers and blocks\<close>

record beaconHeader =
  hd_Root :: string
  hd_ProposerIndex :: string

definition Observer_fetchBlockHeader :: "beacon_error + header_response option \<Rightarrow> beacon_error + beaconHeader option" where
  "Observer_fetchBlockHeader response =
     (case response of
        Inl e \<Rightarrow> Inl e
      | Inr None \<Rightarrow> Inr None
      | Inr (Some out) \<Rightarrow>
          (case hr_ExecutionOptimistic out of
             None \<Rightarrow> Inl ErrMalformed
           | Some optimistic \<Rightarrow>
               if optimistic \<or> \<not> hr_Canonical out then Inr None
               else Inr (Some \<lparr>hd_Root = hr_Root out, hd_ProposerIndex = hr_ProposerIndex out\<rparr>)))"

record block_response =
  blk_ExecutionOptimistic :: "bool option"
  blk_Attestations :: "apiAttestation list"
  blk_PayloadAttestations :: "payloadAttestation list"

definition Observer_fetchBlock :: "beacon_error + block_response option \<Rightarrow> beacon_error + block_response option" where
  "Observer_fetchBlock response =
     (case response of
        Inl e \<Rightarrow> Inl e
      | Inr None \<Rightarrow> Inr None
      | Inr (Some out) \<Rightarrow>
          (case blk_ExecutionOptimistic out of
             None \<Rightarrow> Inl ErrMalformed
           | Some optimistic \<Rightarrow> if optimistic then Inr None else Inr (Some out)))"

text \<open>The node the injector talks to, by request; the committees are asked of the state of a slot, for a slot.\<close>

record fault_node =
  fn_header :: "slot \<Rightarrow> beacon_error + header_response option"
  fn_block :: "slot \<Rightarrow> beacon_error + block_response option"
  fn_pool :: "slot \<Rightarrow> beacon_error + apiAttestation list option"
  fn_committees :: "slot \<Rightarrow> slot \<Rightarrow> beacon_error + committee_entry list"

section \<open>Block existence\<close>

record blockStatus =
  bs_Root :: string
  bs_ProposerIndex :: "64 word"
  bs_At :: gotime
  bs_Found :: bool
  bs_Skipped :: bool

definition observedBlockStatus :: "beaconHeader \<Rightarrow> gotime \<Rightarrow> beacon_error + blockStatus" where
  "observedBlockStatus header now =
     (case ParseUint (hd_ProposerIndex header) of
        None \<Rightarrow> Inl ErrMalformed
      | Some proposer \<Rightarrow>
          (case validateBeaconRoot (hd_Root header) of
             Some e \<Rightarrow> Inl (ErrBits e)
           | None \<Rightarrow> Inr \<lparr>bs_Root = hd_Root header, bs_ProposerIndex = of_nat proposer, bs_At = in_UTC now, bs_Found = True, bs_Skipped = False\<rparr>))"

record nodeSyncStatus =
  ns_HeadSlot :: "64 word"
  ns_SyncDistance :: "64 word"
  ns_IsSyncing :: bool
  ns_IsOptimistic :: bool
  ns_ELOffline :: bool

definition nodeSyncStatus_ready :: "nodeSyncStatus \<Rightarrow> bool" where
  "nodeSyncStatus_ready s \<longleftrightarrow> \<not> ns_IsSyncing s \<and> \<not> ns_IsOptimistic s \<and> \<not> ns_ELOffline s \<and> ns_SyncDistance s = 0"

definition fetchNodeSyncStatus :: "beacon_error + sync_response \<Rightarrow> beacon_error + nodeSyncStatus" where
  "fetchNodeSyncStatus response =
     (case response of
        Inl e \<Rightarrow> Inl e
      | Inr st \<Rightarrow>
          (case ParseUint (sy_HeadSlot st) of
             None \<Rightarrow> Inl ErrMalformed
           | Some headSlot \<Rightarrow>
               (case ParseUint (sy_SyncDistance st) of
                  None \<Rightarrow> Inl ErrMalformed
                | Some distance \<Rightarrow>
                    Inr \<lparr>ns_HeadSlot = of_nat headSlot, ns_SyncDistance = of_nat distance, ns_IsSyncing = sy_IsSyncing st,
                         ns_IsOptimistic = sy_IsOptimistic st, ns_ELOffline = sy_ELOffline st\<rparr>)))"

text \<open>A poll of the syncing status: the answer, the time after it, and whether the context ended during the pause.\<close>

record status_poll =
  sq_status :: "beacon_error + sync_response"
  sq_now :: gotime
  sq_ctxDone :: bool

text \<open>The wait for a ready node whose head satisfies \<open>reached\<close>, which \<open>blockStatusAtDeadline\<close> and \<open>CheckInclusion\<close> share.\<close>

fun await_ready :: "(64 word \<Rightarrow> bool) \<Rightarrow> gotime \<Rightarrow> status_poll list \<Rightarrow> (beacon_error + unit) option" where
  "await_ready reached deadline [] = None"
| "await_ready reached deadline (poll # polls) =
     (case fetchNodeSyncStatus (sq_status poll) of
        Inl e \<Rightarrow> Some (Inl e)
      | Inr status \<Rightarrow>
          if nodeSyncStatus_ready status \<and> reached (ns_HeadSlot status) then Some (Inr ())
          else if \<not> Before (sq_now poll) deadline then Some (Inl ErrTimeout)
          else if sq_ctxDone poll then Some (Inl ErrContextDone)
          else await_ready reached deadline polls)"

definition Observer_blockStatusAtDeadline ::
  "Observer \<Rightarrow> slot \<Rightarrow> gotime \<Rightarrow> status_poll list \<Rightarrow> beacon_error + header_response option \<Rightarrow> gotime \<Rightarrow> (beacon_error + blockStatus) option" where
  "Observer_blockStatusAtDeadline o' s now polls header later =
     (let budget = (if obv_NodeRecoveryBudget o' \<le> 0 then defaultNodeRecoveryBudget else obv_NodeRecoveryBudget o')
      in case await_ready (\<lambda>head. head > s) (Add now budget) polls of
           None \<Rightarrow> None
         | Some (Inl e) \<Rightarrow> Some (Inl e)
         | Some (Inr _) \<Rightarrow>
             Some (case Observer_fetchBlockHeader header of
                     Inl e \<Rightarrow> Inl e
                   | Inr (Some h) \<Rightarrow> observedBlockStatus h later
                   | Inr None \<Rightarrow> Inr \<lparr>bs_Root = [], bs_ProposerIndex = 0, bs_At = in_UTC later, bs_Found = False, bs_Skipped = True\<rparr>))"

record header_poll =
  hq_header :: "beacon_error + header_response option"
  hq_now :: gotime
  hq_ctxDone :: bool

fun PollBlockSeen :: "gotime \<Rightarrow> (gotime \<Rightarrow> (beacon_error + blockStatus) option) \<Rightarrow> header_poll list \<Rightarrow> (beacon_error + blockStatus) option" where
  "PollBlockSeen deadline atDeadline [] = None"
| "PollBlockSeen deadline atDeadline (poll # polls) =
     (case Observer_fetchBlockHeader (hq_header poll) of
        Inl e \<Rightarrow> Some (Inl e)
      | Inr (Some header) \<Rightarrow> Some (observedBlockStatus header (hq_now poll))
      | Inr None \<Rightarrow>
          if \<not> Before (hq_now poll) deadline then atDeadline (hq_now poll)
          else if hq_ctxDone poll then Some (Inl ErrContextDone)
          else PollBlockSeen deadline atDeadline polls)"

section \<open>Attestations\<close>

definition Observer_attestationIncludesValidator ::
  "apiAttestation \<Rightarrow> duty_position \<Rightarrow> committee_lengths \<Rightarrow> bits_error + bool \<times> bool" where
  "Observer_attestationIncludesValidator att d lengths =
     (if att_CommitteeBits att = [] then
        (if att_Index att \<noteq> FormatUint (unat (dp_CommitteeIndex d)) then Inr (False, False)
         else case bitSet (att_AggregationBits att) (dp_ValidatorCommitteeIndex d) of
                Inl e \<Rightarrow> Inl e | Inr b \<Rightarrow> Inr (b, False))
      else if att_Index att \<noteq> ''0'' then Inl ErrDataIndex
      else case bitvectorIndices (att_CommitteeBits att) maxCommitteesPerSlot of
        Inl e \<Rightarrow> Inl e
      | Inr indices \<Rightarrow>
          (case List.find (\<lambda>i. indices ! i = unat (dp_CommitteeIndex d)) [0..<length indices] of
             None \<Rightarrow> Inr (False, False)
           | Some targetPosition \<Rightarrow>
               if targetPosition > 0 \<and> lengths = None then Inr (False, True)
               else (case offset_loop lengths 0 (take targetPosition indices) of
                 Inl e \<Rightarrow> Inl e
               | Inr offset \<Rightarrow>
                   if dp_CommitteeLength d = 0 \<or> dp_ValidatorCommitteeIndex d \<ge> dp_CommitteeLength d then Inl ErrCommitteePosition
                   else case bitSet (att_AggregationBits att) (offset + dp_ValidatorCommitteeIndex d) of
                     Inl e \<Rightarrow> Inl e | Inr b \<Rightarrow> Inr (b, False))))"

fun Observer_attestationsIncludeValidator ::
  "apiAttestation list \<Rightarrow> slot \<Rightarrow> duty_position \<Rightarrow> committee_lengths \<Rightarrow> bits_error + bool \<times> bool \<times> apiAttestation" where
  "Observer_attestationsIncludeValidator [] wantSlot d lengths = Inr (False, False, zero_attestation)"
| "Observer_attestationsIncludeValidator (att # atts) wantSlot d lengths =
     (if att_Slot att \<noteq> FormatUint (unat wantSlot) then Observer_attestationsIncludeValidator atts wantSlot d lengths
      else case Observer_attestationIncludesValidator att d lengths of
        Inl e \<Rightarrow> Inl e
      | Inr (included, needCommittees) \<Rightarrow>
          if included \<or> needCommittees then Inr (included, needCommittees, att)
          else Observer_attestationsIncludeValidator atts wantSlot d lengths)"

definition Observer_fetchCommitteeLengths ::
  "slot \<Rightarrow> 64 word \<Rightarrow> beacon_error + committee_entry list \<Rightarrow> beacon_error + (committee_index \<rightharpoonup> 64 word)" where
  "Observer_fetchCommitteeLengths s expectedCount response =
     (case response of
        Inl e \<Rightarrow> Inl e
      | Inr committees \<Rightarrow>
          if committees = [] \<or> length committees > maxCommitteesPerSlot then Inl ErrMalformed
          else if expectedCount > 0 \<and> length committees \<noteq> unat expectedCount then Inl ErrMalformed
          else committee_loop s Map.empty committees)"

text \<open>The attestations of a block or of the pool: the committees, of the state of \<open>stateSlot\<close>, are fetched only if they are needed.\<close>

definition includes_fetching ::
  "fault_node \<Rightarrow> slot \<Rightarrow> slot \<Rightarrow> duty_position \<Rightarrow> apiAttestation list \<Rightarrow> beacon_error + bool \<times> apiAttestation" where
  "includes_fetching nd stateSlot wantSlot d atts =
     (case Observer_attestationsIncludeValidator atts wantSlot d None of
        Inl e \<Rightarrow> Inl (ErrBits e)
      | Inr (included, needCommittees, found) \<Rightarrow>
          if included \<or> \<not> needCommittees then Inr (included, found)
          else case Observer_fetchCommitteeLengths wantSlot (dp_CommitteesAtSlot d) (fn_committees nd stateSlot wantSlot) of
            Inl e \<Rightarrow> Inl e
          | Inr m \<Rightarrow>
              (case Observer_attestationsIncludeValidator atts wantSlot d (Some m) of
                 Inl e \<Rightarrow> Inl (ErrBits e)
               | Inr (included', _, found') \<Rightarrow> Inr (included', found')))"

definition blockIncludesAttestation :: "fault_node \<Rightarrow> slot \<Rightarrow> slot \<Rightarrow> duty_position \<Rightarrow> beacon_error + bool \<times> apiAttestation" where
  "blockIncludesAttestation nd blockSlot wantSlot d =
     (case Observer_fetchBlock (fn_block nd blockSlot) of
        Inl e \<Rightarrow> Inl e
      | Inr None \<Rightarrow> Inr (False, zero_attestation)
      | Inr (Some block) \<Rightarrow> includes_fetching nd blockSlot wantSlot d (blk_Attestations block))"

definition poolIncludesAttestation :: "fault_node \<Rightarrow> slot \<Rightarrow> duty_position \<Rightarrow> beacon_error + bool \<times> apiAttestation" where
  "poolIncludesAttestation nd dutySlot d =
     (case fn_pool nd dutySlot of
        Inl e \<Rightarrow> Inl e
      | Inr None \<Rightarrow> Inr (False, zero_attestation)
      | Inr (Some atts) \<Rightarrow> includes_fetching nd dutySlot dutySlot d atts)"

text \<open>The polls of \<open>PollAttestationPublished\<close>: the node at that poll, the time after it, and the state of the context.\<close>

record pool_poll =
  pq_node :: fault_node
  pq_now :: gotime
  pq_ctxErr :: bool
  pq_ctxDone :: bool

fun PollAttestationPublished :: "slot \<Rightarrow> duty_position \<Rightarrow> gotime \<Rightarrow> pool_poll list \<Rightarrow> (beacon_error + (gotime \<times> string) option) option" where
  "PollAttestationPublished dutySlot d deadline [] = None"
| "PollAttestationPublished dutySlot d deadline (poll # polls) =
     (let again = (if \<not> Before (pq_now poll) deadline then Some (Inr None)
                   else if pq_ctxDone poll then Some (Inl ErrContextDone)
                   else PollAttestationPublished dutySlot d deadline polls)
      in case poolIncludesAttestation (pq_node poll) dutySlot d of
           Inl e \<Rightarrow> if pq_ctxErr poll then Some (Inl e) else again
         | Inr (True, att) \<Rightarrow> Some (Inr (Some (in_UTC (pq_now poll), att_BeaconBlockRoot att)))
         | Inr (False, _) \<Rightarrow> again)"

section \<open>Rewards and inclusion\<close>

fun Observer_root_lookback :: "fault_node \<Rightarrow> slot \<Rightarrow> nat list \<Rightarrow> beacon_error + string" where
  "Observer_root_lookback nd s [] = Inl ErrMissing"
| "Observer_root_lookback nd s (lookback # rest) =
     (case Observer_fetchBlockHeader (fn_header nd (s - of_nat lookback)) of
        Inl e \<Rightarrow> Inl e
      | Inr None \<Rightarrow> Observer_root_lookback nd s rest
      | Inr (Some header) \<Rightarrow>
          (case validateBeaconRoot (hd_Root header) of Some e \<Rightarrow> Inl (ErrBits e) | None \<Rightarrow> Inr (hd_Root header)))"

definition Observer_fetchCanonicalRootAtSlot :: "fault_node \<Rightarrow> slot \<Rightarrow> beacon_error + string" where
  "Observer_fetchCanonicalRootAtSlot nd s = Observer_root_lookback nd s [0..<Suc (min maxCanonicalRootLookback (unat s))]"

definition Observer_attestationRewardEvidence :: "fault_node \<Rightarrow> slot \<Rightarrow> apiAttestation \<Rightarrow> beacon_error + bool \<times> bool" where
  "Observer_attestationRewardEvidence nd dutySlot att =
     (case validateBeaconRoot (att_BeaconBlockRoot att) of
        Some e \<Rightarrow> Inl (ErrBits e)
      | None \<Rightarrow>
          (case validateBeaconRoot (att_TargetRoot att) of
             Some e \<Rightarrow> Inl (ErrBits e)
           | None \<Rightarrow>
               (case ParseUint (att_TargetEpoch att) of
                  None \<Rightarrow> Inl ErrMalformed
                | Some targetEpoch \<Rightarrow>
                    if of_nat targetEpoch \<noteq> dutySlot div SlotsPerEpoch then Inl ErrMalformed
                    else case Observer_fetchCanonicalRootAtSlot nd dutySlot of
                      Inl e \<Rightarrow> Inl e
                    | Inr canonicalHead \<Rightarrow>
                        (case Observer_fetchCanonicalRootAtSlot nd (of_nat targetEpoch * SlotsPerEpoch) of
                           Inl e \<Rightarrow> Inl e
                         | Inr canonicalTarget \<Rightarrow>
                             Inr (att_BeaconBlockRoot att = canonicalHead, att_TargetRoot att = canonicalTarget)))))"

record inclusion =
  inc_Slot :: slot
  inc_At :: gotime
  inc_Root :: string
  inc_HeadCorrect :: bool
  inc_TargetCorrect :: bool

text \<open>The loop over the slots of the window, with fuel: a window that ends at the largest slot would never be left.\<close>

fun inclusion_loop :: "nat \<Rightarrow> fault_node \<Rightarrow> slot \<Rightarrow> duty_position \<Rightarrow> slot \<Rightarrow> gotime \<Rightarrow> slot \<Rightarrow> (beacon_error + inclusion option) option" where
  "inclusion_loop 0 nd dutySlot d untilSlot now s = None"
| "inclusion_loop (Suc n) nd dutySlot d untilSlot now s =
     (if s > untilSlot then Some (Inr None)
      else case blockIncludesAttestation nd s dutySlot d of
        Inl e \<Rightarrow> Some (Inl e)
      | Inr (False, _) \<Rightarrow> inclusion_loop n nd dutySlot d untilSlot now (s + 1)
      | Inr (True, att) \<Rightarrow>
          Some (case Observer_attestationRewardEvidence nd dutySlot att of
                  Inl e \<Rightarrow> Inl e
                | Inr (headCorrect, targetCorrect) \<Rightarrow>
                    Inr (Some \<lparr>inc_Slot = s, inc_At = in_UTC now, inc_Root = att_BeaconBlockRoot att,
                               inc_HeadCorrect = headCorrect, inc_TargetCorrect = targetCorrect\<rparr>)))"

definition Observer_CheckInclusion ::
  "fault_node \<Rightarrow> slot \<Rightarrow> duty_position \<Rightarrow> slot \<Rightarrow> gotime \<Rightarrow> status_poll list \<Rightarrow> gotime \<Rightarrow> (beacon_error + inclusion option) option" where
  "Observer_CheckInclusion nd dutySlot d untilSlot deadline polls now =
     (if untilSlot \<le> dutySlot then Some (Inl ErrMalformed)
      else case await_ready (\<lambda>head. head \<ge> untilSlot) deadline polls of
        None \<Rightarrow> None
      | Some (Inl e) \<Rightarrow> Some (Inl e)
      | Some (Inr _) \<Rightarrow> inclusion_loop (Suc (unat (untilSlot - dutySlot))) nd dutySlot d untilSlot now (dutySlot + 1))"

section \<open>Payload votes\<close>

fun count_votes :: "slot \<Rightarrow> nat \<Rightarrow> nat \<Rightarrow> payloadAttestation list \<Rightarrow> nat \<times> nat" where
  "count_votes dutySlot counted seen [] = (counted, seen)"
| "count_votes dutySlot counted seen (vote # rest) =
     (case ParseUint (pa_Slot vote) of
        None \<Rightarrow> count_votes dutySlot counted seen rest
      | Some voteSlot \<Rightarrow>
          if of_nat voteSlot \<noteq> dutySlot then count_votes dutySlot counted seen rest
          else count_votes dutySlot (counted + 1) (if pa_PayloadPresent vote then seen + 1 else seen) rest)"

definition Observer_PayloadAttested :: "fault_node \<Rightarrow> slot \<Rightarrow> beacon_error + (bool \<times> nat) option" where
  "Observer_PayloadAttested nd dutySlot =
     (case Observer_fetchBlock (fn_block nd (dutySlot + 1)) of
        Inl e \<Rightarrow> Inl e
      | Inr None \<Rightarrow> Inr None
      | Inr (Some block) \<Rightarrow>
          (case count_votes dutySlot 0 0 (blk_PayloadAttestations block) of
             (counted, seen) \<Rightarrow> if counted = 0 then Inr None else Inr (Some (seen * 2 > counted, counted))))"

section \<open>The two implementations agree\<close>

definition position_of :: "AttesterDuty \<Rightarrow> duty_position" where
  "position_of d =
     \<lparr>dp_CommitteeIndex = duty_CommitteeIndex (ad_Duty d), dp_CommitteeLength = ad_CommitteeLength d,
      dp_CommitteesAtSlot = ad_CommitteesAtSlot d, dp_ValidatorCommitteeIndex = ad_ValidatorCommitteeIndex d\<rparr>"

lemma single_agrees:
  "0 < ad_CommitteeLength d \<Longrightarrow> Observer_attestationIncludesValidator att (position_of d) lengths = attestationIncludesValidator att d lengths"
  unfolding Observer_attestationIncludesValidator_def attestationIncludesValidator_def position_of_def
  by (simp add: word_gt_0 cong: if_cong sum.case_cong option.case_cong)

lemma list_agrees:
  assumes "0 < ad_CommitteeLength d"
  shows "Observer_attestationsIncludeValidator atts wantSlot (position_of d) lengths = attestationsIncludeValidator atts wantSlot d lengths"
  by (induction atts) (auto simp: single_agrees [OF assms] split: sum.splits)

text \<open>The same chain behind both: the daemon's node and the injector's serve the same headers, blocks and committees.\<close>

definition same_chain :: "node \<Rightarrow> fault_node \<Rightarrow> slot \<Rightarrow> AttesterDuty \<Rightarrow> (committee_index \<rightharpoonup> 64 word) \<Rightarrow> bool" where
  "same_chain nd fn wantSlot d m \<longleftrightarrow>
     endpoints_agree nd \<and> nd_committees nd wantSlot = Inr m \<and>
     (\<forall>s. fn_header fn s = nd_header nd (FormatUint (unat s))) \<and>
     (\<forall>s. Observer_fetchCommitteeLengths wantSlot (ad_CommitteesAtSlot d) (fn_committees fn s wantSlot) = Inr m) \<and>
     (\<forall>s. case nd_block nd s of
            Inl _ \<Rightarrow> True
          | Inr None \<Rightarrow> Observer_fetchBlock (fn_block fn s) = Inr None
          | Inr (Some (atts, _)) \<Rightarrow> \<exists>b. Observer_fetchBlock (fn_block fn s) = Inr (Some b) \<and> blk_Attestations b = atts)"

lemma header_agrees:
  assumes "fn_header fn s = nd_header nd (FormatUint (unat s))" "fetchBlockHeader nd s = Inr r"
  shows "\<exists>r'. Observer_fetchBlockHeader (fn_header fn s) = Inr r' \<and> map_option hd_Root r' = map_option bh_Root r"
  using assms
  by (auto simp: fetchBlockHeader_def fetchHeader_def Observer_fetchBlockHeader_def split: sum.splits option.splits if_splits)

lemma root_agrees:
  assumes "\<And>s. fn_header fn s = nd_header nd (FormatUint (unat s))"
  shows "root_lookback nd s ks = Inr h \<Longrightarrow> Observer_root_lookback fn s ks = Inr h"
proof (induction ks)
  case (Cons k ks)
  obtain r where r: "fetchBlockHeader nd (s - of_nat k) = Inr r" using Cons.prems by (auto split: sum.splits)
  from header_agrees [OF assms r] obtain r' where "Observer_fetchBlockHeader (fn_header fn (s - of_nat k)) = Inr r'"
    "map_option hd_Root r' = map_option bh_Root r" by blast
  then show ?case using Cons r by (cases r; cases r') (auto split: option.splits)
qed simp

lemma evidence_agrees:
  assumes "\<And>s. fn_header fn s = nd_header nd (FormatUint (unat s))" "attestationRewardEvidence nd s att = Inr ht"
  shows "Observer_attestationRewardEvidence fn s att = Inr ht"
proof -
  have root: "Observer_fetchCanonicalRootAtSlot fn x = Inr r" if "fetchCanonicalRootAtSlot nd x = Inr r" for x r
    using that root_agrees [OF assms(1)] unfolding Observer_fetchCanonicalRootAtSlot_def fetchCanonicalRootAtSlot_def by blast
  from assms(2) show ?thesis
    unfolding attestationRewardEvidence_def Observer_attestationRewardEvidence_def Slot_Epoch_def Epoch_FirstSlot_def
    by (auto simp: root split: option.splits sum.splits if_splits)
qed

lemma need_not_included: "attestationIncludesValidator a d None = Inr (x, True) \<Longrightarrow> \<not> x"
  by (auto simp: attestationIncludesValidator_def split: if_splits sum.splits option.splits)

lemma needs_not_included: "attestationsIncludeValidator atts wantSlot d None = Inr (x, True, att) \<Longrightarrow> \<not> x"
  by (induction atts) (auto split: if_splits sum.splits dest: need_not_included)

lemma fetching_agrees:
  assumes "same_chain nd fn wantSlot d m" "0 < ad_CommitteeLength d"
    and "attestationsIncludeValidator atts wantSlot d (Some m) = Inr (b, False, att)"
  shows "includes_fetching fn s wantSlot (position_of d) atts = Inr (b, att)"
proof -
  have com: "Observer_fetchCommitteeLengths wantSlot (dp_CommitteesAtSlot (position_of d)) (fn_committees fn s wantSlot) = Inr m"
    using assms(1) by (simp add: same_chain_def position_of_def)
  consider "attestationsIncludeValidator atts wantSlot d None = Inr (b, False, att)"
    | b' att' where "attestationsIncludeValidator atts wantSlot d None = Inr (b', True, att')"
    using atts_include_lazy [of atts wantSlot d m] assms(3) by auto
  then show ?thesis
  proof cases
    case 2
    have "\<not> b'" by (rule needs_not_included [OF 2])
    then show ?thesis using 2 assms(3) com by (simp add: includes_fetching_def list_agrees [OF assms(2)])
  qed (simp add: includes_fetching_def list_agrees [OF assms(2)])
qed

lemma block_agrees:
  assumes "same_chain nd fn wantSlot d m" "block_body nd s = Inr r"
  shows "\<exists>b. Observer_fetchBlock (fn_block fn s) = Inr b \<and> map_option blk_Attestations b = r"
proof -
  have c: "case nd_block nd s of
            Inl _ \<Rightarrow> True
          | Inr None \<Rightarrow> Observer_fetchBlock (fn_block fn s) = Inr None
          | Inr (Some (atts, _)) \<Rightarrow> \<exists>b. Observer_fetchBlock (fn_block fn s) = Inr (Some b) \<and> blk_Attestations b = atts"
    using assms(1) by (simp add: same_chain_def)
  show ?thesis
  proof (cases "nd_block nd s")
    case (Inr x)
    then show ?thesis using assms(2) c by (cases x) (auto simp: block_body_def split: option.splits)
  qed (use assms(2) in \<open>simp add: block_body_def\<close>)
qed

text \<open>One slot: what the daemon's scan does with it is what the injector's block test says.\<close>

lemma slot_agrees:
  assumes chain: "same_chain nd fn wantSlot d m" and pos: "0 < ad_CommitteeLength d" and l: "lengths = None \<or> lengths = Some m"
    and scan: "scan_window nd wantSlot d untilSlot now (Suc n) s lengths support = Some (Inr answer)"
  shows "(\<exists>att ob. blockIncludesAttestation fn s wantSlot (position_of d) = Inr (True, att) \<and> answer = Some ob \<and>
        report_inclusion nd wantSlot d s att now = Inr (Some ob)) \<or>
      (\<exists>att l' sup. blockIncludesAttestation fn s wantSlot (position_of d) = Inr (False, att) \<and> (l' = None \<or> l' = Some m) \<and>
        (if s = untilSlot then answer = None else scan_window nd wantSlot d untilSlot now n (s + 1) l' sup = Some (Inr answer)))"
proof -
  have agree: "endpoints_agree nd" and com: "nd_committees nd wantSlot = Inr m" using chain by (simp_all add: same_chain_def)
  obtain sup body where fetch: "fetchBlockBody nd support s = (sup, body)" by fastforce
  then have body: "block_body nd s = body" using fetchBlockBody_agrees [OF agree, of support s] by simp
  consider e where "body = Inl e" | "body = Inr None" | atts where "body = Inr (Some atts)" by (metis old.sum.exhaust option.exhaust)
  then show ?thesis
  proof cases
    case 1
    then show ?thesis using scan fetch by simp
  next
    case 2
    then have "Observer_fetchBlock (fn_block fn s) = Inr None" using block_agrees [OF chain, of s None] body by simp
    then have "blockIncludesAttestation fn s wantSlot (position_of d) = Inr (False, zero_attestation)" by (simp add: blockIncludesAttestation_def)
    then show ?thesis using scan fetch 2 l by (auto split: if_splits)
  next
    case (3 atts)
    obtain b where b: "Observer_fetchBlock (fn_block fn s) = Inr (Some b)" "blk_Attestations b = atts"
      using block_agrees [OF chain, of s "Some atts"] body 3 by auto
    obtain dec where dec: "block_decides nd wantSlot d lengths atts = Inr dec" using scan fetch 3 by (auto split: sum.splits)
    obtain inc att l' where d3: "dec = (inc, att, l')" by (cases dec)
    have known: "attestationsIncludeValidator atts wantSlot d (Some m) = Inr (inc, False, att)" "l' = None \<or> l' = Some m"
      using block_decides_eq [OF com l, where d = d and atts = atts] dec d3 by auto
    have "blockIncludesAttestation fn s wantSlot (position_of d) = Inr (inc, att)"
      using b fetching_agrees [OF chain pos known(1), of s] by (simp add: blockIncludesAttestation_def)
    moreover have "answer = Some ob" if "report_inclusion nd wantSlot d s att now = Inr (Some ob)" inc for ob
      using that scan fetch 3 dec d3 by simp
    moreover have "\<exists>ob. report_inclusion nd wantSlot d s att now = Inr (Some ob)" if inc
      using that scan fetch 3 dec d3 report_inclusion_cases [of nd wantSlot d s att now] by auto
    ultimately show ?thesis using scan fetch 3 dec d3 known(2) by (cases inc) (auto split: if_splits)
  qed
qed

lemma scan_agrees:
  assumes chain: "same_chain nd fn wantSlot d m" and pos: "0 < ad_CommitteeLength d" and top: "untilSlot < - 1"
  shows "scan_window nd wantSlot d untilSlot now n s lengths support = Some (Inr answer) \<Longrightarrow> lengths = None \<or> lengths = Some m \<Longrightarrow>
    s \<le> untilSlot \<Longrightarrow>
    \<exists>r. inclusion_loop (Suc n) fn wantSlot (position_of d) untilSlot now' s = Some (Inr r) \<and>
      (case answer of
         None \<Rightarrow> r = None
       | Some ob \<Rightarrow> \<exists>i att. r = Some i \<and> att_BeaconBlockRoot att = inc_Root i \<and>
           NewObservation (included_draft wantSlot d (inc_Slot i) att (inc_HeadCorrect i) (inc_TargetCorrect i) now) = Inr ob)"
proof (induction n arbitrary: s lengths support)
  case (Suc n)
  have headers: "\<And>s. fn_header fn s = nd_header nd (FormatUint (unat s))" using chain by (simp add: same_chain_def)
  have in_window: "\<not> s > untilSlot" using Suc.prems(3) by simp
  consider (found) att ob where "blockIncludesAttestation fn s wantSlot (position_of d) = Inr (True, att)" "answer = Some ob"
      "report_inclusion nd wantSlot d s att now = Inr (Some ob)"
    | (passed) att l' sup where "blockIncludesAttestation fn s wantSlot (position_of d) = Inr (False, att)" "l' = None \<or> l' = Some m"
      "if s = untilSlot then answer = None else scan_window nd wantSlot d untilSlot now n (s + 1) l' sup = Some (Inr answer)"
    using slot_agrees [OF chain pos Suc.prems(2,1)] by blast
  then show ?case
  proof cases
    case a: (found att ob)
    then obtain h t where "attestationRewardEvidence nd wantSlot att = Inr (h, t)" "NewObservation (included_draft wantSlot d s att h t now) = Inr ob"
      by (auto simp: report_inclusion_def split: sum.splits prod.splits)
    then show ?thesis using a in_window evidence_agrees [OF headers, of wantSlot att "(h, t)"] by auto
  next
    case a: (passed att l' sup)
    show ?thesis
    proof (cases "s = untilSlot")
      case True
      have "s + 1 > untilSlot" using slot_interval(2) [OF top] True by (simp add: word_less_nat_alt)
      then show ?thesis using a True in_window by simp
    next
      case False
      then have lt: "s < untilSlot" using Suc.prems(3) by simp
      have "s + 1 \<le> untilSlot" using slot_interval(1) [OF lt, of untilSlot] lt by auto
      have "scan_window nd wantSlot d untilSlot now n (s + 1) l' sup = Some (Inr answer)" using a(3) False by simp
      note rest = Suc.IH [OF this a(2) \<open>s + 1 \<le> untilSlot\<close>]
      have "inclusion_loop (Suc (Suc n)) fn wantSlot (position_of d) untilSlot now' s = inclusion_loop (Suc n) fn wantSlot (position_of d) untilSlot now' (s + 1)"
        using a(1) in_window by simp
      then show ?thesis using rest by (simp only:)
    qed
  qed
qed simp


lemma count_votes_eq:
  "count_votes s counted seen votes = (counted + length (votes_for s votes), seen + length (filter pa_PayloadPresent (votes_for s votes)))"
  by (induction votes arbitrary: counted seen) (auto simp: votes_for_def split: option.splits)


section \<open>A chain of one block\<close>

definition both_att :: apiAttestation where
  "both_att = ex_att\<lparr>att_AggregationBits := ''0x07'', att_CommitteeBits := [], att_Index := ''1''\<rparr>"

definition both_header :: "string \<Rightarrow> beacon_error + header_response option" where
  "both_header ident = Inr (Some \<lparr>hr_ExecutionOptimistic = Some False, hr_Root = ''0x'' @ replicate 64 (CHR ''a''), hr_Canonical = True,
     hr_Slot = ident, hr_ProposerIndex = ''1''\<rparr>)"

definition both_daemon :: node where
  "both_daemon =
     \<lparr>nd_header = both_header, nd_attestations = (\<lambda>_. Inl (ErrStatus 405)),
      nd_block = (\<lambda>s. if s = 102 then Inr (Some ([both_att], ''phase0'')) else Inr None), nd_committees = (\<lambda>_. Inr [0 \<mapsto> 1])\<rparr>"

definition both_injector :: fault_node where
  "both_injector =
     \<lparr>fn_header = (\<lambda>s. both_header (FormatUint (unat s))),
      fn_block = (\<lambda>s. if s = 102 then Inr (Some \<lparr>blk_ExecutionOptimistic = Some False, blk_Attestations = [both_att],
        blk_PayloadAttestations = [\<lparr>pa_Slot = ''101'', pa_PayloadPresent = True\<rparr>]\<rparr>) else Inr None),
      fn_pool = (\<lambda>_. Inr None), fn_committees = (\<lambda>_ _. Inr [\<lparr>ce_Index = ''0'', ce_Slot = ''100'', ce_Validators = [''7'']\<rparr>])\<rparr>"

definition both_duty :: AttesterDuty where "both_duty = ex_attester\<lparr>ad_CommitteesAtSlot := 1\<rparr>"

lemma both_chain: "same_chain both_daemon both_injector 100 both_duty [0 \<mapsto> 1]"
  by (simp add: same_chain_def both_daemon_def both_injector_def endpoints_agree_def Observer_fetchBlock_def Observer_fetchCommitteeLengths_def both_duty_def
      ex_attester_def ParseUint_def is_digit_def digits_val_def digit_val_def FormatUint_eval digit_char_eval maxCommitteesPerSlot_def maxValidatorsPerCommittee_def)

lemma both_included: "attestationsIncludeValidator [both_att] 100 both_duty None = Inr (True, False, both_att)"
proof -
  have len: "bitlistLength [7] = 2" using bits_Len_unique [of 2 7] by (simp add: bitlistLength_def)
  have "bitSet ''0x07'' 1 = Inr True" using len by (simp add: bitSet_def hex_val_def)
  then show ?thesis by (simp add: both_att_def ex_att_def both_duty_def ex_attester_def attestationIncludesValidator_def FormatUint_eval digit_char_eval)
qed

lemma both_checked: "validateBlockAttestations [both_att] ''phase0'' = None"
proof -
  have len: "bitlistLength [7] = 2" using bits_Len_unique [of 2 7] by (simp add: bitlistLength_def)
  have roots: "validateBeaconRoot (att_BeaconBlockRoot both_att) = None" "validateBeaconRoot (att_TargetRoot both_att) = None"
    using validateBeaconRoot_repeat [of "CHR ''a''"] validateBeaconRoot_repeat [of "CHR ''b''"] by (simp_all add: both_att_def ex_att_def hex_val_def)
  have nums: "validate_att_number (att_Slot both_att) = None" "validate_att_number (att_Index both_att) = None"
    "validate_att_number (att_TargetEpoch both_att) = None"
    by (simp_all add: both_att_def ex_att_def validate_att_number_def ParseUint_def is_digit_def digits_val_def digit_val_def)
  have "validateBoundedHex ''0x07'' 516 = None" by (simp add: validateBoundedHex_def hex_val_def)
  then have bits: "validateBoundedBitlist ''0x07'' 2048 = None"
    using len by (simp add: validateBoundedBitlist_def hex_val_def maxResponseBodyBytes_def)
  show ?thesis using roots nums bits
    by (simp add: validateBlockAttestations_def validate_block_attestation_def maxPreElectraAttestations_def maxValidatorsPerCommittee_def both_att_def)
qed

lemma both_root: "n \<le> 100 \<Longrightarrow> fetchCanonicalRootAtSlot both_daemon (of_nat n) = Inr (''0x'' @ replicate 64 (CHR ''a''))"
proof -
  assume "n \<le> 100"
  then have n: "unat (of_nat n :: 64 word) = n" by (intro unat_small) simp
  have root: "validateBeaconRoot (''0x'' @ replicate 64 (CHR ''a'')) = None" by (rule validateBeaconRoot_repeat) (simp add: hex_val_def)
  have "fetchBlockHeader both_daemon (of_nat n) = Inr (Some \<lparr>bh_Slot = of_nat n, bh_ProposerIndex = 1, bh_Root = ''0x'' @ replicate 64 (CHR ''a'')\<rparr>)"
    using root n \<open>n \<le> 100\<close> ParseUint_FormatUint [of n]
    by (simp add: fetchBlockHeader_def fetchHeader_def both_daemon_def both_header_def ParseUint_def is_digit_def digits_val_def digit_val_def)
  then show ?thesis using root by (simp add: fetchCanonicalRootAtSlot_def upt_conv_Cons del: upt_Suc)
qed

lemma both_evidence: "attestationRewardEvidence both_daemon 100 both_att = Inr (True, False)"
proof -
  have roots: "validateBeaconRoot (att_BeaconBlockRoot both_att) = None" "validateBeaconRoot (att_TargetRoot both_att) = None"
    using validateBeaconRoot_repeat [of "CHR ''a''"] validateBeaconRoot_repeat [of "CHR ''b''"] by (simp_all add: both_att_def ex_att_def hex_val_def)
  have epoch: "ParseUint (att_TargetEpoch both_att) = Some 3"
    by (simp add: both_att_def ex_att_def ParseUint_def is_digit_def digits_val_def digit_val_def)
  have canonical: "fetchCanonicalRootAtSlot both_daemon 100 = Inr (''0x'' @ replicate 64 (CHR ''a''))"
    "fetchCanonicalRootAtSlot both_daemon 96 = Inr (''0x'' @ replicate 64 (CHR ''a''))" using both_root [of 100] both_root [of 96] by simp_all
  have "Epoch_FirstSlot 3 = 96" "Slot_Epoch 100 = 3" by (simp_all add: Epoch_FirstSlot_def Slot_Epoch_def SlotsPerEpoch_def)
  then show ?thesis using roots epoch canonical by (simp add: attestationRewardEvidence_def) (simp add: both_att_def ex_att_def)
qed

lemma both_daemon_finds:
  "\<exists>ob. CheckInclusion both_daemon 100 both_duty 103 time_zero
     [\<lparr>hp_head = Inr (Some \<lparr>bh_Slot = 103, bh_ProposerIndex = 1, bh_Root = []\<rparr>), hp_now = time_zero, hp_ctxDone = False\<rparr>]
     ex_start endpointUnknown = Some (Inr (Some ob))"
proof -
  let ?draft = "included_draft 100 both_duty 102 both_att True False ex_start"
  have "is_root (CHR ''0'' # CHR ''x'' # replicate 64 (CHR ''a''))" 
    using hex_DecodeString_repeat [of "CHR ''a''" 32] by (simp add: is_root_def hex_val_def)
  then have "Observation_Validate ?draft = None"
    by (simp add: included_draft_def both_att_def ex_att_def both_duty_def ex_attester_def FormatBool_def FormatUint_eval digit_char_eval
        ex_validate ex_start_def is_uint_def ParseUint_def is_digit_def digits_val_def digit_val_def hex_val_def)
  then obtain ob where ob: "NewObservation ?draft = Inr ob" by (simp add: NewObservation_def)
  have b1: "fetchBlockBody both_daemon endpointUnknown 101 = (endpointUnsupported, Inr None)"
    by (simp add: fetchBlockBody_def fetchBlockBodyUncached_def fetchLegacyBlockBody_def both_daemon_def)
  have b2: "fetchBlockBody both_daemon endpointUnsupported 102 = (endpointUnsupported, Inr (Some [both_att]))"
    using both_checked by (simp add: fetchBlockBody_def fetchBlockBodyUncached_def fetchLegacyBlockBody_def both_daemon_def)
  have "block_decides both_daemon 100 both_duty None [both_att] = Inr (True, both_att, None)"
    using both_included by (simp only: block_decides_def) simp
  then have "scan_window both_daemon 100 both_duty 103 ex_start 3 101 None endpointUnknown = Some (Inr (Some ob))"
    using b1 b2 ob both_evidence by (simp add: report_inclusion_def numeral_3_eq_3)
  then show ?thesis by (auto simp: CheckInclusion_def simp del: scan_window.simps)
qed



end
