(* ===== verification/FaultRecord.thy ===== *)
theory FaultRecord
  imports FaultObserve
begin

text \<open>
  From a run of the fault injector to a corpus record: what \<open>RunScenario\<close> (\<open>tools/faultinjector/main.go\<close>) makes of its measurements,
  the observations it builds (\<open>observe.go\<close>), and the directory it writes (\<open>manifest.go\<close>). Applying and reverting the fault,
  and the encoding of a file, are arguments.
\<close>

section \<open>The outcome of a duty\<close>

record dutyOutcome =
  do_BlockFound :: bool
  do_BlockSkipped :: bool
  do_BlockRoot :: string
  do_ProposerIndex :: "64 word"
  do_ProposerKnown :: bool
  do_BlockSeenAt :: gotime
  do_BlockTimingMeasured :: bool
  do_HeadFound :: bool
  do_HeadRoot :: string
  do_HeadUpdatedAt :: gotime
  do_EngineCalls :: "EngineCallWindow list"
  do_Published :: bool
  do_PublishedAt :: gotime
  do_PublishedRoot :: string
  do_PayloadPresent :: bool
  do_PayloadPTCVotes :: nat
  do_PayloadAttested :: bool
  do_PayloadAttestedAt :: gotime
  do_Included :: bool
  do_IncludedInSlot :: "64 word"
  do_IncludedAt :: gotime
  do_IncludedRoot :: string
  do_HeadCorrect :: bool
  do_TargetCorrect :: bool
  do_CollectionCompletedAt :: gotime
  do_HostPressure :: "f64 option"
  do_HostPressureMetric :: string
  do_HostSampledAt :: gotime
  do_PeerCount :: "f64 option"
  do_PeerCountSampledAt :: gotime
  do_PeerCountSource :: SourceID
  do_Network :: "NetworkBaseline option"
  do_NetworkSampledAt :: gotime

text \<open>After the two polls: everything that is not set is the zero value.\<close>

definition polled_outcome :: "blockStatus \<Rightarrow> (gotime \<times> string) option \<Rightarrow> dutyOutcome" where
  "polled_outcome block published =
     \<lparr>do_BlockFound = bs_Found block, do_BlockSkipped = bs_Skipped block, do_BlockRoot = bs_Root block,
      do_ProposerIndex = bs_ProposerIndex block, do_ProposerKnown = bs_Found block, do_BlockSeenAt = bs_At block, do_BlockTimingMeasured = False,
      do_HeadFound = False, do_HeadRoot = [], do_HeadUpdatedAt = time_zero, do_EngineCalls = [],
      do_Published = (published \<noteq> None),
      do_PublishedAt = (case published of None \<Rightarrow> time_zero | Some (t, _) \<Rightarrow> t),
      do_PublishedRoot = (case published of None \<Rightarrow> [] | Some (_, r) \<Rightarrow> r),
      do_PayloadPresent = False, do_PayloadPTCVotes = 0, do_PayloadAttested = False, do_PayloadAttestedAt = time_zero,
      do_Included = False, do_IncludedInSlot = 0, do_IncludedAt = time_zero, do_IncludedRoot = [], do_HeadCorrect = False, do_TargetCorrect = False,
      do_CollectionCompletedAt = time_zero, do_HostPressure = None, do_HostPressureMetric = [], do_HostSampledAt = time_zero,
      do_PeerCount = None, do_PeerCountSampledAt = time_zero, do_PeerCountSource = SourceOther [], do_Network = None,
      do_NetworkSampledAt = time_zero\<rparr>"

text \<open>The head of the slot, its arrival when that is credible, and the Engine window.\<close>

definition merge_timing :: "slot \<Rightarrow> gotime \<Rightarrow> Reading \<Rightarrow> Observation \<Rightarrow> watch_error + BlockTiming \<Rightarrow> dutyOutcome \<Rightarrow> dutyOutcome" where
  "merge_timing dutySlot slotStart reading head timing out =
     (case timing of
        Inl _ \<Rightarrow> out
      | Inr bt \<Rightarrow>
          if bt_Slot bt \<noteq> dutySlot then out
          else let blockAt = Add slotStart (bt_Propagation bt)
               in if After blockAt (Add (obs_At head) (rd_Offset reading)) then out
                  else out\<lparr>do_BlockTimingMeasured := True, do_BlockFound := True, do_BlockSkipped := False, do_BlockSeenAt := blockAt,
                           do_BlockRoot := (if do_BlockRoot out = [] then do_HeadRoot out else do_BlockRoot out)\<rparr>)"

definition merge_engine :: "bool \<Rightarrow> EngineCounters option \<Rightarrow> (metric_error + EngineCounters) option \<Rightarrow> dutyOutcome \<Rightarrow> dutyOutcome" where
  "merge_engine sampleCalls before after out =
     (if \<not> sampleCalls then out
      else case (before, after) of
        (Some b, Some (Inr a)) \<Rightarrow> (case EngineCallsBetween b a of Inl _ \<Rightarrow> out | Inr calls \<Rightarrow> out\<lparr>do_EngineCalls := calls\<rparr>)
      | _ \<Rightarrow> out)"

definition merge_head :: "bool \<Rightarrow> slot \<Rightarrow> gotime \<Rightarrow> Reading \<Rightarrow> EngineCounters option \<Rightarrow> headTimingResult \<Rightarrow> dutyOutcome \<Rightarrow> dutyOutcome" where
  "merge_head sampleCalls dutySlot slotStart reading engineBefore measured out =
     (case ht_Head measured of
        Inl _ \<Rightarrow> out
      | Inr head \<Rightarrow>
          merge_engine sampleCalls engineBefore (ht_Engine measured)
            (merge_timing dutySlot slotStart reading head (ht_Timing measured)
               (out\<lparr>do_HeadFound := True, do_BlockSkipped := False, do_HeadUpdatedAt := obs_At head,
                    do_HeadRoot := (case Observation_Attr head AttrBlockRoot of None \<Rightarrow> [] | Some r \<Rightarrow> r)\<rparr>)))"

datatype run_error =
    BaselineHead head_error | BaselineTiming watch_error | BaselineSlot slot | PressureFailed | PeerCountFailed | InclusionWindow slot
  | InclusionFailed beacon_error | PayloadFailed beacon_error | UntrustedClock duration | NoReadings | BadObservation nat domain_error
  | ReplayFailed replay_error | WriteRefused string | SampleRefused nat domain_error | EncodeFailed string | PublishFailed string

definition merge_baseline :: "slot \<Rightarrow> headTimingResult option \<Rightarrow> dutyOutcome \<Rightarrow> run_error + dutyOutcome" where
  "merge_baseline dutySlot measured out =
     (case measured of
        None \<Rightarrow> Inr out
      | Some m \<Rightarrow>
          (case ht_Head m of
             Inl e \<Rightarrow> Inl (BaselineHead e)
           | Inr _ \<Rightarrow>
               (case ht_Timing m of
                  Inl e \<Rightarrow> Inl (BaselineTiming e)
                | Inr bt \<Rightarrow>
                    if bt_Slot bt \<noteq> dutySlot then Inl (BaselineSlot (bt_Slot bt))
                    else Inr (out\<lparr>do_Network := Some \<lparr>nb_Slot = dutySlot, nb_BlockArrivalP50 = bt_Propagation bt,
                                nb_BlockArrivalP90 = bt_Propagation bt, nb_SampleCount = 1, nb_Source = SourcePromScrape\<rparr>,
                              do_NetworkSampledAt := bt_SampledAt bt\<rparr>))))"

definition merge_included :: "inclusion option \<Rightarrow> dutyOutcome \<Rightarrow> dutyOutcome" where
  "merge_included found out =
     (case found of
        None \<Rightarrow> out
      | Some i \<Rightarrow> out\<lparr>do_Included := True, do_IncludedInSlot := inc_Slot i, do_IncludedAt := inc_At i, do_IncludedRoot := inc_Root i,
                      do_HeadCorrect := inc_HeadCorrect i, do_TargetCorrect := inc_TargetCorrect i\<rparr>)"

definition merge_payload :: "(bool \<times> nat) option \<Rightarrow> gotime \<Rightarrow> dutyOutcome \<Rightarrow> dutyOutcome" where
  "merge_payload found now out =
     (case found of
        None \<Rightarrow> out
      | Some (present, votes) \<Rightarrow> out\<lparr>do_PayloadPresent := present, do_PayloadPTCVotes := votes, do_PayloadAttested := True,
                                    do_PayloadAttestedAt := in_UTC now\<rparr>)"

section \<open>Observations\<close>

definition absoluteDuration :: "duration \<Rightarrow> duration" where
  "absoluteDuration v = (if v = - (2 ^ 63) then 2 ^ 63 - 1 else if v < 0 then - v else v)"

fun nearest_loop :: "gotime \<Rightarrow> Reading \<Rightarrow> duration \<Rightarrow> Reading list \<Rightarrow> Reading" where
  "nearest_loop t best bestDistance [] = best"
| "nearest_loop t best bestDistance (candidate # rest) =
     (let distance = absoluteDuration (Sub t (rd_At candidate))
      in if distance < bestDistance then nearest_loop t candidate distance rest else nearest_loop t best bestDistance rest)"

definition nearestClockReading :: "gotime \<Rightarrow> Reading list \<Rightarrow> Reading" where
  "nearestClockReading t readings = nearest_loop t (hd readings) (absoluteDuration (Sub t (rd_At (hd readings)))) (tl readings)"

definition unstamped :: "slot \<Rightarrow> ObservationKind \<Rightarrow> gotime \<Rightarrow> SourceID \<Rightarrow> attrs \<Rightarrow> Observation" where
  "unstamped s kind t src as =
     \<lparr>obs_Slot = s, obs_Kind = kind, obs_At = t, obs_ClockOffset = 0, obs_ClockMeasured = False, obs_ClockSampleAt = time_zero,
      obs_Source = src, obs_Attrs = as\<rparr>"

definition root_attr :: "string \<Rightarrow> attrs" where
  "root_attr r = (if r = [] then [] else [(AttrBlockRoot, r)])"

definition observation_drafts :: "64 word \<Rightarrow> slot \<Rightarrow> gotime \<Rightarrow> gotime \<Rightarrow> dutyOutcome \<Rightarrow> Observation list" where
  "observation_drafts validator s slotStart dutyAt out =
     (let v = (AttrValidatorIndex, FormatUint (unat validator)) in
      [unstamped s ObsSlotStart slotStart SourceDerived [], unstamped s ObsDutyAssigned dutyAt SourceBeaconAPI [v]] @
      (if do_BlockFound out
       then [unstamped s ObsBlockSeen (do_BlockSeenAt out) (if do_BlockTimingMeasured out then SourcePromScrape else SourceBeaconAPI)
               ((if do_ProposerKnown out then [(AttrProposerIndex, FormatUint (unat (do_ProposerIndex out)))] else []) @ root_attr (do_BlockRoot out))]
       else []) @
      (if do_BlockSkipped out then [unstamped s ObsBlockSkipped (do_BlockSeenAt out) SourceBeaconAPI []] else []) @
      (if do_HeadFound out then [unstamped s ObsHeadUpdated (do_HeadUpdatedAt out) SourceBeaconAPI (root_attr (do_HeadRoot out))] else []) @
      (if do_Published out then [unstamped s ObsAttestationPublished (do_PublishedAt out) SourceBeaconAPI (v # root_attr (do_PublishedRoot out))] else []) @
      (if do_Included out
       then [unstamped s ObsAttestationIncluded (do_IncludedAt out) SourceBeaconAPI
               ([v, (AttrInclusionDelay, FormatUint (unat (do_IncludedInSlot out - s))), (AttrHeadCorrect, FormatBool (do_HeadCorrect out)),
                 (AttrTargetCorrect, FormatBool (do_TargetCorrect out))] @ root_attr (do_IncludedRoot out))]
       else []) @
      (if do_PayloadAttested out
       then [unstamped s ObsPayloadAttested (do_PayloadAttestedAt out) SourceBeaconAPI
               [(AttrPayloadPresent, FormatBool (do_PayloadPresent out)), (AttrPTCVotes, FormatUint (do_PayloadPTCVotes out))]]
       else []) @
      (if \<not> IsZero (do_CollectionCompletedAt out) then [unstamped s ObsCollectionCompleted (do_CollectionCompletedAt out) SourceDerived [v]] else []) @
      (case do_HostPressure out of
         None \<Rightarrow> []
       | Some p \<Rightarrow> [unstamped s ObsHostSampled (do_HostSampledAt out) SourceHostMetrics
                     [(AttrMetric, do_HostPressureMetric out), (AttrValue, FormatFloat p)]]) @
      (case do_PeerCount out of
         None \<Rightarrow> []
       | Some n \<Rightarrow> [unstamped s ObsPeerCountSampled (do_PeerCountSampledAt out) (do_PeerCountSource out) [(AttrPeerCount, FormatFloat n)]]) @
      (case do_Network out of
         None \<Rightarrow> []
       | Some nb \<Rightarrow> [unstamped s ObsNetworkBaselineSampled (do_NetworkSampledAt out) (nb_Source nb)
                      [(AttrBlockArrivalP50MS, FormatFloat (to_ms (nb_BlockArrivalP50 nb))),
                       (AttrBlockArrivalP90MS, FormatFloat (to_ms (nb_BlockArrivalP90 nb))), (AttrSampleCount, FormatInt (nb_SampleCount nb))]]) @
      map (engine_call_draft s) (do_EngineCalls out))"

text \<open>The real reading nearest to the draft; the slot start, the baseline and a scraped arrival keep their instant.\<close>

definition stamp_draft :: "Reading list \<Rightarrow> Observation \<Rightarrow> Observation" where
  "stamp_draft readings d =
     (let reading = nearestClockReading (obs_At d) readings;
          stamped = d\<lparr>obs_ClockOffset := rd_Offset reading, obs_ClockMeasured := True,
                      obs_ClockSampleAt := in_UTC (Add (rd_At reading) (rd_Offset reading))\<rparr>
      in if obs_Kind d \<noteq> ObsSlotStart \<and> obs_Kind d \<noteq> ObsNetworkBaselineSampled \<and> (obs_Kind d \<noteq> ObsBlockSeen \<or> obs_Source d \<noteq> SourcePromScrape)
         then stamped\<lparr>obs_At := in_UTC (Add (obs_At d) (rd_Offset reading))\<rparr>
         else stamped)"

fun build_loop :: "nat \<Rightarrow> Observation list \<Rightarrow> run_error + Observation list" where
  "build_loop i [] = Inr []"
| "build_loop i (d # rest) =
     (case NewObservation d of
        Inl e \<Rightarrow> Inl (BadObservation i e)
      | Inr ob \<Rightarrow> (case build_loop (i + 1) rest of Inl e \<Rightarrow> Inl e | Inr out \<Rightarrow> Inr (ob # out)))"

definition buildObservations ::
  "64 word \<Rightarrow> slot \<Rightarrow> gotime \<Rightarrow> gotime \<Rightarrow> dutyOutcome \<Rightarrow> Reading list \<Rightarrow> run_error + Observation list" where
  "buildObservations validator s slotStart dutyAt out readings =
     (if readings = [] then Inl NoReadings
      else build_loop 0 (SliceStable (\<lambda>a b. Before (obs_At a) (obs_At b)) (map (stamp_draft readings) (observation_drafts validator s slotStart dutyAt out))))"

section \<open>The record\<close>

record Manifest =
  fm_CorpusFormatVersion :: int
  fm_GeneratorEngineVersion :: string
  fm_ID :: string
  fm_RecipeID :: string
  fm_Description :: string
  fm_Cause :: string
  fm_SubCause :: string
  fm_Confidence :: string
  fm_Slot :: "64 word"
  fm_ValidatorIndex :: "64 word"
  fm_FaultKind :: string
  fm_FaultTarget :: string
  fm_Duration :: duration
  fm_GeneratedAt :: gotime
  fm_ClockSamples :: "clock_sample list"
  fm_ObservationsSHA256 :: string
  fm_SamplesSHA256 :: string

definition clockProvenance :: "Reading list \<Rightarrow> clock_sample list" where
  "clockProvenance readings =
     map (\<lambda>r. \<lparr>cs_Server = rd_Server r, cs_SampleAt = in_UTC (Add (rd_At r) (rd_Offset r)), cs_Offset = rd_Offset r, cs_RoundTrip = rd_RoundTrip r\<rparr>)
       readings"

fun observations_check :: "string list \<Rightarrow> nat \<Rightarrow> Observation list \<Rightarrow> run_error option" where
  "observations_check known i [] = None"
| "observations_check known i (ob # rest) =
     (case Observation_Validate ob of
        Some e \<Rightarrow> Some (BadObservation i e)
      | None \<Rightarrow>
          if \<not> obs_ClockMeasured ob \<or> clockSampleKey (obs_ClockSampleAt ob) (obs_ClockOffset ob) \<notin> set known
          then Some (WriteRefused ''clock provenance'')
          else observations_check known (i + 1) rest)"

definition validateCorpusWrite :: "Manifest \<Rightarrow> Observation list \<Rightarrow> string \<Rightarrow> run_error option" where
  "validateCorpusWrite m obs readme = first_error
     [check (fm_CorpusFormatVersion m \<noteq> 2 \<or> fm_GeneratorEngineVersion m = [] \<or> fm_ID m = [] \<or> fm_Description m = []) (WriteRefused ''identity''),
      check (\<not> validScenarioID (fm_ID m) \<or> (fm_RecipeID m \<noteq> [] \<and> \<not> validScenarioID (fm_RecipeID m))) (WriteRefused ''ids''),
      check (fm_FaultKind m = [] \<or> fm_FaultTarget m = [] \<or> fm_Duration m \<le> 0 \<or> IsZero (fm_GeneratedAt m)) (WriteRefused ''fault''),
      check (fm_ClockSamples m = []) (WriteRefused ''clock''),
      first_error (map (\<lambda>cs. check (cs_Server cs = [] \<or> IsZero (cs_SampleAt cs) \<or> cs_RoundTrip cs \<le> 0) (WriteRefused ''clock sample''))
        (fm_ClockSamples m)),
      check (fm_Cause m = [] \<or> fm_Confidence m = []) (WriteRefused ''expectation''),
      check (obs = [] \<or> readme = []) (WriteRefused ''empty''),
      observations_check (map (\<lambda>cs. clockSampleKey (cs_SampleAt cs) (cs_Offset cs)) (fm_ClockSamples m)) 0 obs]"

text \<open>A directory by file name, and what the system calls of one atomic write do.\<close>

type_synonym directory = "string \<rightharpoonup> nat list"

record write_calls =
  wc_suffix :: string
  wc_create :: bool
  wc_written :: "nat list option"
  wc_sync :: bool
  wc_close :: bool
  wc_rename :: bool
  wc_remove :: bool

text \<open>\<open>wc_written\<close> is what a failing write left in the temporary file. \<open>os.CreateTemp\<close> does not reuse a name.\<close>

definition temp_name :: "write_calls \<Rightarrow> string \<Rightarrow> string" where
  "temp_name w path = CHR ''.'' # path @ ''.tmp-'' @ wc_suffix w"

definition atomicWriteFile :: "write_calls \<Rightarrow> string \<Rightarrow> nat list \<Rightarrow> directory \<Rightarrow> run_error option \<times> directory" where
  "atomicWriteFile w path content dir =
     (let tmp = temp_name w path;
          failed = (\<lambda>d. (Some (PublishFailed path), if wc_remove w then d(tmp := None) else d))
      in if \<not> wc_create w \<or> dir tmp \<noteq> None then (Some (PublishFailed path), dir)
         else case wc_written w of
           Some part \<Rightarrow> failed (dir(tmp \<mapsto> part))
         | None \<Rightarrow>
             if \<not> wc_sync w \<or> \<not> wc_close w \<or> \<not> wc_rename w then failed (dir(tmp \<mapsto> content))
             else (None, dir(tmp := None, path \<mapsto> content)))"

fun publish :: "(string \<Rightarrow> write_calls) \<Rightarrow> (string \<times> nat list) list \<Rightarrow> directory \<Rightarrow> run_error option \<times> directory" where
  "publish calls [] dir = (None, dir)"
| "publish calls ((path, content) # rest) dir =
     (case atomicWriteFile (calls path) path content dir of
        (Some e, dir') \<Rightarrow> (Some e, dir')
      | (None, dir') \<Rightarrow> publish calls rest dir')"

text \<open>The encodings, with what a reader makes of the bytes.\<close>

record codec =
  cd_observations :: "Observation list \<Rightarrow> nat list option"
  cd_samples :: "MetricSample list \<Rightarrow> nat list option"
  cd_manifest :: "Manifest \<Rightarrow> nat list option"
  cd_lines :: "nat list \<Rightarrow> corpus_line list"
  cd_samplesLoad :: "nat list \<Rightarrow> bool"
  cd_readManifest :: "nat list \<Rightarrow> manifest option"

definition text_bytes :: "string \<Rightarrow> nat list" where "text_bytes s = map of_char s"

definition samples_error :: "MetricSample list \<Rightarrow> run_error option" where
  "samples_error samples =
     first_error (map (\<lambda>i. map_option (SampleRefused i) (MetricSample_Validate (samples ! i))) [0..<length samples])"

definition WriteCorpusScenario ::
  "codec \<Rightarrow> (string \<Rightarrow> write_calls) \<Rightarrow> directory \<Rightarrow> Manifest \<Rightarrow> Observation list \<Rightarrow> MetricSample list \<Rightarrow> string \<Rightarrow> run_error option \<times> directory" where
  "WriteCorpusScenario c calls dir m obs samples readme =
     (case validateCorpusWrite m obs readme of
        Some e \<Rightarrow> (Some e, dir)
      | None \<Rightarrow>
          (case samples_error samples of
             Some e \<Rightarrow> (Some e, dir)
           | None \<Rightarrow>
               (case cd_observations c obs of
                  None \<Rightarrow> (Some (EncodeFailed ''observations''), dir)
                | Some obsBytes \<Rightarrow>
                    (case (if samples = [] then Some [] else cd_samples c samples) of
                       None \<Rightarrow> (Some (EncodeFailed ''samples''), dir)
                     | Some sampleBytes \<Rightarrow>
                         let m' = m\<lparr>fm_ObservationsSHA256 := hex_EncodeToString (Sum256 obsBytes),
                                    fm_SamplesSHA256 := (if samples = [] then fm_SamplesSHA256 m else hex_EncodeToString (Sum256 sampleBytes))\<rparr>
                         in case cd_manifest c m' of
                              None \<Rightarrow> (Some (EncodeFailed ''manifest''), dir)
                            | Some manifestBytes \<Rightarrow>
                                publish calls
                                  ([(''observations.jsonl'', obsBytes)] @
                                   (if sampleBytes \<noteq> [] then [(''samples.jsonl'', sampleBytes)] else []) @
                                   [(''README.md'', text_bytes readme), (''manifest.yaml'', manifestBytes)]) dir))))"

section \<open>The end of a run\<close>

record run_end =
  re_block :: blockStatus
  re_published :: "(gotime \<times> string) option"
  re_head :: headTimingResult
  re_baseline :: "headTimingResult option"
  re_engineBefore :: "EngineCounters option"
  re_pressure :: "(unit + f64 \<times> gotime) option"
  re_peers :: "(unit + f64 \<times> gotime \<times> SourceID) option"
  re_inclusion :: "beacon_error + inclusion option"
  re_payload :: "beacon_error + (bool \<times> nat) option"
  re_payloadAt :: gotime
  re_reading :: Reading
  re_completion :: Reading
  re_completedAt :: gotime
  re_generatedAt :: gotime

definition merge_pressure :: "Scenario \<Rightarrow> (unit + f64 \<times> gotime) option \<Rightarrow> dutyOutcome \<Rightarrow> run_error + dutyOutcome" where
  "merge_pressure s sampled out =
     (case sampled of
        None \<Rightarrow> Inr out
      | Some (Inl _) \<Rightarrow> Inl PressureFailed
      | Some (Inr (avg10, t)) \<Rightarrow>
          Inr (out\<lparr>do_HostPressure := Some avg10, do_HostSampledAt := t,
                   do_HostPressureMetric := (if sc_SamplePressure s = ''memory'' then ''host_mem_pressure_pct'' else ''host_iowait_pct'')\<rparr>))"

definition merge_peers :: "(unit + f64 \<times> gotime \<times> SourceID) option \<Rightarrow> dutyOutcome \<Rightarrow> run_error + dutyOutcome" where
  "merge_peers peers out =
     (case peers of
        None \<Rightarrow> Inr out
      | Some (Inl _) \<Rightarrow> Inl PeerCountFailed
      | Some (Inr (n, t, src)) \<Rightarrow> Inr (out\<lparr>do_PeerCount := Some n, do_PeerCountSampledAt := t, do_PeerCountSource := src\<rparr>))"

definition trusted_reading :: "Scenario \<Rightarrow> Reading \<Rightarrow> bool" where
  "trusted_reading s r \<longleftrightarrow> sc_Cause s = CauseID_str CauseHostClockDrift \<or> absoluteDuration (rd_Offset r) \<le> cfg_ClockOffsetMax DefaultConfig"

definition collect_outcome :: "Scenario \<Rightarrow> slot \<Rightarrow> gotime \<Rightarrow> run_end \<Rightarrow> run_error + dutyOutcome" where
  "collect_outcome s dutySlot slotStart e =
     (let out = merge_head (sc_SampleEngineCalls s) dutySlot slotStart (re_reading e) (re_engineBefore e) (re_head e)
                  (polled_outcome (re_block e) (re_published e));
          inclusionEnd = Slot_LastAttestationInclusionSlot dutySlot
      in case merge_baseline dutySlot (re_baseline e) out of
           Inl err \<Rightarrow> Inl err
         | Inr out1 \<Rightarrow>
             (case merge_pressure s (re_pressure e) out1 of
                Inl err \<Rightarrow> Inl err
              | Inr out2 \<Rightarrow>
                  (case merge_peers (re_peers e) out2 of
                     Inl err \<Rightarrow> Inl err
                   | Inr out3 \<Rightarrow>
                       if inclusionEnd - dutySlot > SlotsPerEpoch * 2 - 1 then Inl (InclusionWindow (inclusionEnd - dutySlot))
                       else (case re_inclusion e of
                               Inl err \<Rightarrow> Inl (InclusionFailed err)
                             | Inr found \<Rightarrow>
                                 (case re_payload e of
                                    Inl err \<Rightarrow> Inl (PayloadFailed err)
                                  | Inr votes \<Rightarrow>
                                      if \<not> trusted_reading s (re_completion e) then Inl (UntrustedClock (rd_Offset (re_completion e)))
                                      else Inr ((merge_payload votes (re_payloadAt e) (merge_included found out3))
                                                  \<lparr>do_CollectionCompletedAt := in_UTC (re_completedAt e)\<rparr>))))))"

definition run_manifest :: "Scenario \<Rightarrow> 64 word \<Rightarrow> slot \<Rightarrow> Reading list \<Rightarrow> gotime \<Rightarrow> Manifest" where
  "run_manifest s watched dutySlot readings now =
     \<lparr>fm_CorpusFormatVersion = 2, fm_GeneratorEngineVersion = EngineVersion, fm_ID = sc_ID s,
      fm_RecipeID = (if sc_RecipeID s = [] then sc_ID s else sc_RecipeID s), fm_Description = sc_Description s,
      fm_Cause = sc_Cause s, fm_SubCause = sc_SubCause s, fm_Confidence = sc_Confidence s, fm_Slot = dutySlot, fm_ValidatorIndex = watched,
      fm_FaultKind = fs_Kind (sc_Fault s), fm_FaultTarget = sc_Target s, fm_Duration = sc_Duration s, fm_GeneratedAt = in_UTC now,
      fm_ClockSamples = clockProvenance readings, fm_ObservationsSHA256 = [], fm_SamplesSHA256 = []\<rparr>"

text \<open>
  The end of \<open>RunScenario\<close>: the record is written before the verdict is compared with the label, so that the error of a verdict
  that is not the label, here \<open>Inr\<close> of its cause, leaves the record behind.
\<close>

definition finish_run ::
  "int \<Rightarrow> codec \<Rightarrow> (string \<Rightarrow> write_calls) \<Rightarrow> directory \<Rightarrow> Scenario \<Rightarrow> 64 word \<Rightarrow> slot \<Rightarrow> gotime \<Rightarrow> gotime \<Rightarrow> MetricSample option \<Rightarrow> string \<Rightarrow>
   run_end \<Rightarrow> (run_error + CauseID option) \<times> directory" where
  "finish_run oob c calls dir s watched dutySlot slotStart dutyAt engineSample readme e =
     (case collect_outcome s dutySlot slotStart e of
        Inl err \<Rightarrow> (Inl err, dir)
      | Inr out \<Rightarrow>
          (let readings = [re_reading e, re_completion e];
               samples = (case engineSample of None \<Rightarrow> [] | Some m \<Rightarrow> [m])
           in case buildObservations watched dutySlot slotStart dutyAt out readings of
                Inl err \<Rightarrow> (Inl err, dir)
              | Inr obs \<Rightarrow>
                  (case ReplayWithSamples oob obs samples MainnetPreEPBS of
                     Inl err \<Rightarrow> (Inl (ReplayFailed err), dir)
                   | Inr t \<Rightarrow>
                       (let got = Verdict_ReportedCause (Analyze t DefaultConfig);
                            want = (if sc_SubCause s \<noteq> [] then sc_SubCause s else sc_Cause s)
                        in case WriteCorpusScenario c calls dir (run_manifest s watched dutySlot readings (re_generatedAt e)) obs samples readme of
                             (Some err, dir') \<Rightarrow> (Inl err, dir')
                           | (None, dir') \<Rightarrow> (if CauseID_str got \<noteq> want then Inr (Some got) else Inr None, dir')))))"

section \<open>What is recorded\<close>

lemma nearest_loop_min:
  assumes "bestDistance = absoluteDuration (Sub t (rd_At best))"
  shows "nearest_loop t best bestDistance rs \<in> set (best # rs) \<and>
    (\<forall>r \<in> set (best # rs). absoluteDuration (Sub t (rd_At (nearest_loop t best bestDistance rs))) \<le> absoluteDuration (Sub t (rd_At r)))"
  using assms by (induction t best bestDistance rs rule: nearest_loop.induct) (fastforce simp: Let_def)+

lemma nearestClockReading_min:
  assumes "readings \<noteq> []"
  shows "nearestClockReading t readings \<in> set readings"
    "r \<in> set readings \<Longrightarrow> absoluteDuration (Sub t (rd_At (nearestClockReading t readings))) \<le> absoluteDuration (Sub t (rd_At r))"
  using nearest_loop_min [OF refl, of t "hd readings" "tl readings"] assms by (simp_all add: nearestClockReading_def)

lemma build_loop_Inr: "build_loop i ds = Inr out \<Longrightarrow> list_all2 (\<lambda>d ob. NewObservation d = Inr ob) ds out"
  by (induction ds arbitrary: i out) (auto split: sum.splits)

lemma NewObservation_fields:
  assumes "NewObservation d = Inr ob"
  shows "obs_At ob = obs_At d" "obs_Slot ob = obs_Slot d" "obs_Kind ob = obs_Kind d" "obs_ClockMeasured ob = obs_ClockMeasured d"
    "obs_ClockOffset ob = obs_ClockOffset d" "obs_ClockSampleAt ob = obs_ClockSampleAt d"
  using assms by (auto simp: NewObservation_def split: option.splits)

lemma stamp_draft_fields [simp]:
  "obs_Slot (stamp_draft readings d) = obs_Slot d" "obs_Kind (stamp_draft readings d) = obs_Kind d" "obs_ClockMeasured (stamp_draft readings d)"
  "obs_ClockOffset (stamp_draft readings d) = rd_Offset (nearestClockReading (obs_At d) readings)"
  "obs_ClockSampleAt (stamp_draft readings d) =
     in_UTC (Add (rd_At (nearestClockReading (obs_At d) readings)) (rd_Offset (nearestClockReading (obs_At d) readings)))"
  by (simp_all add: stamp_draft_def Let_def)

lemma drafts_slot: "d \<in> set (observation_drafts v s slotStart dutyAt out) \<Longrightarrow> obs_Slot d = s"
  by (auto simp: observation_drafts_def Let_def unstamped_def engine_call_draft_def split: if_splits option.splits)

interpretation at_order: stable_order "\<lambda>a b. Before (obs_At a) (obs_At b)" "\<lambda>ob. t_ns (obs_At ob)" UNIV
  by unfold_locales (simp add: Before_def)

lemma buildObservations_parts:
  assumes "buildObservations v s slotStart dutyAt out readings = Inr obs"
  obtains ds where "list_all2 (\<lambda>d ob. NewObservation d = Inr ob) ds obs" "sorted_wrt (\<lambda>a b. \<not> Before (obs_At b) (obs_At a)) ds"
    "mset ds = mset (map (stamp_draft readings) (observation_drafts v s slotStart dutyAt out))" "readings \<noteq> []"
proof -
  let ?raw = "map (stamp_draft readings) (observation_drafts v s slotStart dutyAt out)"
  let ?ds = "SliceStable (\<lambda>a b. Before (obs_At a) (obs_At b)) ?raw"
  have "?ds = sort_key (\<lambda>d. t_ns (obs_At d)) ?raw" by (rule at_order.SliceStable_sort_key) simp
  then have "sorted (map (\<lambda>d. t_ns (obs_At d)) ?ds)" by simp
  then have "sorted_wrt (\<lambda>a b. \<not> Before (obs_At b) (obs_At a)) ?ds" by (simp add: sorted_map Before_def not_less)
  moreover have "build_loop 0 ?ds = Inr obs" "readings \<noteq> []" using assms by (auto simp: buildObservations_def split: if_splits)
  moreover have "mset ?ds = mset ?raw" by (rule SliceStable_same_elements)
  ultimately show thesis by (intro that [of ?ds] build_loop_Inr)
qed

lemma NewObservation_again: "NewObservation d = Inr ob \<Longrightarrow> NewObservation ob = Inr ob"
  using NewObservation_valid [of d ob] by (auto simp: NewObservation_def comp_def split: option.splits)

lemma built_observations:
  assumes "buildObservations v s slotStart dutyAt out readings = Inr obs"
  shows "sorted_wrt (\<lambda>a b. \<not> Before (obs_At b) (obs_At a)) obs" "\<forall>ob \<in> set obs. NewObservation ob = Inr ob \<and> obs_Slot ob = s"
    "length obs = length (observation_drafts v s slotStart dutyAt out)"
    "ob \<in> set obs \<Longrightarrow> \<exists>d \<in> set (observation_drafts v s slotStart dutyAt out). NewObservation (stamp_draft readings d) = Inr ob"
    "readings \<noteq> []"
proof -
  let ?raw = "observation_drafts v s slotStart dutyAt out"
  obtain ds where ds: "list_all2 (\<lambda>d ob. NewObservation d = Inr ob) ds obs" "sorted_wrt (\<lambda>a b. \<not> Before (obs_At b) (obs_At a)) ds"
    "mset ds = mset (map (stamp_draft readings) ?raw)" "readings \<noteq> []"
    using buildObservations_parts [OF assms] by metis
  have len: "length ds = length obs" using ds(1) by (rule list_all2_lengthD)
  have "map obs_At obs = map obs_At ds" using ds(1) by (induction rule: list_all2_induct) (simp_all add: NewObservation_fields)
  then have "sorted_wrt (\<lambda>a b. \<not> Before b a) (map obs_At obs)" using ds(2) by (simp add: sorted_wrt_map)
  then show "sorted_wrt (\<lambda>a b. \<not> Before (obs_At b) (obs_At a)) obs" by (simp add: sorted_wrt_map)
  show "length obs = length ?raw" using len ds(3) by (metis length_map size_mset)
  show from_draft: "\<exists>d \<in> set ?raw. NewObservation (stamp_draft readings d) = Inr ob" if mem: "ob \<in> set obs" for ob
  proof -
    obtain i where i: "i < length obs" "ob = obs ! i" using mem by (auto simp: in_set_conv_nth)
    then have "ds ! i \<in> set ds" "NewObservation (ds ! i) = Inr ob" using len list_all2_nthD2 [OF ds(1) i(1)] by simp_all
    moreover have "set ds = stamp_draft readings ` set ?raw" using mset_eq_setD [OF ds(3)] by simp
    ultimately show ?thesis by auto
  qed
  show "\<forall>ob \<in> set obs. NewObservation ob = Inr ob \<and> obs_Slot ob = s"
    using from_draft NewObservation_again NewObservation_fields(2) drafts_slot by fastforce
  show "readings \<noteq> []" by (rule ds(4))
qed


section \<open>What is written\<close>

definition hidden :: "string \<Rightarrow> bool" where "hidden f \<longleftrightarrow> f \<noteq> [] \<and> hd f = CHR ''.''"

lemma atomicWriteFile_visible:
  assumes "atomicWriteFile w path content dir = (e, dir')" "\<not> hidden f"
  shows "dir' f = (if f = path \<and> e = None then Some content else dir f)"
proof -
  have "f \<noteq> temp_name w path" using assms(2) by (auto simp: hidden_def temp_name_def)
  then show ?thesis using assms(1) by (auto simp: atomicWriteFile_def Let_def split: if_splits option.splits)
qed

lemma publish_prefix:
  assumes "publish calls fs dir = (e, dir')" "distinct (map fst fs)"
  shows "\<exists>k \<le> length fs. (e = None \<longleftrightarrow> k = length fs) \<and>
    (\<forall>f. \<not> hidden f \<longrightarrow> dir' f = (case map_of (take k fs) f of Some content \<Rightarrow> Some content | None \<Rightarrow> dir f))"
  using assms
proof (induction fs arbitrary: dir)
  case (Cons entry fs)
  obtain path content where entry: "entry = (path, content)" by (cases entry)
  obtain e1 d1 where w: "atomicWriteFile (calls path) path content dir = (e1, d1)" by fastforce
  note visible = atomicWriteFile_visible [OF w]
  show ?case
  proof (cases e1)
    case None
    then obtain k where k: "k \<le> length fs" "e = None \<longleftrightarrow> k = length fs"
      "\<forall>f. \<not> hidden f \<longrightarrow> dir' f = (case map_of (take k fs) f of Some content \<Rightarrow> Some content | None \<Rightarrow> d1 f)"
      using Cons.IH [of d1] Cons.prems w entry by auto
    have "map_of (take k fs) path = None" using Cons.prems(2) entry by (auto simp: map_of_eq_None_iff dest: in_set_takeD)
    then have "\<forall>f. \<not> hidden f \<longrightarrow> dir' f = (case map_of (take (Suc k) (entry # fs)) f of Some content \<Rightarrow> Some content | None \<Rightarrow> dir f)"
      using k(3) visible None entry by (auto split: option.splits)
    then show ?thesis using k(1,2) by (intro exI [of _ "Suc k"]) simp
  next
    case (Some err)
    then show ?thesis using Cons.prems(1) w entry visible by (intro exI [of _ 0]) auto
  qed
qed simp

text \<open>The files of a record in the order they are published.\<close>

definition record_files :: "nat list \<Rightarrow> nat list \<Rightarrow> string \<Rightarrow> nat list \<Rightarrow> (string \<times> nat list) list" where
  "record_files obsBytes sampleBytes readme manifestBytes =
     [(''observations.jsonl'', obsBytes)] @ (if sampleBytes \<noteq> [] then [(''samples.jsonl'', sampleBytes)] else []) @
     [(''README.md'', text_bytes readme), (''manifest.yaml'', manifestBytes)]"

lemma record_files_take:
  assumes "k < length (record_files ob sb readme mb)"
  shows "map_of (take k (record_files ob sb readme mb)) ''manifest.yaml'' = None"
  using assms by (cases k rule: nat.exhaust; cases "k - 1"; cases "k - 2") (auto simp: record_files_def take_Cons' split: if_splits)

lemma WriteCorpusScenario_cases:
  assumes "WriteCorpusScenario c calls dir m obs samples readme = (e, dir')"
  shows "e \<noteq> None \<and> dir' = dir \<or>
    (\<exists>ob sb m' mb. validateCorpusWrite m obs readme = None \<and> samples_error samples = None \<and> cd_observations c obs = Some ob \<and>
       (if samples = [] then sb = [] else cd_samples c samples = Some sb) \<and>
       m' = m\<lparr>fm_ObservationsSHA256 := hex_EncodeToString (Sum256 ob),
              fm_SamplesSHA256 := (if samples = [] then fm_SamplesSHA256 m else hex_EncodeToString (Sum256 sb))\<rparr> \<and>
       cd_manifest c m' = Some mb \<and> publish calls (record_files ob sb readme mb) dir = (e, dir'))"
  using assms unfolding WriteCorpusScenario_def record_files_def Let_def
  by (auto split: option.splits if_splits)

text \<open>
  A record is published whole or not at all. Whatever system call fails, each of the four files is afterwards the
  old one or the complete new one, and the manifest is replaced only when everything before it has been written; a success
  leaves all of them new, with the manifest naming the hash of the observations beside it.
\<close>

lemma manifest_published_last:
  assumes "WriteCorpusScenario c calls dir m obs samples readme = (e, dir')"
  shows "(e \<noteq> None \<longrightarrow> dir' ''manifest.yaml'' = dir ''manifest.yaml'') \<and>
    (\<forall>f. \<not> hidden f \<longrightarrow> dir' f = dir f \<or>
       (\<exists>ob sb mb content. cd_observations c obs = Some ob \<and> (samples \<noteq> [] \<longrightarrow> cd_samples c samples = Some sb) \<and>
          map_of (record_files ob sb readme mb) f = Some content \<and> dir' f = Some content)) \<and>
    (e = None \<longrightarrow> (\<exists>ob m' mb. dir' ''observations.jsonl'' = Some ob \<and> dir' ''README.md'' = Some (text_bytes readme) \<and>
       dir' ''manifest.yaml'' = Some mb \<and> cd_manifest c m' = Some mb \<and> fm_ObservationsSHA256 m' = hex_EncodeToString (Sum256 ob)))"
  using WriteCorpusScenario_cases [OF assms]
proof (elim disjE exE conjE)
  fix ob sb m' mb
  assume enc: "cd_observations c obs = Some ob" "if samples = [] then sb = [] else cd_samples c samples = Some sb" "cd_manifest c m' = Some mb"
    and m': "m' = m\<lparr>fm_ObservationsSHA256 := hex_EncodeToString (Sum256 ob),
              fm_SamplesSHA256 := (if samples = [] then fm_SamplesSHA256 m else hex_EncodeToString (Sum256 sb))\<rparr>"
    and pub: "publish calls (record_files ob sb readme mb) dir = (e, dir')"
  let ?fs = "record_files ob sb readme mb"
  have dist: "distinct (map fst ?fs)" by (simp add: record_files_def)
  obtain k where k: "k \<le> length ?fs" "e = None \<longleftrightarrow> k = length ?fs"
    "\<And>f. \<not> hidden f \<Longrightarrow> dir' f = (case map_of (take k ?fs) f of Some content \<Rightarrow> Some content | None \<Rightarrow> dir f)"
    using publish_prefix [OF pub dist] by blast
  have visible: "\<not> hidden ''observations.jsonl''" "\<not> hidden ''README.md''" "\<not> hidden ''manifest.yaml''" by (simp_all add: hidden_def)
  have sub: "map_of ?fs f = Some content" if "map_of (take k ?fs) f = Some content" for f content
    by (rule map_of_is_SomeI [OF dist in_set_takeD [OF map_of_SomeD [OF that]]])
  have "dir' ''manifest.yaml'' = dir ''manifest.yaml''" if "e \<noteq> None"
    using k(1,2) k(3) [OF visible(3)] record_files_take [of k ob sb readme mb] that by simp
  moreover have "dir' f = dir f \<or> (\<exists>content. map_of ?fs f = Some content \<and> dir' f = Some content)" if "\<not> hidden f" for f
    using k(3) [OF that] sub [of f] by (cases "map_of (take k ?fs) f") auto
  moreover have "dir' ''observations.jsonl'' = Some ob \<and> dir' ''README.md'' = Some (text_bytes readme) \<and> dir' ''manifest.yaml'' = Some mb"
    if "e = None" using k(2) that k(3) [OF visible(1)] k(3) [OF visible(2)] k(3) [OF visible(3)] by (simp add: record_files_def)
  moreover have "fm_ObservationsSHA256 m' = hex_EncodeToString (Sum256 ob)" using m' by simp
  moreover have "samples \<noteq> [] \<longrightarrow> cd_samples c samples = Some sb" using enc(2) by simp
  ultimately show ?thesis using enc(1,3) by blast
qed auto

definition as_read :: "Manifest \<Rightarrow> manifest" where
  "as_read m =
     \<lparr>m_CorpusFormatVersion = fm_CorpusFormatVersion m, m_GeneratorEngineVersion = fm_GeneratorEngineVersion m, m_ID = fm_ID m,
      m_RecipeID = fm_RecipeID m, m_Origin = [], m_Description = fm_Description m, m_Cause = fm_Cause m, m_SubCause = fm_SubCause m,
      m_Confidence = fm_Confidence m, m_Schedule = None, m_Slot = fm_Slot m, m_ValidatorIndex = fm_ValidatorIndex m,
      m_FaultKind = fm_FaultKind m, m_FaultTarget = fm_FaultTarget m, m_Duration = fm_Duration m, m_GeneratedAt = fm_GeneratedAt m,
      m_ClockSamples = fm_ClockSamples m, m_ObservationsSHA256 = fm_ObservationsSHA256 m, m_SamplesSHA256 = fm_SamplesSHA256 m\<rparr>"

text \<open>What the readers make of the bytes the writers produce.\<close>

definition codec_round_trips :: "codec \<Rightarrow> bool" where
  "codec_round_trips c \<longleftrightarrow>
     (\<forall>obs bs. cd_observations c obs = Some bs \<longrightarrow> cd_lines c bs = map Decoded obs) \<and>
     (\<forall>samples bs. samples \<noteq> [] \<longrightarrow> cd_samples c samples = Some bs \<longrightarrow> bs \<noteq> [] \<and> cd_samplesLoad c bs) \<and>
     (\<forall>m bs. cd_manifest c m = Some bs \<longrightarrow> cd_readManifest c bs = Some (as_read m))"

text \<open>What \<open>corpusctl\<close> finds in the directory.\<close>

definition read_directory :: "codec \<Rightarrow> directory \<Rightarrow> scenario_dir" where
  "read_directory c dir =
     \<lparr>sd_manifest = (case dir ''manifest.yaml'' of None \<Rightarrow> None | Some bs \<Rightarrow> cd_readManifest c bs),
      sd_lines = map_option (cd_lines c) (dir ''observations.jsonl''), sd_scanErr = False, sd_observationBytes = dir ''observations.jsonl'',
      sd_samplesLoad = (case dir ''samples.jsonl'' of None \<Rightarrow> True | Some bs \<Rightarrow> cd_samplesLoad c bs),
      sd_sampleBytes = (case dir ''samples.jsonl'' of None \<Rightarrow> NotExist | Some bs \<Rightarrow> Bytes bs), sd_readme = (dir ''README.md'' \<noteq> None)\<rparr>"

lemma observations_check_None:
  "observations_check known i obs = None \<longleftrightarrow>
     (\<forall>ob \<in> set obs. Observation_Validate ob = None \<and> obs_ClockMeasured ob \<and> clockSampleKey (obs_ClockSampleAt ob) (obs_ClockOffset ob) \<in> set known)"
  by (induction obs arbitrary: i) (auto split: option.splits)

lemma load_loop_written:
  "\<forall>ob \<in> set obs. NewObservation ob = Inr ob \<and> obs_Slot ob = s \<Longrightarrow> load_loop s n (map Decoded obs) = Inr obs"
  by (induction obs arbitrary: n) auto

lemma validIDs_agree: "validScenarioID = validCorpusID"
  by (simp add: fun_eq_iff validScenarioID_def validCorpusID_def)

lemma written_manifest_valid:
  assumes "validateCorpusWrite m obs readme = None" "expect_check (as_read m) = None"
    and "m' = m\<lparr>fm_ObservationsSHA256 := hex_EncodeToString (Sum256 ob), fm_SamplesSHA256 := x\<rparr>"
  shows "validateManifest (as_read m') (fm_ID m) = None"
proof -
  have "expect_check (as_read m') = None" using assms(2,3) by (simp add: as_read_def expect_check_def)
  moreover have "first_error (map (\<lambda>cs. check (cs_Server cs = [] \<or> IsZero (cs_SampleAt cs) \<or> cs_RoundTrip cs \<le> 0) (BadManifest ''clock_samples''))
        (fm_ClockSamples m)) = None" using assms(1) by (auto simp: validateCorpusWrite_def first_error_None)
  ultimately show ?thesis using assms(1,3)
    by (simp add: validateManifest_def validateCorpusWrite_def validIDs_agree as_read_def origin_check_def hex_DecodeString_hex Sum256_bytes Sum256_length)
qed

text \<open>
  What the injector records, the corpus check accepts. A record that is built from measurements and written without
  an error, with a label of the taxonomy and into a directory that held no samples of an earlier record or gets new ones,
  passes \<open>corpusctl\<close> under its own name, which reads back exactly the observations that were written.
\<close>

lemma recorded_scenario_accepted:
  assumes "buildObservations v s slotStart dutyAt out readings = Inr obs" "fm_Slot m = s" "fm_SamplesSHA256 m = []"
    and "WriteCorpusScenario c calls dir m obs samples readme = (None, dir')" "codec_round_trips c"
    and "expect_check (as_read m) = None" "samples \<noteq> [] \<or> dir ''samples.jsonl'' = None"
  shows "validateScenario (read_directory c dir') (fm_ID m) = Inr obs"
    "\<exists>x y. sd_manifest (read_directory c dir') = Some (as_read (m\<lparr>fm_ObservationsSHA256 := x, fm_SamplesSHA256 := y\<rparr>))"
proof -
  obtain ob sb m' mb where w: "validateCorpusWrite m obs readme = None" "cd_observations c obs = Some ob"
      "if samples = [] then sb = [] else cd_samples c samples = Some sb" "cd_manifest c m' = Some mb"
      "publish calls (record_files ob sb readme mb) dir = (None, dir')"
    and m': "m' = m\<lparr>fm_ObservationsSHA256 := hex_EncodeToString (Sum256 ob),
              fm_SamplesSHA256 := (if samples = [] then fm_SamplesSHA256 m else hex_EncodeToString (Sum256 sb))\<rparr>"
    using WriteCorpusScenario_cases [OF assms(4)] by blast
  have dist: "distinct (map fst (record_files ob sb readme mb))" by (simp add: record_files_def)
  have sb: "samples \<noteq> [] \<longrightarrow> sb \<noteq> [] \<and> cd_samplesLoad c sb" "samples = [] \<longrightarrow> sb = []" using w(3) assms(5) by (auto simp: codec_round_trips_def)
  have files: "dir' ''observations.jsonl'' = Some ob" "dir' ''manifest.yaml'' = Some mb" "dir' ''README.md'' = Some (text_bytes readme)"
    "dir' ''samples.jsonl'' = (if samples = [] then None else Some sb)"
    using publish_prefix [OF w(5) dist] sb assms(7) by (auto simp: hidden_def record_files_def)
  have read: "cd_lines c ob = map Decoded obs" "cd_readManifest c mb = Some (as_read m')" using w(2,4) assms(5) by (auto simp: codec_round_trips_def)
  have built: "sorted_wrt (\<lambda>a b. \<not> Before (obs_At b) (obs_At a)) obs" "\<forall>ob \<in> set obs. NewObservation ob = Inr ob \<and> obs_Slot ob = s"
    using built_observations [OF assms(1)] by blast+
  have "sorted_check 1 obs = None" using built(1)
    by (subst sorted_check_None, subst adjacent_sorted_wrt) (auto simp: Before_def transp_def)
  then have load: "loadObservations (map Decoded obs) False (m_Slot (as_read m')) = Inr obs"
    using built(2) assms(2) m' by (simp add: loadObservations_def load_loop_written as_read_def)
  have prov: "validateObservationProvenance (as_read m') obs = None"
    using w(1) m' by (auto simp: validateObservationProvenance_def provenance_loop_None validateCorpusWrite_def observations_check_None as_read_def)
  have samples: "samples_check (as_read m') (sd_sampleBytes (read_directory c dir')) = None"
  proof (cases "samples = []")
    case True
    then show ?thesis using files(4) assms(3) m' by (simp add: samples_check_def read_directory_def as_read_def)
  next
    case False
    have "length (hex_EncodeToString (Sum256 sb)) = 64" by (simp add: length_hex Sum256_length)
    then have "hex_EncodeToString (Sum256 sb) \<noteq> []" by (metis list.size(3) zero_neq_numeral)
    then show ?thesis using False files(4) m' by (simp add: samples_check_def read_directory_def as_read_def)
  qed
  have "obs \<noteq> []" "m_ObservationsSHA256 (as_read m') = hex_EncodeToString (Sum256 ob)" "sd_samplesLoad (read_directory c dir')"
    using w(1) m' files(4) sb by (auto simp: validateCorpusWrite_def as_read_def read_directory_def)
  then show "validateScenario (read_directory c dir') (fm_ID m) = Inr obs"
    using files(1-3) read load prov samples written_manifest_valid [OF w(1) assms(6) m']
    by (simp add: validateScenario_def) (simp add: read_directory_def)
  show "\<exists>x y. sd_manifest (read_directory c dir') = Some (as_read (m\<lparr>fm_ObservationsSHA256 := x, fm_SamplesSHA256 := y\<rparr>))"
  proof -
    have "sd_manifest (read_directory c dir') = Some (as_read m')" using files(2) read(2) by (simp add: read_directory_def)
    then show ?thesis unfolding m' by blast
  qed
qed


section \<open>A skipped slot, recorded\<close>

definition skip_reading :: "duration \<Rightarrow> Reading" where
  "skip_reading d = \<lparr>rd_Server = ''ntp'', rd_At = Add ex_start d, rd_Offset = 0, rd_RoundTrip = 1\<rparr>"

definition skip_end :: run_end where
  "skip_end =
     \<lparr>re_block = \<lparr>bs_Root = [], bs_ProposerIndex = 0, bs_At = Add ex_start 36000000000, bs_Found = False, bs_Skipped = True\<rparr>,
      re_published = None, re_head = \<lparr>ht_Head = Inl (NotObserved None), ht_Timing = Inl (RemainedAt 99 None), ht_Engine = None\<rparr>,
      re_baseline = None, re_engineBefore = None, re_pressure = None, re_peers = None, re_inclusion = Inr None, re_payload = Inr None,
      re_payloadAt = ex_start, re_reading = skip_reading 0, re_completion = skip_reading 720000000000,
      re_completedAt = Add ex_start 720000000000, re_generatedAt = Add ex_start 720000000000\<rparr>"

definition skip_obs :: "Observation list" where
  "skip_obs =
     (let stamp = (\<lambda>ob d. ob\<lparr>obs_ClockMeasured := True, obs_ClockSampleAt := Add ex_start d\<rparr>); v = (AttrValidatorIndex, ''7'')
      in [stamp (unstamped 100 ObsDutyAssigned (Add ex_start (- 60000000000)) SourceBeaconAPI [v]) 0,
          stamp (unstamped 100 ObsSlotStart ex_start SourceDerived []) 0,
          stamp (unstamped 100 ObsBlockSkipped (Add ex_start 36000000000) SourceBeaconAPI []) 0,
          stamp (unstamped 100 ObsCollectionCompleted (Add ex_start 720000000000) SourceDerived [v]) 720000000000])"

definition skip_manifest :: Manifest where
  "skip_manifest = (run_manifest pause_recipe 7 100 [skip_reading 0, skip_reading 720000000000] (Add ex_start 720000000000))
     \<lparr>fm_ObservationsSHA256 := hex_EncodeToString (Sum256 [1])\<rparr>"

definition skip_codec :: codec where
  "skip_codec =
     \<lparr>cd_observations = (\<lambda>obs. if obs = skip_obs then Some [1] else None), cd_samples = (\<lambda>_. None),
      cd_manifest = (\<lambda>m. if m = skip_manifest then Some [2] else None), cd_lines = (\<lambda>_. map Decoded skip_obs),
      cd_samplesLoad = (\<lambda>_. True), cd_readManifest = (\<lambda>_. Some (as_read skip_manifest))\<rparr>"

definition all_calls :: "string \<Rightarrow> write_calls" where
  "all_calls _ = \<lparr>wc_suffix = ''1'', wc_create = True, wc_written = None, wc_sync = True, wc_close = True, wc_rename = True, wc_remove = True\<rparr>"

lemma skip_valid: "list_all (\<lambda>ob. Observation_Validate ob = None \<and> map lower_root (obs_Attrs ob) = obs_Attrs ob) skip_obs"
  by (simp add: skip_obs_def Let_def unstamped_def ex_validate ex_start_def Add_def is_uint_def ParseUint_def is_digit_def digits_val_def digit_val_def
      lower_root_def time_zero_def)

lemma skip_outcome:
  "\<exists>out. collect_outcome pause_recipe 100 ex_start skip_end = Inr out \<and>
     buildObservations 7 100 ex_start (Add ex_start (- 60000000000)) out [skip_reading 0, skip_reading 720000000000] = Inr skip_obs"
proof -
  have end': "Slot_LastAttestationInclusionSlot 100 = 159"
    by (simp add: ex_window_end)
  let ?out = "(polled_outcome (re_block skip_end) None)\<lparr>do_CollectionCompletedAt := Add ex_start 720000000000\<rparr>"
  have out: "collect_outcome pause_recipe 100 ex_start skip_end = Inr ?out"
    by (simp add: collect_outcome_def end' skip_end_def merge_head_def merge_baseline_def merge_pressure_def merge_peers_def
        trusted_reading_def ex_thresholds skip_reading_def absoluteDuration_def merge_payload_def merge_included_def SlotsPerEpoch_def in_UTC_def ex_start_def Add_def)
  have near: "nearestClockReading (Add ex_start d) [skip_reading 0, skip_reading 720000000000] = skip_reading (if d < 360000000001 then 0 else 720000000000)"
    if "- 1000000000000 < d" "d < 1000000000000" for d
    using that by (auto simp: nearestClockReading_def skip_reading_def absoluteDuration_def Sub_def Add_def clamp64_def int64_defs)
  have "map (stamp_draft [skip_reading 0, skip_reading 720000000000]) (observation_drafts 7 100 ex_start (Add ex_start (- 60000000000)) ?out) =
      [skip_obs ! 1, skip_obs ! 0, skip_obs ! 2, skip_obs ! 3]"
    using near [of 0] near [of "- 60000000000"] near [of 36000000000] near [of 720000000000]
    by (simp add: observation_drafts_def skip_end_def polled_outcome_def unstamped_def stamp_draft_def skip_obs_def FormatUint_eval digit_char_eval
        Let_def IsZero_def)
      (simp add: ex_start_def Add_def in_UTC_def skip_reading_def)
  moreover have "SliceStable (\<lambda>a b. Before (obs_At a) (obs_At b)) [skip_obs ! 1, skip_obs ! 0, skip_obs ! 2, skip_obs ! 3] = skip_obs"
    by (simp add: SliceStable_def skip_obs_def Let_def unstamped_def Before_def Add_def ex_start_def)
  moreover have "build_loop 0 skip_obs = Inr skip_obs"
  proof -
    have "list_all (\<lambda>ob. NewObservation ob = Inr ob) skip_obs" using skip_valid by (auto simp: list_all_iff NewObservation_def)
    then have "build_loop i obs = Inr obs" if "set obs \<subseteq> set skip_obs" for i obs
      using that by (induction obs arbitrary: i) (auto simp: list_all_iff)
    then show ?thesis by simp
  qed
  ultimately show ?thesis using out by (simp add: buildObservations_def)
qed

lemma skip_replays: "\<exists>t. ReplayWithSamples 0 skip_obs [] MainnetPreEPBS = Inr t"
proof -
  let ?duty = "\<lparr>duty_Kind = DutyAttester, duty_Slot = 100, duty_ValidatorIndex = 7, duty_CommitteeIndex = 0\<rparr>"
  let ?add = "\<lambda>a i. AddObservation a (skip_obs ! i)"
  let ?a = "?add (?add (?add (SetDuty (?add (NewAssembler MainnetPreEPBS) 0) ?duty) 1) 2) 3"
  have seven: "ParseUint ''7'' = Some 7" by (simp add: ParseUint_def is_digit_def digits_val_def digit_val_def)
  have "replay_loop 0 100 (NewAssembler MainnetPreEPBS, None) skip_obs = Inr (?a, Some (skip_obs ! 1))"
    by (simp add: skip_obs_def Let_def unstamped_def Observation_Attr_def seven)
  moreover have "Timeline_Validate (build_draft ?a 100 ex_start) = None"
    by (simp add: build_draft_def observations_of_def window_reorgs_def sortObservations_def SliceStable_def sortSamples_def
        NewAssembler_def AddObservation_def SetDuty_def skip_obs_def unstamped_def Let_def obs_less_def time_defs)
      (simp add: ex_validate ex_start_def is_uint_def Add_def seven ex_window_end)
  then have "Build ?a 100 ex_start = Inr (build_draft ?a 100 ex_start)" by (simp add: Build_def NewTimeline_def)
  moreover have "List.find (\<lambda>ob. obs_Kind ob = ObsSlotStart) skip_obs = Some (skip_obs ! 1)" "obs_Slot (skip_obs ! 1) = 100"
    "obs_At (skip_obs ! 1) = ex_start" "first_foreign 100 0 skip_obs = None" "skip_obs \<noteq> []"
    by (simp_all add: skip_obs_def Let_def unstamped_def foreign_def)
  ultimately show ?thesis by (simp add: ReplayWithSamples_def)
qed

lemma skip_checked:
  "validateCorpusWrite (run_manifest pause_recipe 7 100 [skip_reading 0, skip_reading 720000000000] (Add ex_start 720000000000)) skip_obs ''readme'' = None"
proof -
  let ?m = "run_manifest pause_recipe 7 100 [skip_reading 0, skip_reading 720000000000] (Add ex_start 720000000000)"
  have "observations_check (map (\<lambda>cs. clockSampleKey (cs_SampleAt cs) (cs_Offset cs)) (fm_ClockSamples ?m)) 0 skip_obs = None"
    unfolding observations_check_None using skip_valid
    by (auto simp: list_all_iff run_manifest_def clockProvenance_def skip_reading_def skip_obs_def Let_def unstamped_def in_UTC_def Add_def ex_start_def)
  then show ?thesis
    by (simp add: validateCorpusWrite_def)
      (simp add: run_manifest_def pause_recipe_def EngineVersion_def validScenarioID_def clockProvenance_def skip_reading_def IsZero_def ex_start_def
        in_UTC_def Add_def skip_obs_def Let_def)
qed

lemma skip_manifest_written:
  "(run_manifest pause_recipe 7 100 [skip_reading 0, skip_reading 720000000000] (Add ex_start 720000000000))
     \<lparr>fm_ObservationsSHA256 := hex_EncodeToString (Sum256 [1]), fm_SamplesSHA256 := []\<rparr> = skip_manifest"
  "fm_SamplesSHA256 (run_manifest pause_recipe 7 100 [skip_reading 0, skip_reading 720000000000] (Add ex_start 720000000000)) = []"
  by (simp_all add: skip_manifest_def run_manifest_def)

lemma skip_written:
  "WriteCorpusScenario skip_codec all_calls Map.empty
     (run_manifest pause_recipe 7 100 [skip_reading 0, skip_reading 720000000000] (Add ex_start 720000000000)) skip_obs [] ''readme'' =
   (None, [''observations.jsonl'' \<mapsto> [1], ''README.md'' \<mapsto> text_bytes ''readme'', ''manifest.yaml'' \<mapsto> [2]])"
  using skip_checked skip_manifest_written
  by (simp add: WriteCorpusScenario_def skip_codec_def samples_error_def atomicWriteFile_def temp_name_def all_calls_def Let_def fun_eq_iff)



section \<open>Two gaps between the tools\<close>

text \<open>
  A second run into the same directory that records no samples leaves the \<open>samples.jsonl\<close> of the first one there, and the new
  manifest does not name it: \<open>corpusctl\<close> then refuses the record that was just written.
\<close>

lemma stale_samples_refused:
  assumes "WriteCorpusScenario c calls dir m obs [] readme = (None, dir')" "codec_round_trips c" "fm_SamplesSHA256 m = []"
    and "dir ''samples.jsonl'' = Some old"
  shows "\<exists>e. validateScenario (read_directory c dir') ident = Inl e"
proof -
  obtain ob m' mb where m': "m' = m\<lparr>fm_ObservationsSHA256 := hex_EncodeToString (Sum256 ob), fm_SamplesSHA256 := []\<rparr>"
    and w: "cd_manifest c m' = Some mb" "publish calls (record_files ob [] readme mb) dir = (None, dir')"
    using WriteCorpusScenario_cases [OF assms(1)] assms(3) by auto
  have dist: "distinct (map fst (record_files ob [] readme mb))" by (simp add: record_files_def)
  have "dir' ''samples.jsonl'' = Some old" "dir' ''manifest.yaml'' = Some mb"
    using publish_prefix [OF w(2) dist] assms(4) by (auto simp: hidden_def record_files_def)
  moreover have "cd_readManifest c mb = Some (as_read m')" using w(1) assms(2) by (auto simp: codec_round_trips_def)
  moreover have "m_SamplesSHA256 (as_read m') = []" using m' by (simp add: as_read_def)
  ultimately show ?thesis
    by (auto simp: validateScenario_def read_directory_def samples_check_def split: option.splits sum.splits)
qed

text \<open>A recipe without a description loads and is run to the end, and only then is the record refused.\<close>

lemma nameless_recipe_refused:
  assumes "Scenario_Validate s = None" "sc_Description s = []"
  shows "LoadScenario (Some s) = Inr (s\<lparr>sc_RecipeID := sc_ID s\<rparr>)"
    "fst (WriteCorpusScenario c calls dir (run_manifest s watched dutySlot readings now) obs samples readme) = Some (WriteRefused ''identity'')"
proof -
  have "validateCorpusWrite (run_manifest s watched dutySlot readings now) obs readme = Some (WriteRefused ''identity'')"
    using assms(2) by (simp add: validateCorpusWrite_def run_manifest_def check_def)
  then show "fst (WriteCorpusScenario c calls dir (run_manifest s watched dutySlot readings now) obs samples readme) = Some (WriteRefused ''identity'')"
    by (simp add: WriteCorpusScenario_def)
qed (use assms in \<open>simp add: LoadScenario_def\<close>)

end
