(* ===== verification/StageBudget.thy ===== *)
theory StageBudget
  imports Examples
begin

text \<open>
  The properties of the latency budget (\<open>rules/stages.go\<close>, \<open>rules/helpers.go\<close>): the stages tile the
  time from slot start to publication, the dominant stage really is at least half of it, and the
  Engine API total never leaves the range of a duration.
\<close>

text \<open>
  The three stages tile the budget without gap or overlap. When a duty was timed all the
  way to publication, propagation, validation and signing add up to the time from the start of the
  slot to the first publication.
\<close>

lemma stages_telescope:
  assumes "st_HasSigning (ComputeStages t)" "Timeline_First t ObsAttestationPublished = Some p"
    and "in_int64 (t_ns (obs_At p) - t_ns (tl_SlotStart t))"
  shows "st_Propagation (ComputeStages t) + st_Validation (ComputeStages t) + st_Signing (ComputeStages t) =
    Sub (obs_At p) (tl_SlotStart t)"
proof -
  obtain b h where b: "timedBlockSeen t = Some b" "\<not> Before (obs_At b) (tl_SlotStart t)"
    and h: "Timeline_First t ObsHeadUpdated = Some h" "\<not> Before (obs_At h) (obs_At b)" "\<not> Before (obs_At p) (obs_At h)"
    using assms(1,2) unfolding ComputeStages_def Let_def
    by (auto simp: no_stages_def split: option.splits if_splits)
  have s: "ComputeStages t = \<lparr>st_Propagation = Sub (obs_At b) (tl_SlotStart t), st_Validation = Sub (obs_At h) (obs_At b),
      st_Signing = Sub (obs_At p) (obs_At h), st_HasPropagation = True, st_HasValidation = True, st_HasSigning = True\<rparr>"
    using b h assms(2) by (simp add: ComputeStages_def no_stages_def)
  have "in_int64 (t_ns (obs_At b) - t_ns (tl_SlotStart t))" "in_int64 (t_ns (obs_At h) - t_ns (obs_At b))"
    "in_int64 (t_ns (obs_At p) - t_ns (obs_At h))"
    using b h assms(3) by (auto simp: int64_defs Before_def)
  with assms(3) show ?thesis by (simp add: s Sub_def)
qed

text \<open>
  The dominant stage is at least half of the known time, in exact nanoseconds, although
  the comparison is made on rounded floating-point shares. Hence no other stage exceeds it. The bound
  of \<open>2^53\<close> nanoseconds is 104 days.
\<close>

lemma dominant_stage_half:
  assumes "Config_Validate cfg = None" "Stages_Dominant (ComputeStages t) cfg = Some stage"
    and "known_sum (ComputeStages t) < 2 ^ 53"
  shows "\<exists>v. stage_value (ComputeStages t) stage = Some v \<and> known_sum (ComputeStages t) \<le> 2 * v"
proof -
  let ?s = "ComputeStages t"
  obtain sh where sh: "Stages_Share ?s stage = Some sh" "\<not> f_lt sh (cfg_Dominance cfg)"
      "2 \<le> known_stages ?s" "\<forall>st' sh'. Stages_Share ?s st' = Some sh' \<longrightarrow> f_le sh' sh"
    by (rule Stages_DominantD [OF ComputeStages_ok assms(2)])
  obtain d where d: "cfg_Dominance cfg = FFin d" "1 / 2 \<le> d" using Config_ValidateD(11) [OF assms(1)] by blast
  have tot: "Stages_Total ?s = known_sum ?s"
    using assms(3) Stages_Total_sum [OF ComputeStages_ok, of t] by (simp add: int64_max_def)
  obtain v where v: "stage_value ?s stage = Some v" "0 < Stages_Total ?s"
    and share: "sh = f_div (f_of_int v) (f_of_int (Stages_Total ?s))"
    using sh(1) by (auto simp: Stages_Share_def Let_def split: if_splits)
  have "known_sum ?s \<le> 2 * v"
    using stage_le_total [OF ComputeStages_ok v(1)] v(2) assms(3) sh(2) d tot share
    by (intro half_from_share [of v "known_sum ?s" d]) simp_all
  with v(1) show ?thesis by blast
qed

text \<open>
  The Engine API total of a slot is never an out-of-range conversion. Whatever durations
  the timeline carries, it is the greatest duration or exactly the truncated product of the summed
  milliseconds, and never negative.
\<close>

lemma engineCallTotal_safe:
  "engineCallTotal (engineCalls t) = int64_max \<or>
   (\<exists>d. f_to_int64 (f_mul (engine_total_ms (engineCalls t)) (f_of_int Millisecond)) = Some d \<and> 0 \<le> d \<and>
        engineCallTotal (engineCalls t) = d)"
  using engineCallTotal_converts [of "engineCalls t"] engineCalls_facts(1) by simp

text \<open>
  The catch-all asks for better measurement exactly when something was lost and no
  block arrival was measured at or after the start of the slot; otherwise it reports the taxonomy gap.
\<close>

lemma catch_all_cause:
  "\<exists>v. CatchAll_Evaluate t cfg = Some v \<and>
     v_Cause v = (if dutyHasObservableLoss t \<and>
         (case timedBlockSeen t of None \<Rightarrow> True | Some ob \<Rightarrow> Before (obs_At ob) (tl_SlotStart t))
       then CauseInsufficientData else CauseNoRuleMatched)"
proof -
  have "st_HasPropagation (ComputeStages t) \<longleftrightarrow>
      \<not> (case timedBlockSeen t of None \<Rightarrow> True | Some ob \<Rightarrow> Before (obs_At ob) (tl_SlotStart t))"
    "st_HasValidation (ComputeStages t) \<or> st_HasSigning (ComputeStages t) \<Longrightarrow> st_HasPropagation (ComputeStages t)"
    unfolding ComputeStages_def Let_def by (auto simp: no_stages_def split: option.splits if_splits)
  then show ?thesis by (auto simp: CatchAll_Evaluate_def Let_def)
qed

end
