(* ===== verification/Caches.thy ===== *)
theory Caches
  imports GoStd "HOL-Library.AList"
begin

text \<open>
  The four single-flight caches of the Beacon API client (\<open>internal/source/beaconapi\<close>): committee lengths, block bodies,
  canonical roots and head polls. Each is a map from a slot to an entry that is in flight or complete, guarded by a mutex;
  what happens between two unlocks is one atomic operation here. \<open>cache_begin\<close> is the first critical section of a lookup
  and \<open>cache_finish\<close> the second one, after the fetch. A fetch is named by a token, which stands for the entry's address.
  The relation \<open>cache_step\<close> interleaves the operations of any number of goroutines.
\<close>

section \<open>Entries and policies\<close>

record 'v cache_entry =
  ce_token :: nat
  ce_param :: "64 word"
  ce_complete :: bool
  ce_fetched :: gotime
  ce_result :: "'v option"

type_synonym 'v cache_map = "(64 word \<times> 'v cache_entry) list"

text \<open>
  What sets the caches apart: how many entries survive a trim, from how many entries on a lookup fetches without an entry
  of its own, how long a complete entry answers, and whether a failed fetch removes whatever entry its key has now.
\<close>

record cache_policy =
  pol_limit :: nat
  pol_cap :: "nat option"
  pol_ttl :: "duration option"
  pol_identity :: bool

definition committeeCache :: cache_policy where
  "committeeCache = \<lparr>pol_limit = 64, pol_cap = None, pol_ttl = Some (60 * Second), pol_identity = True\<rparr>"

definition blockCache :: cache_policy where
  "blockCache = \<lparr>pol_limit = 128, pol_cap = Some 192, pol_ttl = Some (60 * Second), pol_identity = False\<rparr>"

definition canonicalRoots :: cache_policy where
  "canonicalRoots = \<lparr>pol_limit = 16, pol_cap = Some 64, pol_ttl = Some (2 * Second), pol_identity = False\<rparr>"

definition headPolls :: cache_policy where
  "headPolls = \<lparr>pol_limit = 8, pol_cap = Some 64, pol_ttl = None, pol_identity = False\<rparr>"

section \<open>Eviction\<close>

text \<open>The scan for the least slot of a complete entry, in whatever order the map is visited.\<close>

fun oldest_complete :: "64 word option \<Rightarrow> 'v cache_map \<Rightarrow> 64 word option" where
  "oldest_complete best [] = best"
| "oldest_complete best ((slot, entry) # rest) =
     oldest_complete
       (if ce_complete entry \<and> (case best of None \<Rightarrow> True | Some o' \<Rightarrow> slot < o') then Some slot else best) rest"

lemma oldest_complete_in:
  "oldest_complete best es = Some k \<Longrightarrow> best = Some k \<or> (\<exists>e. (k, e) \<in> set es \<and> ce_complete e)"
  by (induction best es rule: oldest_complete.induct) (auto split: if_splits)

lemma oldest_complete_None: "oldest_complete best es = None \<longleftrightarrow> best = None \<and> (\<forall>(k, e) \<in> set es. \<not> ce_complete e)"
  by (induction best es rule: oldest_complete.induct) auto

lemma oldest_complete_least:
  "oldest_complete best es = Some k \<Longrightarrow> (\<forall>b. best = Some b \<longrightarrow> k \<le> b) \<and> (\<forall>(k', e) \<in> set es. ce_complete e \<longrightarrow> k \<le> k')"
  by (induction best es rule: oldest_complete.induct) (auto split: if_splits option.splits)

lemma length_delete_less: "k \<in> fst ` set es \<Longrightarrow> length (AList.delete k es) < length es"
  by (auto simp: AList.delete_eq intro!: length_filter_less)

function trim_cache :: "nat \<Rightarrow> 'v cache_map \<Rightarrow> 'v cache_map" where
  "trim_cache limit es =
     (if length es > limit
      then (case oldest_complete None es of None \<Rightarrow> es | Some k \<Rightarrow> trim_cache limit (AList.delete k es))
      else es)"
  by pat_completeness auto
termination
  by (relation "measure (\<lambda>(_, es). length es)") (auto intro!: length_delete_less dest!: oldest_complete_in intro: rev_image_eqI)

declare trim_cache.simps [simp del]

section \<open>The two critical sections\<close>

datatype flight = Wait nat | Direct | Own nat

definition entry_usable :: "cache_policy \<Rightarrow> 64 word \<Rightarrow> gotime \<Rightarrow> 'v cache_entry \<Rightarrow> bool" where
  "entry_usable pol param now entry \<longleftrightarrow> ce_param entry = param \<and>
     (\<not> ce_complete entry \<or> (case pol_ttl pol of None \<Rightarrow> True | Some ttl \<Rightarrow> Sub now (ce_fetched entry) < ttl))"

definition cache_begin ::
  "cache_policy \<Rightarrow> 64 word \<Rightarrow> 64 word \<Rightarrow> gotime \<Rightarrow> nat \<Rightarrow> 'v cache_map \<Rightarrow> flight \<times> 'v cache_map" where
  "cache_begin pol key param now token es =
     (let start = (\<lambda>es. case pol_cap pol of
            Some cap \<Rightarrow> if length es \<ge> cap then (Direct, es) else (Own token, AList.update key
              \<lparr>ce_token = token, ce_param = param, ce_complete = False, ce_fetched = time_zero, ce_result = None\<rparr> es)
          | None \<Rightarrow> (Own token, AList.update key
              \<lparr>ce_token = token, ce_param = param, ce_complete = False, ce_fetched = time_zero, ce_result = None\<rparr> es))
      in case map_of es key of
           Some entry \<Rightarrow> if entry_usable pol param now entry then (Wait (ce_token entry), es) else start (AList.delete key es)
         | None \<Rightarrow> start es)"

text \<open>The entry is completed wherever it is; a failed fetch removes it, a good one trims the cache.\<close>

definition cache_finish ::
  "cache_policy \<Rightarrow> 64 word \<Rightarrow> nat \<Rightarrow> 'v option \<Rightarrow> gotime \<Rightarrow> 'v cache_map \<Rightarrow> 'v cache_map" where
  "cache_finish pol key token result now es =
     (let es' = map (\<lambda>(k, e). (k, if ce_token e = token then e\<lparr>ce_complete := True, ce_fetched := now, ce_result := result\<rparr> else e)) es
      in case result of
           None \<Rightarrow>
             if \<not> pol_identity pol \<or> map_option ce_token (map_of es' key) = Some token then AList.delete key es' else es'
         | Some _ \<Rightarrow> trim_cache (pol_limit pol) es')"

section \<open>Interleaving\<close>

record 'v cache_state =
  cs_entries :: "'v cache_map"
  cs_flights :: "(64 word \<times> nat) set"
  cs_next :: nat

definition cache_init :: "'v cache_state" where
  "cache_init = \<lparr>cs_entries = [], cs_flights = {}, cs_next = 0\<rparr>"

text \<open>
  A goroutine looks a slot up, or one whose fetch is under way finishes it, with a result or with an error. Callers agree
  on the parameter of a slot (the number of its committees; the other caches have none).
\<close>

inductive cache_step :: "cache_policy \<Rightarrow> (64 word \<Rightarrow> 64 word) \<Rightarrow> 'v cache_state \<Rightarrow> 'v cache_state \<Rightarrow> bool"
  for pol :: cache_policy and param :: "64 word \<Rightarrow> 64 word" where
  begin_own: "cache_begin pol key (param key) now (cs_next st) (cs_entries st) = (Own token, es) \<Longrightarrow>
    cache_step pol param st \<lparr>cs_entries = es, cs_flights = insert (key, token) (cs_flights st), cs_next = cs_next st + 1\<rparr>"
| begin_other: "cache_begin pol key (param key) now (cs_next st) (cs_entries st) = (f, es) \<Longrightarrow> (\<forall>t. f \<noteq> Own t) \<Longrightarrow>
    cache_step pol param st (st\<lparr>cs_entries := es\<rparr>)"
| finish: "(key, token) \<in> cs_flights st \<Longrightarrow>
    cache_step pol param st (st\<lparr>cs_entries := cache_finish pol key token result now (cs_entries st),
      cs_flights := cs_flights st - {(key, token)}\<rparr>)"

inductive_cases cache_stepE: "cache_step pol param st st'"

section \<open>What a trim keeps\<close>

abbreviation completed :: "'v cache_map \<Rightarrow> 'v cache_map" where
  "completed es \<equiv> filter (\<lambda>(k, e). ce_complete e) es"

lemma trim_cache_result:
  fixes es :: "'v cache_map"
  assumes "distinct (map fst es)"
  shows "(\<forall>x \<in> set (trim_cache limit es). x \<in> set es) \<and> distinct (map fst (trim_cache limit es)) \<and>
    (\<forall>(k, e) \<in> set es. \<not> ce_complete e \<longrightarrow> (k, e) \<in> set (trim_cache limit es)) \<and>
    (length (trim_cache limit es) \<le> limit \<or> completed (trim_cache limit es) = []) \<and>
    (\<forall>(k, e) \<in> set es - set (trim_cache limit es). \<forall>(k', e') \<in> set (trim_cache limit es). ce_complete e' \<longrightarrow> k < k')"
  using assms
proof (induction limit es rule: trim_cache.induct)
  case (1 limit es)
  show ?case
  proof (cases "limit < length es \<and> oldest_complete None es \<noteq> None")
    case False
    then have "trim_cache limit es = es" by (auto simp: trim_cache.simps [of limit es])
    moreover have "length es \<le> limit \<or> completed es = []"
      using False by (auto simp: oldest_complete_None filter_empty_conv)
    ultimately show ?thesis using "1.prems" by auto
  next
    case True
    then obtain k where k: "oldest_complete None es = Some k" by auto
    let ?d = "AList.delete k es"
    have t: "trim_cache limit es = trim_cache limit ?d" using True by (simp add: trim_cache.simps [of limit es] k)
    obtain e where e: "(k, e) \<in> set es" "ce_complete e" using oldest_complete_in [OF k] by auto
    have d: "set ?d = {x \<in> set es. fst x \<noteq> k}" "distinct (map fst ?d)"
      using "1.prems" by (auto simp: AList.delete_eq distinct_map_filter)
    have only: "e' = e" if "(k, e') \<in> set es" for e' using that e(1) "1.prems" by (meson eq_key_imp_eq_value)
    note ih = "1.IH" [OF conjunct1 [OF True] k d(2), unfolded t [symmetric]]
    have least: "k < k'" if "(k', e') \<in> set (trim_cache limit es)" "ce_complete e'" for k' e'
    proof -
      have "(k', e') \<in> set es" "k' \<noteq> k" using ih that(1) d(1) by force+
      with oldest_complete_least [OF k] that(2) show ?thesis by force
    qed
    have "\<forall>(k1, e1) \<in> set es - set (trim_cache limit es). \<forall>(k', e') \<in> set (trim_cache limit es). ce_complete e' \<longrightarrow> k1 < k'"
      using ih least d(1) by fastforce
    moreover have "\<forall>(k1, e1) \<in> set es. \<not> ce_complete e1 \<longrightarrow> (k1, e1) \<in> set (trim_cache limit es)"
      using ih only e(2) d(1) by fastforce
    moreover have "\<forall>x \<in> set (trim_cache limit es). x \<in> set es" using ih d(1) by blast
    ultimately show ?thesis using ih by blast
  qed
qed

section \<open>The invariant\<close>

text \<open>
  One entry per slot; every entry in flight belongs to a fetch under way, and every fetch under way finds its own entry
  still in flight at its slot; complete entries within the limit, all entries within the cap.
\<close>

definition cache_inv :: "cache_policy \<Rightarrow> (64 word \<Rightarrow> 64 word) \<Rightarrow> 'v cache_state \<Rightarrow> bool" where
  "cache_inv pol param st \<longleftrightarrow>
     distinct (map fst (cs_entries st)) \<and> distinct (map (\<lambda>x. ce_token (snd x)) (cs_entries st)) \<and>
     (\<forall>(k, e) \<in> set (cs_entries st). ce_token e < cs_next st \<and> ce_param e = param k \<and>
        (\<not> ce_complete e \<longrightarrow> (k, ce_token e) \<in> cs_flights st)) \<and>
     (\<forall>(k, t) \<in> cs_flights st. \<exists>e. (k, e) \<in> set (cs_entries st) \<and> ce_token e = t \<and> \<not> ce_complete e) \<and>
     length (completed (cs_entries st)) \<le> pol_limit pol \<and>
     (\<forall>cap. pol_cap pol = Some cap \<longrightarrow> length (cs_entries st) \<le> cap)"

lemma cache_inv_init: "cache_inv pol param cache_init"
  by (simp add: cache_inv_def cache_init_def)

lemma completed_delete: "length (completed (AList.delete k es)) \<le> length (completed es)"
  by (induction es) auto

lemma update_fresh: "k \<notin> fst ` set es \<Longrightarrow> AList.update k v es = es @ [(k, v)]"
  by (induction es) auto

abbreviation (input) fresh_entry :: "nat \<Rightarrow> 64 word \<Rightarrow> 'v cache_entry" where
  "fresh_entry token param \<equiv> \<lparr>ce_token = token, ce_param = param, ce_complete = False, ce_fetched = time_zero, ce_result = None\<rparr>"

text \<open>A lookup that starts a fetch adds one entry in flight, in place of at most a complete one.\<close>

lemma cache_begin_cases:
  assumes inv: "cache_inv pol param st" and b: "cache_begin pol key (param key) now token (cs_entries st) = (f, es)"
  obtains (own) "f = Own token" "\<And>e. (key, e) \<in> set (cs_entries st) \<Longrightarrow> ce_complete e"
      "\<And>cap. pol_cap pol = Some cap \<Longrightarrow> length (AList.delete key (cs_entries st)) < cap"
      "es = AList.delete key (cs_entries st) @ [(key, fresh_entry token (param key))]"
  | (same) "\<And>t. f \<noteq> Own t" "es = cs_entries st"
  | (dropped) "\<And>t. f \<noteq> Own t" "\<And>e. (key, e) \<in> set (cs_entries st) \<Longrightarrow> ce_complete e" "es = AList.delete key (cs_entries st)"
proof (cases "\<exists>e. map_of (cs_entries st) key = Some e \<and> entry_usable pol (param key) now e")
  case True
  then have "(\<forall>t. f \<noteq> Own t) \<and> es = cs_entries st" using b by (auto simp: cache_begin_def)
  then show thesis using same by blast
next
  case False
  let ?es0 = "AList.delete key (cs_entries st)"
  have d: "distinct (map fst (cs_entries st))" and p: "\<And>k e. (k, e) \<in> set (cs_entries st) \<Longrightarrow> ce_param e = param k"
    using inv by (auto simp: cache_inv_def)
  have fin: "ce_complete e" if "(key, e) \<in> set (cs_entries st)" for e
    using that False d p [OF that] by (auto simp: entry_usable_def)
  have upd: "AList.update key v ?es0 = ?es0 @ [(key, v)]" for v by (rule update_fresh) (rule AList.delete_notin_dom)
  have "cs_entries st = ?es0" if "map_of (cs_entries st) key = None" using that by (simp add: map_of_eq_None_iff)
  then have "(f, es) = (case pol_cap pol of Some cap \<Rightarrow> if length ?es0 \<ge> cap then (Direct, ?es0)
      else (Own token, ?es0 @ [(key, fresh_entry token (param key))]) | None \<Rightarrow> (Own token, ?es0 @ [(key, fresh_entry token (param key))]))"
    using b False by (auto simp: cache_begin_def Let_def upd update_fresh map_of_eq_None_iff split: option.splits)
  then show thesis using own dropped fin by (auto split: option.splits if_splits)
qed

lemma cache_invD:
  assumes "cache_inv pol param st"
  shows "distinct (map fst (cs_entries st))" "distinct (map (\<lambda>x. ce_token (snd x)) (cs_entries st))"
    "(k, e) \<in> set (cs_entries st) \<Longrightarrow> ce_token e < cs_next st" "(k, e) \<in> set (cs_entries st) \<Longrightarrow> ce_param e = param k"
    "(k, e) \<in> set (cs_entries st) \<Longrightarrow> \<not> ce_complete e \<Longrightarrow> (k, ce_token e) \<in> cs_flights st"
    "(k, t) \<in> cs_flights st \<Longrightarrow> \<exists>e. (k, e) \<in> set (cs_entries st) \<and> ce_token e = t \<and> \<not> ce_complete e"
    "length (completed (cs_entries st)) \<le> pol_limit pol" "pol_cap pol = Some cap \<Longrightarrow> length (cs_entries st) \<le> cap"
  using assms by (auto simp: cache_inv_def)

lemma cache_invI:
  assumes "distinct (map fst (cs_entries st))" "distinct (map (\<lambda>x. ce_token (snd x)) (cs_entries st))"
    "\<And>k e. (k, e) \<in> set (cs_entries st) \<Longrightarrow> ce_token e < cs_next st \<and> ce_param e = param k"
    "\<And>k e. (k, e) \<in> set (cs_entries st) \<Longrightarrow> \<not> ce_complete e \<Longrightarrow> (k, ce_token e) \<in> cs_flights st"
    "\<And>k t. (k, t) \<in> cs_flights st \<Longrightarrow> \<exists>e. (k, e) \<in> set (cs_entries st) \<and> ce_token e = t \<and> \<not> ce_complete e"
    "length (completed (cs_entries st)) \<le> pol_limit pol" "\<And>cap. pol_cap pol = Some cap \<Longrightarrow> length (cs_entries st) \<le> cap"
  shows "cache_inv pol param st"
  unfolding cache_inv_def using assms by blast

lemma inv_drop_complete:
  assumes "cache_inv pol param st" "\<And>e. (key, e) \<in> set (cs_entries st) \<Longrightarrow> ce_complete e"
  shows "cache_inv pol param (st\<lparr>cs_entries := AList.delete key (cs_entries st)\<rparr>)"
proof -
  note i = cache_invD [OF assms(1)]
  have sub: "set (AList.delete key (cs_entries st)) \<subseteq> set (cs_entries st)" by (auto simp: AList.delete_eq)
  show ?thesis
  proof (rule cache_invI; simp)
    show "distinct (map fst (AList.delete key (cs_entries st)))" "distinct (map (\<lambda>x. ce_token (snd x)) (AList.delete key (cs_entries st)))"
      using i(1,2) by (simp_all add: AList.delete_eq distinct_map_filter)
    show "\<exists>e. (k, e) \<in> set (AList.delete key (cs_entries st)) \<and> ce_token e = t \<and> \<not> ce_complete e" if "(k, t) \<in> cs_flights st" for k t
      using i(6) [OF that] assms(2) by (auto simp: AList.delete_eq)
    show "length (completed (AList.delete key (cs_entries st))) \<le> pol_limit pol"
      using completed_delete i(7) by (rule order_trans)
    show "length (AList.delete key (cs_entries st)) \<le> cap" if "pol_cap pol = Some cap" for cap
      using AList.length_delete_le i(8) [OF that] by (rule order_trans)
  qed (use i sub in blast)+
qed

lemma inv_add:
  assumes "cache_inv pol param st" "key \<notin> fst ` set (cs_entries st)" "\<And>cap. pol_cap pol = Some cap \<Longrightarrow> length (cs_entries st) < cap"
  shows "cache_inv pol param \<lparr>cs_entries = cs_entries st @ [(key, fresh_entry (cs_next st) (param key))],
    cs_flights = insert (key, cs_next st) (cs_flights st), cs_next = cs_next st + 1\<rparr>"
proof -
  note i = cache_invD [OF assms(1)]
  have new: "cs_next st \<noteq> ce_token e" if "(k, e) \<in> set (cs_entries st)" for k e using i(3) [OF that] by simp
  show ?thesis
  proof (rule cache_invI; simp)
    show "distinct (map fst (cs_entries st)) \<and> key \<notin> fst ` set (cs_entries st)" using i(1) assms(2) by simp
    show "distinct (map (\<lambda>x. ce_token (snd x)) (cs_entries st)) \<and> cs_next st \<notin> (\<lambda>x. ce_token (snd x)) ` set (cs_entries st)"
      using i(2) new by force
    show "length (completed (cs_entries st)) \<le> pol_limit pol" by (rule i(7))
    show "Suc (length (cs_entries st)) \<le> cap" if "pol_cap pol = Some cap" for cap using assms(3) [OF that] by simp
    show "ce_token e < Suc (cs_next st) \<and> ce_param e = param k"
      if "k = key \<and> e = fresh_entry (cs_next st) (param key) \<or> (k, e) \<in> set (cs_entries st)" for k e
      using that i(3,4) [of k e] by (auto simp: less_Suc_eq)
    show "k = key \<and> ce_token e = cs_next st \<or> (k, ce_token e) \<in> cs_flights st"
      if "k = key \<and> e = fresh_entry (cs_next st) (param key) \<or> (k, e) \<in> set (cs_entries st)" "\<not> ce_complete e" for k e
      using that i(5) [of k e] by auto
    show "\<exists>e. (k = key \<and> e = fresh_entry (cs_next st) (param key) \<or> (k, e) \<in> set (cs_entries st)) \<and> ce_token e = t \<and> \<not> ce_complete e"
      if "k = key \<and> t = cs_next st \<or> (k, t) \<in> cs_flights st" for k t
      using that
    proof (elim disjE)
      assume "k = key \<and> t = cs_next st"
      then show ?thesis by (intro exI [of _ "fresh_entry (cs_next st) (param key)"]) simp
    next
      assume "(k, t) \<in> cs_flights st"
      then show ?thesis using i(6) by blast
    qed
  qed
qed

lemma map_entry_in: "(k, e) \<in> set (map (\<lambda>(k, e). (k, f k e)) es) \<longleftrightarrow> (\<exists>e'. (k, e') \<in> set es \<and> e = f k e')"
  by (induction es) auto

lemma delete_map_at: "AList.delete key (map (\<lambda>(k, e). (k, if k = key then f e else e)) es) = AList.delete key es"
  by (induction es) auto

text \<open>
  Completing the entry of a fetch under way: \<open>es\<close> is the map with that one entry completed. What the second critical
  section does with it is to delete the entry or to trim the map.
\<close>

definition complete_at :: "64 word \<Rightarrow> 'v option \<Rightarrow> gotime \<Rightarrow> 'v cache_map \<Rightarrow> 'v cache_map" where
  "complete_at key result now es =
     map (\<lambda>(k, e). (k, if k = key then e\<lparr>ce_complete := True, ce_fetched := now, ce_result := result\<rparr> else e)) es"

lemma complete_at_keys [simp]: "map fst (complete_at key result now es) = map fst es" "length (complete_at key result now es) = length es"
    "map (\<lambda>x. ce_token (snd x)) (complete_at key result now es) = map (\<lambda>x. ce_token (snd x)) es"
  by (simp_all add: complete_at_def) (auto simp: case_prod_beta)

lemma flight_entry:
  assumes inv: "cache_inv pol param st" and fl: "(key, token) \<in> cs_flights st"
  shows "\<exists>e0. (key, e0) \<in> set (cs_entries st) \<and> ce_token e0 = token"
    "(k, e) \<in> set (cs_entries st) \<Longrightarrow> ce_token e = token \<longleftrightarrow> k = key"
    "(k, t) \<in> cs_flights st - {(key, token)} \<Longrightarrow> k \<noteq> key"
proof -
  note i = cache_invD [OF inv]
  obtain e0 where e0: "(key, e0) \<in> set (cs_entries st)" "ce_token e0 = token" using i(6) [OF fl] by blast
  then show "\<exists>e0. (key, e0) \<in> set (cs_entries st) \<and> ce_token e0 = token" by blast
  have at_key: "ce_token e = token" if "(key, e) \<in> set (cs_entries st)" for e using that e0 i(1) by (metis eq_key_imp_eq_value)
  have inj: "inj_on (\<lambda>x. ce_token (snd x)) (set (cs_entries st))" using i(2) by (simp add: distinct_map)
  show "ce_token e = token \<longleftrightarrow> k = key" if "(k, e) \<in> set (cs_entries st)"
    using that at_key e0 inj_onD [OF inj, of "(k, e)" "(key, e0)"] by auto
  show "k \<noteq> key" if "(k, t) \<in> cs_flights st - {(key, token)}"
    using that i(6) [of k t] at_key by blast
qed

lemma cache_finish_complete_at:
  assumes inv: "cache_inv pol param st" and fl: "(key, token) \<in> cs_flights st"
  shows "cache_finish pol key token result now (cs_entries st) =
    (if result = None then AList.delete key (cs_entries st) else trim_cache (pol_limit pol) (complete_at key result now (cs_entries st)))"
proof -
  obtain e0 where e0: "(key, e0) \<in> set (cs_entries st)" "ce_token e0 = token" using flight_entry(1) [OF inv fl] by blast
  have es: "map (\<lambda>(k, e). (k, if ce_token e = token then e\<lparr>ce_complete := True, ce_fetched := now, ce_result := result\<rparr> else e)) (cs_entries st) =
      complete_at key result now (cs_entries st)"
    unfolding complete_at_def using flight_entry(2) [OF inv fl] by (intro map_cong refl) auto
  have "(key, e0\<lparr>ce_complete := True, ce_fetched := now, ce_result := result\<rparr>) \<in> set (complete_at key result now (cs_entries st))"
    unfolding complete_at_def map_entry_in using e0(1) by (intro exI [of _ e0]) simp
  then have "map_option ce_token (map_of (complete_at key result now (cs_entries st)) key) = Some token"
    using cache_invD(1) [OF inv] e0(2) by simp
  then show ?thesis
    unfolding cache_finish_def es Let_def by (auto simp: complete_at_def delete_map_at split: option.split)
qed

lemma inv_finish_error:
  assumes inv: "cache_inv pol param st" and fl: "(key, token) \<in> cs_flights st"
  shows "cache_inv pol param (st\<lparr>cs_entries := AList.delete key (cs_entries st), cs_flights := cs_flights st - {(key, token)}\<rparr>)"
proof -
  note i = cache_invD [OF inv]
  note flights = flight_entry(3) [OF inv fl]
  have del: "(k, e) \<in> set (AList.delete key (cs_entries st)) \<longleftrightarrow> k \<noteq> key \<and> (k, e) \<in> set (cs_entries st)" for k e
    by (auto simp: AList.delete_eq)
  show ?thesis
  proof (rule cache_invI; simp)
    show "distinct (map fst (AList.delete key (cs_entries st)))" "distinct (map (\<lambda>x. ce_token (snd x)) (AList.delete key (cs_entries st)))"
      using i(1,2) by (simp_all add: AList.delete_eq distinct_map_filter)
    show "length (completed (AList.delete key (cs_entries st))) \<le> pol_limit pol" using completed_delete i(7) by (rule order_trans)
    show "length (AList.delete key (cs_entries st)) \<le> cap" if "pol_cap pol = Some cap" for cap
      using AList.length_delete_le i(8) [OF that] by (rule order_trans)
  qed (use i(3-6) flights del in blast)+
qed

lemma inv_finish_ok:
  fixes result :: "'v option" and now :: gotime
  assumes inv: "cache_inv pol param (st :: 'v cache_state)" and fl: "(key, token) \<in> cs_flights st"
  defines "tr \<equiv> trim_cache (pol_limit pol) (complete_at key result now (cs_entries st))"
  shows "cache_inv pol param (st\<lparr>cs_entries := tr, cs_flights := cs_flights st - {(key, token)}\<rparr>)"
proof -
  note i = cache_invD [OF inv]
  note flights = flight_entry(3) [OF inv fl]
  let ?es = "complete_at key result now (cs_entries st)"
  have d: "distinct (map fst ?es)" using i(1) by simp
  note t = trim_cache_result [OF d, of "pol_limit pol", folded tr_def]
  have sub: "set tr \<subseteq> set ?es" and dtr: "distinct (map fst tr)" using t by blast+
  have es_in: "(k, e) \<in> set ?es \<longleftrightarrow> (\<exists>e'. (k, e') \<in> set (cs_entries st) \<and>
      e = (if k = key then e'\<lparr>ce_complete := True, ce_fetched := now, ce_result := result\<rparr> else e'))" for k e
    unfolding complete_at_def by (rule map_entry_in)
  have inj: "inj_on (\<lambda>x. ce_token (snd x)) (set ?es)" using i(2) by (metis complete_at_keys(3) distinct_map)
  have "length tr \<le> length ?es" using dtr d sub by (metis card_mono distinct_card distinct_map finite_set)
  then have len: "length tr \<le> length (cs_entries st)" by simp
  show ?thesis
  proof (rule cache_invI; simp)
    show "distinct (map fst tr)" by (rule dtr)
    then show "distinct (map (\<lambda>x. ce_token (snd x)) tr)" using inj_on_subset [OF inj sub] by (simp add: distinct_map)
    show "ce_token e < cs_next st \<and> ce_param e = param k" if "(k, e) \<in> set tr" for k e
      using that sub es_in [of k e] i(3,4) [of k] by (fastforce split: if_splits)
    show "(k, ce_token e) \<in> cs_flights st \<and> (k = key \<longrightarrow> ce_token e \<noteq> token)" if "(k, e) \<in> set tr" "\<not> ce_complete e" for k e
      using that sub es_in [of k e] i(5) [of k e] by (fastforce split: if_splits)
    show "\<exists>e. (k, e) \<in> set tr \<and> ce_token e = t \<and> \<not> ce_complete e" if "(k, t) \<in> cs_flights st \<and> (k = key \<longrightarrow> t \<noteq> token)" for k t
    proof -
      have "k \<noteq> key" using that flights by blast
      then show ?thesis using that i(6) [of k t] es_in [of k] t by fastforce
    qed
    show "length (completed tr) \<le> pol_limit pol"
    proof -
      have "length tr \<le> pol_limit pol \<or> completed tr = []" using t by blast
      then show ?thesis by (auto intro: order_trans [OF length_filter_le])
    qed
    show "length tr \<le> cap" if "pol_cap pol = Some cap" for cap using len i(8) [OF that] by (rule order_trans)
  qed
qed

lemma cache_step_inv:
  assumes "cache_step pol param st st'" "cache_inv pol param st"
  shows "cache_inv pol param st'"
  using assms
proof (cases rule: cache_step.cases)
  case (begin_own key now token es)
  from assms(2) begin_own(2) show ?thesis
  proof (cases rule: cache_begin_cases)
    case own
    let ?st0 = "st\<lparr>cs_entries := AList.delete key (cs_entries st)\<rparr>"
    have "cache_inv pol param ?st0" using inv_drop_complete [OF assms(2) own(2)] .
    from inv_add [OF this, of key] own show ?thesis by (simp add: begin_own(1) AList.delete_notin_dom)
  qed blast+
next
  case (begin_other key now f es)
  from assms(2) begin_other(2) show ?thesis
  proof (cases rule: cache_begin_cases)
    case dropped
    then show ?thesis using inv_drop_complete [OF assms(2)] by (simp add: begin_other(1))
  qed (use begin_other assms(2) in simp_all)
next
  case (finish key token result now)
  then show ?thesis using inv_finish_error [OF assms(2)] inv_finish_ok [OF assms(2)] cache_finish_complete_at [OF assms(2)] by simp
qed

section \<open>The interface of a bounded cache\<close>

text \<open>A policy whose cap leaves room above the limit: fetching without an entry happens only under load.\<close>

locale bounded_cache =
  fixes pol :: cache_policy
  assumes room: "pol_cap pol = Some cap \<Longrightarrow> pol_limit pol < cap"
begin

lemma reachable_inv: "(cache_step pol param)\<^sup>*\<^sup>* cache_init st \<Longrightarrow> cache_inv pol param st"
  by (induction rule: rtranclp_induct) (auto intro: cache_step_inv cache_inv_init)

lemma in_flight_card:
  assumes "cache_inv pol param st"
  shows "finite (cs_flights st) \<and> card (cs_flights st) = length (filter (\<lambda>x. \<not> (case x of (k, e) \<Rightarrow> ce_complete e)) (cs_entries st))"
proof -
  note i = cache_invD [OF assms]
  let ?ps = "map (\<lambda>(k, e). (k, ce_token e)) (filter (\<lambda>x. \<not> (case x of (k, e) \<Rightarrow> ce_complete e)) (cs_entries st))"
  have fl: "cs_flights st = set ?ps" using i(5,6) by force
  have "distinct (map fst ?ps)"
    using i(1) distinct_map_filter [of fst "cs_entries st" "\<lambda>x. \<not> (case x of (k, e) \<Rightarrow> ce_complete e)"]
    by (simp add: comp_def case_prod_beta)
  then have "distinct ?ps" by (simp only: distinct_map)
  then show ?thesis using distinct_card [of ?ps] by (simp add: fl)
qed

lemma direct_needs_load:
  assumes "(cache_step pol param)\<^sup>*\<^sup>* cache_init st" "cache_begin pol key (param key) now token (cs_entries st) = (Direct, es)"
    "pol_cap pol = Some cap"
  shows "cap - pol_limit pol \<le> card (cs_flights st)"
proof -
  note inv = reachable_inv [OF assms(1)]
  have "cap \<le> length (cs_entries st)"
    using assms(2,3) AList.length_delete_le [of key "cs_entries st"] by (auto simp: cache_begin_def Let_def split: option.splits if_splits)
  moreover have "length (cs_entries st) = length (completed (cs_entries st)) + length (filter (\<lambda>x. \<not> (case x of (k, e) \<Rightarrow> ce_complete e)) (cs_entries st))"
    using sum_length_filter_compl [of "\<lambda>(k, e). ce_complete e" "cs_entries st"] by simp
  ultimately show ?thesis using cache_invD(7) [OF inv] in_flight_card [OF inv] by linarith
qed

end

interpretation committees: bounded_cache committeeCache
  by unfold_locales (simp add: committeeCache_def)

interpretation blocks: bounded_cache blockCache
  by unfold_locales (auto simp: blockCache_def)

interpretation roots: bounded_cache canonicalRoots
  by unfold_locales (auto simp: canonicalRoots_def)

interpretation heads: bounded_cache headPolls
  by unfold_locales (auto simp: headPolls_def)

text \<open>
  Property C23: memory stays bounded and single flight holds, whatever the interleaving of lookups and completions: the
  block cache never has more than 192 entries nor more than 128 complete ones, each slot has at most one entry, and the
  entry of a fetch under way is never evicted or replaced, so every goroutine waiting on it gets that fetch's result.
\<close>

theorem blockCache_bounded:
  assumes "(cache_step blockCache param)\<^sup>*\<^sup>* cache_init st"
  shows "length (cs_entries st) \<le> 192 \<and> length (completed (cs_entries st)) \<le> 128 \<and> distinct (map fst (cs_entries st)) \<and>
    (\<forall>(k, t) \<in> cs_flights st. \<exists>e. map_of (cs_entries st) k = Some e \<and> ce_token e = t \<and> \<not> ce_complete e)"
proof -
  note i = cache_invD [OF blocks.reachable_inv [OF assms]]
  have "length (cs_entries st) \<le> 192" "length (completed (cs_entries st)) \<le> 128" using i(7,8) by (auto simp: blockCache_def)
  moreover have "\<forall>(k, t) \<in> cs_flights st. \<exists>e. map_of (cs_entries st) k = Some e \<and> ce_token e = t \<and> \<not> ce_complete e"
    using i(1,6) by (force simp: map_of_eq_Some_iff)
  ultimately show ?thesis using i(1) by blast
qed

theorem blockCache_bounded_witness:
  "\<exists>st :: unit cache_state. (cache_step blockCache (\<lambda>_. 0))\<^sup>*\<^sup>* cache_init st \<and> cs_flights st = {(7, 0)} \<and> length (cs_entries st) \<le> 192"
proof -
  have b: "cache_begin blockCache 7 ((\<lambda>_. 0) 7) time_zero (cs_next cache_init) (cs_entries (cache_init :: unit cache_state)) =
      (Own 0, [(7, fresh_entry 0 0)])"
    by (simp add: cache_begin_def cache_init_def blockCache_def)
  have "(cache_step blockCache (\<lambda>_. 0))\<^sup>*\<^sup>* cache_init (\<lparr>cs_entries = [(7, fresh_entry 0 0)], cs_flights = {(7, 0)}, cs_next = 1\<rparr> :: unit cache_state)"
    using cache_step.begin_own [OF b] by (intro r_into_rtranclp) (simp add: cache_init_def)
  from blockCache_bounded [OF this] this show ?thesis by (intro exI conjI) (assumption, simp_all)
qed

end
