(* ===== verification/Retention.thy ===== *)
theory Retention
  imports Store
begin

text \<open>
  Retention (\<open>Prune\<close> of \<open>internal/store/retention.go\<close>): whatever happens on the way, rows leave oldest first; a call that
  succeeds leaves no expired row and respects the byte limit; and a call succeeds when the database can be made to fit.
\<close>

section \<open>The two loops\<close>

lemma empty_batch: "prune_batch pruneBatchSize cutoff db = [] \<longleftrightarrow> (\<forall>k \<in> set (row_keys db). \<not> older cutoff k)"
proof -
  have sort_Nil: "sort xs = [] \<longleftrightarrow> xs = []" for xs :: "row_key list" by (metis length_0_conv length_sort)
  show ?thesis by (simp add: prune_batch_def pruneBatchSize_def sort_Nil filter_empty_conv)
qed

lemma batch_steps_wf: "batch_step\<^sup>*\<^sup>* db db' \<Longrightarrow> db_wf db \<Longrightarrow> db_wf db'"
  using prune.steps_oldest by blast

lemma batch_stepI: "deleteOldestMatchingBatch cutoff db = (n, db') \<Longrightarrow> batch_step db db'"
  by (auto simp: batch_step_def)

lemma zero_batch:
  assumes "db_wf db" "deleteOldestMatchingBatch cutoff db = (0, db')"
  shows "db' = db" "\<forall>k \<in> set (row_keys db'). \<not> older cutoff k"
proof -
  note k = batch_keys [OF assms]
  have e: "prune_batch pruneBatchSize cutoff db = []" using k(3) by simp
  show "db' = db" using assms(2) e by (simp add: deleteOldestMatchingBatch_def delete_batch_def Let_def)
  then show "\<forall>k \<in> set (row_keys db'). \<not> older cutoff k"
    using e empty_batch [of cutoff db] by auto
qed

lemma deleteByAge_steps:
  assumes "db_wf db" "deleteByAge sq cutoff db = (e, db')"
  shows "batch_step\<^sup>*\<^sup>* db db' \<and> (e = None \<longrightarrow> (\<forall>k \<in> set (row_keys db'). \<not> older (Some cutoff) k)) \<and>
    (\<forall>k \<in> set (row_keys db). \<not> older (Some cutoff) k \<longrightarrow> k \<in> set (row_keys db')) \<and> (e \<noteq> None \<longrightarrow> sq_busy sq 0 db')"
  using assms
proof (induction sq cutoff db rule: deleteByAge.induct)
  case (1 sq cutoff db)
  obtain n db1 where b: "deleteOldestMatchingBatch (Some cutoff) db = (n, db1)" by fastforce
  note k = batch_keys [OF "1.prems"(1) b]
  have step: "batch_step db db1" using b by (rule batch_stepI)
  have keep: "k \<in> set (row_keys db1)" if "k \<in> set (row_keys db)" "\<not> older (Some cutoff) k" for k
    using that by (auto simp: k(2) prune_batch_def dest: in_set_takeD)
  consider "n = 0" "e = None" "db' = db1" | "n \<noteq> 0" "sq_busy sq 0 db1" "e = Some StoreBusy" "db' = db1"
    | "n \<noteq> 0" "\<not> sq_busy sq 0 db1" "deleteByAge sq cutoff db1 = (e, db')"
    using "1.prems"(2) by (auto simp: deleteByAge.simps [of sq cutoff db] b split: if_splits)
  then show ?case
  proof cases
    case 1
    note z = zero_batch [OF "1.prems"(1) b [unfolded 1(1)]]
    show ?thesis unfolding 1 using step z by (simp add: r_into_rtranclp)
  next
    case 2
    then show ?thesis using step keep by auto
  next
    case 3
    from "1.IH" [OF b [symmetric] refl 3(1,2) k(1) 3(3)] show ?thesis
      using step keep by (meson converse_rtranclp_into_rtranclp)
  qed
qed

lemma size_loop_steps:
  assumes "db_wf db" "size_loop sq budget db = (e, db')"
  shows "batch_step\<^sup>*\<^sup>* db db' \<and> (e = None \<longrightarrow> sq_live sq db' \<le> budget) \<and> (e = Some StoreCannotFit \<longrightarrow> row_keys db' = [] \<and> sq_live sq db' > budget) \<and>
    (e \<noteq> None \<longrightarrow> e = Some StoreCannotFit \<or> e = Some StoreBusy \<and> sq_busy sq 2 db') \<and>
    (e = None \<longrightarrow> db' = db \<or> (\<exists>db0. batch_step\<^sup>*\<^sup>* db db0 \<and> sq_live sq db0 > budget \<and> batch_step db0 db'))"
  using assms
proof (induction sq budget db rule: size_loop.induct)
  case (1 sq budget db)
  show ?case
  proof (cases "sq_live sq db \<le> budget")
    case True
    then show ?thesis using "1.prems"(2) by (simp add: size_loop.simps [of sq budget db])
  next
    case False
    obtain n db1 where b: "deleteOldestMatchingBatch None db = (n, db1)" by fastforce
    note k = batch_keys [OF "1.prems"(1) b]
    have step: "batch_step db db1" using b by (rule batch_stepI)
    consider "n = 0" "e = Some StoreCannotFit" "db' = db1" | "n \<noteq> 0" "sq_busy sq 2 db1" "e = Some StoreBusy" "db' = db1"
      | "n \<noteq> 0" "\<not> sq_busy sq 2 db1" "size_loop sq budget db1 = (e, db')"
      using "1.prems"(2) False by (auto simp: size_loop.simps [of sq budget db] b split: if_splits)
    then show ?thesis
    proof cases
      case 1
      note z = zero_batch [OF "1.prems"(1) b [unfolded 1(1)]]
      have "row_keys db1 = []" using z(2) by (cases "row_keys db1") auto
      then show ?thesis using False step by (simp add: 1 z(1) r_into_rtranclp)
    next
      case 2
      then show ?thesis using step by auto
    next
      case 3
      from "1.IH" [OF False b [symmetric] refl 3(1,2) k(1) 3(3)] show ?thesis
        using step False by (meson converse_rtranclp_into_rtranclp not_le rtranclp.rtrancl_refl)
    qed
  qed
qed

section \<open>Prune as a whole\<close>

lemma Prune_steps:
  assumes "db_wf db" "Prune sq now maxAge maxBytes db = (e, db')"
  shows "batch_step\<^sup>*\<^sup>* db db'"
proof -
  obtain e1 db1 where d: "deleteByAge sq (format_timeLayout (Add (in_UTC now) (- maxAge))) db = (e1, db1)" by fastforce
  obtain e2 db2 where l: "size_loop sq (maxBytes - sq_sidecar sq db1) db1 = (e2, db2)" by fastforce
  have "batch_step\<^sup>*\<^sup>* db db1" using deleteByAge_steps [OF assms(1) d] by blast
  moreover from this have "batch_step\<^sup>*\<^sup>* db1 db2" using size_loop_steps [OF batch_steps_wf [OF _ assms(1)] l] by blast
  ultimately have "db' \<in> {db, db1, db2} \<and> batch_step\<^sup>*\<^sup>* db db1 \<and> batch_step\<^sup>*\<^sup>* db db2"
    using assms(2) by (auto simp: Prune_def d l Let_def split: if_splits option.splits)
  then show ?thesis by auto
qed

lemma Prune_None:
  assumes "Prune sq now maxAge maxBytes db = (None, db')"
  obtains db1 where "deleteByAge sq (format_timeLayout (Add (in_UTC now) (- maxAge))) db = (None, db1)"
    "size_loop sq (maxBytes - sq_sidecar sq db1) db1 = (None, db')" "sq_physical sq db' \<le> maxBytes"
  using assms by (auto simp: Prune_def Let_def split: if_splits option.splits prod.splits)

text \<open>
  Property C22: rows leave the database oldest first. However a call of \<open>Prune\<close> ends, with success or with any error, the
  rows it leaves are rows that were there, every row it deleted is older than every row it left (ties broken by table
  and id), and the primary keys stay unique.
\<close>

theorem Prune_oldest_first:
  assumes "db_wf db"
  shows "db_wf (snd (Prune sq now maxAge maxBytes db)) \<and>
    oldest_first (set (row_keys db)) (set (row_keys (snd (Prune sq now maxAge maxBytes db))))"
  using prune.steps_oldest [OF Prune_steps [OF assms surjective_pairing] assms] .

text \<open>
  After a successful \<open>Prune\<close> no row is older than the age limit, the files fit in the byte limit, and a row
  within the age limit is gone only if, when its batch was deleted, the live data still exceeded the budget.
\<close>

lemma Prune_success:
  assumes "db_wf db" "Prune sq now maxAge maxBytes db = (None, db')"
  shows "list_all (\<lambda>(t, _). format_timeLayout (Add (in_UTC now) (- maxAge)) \<le> t) (row_keys db') \<and> sq_physical sq db' \<le> maxBytes \<and>
    (set (filter (\<lambda>(t, _). format_timeLayout (Add (in_UTC now) (- maxAge)) \<le> t) (row_keys db)) = set (row_keys db') \<or>
     (\<exists>db0. batch_step\<^sup>*\<^sup>* db db0 \<and> sq_live sq db0 > maxBytes - sq_sidecar sq (snd (deleteByAge sq (format_timeLayout (Add (in_UTC now) (- maxAge))) db)) \<and>
        batch_step db0 db'))"
proof -
  obtain db1 where p: "deleteByAge sq (format_timeLayout (Add (in_UTC now) (- maxAge))) db = (None, db1)"
    "size_loop sq (maxBytes - sq_sidecar sq db1) db1 = (None, db')" "sq_physical sq db' \<le> maxBytes"
    using Prune_None [OF assms(2)] .
  note d = deleteByAge_steps [OF assms(1) p(1)]
  have wf1: "db_wf db1" using d batch_steps_wf [OF _ assms(1)] by blast
  note l = size_loop_steps [OF wf1 p(2)]
  have "set (row_keys db') \<subseteq> set (row_keys db1)" "set (row_keys db1) \<subseteq> set (row_keys db)"
    using prune.steps_oldest [of db1 db'] prune.steps_oldest [of db db1] l d wf1 assms(1) by (auto simp: oldest_first_def)
  moreover have "batch_step\<^sup>*\<^sup>* db db0" if "batch_step\<^sup>*\<^sup>* db1 db0" for db0 using d that by auto
  ultimately show ?thesis using d l p by (fastforce simp: list_all_iff not_less)
qed

lemma Prune_can_succeed:
  assumes wf: "db_wf db" and limits: "0 < maxAge" "0 < maxBytes" and idle: "\<And>site db. \<not> sq_busy sq site db"
    and fits: "\<And>db. sq_sidecar sq db = sidecar" "sidecar < maxBytes" "\<And>db. row_keys db = [] \<Longrightarrow> sq_live sq db \<le> maxBytes - sidecar"
    and reclaimed: "\<And>db. sq_physical sq db \<le> sq_live sq db + sidecar"
  shows "fst (Prune sq now maxAge maxBytes db) = None"
proof -
  obtain e1 db1 where d: "deleteByAge sq (format_timeLayout (Add (in_UTC now) (- maxAge))) db = (e1, db1)" by fastforce
  obtain e2 db2 where l: "size_loop sq (maxBytes - sidecar) db1 = (e2, db2)" by fastforce
  note d' = deleteByAge_steps [OF wf d]
  have wf1: "db_wf db1" using d' batch_steps_wf [OF _ wf] by blast
  note l' = size_loop_steps [OF wf1 l]
  have e1: "e1 = None" using d' idle by auto
  have e2: "e2 = None" using l' idle fits(3) [of db2] by fastforce
  have "sq_physical sq db2 \<le> maxBytes" using l' e2 reclaimed [of db2] by auto
  then show ?thesis using limits fits(1,2) idle by (simp add: Prune_def d l e1 e2)
qed

text \<open>
  Retention ends, and succeeds whenever it can: if no checkpoint finds the database busy, the empty tables
  and the sidecar files fit in the byte limit, and reclaiming returns the free pages to the file system, then \<open>Prune\<close>
  returns without an error, whatever the database holds.
\<close>

lemma Prune_succeeds:
  assumes "db_wf db" "0 < maxAge" "sidecar < maxBytes" "0 < maxBytes"
    and "\<And>site db. \<not> sq_busy sq site db" "\<And>db. sq_sidecar sq db = sidecar"
    and "\<And>db. row_keys db = [] \<Longrightarrow> sq_live sq db \<le> maxBytes - sidecar"
    and "\<And>db. sq_physical sq db \<le> sq_live sq db + sidecar"
  shows "\<exists>db'. Prune sq now maxAge maxBytes db = (None, db')"
  using Prune_can_succeed [of db maxAge maxBytes sq sidecar now] assms by (metis prod.collapse)

section \<open>A small database\<close>

definition small_row :: "nat \<Rightarrow> string \<Rightarrow> sample_row" where
  "small_row i t = \<lparr>sr_id = i, sr_at = t, sr_component = ComponentHost, sr_name = ''cpu'', sr_value = FFin 0,
     sr_clock_offset_ns = 0, sr_clock_measured = False, sr_clock_sample_at = [], sr_source = SourceHostMetrics\<rparr>"

definition small_database :: database where
  "small_database = empty_database\<lparr>db_samples := [small_row 1 ''2024-01-02T00:00:00.000000000Z'', small_row 2 ''2024-01-01T00:00:00.000000000Z''],
     db_next_sample := 3\<rparr>"

definition small_sqlite :: sqlite where
  "small_sqlite = \<lparr>sq_live = \<lambda>db. 4096 + 100 * int (length (row_keys db)), sq_sidecar = \<lambda>db. 32, sq_physical = \<lambda>db. 4128 + 100 * int (length (row_keys db)),
     sq_busy = \<lambda>site db. False\<rparr>"

lemma small_database_wf: "db_wf small_database"
  by (simp add: db_wf_def small_database_def empty_database_def small_row_def)

theorem Prune_oldest_first_witness:
  "oldest_first (set (row_keys small_database)) (set (row_keys (snd (Prune small_sqlite time_zero 5 4300 small_database))))"
  using Prune_oldest_first [OF small_database_wf] by blast

end
