(* ===== verification/Commands.thy ===== *)
theory Commands
  imports Attribution DutyTracking
begin

text \<open>
  The command line (\<open>cmd/whymiss/root.go\<close>, \<open>timeline.go\<close>, \<open>doctor.go\<close>) and the post-mortem it prints
  (\<open>internal/report/markdown.go\<close>). What a command asks of the store and of the node is a field of \<open>command_env\<close>; the JSON
  encoder, which refuses a number that is not finite, is an argument.
\<close>

section \<open>The post-mortem\<close>

fun Confidence_str :: "Confidence \<Rightarrow> string" where
  "Confidence_str ConfidenceHigh = ''high''"
| "Confidence_str ConfidenceMedium = ''medium''"
| "Confidence_str ConfidenceLow = ''low''"
| "Confidence_str (ConfidenceOther s) = s"

fun Unit_str :: "Unit \<Rightarrow> string" where
  "Unit_str UnitMilliseconds = ''ms''"
| "Unit_str UnitPercent = ''pct''"
| "Unit_str UnitCount = ''count''"
| "Unit_str UnitRatio = ''ratio''"
| "Unit_str (UnitOther s) = s"

definition formatOffset :: "duration \<Rightarrow> string" where
  "formatOffset offset = (if offset \<ge> 0 then CHR ''+'' # Duration_String offset else Duration_String offset)"

definition TrimRight :: "char \<Rightarrow> string \<Rightarrow> string" where
  "TrimRight c s = rev (dropWhile (\<lambda>x. x = c) (rev s))"

definition formatValue :: "f64 \<Rightarrow> string" where
  "formatValue f = TrimRight (CHR ''.'') (TrimRight (CHR ''0'') (format_fixed 2 f))"

definition headline :: "Verdict \<Rightarrow> string" where
  "headline v =
     (if v_Outcome v = OutcomeNoDuty then ''no duty''
      else if CauseID_str (Verdict_ReportedCause v) = [] then ''healthy''
      else CauseID_str (Verdict_ReportedCause v))"

fun join_with :: "string \<Rightarrow> string list \<Rightarrow> string" where
  "join_with sep [] = []"
| "join_with sep [x] = x"
| "join_with sep (x # y # rest) = x @ sep @ join_with sep (y # rest)"

definition outcomeLine :: "Verdict \<Rightarrow> string" where
  "outcomeLine v =
     (case v_Flags v of
        None \<Rightarrow> Outcome_str (v_Outcome v)
      | Some flags \<Rightarrow>
          (let lost = RewardFlags_Lost flags
           in if lost = [] then Outcome_str (v_Outcome v)
              else Outcome_str (v_Outcome v) @ '' (lost: '' @ join_with '', '' lost @ '')''))"

definition newline :: string where "newline = [CHR 10]"

definition evidence_line :: "Evidence \<Rightarrow> string" where
  "evidence_line e =
     ''- ['' @ formatOffset (ev_Offset e) @ ''] '' @ ev_Statement e @
     (case ev_Comparison e of
        None \<Rightarrow> []
      | Some c \<Rightarrow> '' ('' @ cmp_Label c @ '': '' @ formatValue (cmp_Observed c) @ '' vs '' @ formatValue (cmp_Expected c) @ '' '' @
                  Unit_str (cmp_Unit c) @ '')'') @
     '' '' @ em_dash @ '' *'' @ SourceID_str (ev_Source e) @ ''*'' @ newline"

fun remediation_lines :: "nat \<Rightarrow> string list \<Rightarrow> string" where
  "remediation_lines i [] = []"
| "remediation_lines i (r # rest) = FormatUint (i + 1) @ ''. '' @ r @ newline @ remediation_lines (i + 1) rest"

definition Markdown :: "Verdict \<Rightarrow> string" where
  "Markdown v =
     ''# Slot '' @ FormatUint (unat (v_Slot v)) @ '' '' @ em_dash @ '' '' @ headline v @ newline @ newline @
     ''**Outcome:** '' @ outcomeLine v @ newline @
     ''**Confidence:** '' @ Confidence_str (v_Confidence v) @ newline @ newline @
     ''## Evidence'' @ newline @ newline @
     concat (map evidence_line (v_Evidence v)) @
     (if v_Remediation v \<noteq> [] then newline @ ''## Remediation'' @ newline @ newline @ remediation_lines 0 (v_Remediation v) else []) @
     newline @ ''---'' @ newline @ ''Engine '' @ v_EngineVersion v @ '' '' @ [CHR 0xC2, CHR 0xB7] @ '' Taxonomy '' @ v_TaxonomyVersion v @ newline"

section \<open>The commands\<close>

datatype command_error =
    InvalidSlot string | SelectOne nat | CommandFailed timeline_error | UnsupportedFormat string | RenderFailed

record globalFlags =
  gf_beaconAPI :: string
  gf_schedule :: SlotSchedule
  gf_rcaConfig :: Config

record command_env =
  ce_store :: "store_error + database"
  ce_genesis :: "genesis_error + GenesisInfo"
  ce_spec :: "beacon_error + spec_data option"
  ce_now :: gotime
  ce_oob :: int

definition requestedValidator :: "64 word list \<Rightarrow> command_error + validator_index option" where
  "requestedValidator indices =
     (if indices = [] then Inr None
      else if length indices \<noteq> 1 then Inl (SelectOne (length indices))
      else Inr (Some (hd indices)))"

definition resolved_schedule :: "globalFlags \<Rightarrow> command_env \<Rightarrow> SlotSchedule" where
  "resolved_schedule flags env = ResolveSchedule (gf_beaconAPI flags) (ce_genesis env) (ce_spec env) (ce_now env) (gf_schedule flags)"

text \<open>\<open>whymiss <slot>\<close> up to the verdict, and the whole command.\<close>

definition explain_run :: "globalFlags \<Rightarrow> command_env \<Rightarrow> string \<Rightarrow> 64 word list \<Rightarrow> command_error + Verdict" where
  "explain_run flags env arg indices =
     (case ParseUint arg of
        None \<Rightarrow> Inl (InvalidSlot arg)
      | Some s \<Rightarrow>
          (case requestedValidator indices of
             Inl e \<Rightarrow> Inl e
           | Inr validator \<Rightarrow>
               (let schedule = resolved_schedule flags env
                in case (case validator of
                           None \<Rightarrow> Explain (ce_oob env) (ce_store env) (of_nat s) schedule (gf_rcaConfig flags)
                         | Some v \<Rightarrow> ExplainForValidator (ce_oob env) (ce_store env) (of_nat s) v (gf_schedule flags) (gf_rcaConfig flags)) of
                     Inl e \<Rightarrow> Inl (CommandFailed e)
                   | Inr verdict \<Rightarrow> Inr verdict)))"

datatype command_output = Help | Printed string

definition root_run ::
  "globalFlags \<Rightarrow> command_env \<Rightarrow> (Verdict \<Rightarrow> string option) \<Rightarrow> string \<Rightarrow> string list \<Rightarrow> 64 word list \<Rightarrow> command_error + command_output" where
  "root_run flags env json format args indices =
     (case args of
        [] \<Rightarrow> Inr Help
      | arg # _ \<Rightarrow>
          (case explain_run flags env arg indices of
             Inl e \<Rightarrow> Inl e
           | Inr v \<Rightarrow>
               if format = ''markdown'' then Inr (Printed (Markdown v))
               else if format = ''json'' then (case json v of None \<Rightarrow> Inl RenderFailed | Some out \<Rightarrow> Inr (Printed (out @ newline)))
               else Inl (UnsupportedFormat format)))"

text \<open>\<open>whymiss timeline <slot>\<close>: the timeline that is encoded.\<close>

definition timeline_run :: "globalFlags \<Rightarrow> command_env \<Rightarrow> string \<Rightarrow> string \<Rightarrow> 64 word list \<Rightarrow> command_error + Timeline" where
  "timeline_run flags env format arg indices =
     (case ParseUint arg of
        None \<Rightarrow> Inl (InvalidSlot arg)
      | Some s \<Rightarrow>
          (case requestedValidator indices of
             Inl e \<Rightarrow> Inl e
           | Inr validator \<Rightarrow>
               (let schedule = resolved_schedule flags env
                in case (case validator of
                           None \<Rightarrow> GetTimeline (ce_oob env) (ce_store env) (of_nat s) schedule
                         | Some v \<Rightarrow> GetTimelineForValidator (ce_oob env) (ce_store env) (of_nat s) v schedule) of
                     Inl e \<Rightarrow> Inl (CommandFailed e)
                   | Inr t \<Rightarrow> if format = ''json'' then Inr t else Inl (UnsupportedFormat format))))"

section \<open>What the schedule changes\<close>

text \<open>Two schedules with the same slot length give the same timeline, but for the schedule.\<close>

lemma assembler_reschedule [simp]:
  "AddObservation (a\<lparr>as_schedule := s2\<rparr>) ob = (AddObservation a ob)\<lparr>as_schedule := s2\<rparr>"
  "AddSample (a\<lparr>as_schedule := s2\<rparr>) m = (AddSample a m)\<lparr>as_schedule := s2\<rparr>"
  "SetDuty (a\<lparr>as_schedule := s2\<rparr>) d = (SetDuty a d)\<lparr>as_schedule := s2\<rparr>"
  "SetNetwork (a\<lparr>as_schedule := s2\<rparr>) n = (SetNetwork a n)\<lparr>as_schedule := s2\<rparr>"
  by (simp_all add: AddObservation_def AddSample_def SetDuty_def SetNetwork_def)

lemma adds_reschedule [simp]:
  "foldl AddObservation (a\<lparr>as_schedule := s2\<rparr>) obs = (foldl AddObservation a obs)\<lparr>as_schedule := s2\<rparr>"
  by (induction obs arbitrary: a) simp_all

lemma samples_reschedule [simp]:
  "foldl AddSample (a\<lparr>as_schedule := s2\<rparr>) ms = (foldl AddSample a ms)\<lparr>as_schedule := s2\<rparr>"
  by (induction ms arbitrary: a) simp_all

lemma files_reschedule:
  "file_observations oob (a\<lparr>as_schedule := s2\<rparr>) obs = map_sum id (\<lambda>b. b\<lparr>as_schedule := s2\<rparr>) (file_observations oob a obs)"
  by (induction obs arbitrary: a) (simp_all add: Let_def split: sum.split)

lemma assembled_schedule:
  assumes "assemble_slot oob schedule s start obs reorgs duty samples = Inr t"
  shows "tl_Schedule t = schedule"
proof -
  obtain a where f: "file_observations oob (NewAssembler schedule) obs = Inr a" using assms by (auto simp: assemble_slot_def split: sum.splits)
  let ?b = "foldl AddSample (case duty of None \<Rightarrow> foldl AddObservation a reorgs | Some d \<Rightarrow> SetDuty (foldl AddObservation a reorgs) d) samples"
  have "Build ?b s start = Inr t" using assms f by (auto simp: assemble_slot_def Let_def split: sum.splits)
  then show ?thesis
    using Build_facts [of ?b s start t] file_observations_files [OF f] by (auto simp: NewAssembler_def SetDuty_def split: option.splits)
qed

lemma assemble_reschedule:
  assumes "assemble_slot oob s1 s start obs reorgs duty samples = Inr t" "SlotSchedule_Validate s2 = None"
    and "sched_SecondsPerSlot s2 = sched_SecondsPerSlot s1"
  shows "assemble_slot oob s2 s start obs reorgs duty samples = Inr (t\<lparr>tl_Schedule := s2\<rparr>)"
proof -
  have new: "NewAssembler s2 = (NewAssembler s1)\<lparr>as_schedule := s2\<rparr>" by (simp add: NewAssembler_def)
  obtain a where f: "file_observations oob (NewAssembler s1) obs = Inr a" using assms(1) by (auto simp: assemble_slot_def split: sum.splits)
  have draft: "build_draft (b\<lparr>as_schedule := s2\<rparr>) s start = (build_draft b s start)\<lparr>tl_Schedule := s2\<rparr>" for b
    by (simp add: build_draft_def Let_def observations_of_def window_reorgs_def)
  let ?b = "foldl AddSample (case duty of None \<Rightarrow> foldl AddObservation a reorgs | Some d \<Rightarrow> SetDuty (foldl AddObservation a reorgs) d) samples"
  have t: "Timeline_Validate t = None" "t = build_draft ?b s start"
    using assms(1) f by (auto simp: assemble_slot_def Let_def Build_def NewTimeline_def split: sum.splits option.splits)
  have "tl_Schedule t = s1" by (rule assembled_schedule [OF assms(1)])
  then have "validate_completion (t\<lparr>tl_Schedule := s2\<rparr>) = validate_completion t"
    using assms(3) by (simp add: validate_completion_def completions_def)
  then have "Timeline_Validate (t\<lparr>tl_Schedule := s2\<rparr>) = None"
    using t(1) assms(2) by (simp add: Timeline_Validate_def completions_def)
  then show ?thesis
    using f t(2)
    by (cases duty) (simp_all add: assemble_slot_def new files_reschedule draft Build_def NewTimeline_def Let_def)
qed

lemma timeline_reschedule:
  assumes "GetTimelineForValidatorSelection oob opened s v s1 = Inr t" "SlotSchedule_Validate s2 = None"
    and "sched_SecondsPerSlot s2 = sched_SecondsPerSlot s1"
  shows "GetTimelineForValidatorSelection oob opened s v s2 = Inr (t\<lparr>tl_Schedule := s2\<rparr>)"
proof -
  obtain db where db: "opened = Inr db" using assms(1) by (auto simp: GetTimelineForValidatorSelection_def split: sum.splits)
  have slotEnd: "SlotSchedule_SlotEndAt s2 = SlotSchedule_SlotEndAt s1" using assms(3) by (simp add: SlotSchedule_SlotEndAt_def fun_eq_iff)
  show ?thesis using assms(1) assemble_reschedule [OF _ assms(2,3)] unfolding db GetTimeline_Inr slotEnd by blast
qed

lemma finish_cause: "v_Cause (finish t draft outcome flags) \<in> {CauseNone, CauseNoRuleMatched, v_Cause draft}"
  by (auto simp: finish_def safeFallback_def NewVerdict_def Let_def split: sum.splits option.splits)

lemma analyze_loop_cause:
  "v_Cause (analyze_loop t cfg outcome flags rules) \<in> {CauseNone, CauseNoRuleMatched} \<or>
   (\<exists>d. find_map (\<lambda>r. rule_Evaluate r t cfg) rules = Some d \<and> v_Cause (analyze_loop t cfg outcome flags rules) = v_Cause d)"
proof (induction rules)
  case Nil
  then show ?case using finish_cause [of t "defensive_draft t" outcome flags] by (auto simp: defensive_draft_def mk_draft_def)
next
  case (Cons r rest)
  show ?case
  proof (cases "rule_Evaluate r t cfg")
    case (Some d)
    then show ?thesis
      using finish_cause [of t "clean_draft t" outcome flags] finish_cause [of t d outcome flags]
      by (auto simp: clean_draft_def mk_draft_def)
  qed (use Cons in simp)
qed

lemma pre_epbs_no_late_payload:
  assumes "SlotSchedule_PayloadRevealDeadlineAt (tl_Schedule t) (tl_SlotStart t) = None"
  shows "v_Cause (Analyze t cfg) \<noteq> CausePayloadLate"
proof
  assume late: "v_Cause (Analyze t cfg) = CausePayloadLate"
  have "v_Cause (finish t (no_duty_draft t) OutcomeNoDuty None) \<noteq> CausePayloadLate"
    using finish_cause [of t "no_duty_draft t" OutcomeNoDuty None] by (auto simp: no_duty_draft_def mk_draft_def)
  then obtain outcome flags where "v_Cause (analyze_loop t cfg outcome flags Order) = CausePayloadLate"
    using late by (auto simp: Analyze_def analyze_def split: prod.splits if_splits)
  then obtain d where "find_map (\<lambda>r. rule_Evaluate r t cfg) Order = Some d" "v_Cause d = CausePayloadLate"
    using analyze_loop_cause [of t cfg outcome flags Order] by auto
  from Order_causes(2) [OF this] assms show False by (simp add: PayloadLate_Evaluate_def)
qed

text \<open>
  Property C8: naming the validator drops the schedule of the node. \<open>whymiss timeline\<close> shows the facts of a validator under the
  schedule the node publishes; \<open>whymiss\<close> with the same arguments analyses the same facts under the configured one. A mainnet
  configuration on a chain that separates the payload then never blames a late payload, whatever the facts are.
\<close>

theorem validator_verdict_ignores_node:
  assumes "timeline_run flags env ''json'' arg [v] = Inr t"
    and "gf_schedule flags = MainnetPreEPBS" "sched_SecondsPerSlot (tl_Schedule t) = 12 * Second"
  shows "tl_Schedule t = resolved_schedule flags env \<and>
    explain_run flags env arg [v] = Inr (Analyze (t\<lparr>tl_Schedule := MainnetPreEPBS\<rparr>) (gf_rcaConfig flags)) \<and>
    v_Cause (Analyze (t\<lparr>tl_Schedule := MainnetPreEPBS\<rparr>) (gf_rcaConfig flags)) \<noteq> CausePayloadLate"
proof -
  obtain s where s: "ParseUint arg = Some s"
    and t: "GetTimelineForValidatorSelection (ce_oob env) (ce_store env) (of_nat s) (Some v) (resolved_schedule flags env) = Inr t"
    using assms(1)
    by (auto simp: timeline_run_def requestedValidator_def GetTimelineForValidator_def Let_def split: option.splits sum.splits)
  obtain db where db: "ce_store env = Inr db" using t by (auto simp: GetTimelineForValidatorSelection_def split: sum.splits)
  have sched: "tl_Schedule t = resolved_schedule flags env"
    using t unfolding db GetTimeline_Inr by (elim exE conjE) (rule assembled_schedule)
  have "SlotSchedule_Validate MainnetPreEPBS = None" by simp
  from timeline_reschedule [OF t this] assms(3) sched
  have "GetTimelineForValidatorSelection (ce_oob env) (ce_store env) (of_nat s) (Some v) MainnetPreEPBS = Inr (t\<lparr>tl_Schedule := MainnetPreEPBS\<rparr>)"
    by simp
  then have "explain_run flags env arg [v] = Inr (Analyze (t\<lparr>tl_Schedule := MainnetPreEPBS\<rparr>) (gf_rcaConfig flags))"
    using s assms(2) by (simp add: explain_run_def requestedValidator_def ExplainForValidator_def Let_def)
  moreover have "SlotSchedule_PayloadRevealDeadlineAt MainnetPreEPBS (tl_SlotStart t) = None"
    by (simp add: SlotSchedule_PayloadRevealDeadlineAt_def SlotSchedule_IsPostEPBS_def)
  ultimately show ?thesis using sched pre_epbs_no_late_payload [of "t\<lparr>tl_Schedule := MainnetPreEPBS\<rparr>"] by simp
qed

section \<open>A chain past the fork\<close>

definition fork_flags :: globalFlags where
  "fork_flags = \<lparr>gf_beaconAPI = ''http://node'', gf_schedule = MainnetPreEPBS, gf_rcaConfig = DefaultConfig\<rparr>"

definition fork_env :: command_env where
  "fork_env = \<lparr>ce_store = Inr shared_db, ce_genesis = Inr fork_genesis, ce_spec = Inr (Some fork_spec),
     ce_now = Add (gi_GenesisTime fork_genesis) (10 * 32 * 12 * Second), ce_oob = 0\<rparr>"

lemma fork_resolved: "resolved_schedule fork_flags fork_env = glamsterdam"
proof -
  have "currentEpoch fork_genesis (Add (gi_GenesisTime fork_genesis) (10 * 32 * 12 * Second)) = 10"
    by (simp add: currentEpoch_def fork_genesis_def Add_def Sub_def Before_def clamp64_def int64_defs go_div_def SlotsPerEpoch_def)
  then show ?thesis
    by (simp add: resolved_schedule_def ResolveSchedule_def adoptNodeSchedule_cases fork_flags_def fork_env_def fork_schedules(2))
qed

theorem validator_verdict_ignores_node_witness:
  "\<exists>t. timeline_run fork_flags fork_env ''json'' ''100'' [7] = Inr t \<and> tl_Schedule t = glamsterdam \<and>
     explain_run fork_flags fork_env ''100'' [7] = Inr (Analyze (t\<lparr>tl_Schedule := MainnetPreEPBS\<rparr>) DefaultConfig) \<and>
     v_Cause (Analyze (t\<lparr>tl_Schedule := MainnetPreEPBS\<rparr>) DefaultConfig) \<noteq> CausePayloadLate"
proof -
  obtain t where "GetTimelineForValidatorSelection 0 (Inr shared_db) 100 (Some 7) MainnetPreEPBS = Inr t" using shared_timeline [of 0] by blast
  moreover have "SlotSchedule_Validate glamsterdam = None" "sched_SecondsPerSlot glamsterdam = sched_SecondsPerSlot MainnetPreEPBS"
    by (simp_all add: SlotSchedule_Validate_def glamsterdam_def maxSupportedSlotDuration_def)
  ultimately have "GetTimelineForValidatorSelection 0 (Inr shared_db) 100 (Some 7) glamsterdam = Inr (t\<lparr>tl_Schedule := glamsterdam\<rparr>)"
    by (rule timeline_reschedule)
  moreover have "ParseUint ''100'' = Some 100" by (simp add: ParseUint_def digits_val_def digit_val_def is_digit_def)
  ultimately have run: "timeline_run fork_flags fork_env ''json'' ''100'' [7] = Inr (t\<lparr>tl_Schedule := glamsterdam\<rparr>)"
    unfolding timeline_run_def fork_resolved
    by (simp add: requestedValidator_def GetTimelineForValidator_def fork_env_def Let_def)
  have "sched_SecondsPerSlot glamsterdam = 12 * Second" "gf_schedule fork_flags = MainnetPreEPBS" "gf_rcaConfig fork_flags = DefaultConfig"
    by (simp_all add: glamsterdam_def fork_flags_def)
  with validator_verdict_ignores_node [OF run] run fork_resolved show ?thesis by auto
qed

end
