(* ===== verification/RateLimiter.thy ===== *)
theory RateLimiter
  imports Prelude GoStd "HOL-Library.Sublist"
begin

text \<open>
  The rate limiter of the Beacon API client (\<open>internal/source/beaconapi/client.go\<close>): callers queue in \<open>wait\<close>, one goroutine
  \<open>run\<close> grants the queue's head when the interval since the last grant has passed. Each definition is what a goroutine does
  between two points where another can act: a critical section of \<open>r.mu\<close>, or a wake-up. A waiter is a number; the fields
  after \<open>lim_now\<close> record the history. Time is monotonic, as Go's timers are.
\<close>

section \<open>The code\<close>

text \<open>
  Where \<open>run\<close> stands: not started, at the head of its loop, in the timer's \<open>select\<close>, before its second critical section, and
  inside it, between the check of the context and the grant.
\<close>

datatype run_state = Stopped | AtTop | Sleeping nat gotime | Woken nat | Granting nat

record limiter =
  lim_next :: gotime
  lim_queue :: "nat list"
  lim_running :: bool
  lim_run :: run_state
  lim_now :: gotime
  lim_arrived :: "nat list"
  lim_done :: "nat set"
  lim_grants :: "(nat \<times> gotime) list"
  lim_returned :: "nat \<rightharpoonup> bool"

definition newRateLimiter :: "gotime \<Rightarrow> limiter" where
  "newRateLimiter now =
     \<lparr>lim_next = time_zero, lim_queue = [], lim_running = False, lim_run = Stopped, lim_now = now, lim_arrived = [], lim_done = {},
      lim_grants = [], lim_returned = Map.empty\<rparr>"

definition granted :: "limiter \<Rightarrow> nat set" where
  "granted st = fst ` set (lim_grants st)"

text \<open>\<open>wait\<close> up to its \<open>select\<close>, for a context that is not done.\<close>

definition wait_enter :: "nat \<Rightarrow> limiter \<Rightarrow> limiter" where
  "wait_enter w st =
     (let queued = st\<lparr>lim_queue := lim_queue st @ [w], lim_arrived := lim_arrived st @ [w]\<rparr>
      in if lim_running st then queued else queued\<lparr>lim_running := True, lim_run := AtTop\<rparr>)"

text \<open>The \<open>select\<close> of \<open>wait\<close>: \<open>True\<close> is the nil error.\<close>

definition wait_return :: "nat \<Rightarrow> limiter \<Rightarrow> limiter option" where
  "wait_return w st =
     (if w \<in> granted st then Some (st\<lparr>lim_returned := (lim_returned st)(w \<mapsto> True)\<rparr>)
      else if w \<in> lim_done st then Some (st\<lparr>lim_returned := (lim_returned st)(w \<mapsto> False)\<rparr>)
      else None)"

text \<open>The first critical section of \<open>run\<close>.\<close>

definition run_pick :: "limiter \<Rightarrow> limiter" where
  "run_pick st =
     (case dropWhile (\<lambda>w. w \<in> lim_done st) (lim_queue st) of
        [] \<Rightarrow> st\<lparr>lim_queue := [], lim_running := False, lim_run := Stopped\<rparr>
      | w # rest \<Rightarrow>
          (let wait = Sub (lim_next st) (lim_now st)
           in st\<lparr>lim_queue := w # rest,
                 lim_run := (if wait > 0 then Sleeping w (Add (lim_now st) wait) else Woken w)\<rparr>))"

text \<open>The second critical section: the check, and the grant.\<close>

definition run_check :: "nat \<Rightarrow> limiter \<Rightarrow> limiter" where
  "run_check w st =
     (if lim_queue st = [] \<or> hd (lim_queue st) \<noteq> w \<or> w \<in> lim_done st then st\<lparr>lim_run := AtTop\<rparr>
      else st\<lparr>lim_run := Granting w\<rparr>)"

definition run_grant :: "duration \<Rightarrow> nat \<Rightarrow> limiter \<Rightarrow> limiter" where
  "run_grant minInterval w st =
     st\<lparr>lim_queue := tl (lim_queue st), lim_next := Add (lim_now st) minInterval, lim_grants := lim_grants st @ [(w, lim_now st)],
        lim_run := AtTop\<rparr>"

text \<open>
  The steps. \<open>run_grant\<close> is alone inside the lock, so that nobody enters meanwhile; contexts end and time passes at any point.
\<close>

inductive run_step :: "duration \<Rightarrow> limiter \<Rightarrow> limiter \<Rightarrow> bool" for minInterval where
  pick: "lim_run st = AtTop \<Longrightarrow> run_step minInterval st (run_pick st)"
| timer: "lim_run st = Sleeping w until \<Longrightarrow> \<not> Before (lim_now st) until \<Longrightarrow> run_step minInterval st (st\<lparr>lim_run := Woken w\<rparr>)"
| abandon: "lim_run st = Sleeping w until \<Longrightarrow> w \<in> lim_done st \<Longrightarrow> run_step minInterval st (st\<lparr>lim_run := AtTop\<rparr>)"
| check: "lim_run st = Woken w \<Longrightarrow> run_step minInterval st (run_check w st)"
| grant: "lim_run st = Granting w \<Longrightarrow> run_step minInterval st (run_grant minInterval w st)"
| tick: "\<not> Before now (lim_now st) \<Longrightarrow> run_step minInterval st (st\<lparr>lim_now := now\<rparr>)"

inductive limiter_step :: "duration \<Rightarrow> limiter \<Rightarrow> limiter \<Rightarrow> bool" for minInterval where
  running: "run_step minInterval st st' \<Longrightarrow> limiter_step minInterval st st'"
| enter: "w \<notin> set (lim_arrived st) \<Longrightarrow> w \<notin> lim_done st \<Longrightarrow> (\<forall>v. lim_run st \<noteq> Granting v) \<Longrightarrow> limiter_step minInterval st (wait_enter w st)"
| cancel: "limiter_step minInterval st (st\<lparr>lim_done := insert w (lim_done st)\<rparr>)"
| return: "w \<in> set (lim_arrived st) \<Longrightarrow> lim_returned st w = None \<Longrightarrow> wait_return w st = Some st' \<Longrightarrow> limiter_step minInterval st st'"

inductive_cases run_stepE: "run_step minInterval st st'"
inductive_cases limiter_stepE: "limiter_step minInterval st st'"

inductive limiter_reach :: "duration \<Rightarrow> limiter \<Rightarrow> bool" for minInterval where
  start: "\<not> Before now time_zero \<Longrightarrow> limiter_reach minInterval (newRateLimiter now)"
| step: "limiter_reach minInterval st \<Longrightarrow> limiter_step minInterval st st' \<Longrightarrow> limiter_reach minInterval st'"

section \<open>The invariant\<close>

text \<open>
  The queue is what has arrived and was neither granted nor dropped, in order; \<open>run\<close> lives exactly while it is marked as
  running, and a waiter it has woken is due.
\<close>

fun run_ok :: "limiter \<Rightarrow> run_state \<Rightarrow> bool" where
  "run_ok st Stopped \<longleftrightarrow> \<not> lim_running st \<and> lim_queue st = []"
| "run_ok st AtTop \<longleftrightarrow> lim_running st"
| "run_ok st (Sleeping w until) \<longleftrightarrow> lim_running st \<and> lim_queue st \<noteq> [] \<and> hd (lim_queue st) = w \<and> t_ns until = t_ns (lim_next st)"
| "run_ok st (Woken w) \<longleftrightarrow> lim_running st \<and> lim_queue st \<noteq> [] \<and> hd (lim_queue st) = w \<and> \<not> Before (lim_now st) (lim_next st)"
| "run_ok st (Granting w) \<longleftrightarrow> lim_running st \<and> lim_queue st \<noteq> [] \<and> hd (lim_queue st) = w \<and> \<not> Before (lim_now st) (lim_next st)"

definition spaced :: "duration \<Rightarrow> (nat \<times> gotime) list \<Rightarrow> bool" where
  "spaced minInterval grants \<longleftrightarrow> sorted_wrt (\<lambda>a b. t_ns (snd a) + minInterval \<le> t_ns (snd b)) grants"

definition limiter_inv :: "duration \<Rightarrow> limiter \<Rightarrow> bool" where
  "limiter_inv minInterval st \<longleftrightarrow>
     distinct (lim_arrived st) \<and> subseq (map fst (lim_grants st) @ lim_queue st) (lim_arrived st) \<and>
     set (lim_arrived st) - lim_done st \<subseteq> granted st \<union> set (lim_queue st) \<and>
     run_ok st (lim_run st) \<and> spaced minInterval (lim_grants st) \<and>
     (\<forall>g \<in> set (lim_grants st). t_ns (snd g) + minInterval \<le> t_ns (lim_next st) \<and> t_ns (snd g) \<le> t_ns (lim_now st)) \<and>
     0 \<le> t_ns (lim_now st) \<and> (lim_grants st = [] \<and> lim_next st = time_zero \<or> t_ns (lim_next st) \<le> t_ns (lim_now st) + minInterval) \<and>
     (\<forall>w. lim_returned st w = Some True \<longrightarrow> w \<in> granted st)"

lemma limiter_invD:
  assumes "limiter_inv minInterval st"
  shows "distinct (lim_arrived st)" "subseq (map fst (lim_grants st) @ lim_queue st) (lim_arrived st)"
    "set (lim_arrived st) - lim_done st \<subseteq> granted st \<union> set (lim_queue st)" "run_ok st (lim_run st)" "spaced minInterval (lim_grants st)"
    "lim_next st = time_zero \<or> t_ns (lim_next st) \<le> t_ns (lim_now st) + minInterval"
    "lim_returned st w = Some True \<Longrightarrow> w \<in> granted st"
  using assms by (auto simp: limiter_inv_def)

lemma inv_start: "\<not> Before now time_zero \<Longrightarrow> limiter_inv minInterval (newRateLimiter now)"
  by (simp add: limiter_inv_def newRateLimiter_def spaced_def granted_def Before_def)

lemma subseq_dropWhile: "subseq (xs @ dropWhile P ys) (xs @ ys)"
  unfolding subseq_append' by (rule suffix_imp_subseq [OF suffix_dropWhile])

lemma dropWhile_keeps: "w \<in> set q \<Longrightarrow> \<not> P w \<Longrightarrow> w \<in> set (dropWhile P q)"
  by (induction q) auto

lemma inv_pick:
  assumes "limiter_inv minInterval st" "lim_run st = AtTop" "in_int64 minInterval"
  shows "limiter_inv minInterval (run_pick st)"
proof -
  let ?q = "dropWhile (\<lambda>w. w \<in> lim_done st) (lim_queue st)"
  have sub: "subseq (map fst (lim_grants st) @ ?q) (lim_arrived st)"
    by (rule subseq_order.trans [OF subseq_dropWhile limiter_invD(2) [OF assms(1)]])
  have live: "set (lim_arrived st) - lim_done st \<subseteq> granted st \<union> set ?q"
    using limiter_invD(3) [OF assms(1)] dropWhile_keeps [of _ "lim_queue st" "\<lambda>w. w \<in> lim_done st"] by blast
  have wait: "Sub (lim_next st) (lim_now st) > 0 \<Longrightarrow> Sub (lim_next st) (lim_now st) = t_ns (lim_next st) - t_ns (lim_now st)"
    using assms(1,3) unfolding limiter_inv_def by (auto simp: Sub_def clamp64_def int64_defs)
  show ?thesis
  proof (cases ?q)
    case Nil
    have "run_pick st = st\<lparr>lim_queue := [], lim_running := False, lim_run := Stopped\<rparr>" unfolding run_pick_def Nil by simp
    then show ?thesis using assms(1) sub live unfolding Nil by (simp add: limiter_inv_def granted_def)
  next
    case (Cons w rest)
    have due: "\<not> Sub (lim_next st) (lim_now st) > 0 \<Longrightarrow> \<not> Before (lim_now st) (lim_next st)"
      by (simp add: Sub_def clamp64_def int64_defs Before_def split: if_splits)
    show ?thesis
      using assms(1,2) sub live wait due unfolding Cons
      by (cases "Sub (lim_next st) (lim_now st) > 0") (simp_all add: run_pick_def limiter_inv_def granted_def Cons Let_def)
  qed
qed

lemma spaced_snoc: "spaced d (gs @ [g]) \<longleftrightarrow> spaced d gs \<and> (\<forall>x \<in> set gs. t_ns (snd x) + d \<le> t_ns (snd g))"
  by (auto simp: spaced_def sorted_wrt_append)

lemma inv_grant:
  assumes "limiter_inv minInterval st" "lim_run st = Granting w" "0 \<le> minInterval"
  shows "limiter_inv minInterval (run_grant minInterval w st)"
proof -
  obtain rest where q: "lim_queue st = w # rest" and due: "t_ns (lim_next st) \<le> t_ns (lim_now st)" and run: "lim_running st"
    using assms(1,2) by (cases "lim_queue st") (auto simp: limiter_inv_def Before_def)
  have "\<forall>g \<in> set (lim_grants st). t_ns (snd g) + minInterval \<le> t_ns (lim_now st)"
    using assms(1) due unfolding limiter_inv_def by fastforce
  then show ?thesis
    using assms q run by (auto simp: run_grant_def limiter_inv_def spaced_snoc granted_def)
qed

lemma inv_step:
  assumes "limiter_inv minInterval st" "limiter_step minInterval st st'" "0 \<le> minInterval" "in_int64 minInterval"
  shows "limiter_inv minInterval st'"
  using assms(2)
proof cases
  case running
  then show ?thesis
  proof cases
    case pick
    then show ?thesis using inv_pick assms by simp
  next
    case (timer w until)
    then show ?thesis using assms(1) by (simp add: limiter_inv_def granted_def Before_def)
  next
    case (abandon w until)
    then show ?thesis using assms(1) by (simp add: limiter_inv_def granted_def)
  next
    case (check w)
    then show ?thesis using assms(1) by (simp add: run_check_def limiter_inv_def granted_def)
  next
    case (grant w)
    then show ?thesis using inv_grant assms by simp
  next
    case (tick now)
    have "run_ok (st\<lparr>lim_now := now\<rparr>) (lim_run st)" if "run_ok st (lim_run st)"
      using that tick(2) by (cases "lim_run st") (auto simp: Before_def)
    then show ?thesis using assms(1) tick by (auto simp: limiter_inv_def granted_def Before_def)
  qed
next
  case (enter w)
  have "run_ok (wait_enter w st) (lim_run (wait_enter w st))"
    using assms(1) enter(4) by (cases "lim_run st") (auto simp: limiter_inv_def wait_enter_def Let_def)
  then show ?thesis
    using assms(1) enter by (auto simp: limiter_inv_def wait_enter_def granted_def Let_def simp flip: append_assoc)
next
  case (cancel w)
  have "run_ok (st\<lparr>lim_done := insert w (lim_done st)\<rparr>) (lim_run st) = run_ok st (lim_run st)" by (cases "lim_run st") simp_all
  then show ?thesis using assms(1) cancel by (auto simp: limiter_inv_def granted_def)
next
  case (return w)
  obtain b where b: "st' = st\<lparr>lim_returned := (lim_returned st)(w \<mapsto> b)\<rparr>" "b \<longrightarrow> w \<in> granted st"
    using return(3) by (auto simp: wait_return_def split: if_splits)
  have "run_ok st' (lim_run st) = run_ok st (lim_run st)" unfolding b(1) by (cases "lim_run st") simp_all
  then show ?thesis using assms(1) b by (auto simp: limiter_inv_def granted_def)
qed

lemma reach_inv:
  assumes "limiter_reach minInterval st" "0 \<le> minInterval" "in_int64 minInterval"
  shows "limiter_inv minInterval st"
  using assms(1) by induction (use inv_start inv_step assms(2,3) in auto)

text \<open>
  Property C13: requests are spaced and served in turn. However callers arrive, give up and are scheduled, any two grants are at
  least the interval apart, callers are granted in the order they arrived and each at most once, and \<open>wait\<close> returns nil only to
  a caller that was granted.
\<close>

theorem grants_spaced_in_order:
  assumes "limiter_reach minInterval st" "0 \<le> minInterval" "in_int64 minInterval"
  shows "sorted_wrt (\<lambda>a b. t_ns (snd a) + minInterval \<le> t_ns (snd b)) (lim_grants st) \<and>
    subseq (map fst (lim_grants st)) (lim_arrived st) \<and> distinct (map fst (lim_grants st)) \<and>
    (\<forall>w. lim_returned st w = Some True \<longrightarrow> w \<in> granted st)"
proof -
  note inv = limiter_invD [OF reach_inv [OF assms]]
  have "subseq (map fst (lim_grants st)) (map fst (lim_grants st) @ lim_queue st)" by (rule prefix_imp_subseq) simp
  then have sub: "subseq (map fst (lim_grants st)) (lim_arrived st)" using inv(2) by (rule subseq_order.trans)
  then obtain N where "map fst (lim_grants st) = nths (lim_arrived st) N" by (auto simp: subseq_conv_nths)
  then have "distinct (map fst (lim_grants st))" using distinct_nthsI [OF inv(1)] by simp
  with sub show ?thesis using inv(5,7) unfolding spaced_def by blast
qed

section \<open>Nobody is starved\<close>

abbreviation runs :: "duration \<Rightarrow> limiter \<Rightarrow> limiter \<Rightarrow> bool" where
  "runs minInterval \<equiv> (run_step minInterval)\<^sup>*\<^sup>*"

definition due :: "limiter \<Rightarrow> int" where
  "due st = max (t_ns (lim_now st)) (t_ns (lim_next st))"

text \<open>What \<open>run\<close> keeps while it serves a queue: contexts and arrivals are others' steps.\<close>

lemma run_keeps:
  assumes "runs minInterval st st'" "limiter_inv minInterval st" "0 \<le> minInterval" "in_int64 minInterval"
  shows "limiter_inv minInterval st'" "lim_done st' = lim_done st"
proof -
  have "limiter_inv minInterval st' \<and> lim_done st' = lim_done st"
    using assms(1)
  proof induction
    case (step y z)
    have "lim_done z = lim_done y"
      using step(2) by cases (auto simp: run_pick_def run_check_def run_grant_def Let_def split: list.splits)
    then show ?case using step inv_step [OF _ limiter_step.running] assms(3,4) by metis
  qed (use assms(2) in simp)
  then show "limiter_inv minInterval st'" "lim_done st' = lim_done st" by simp_all
qed

text \<open>The head of the queue, woken or asleep, is either granted by the time it is due, or \<open>run\<close> is back at the top of its loop.\<close>

lemma grant_runs:
  assumes "lim_run st = Granting w"
  shows "runs minInterval st (run_grant minInterval w st)"
  using assms run_step.grant by blast

lemma woken_runs:
  assumes "lim_run st = Woken w" "lim_queue st \<noteq> []" "hd (lim_queue st) = w"
  shows "w \<notin> lim_done st \<Longrightarrow> runs minInterval st (run_grant minInterval w (st\<lparr>lim_run := Granting w\<rparr>))"
    and "w \<in> lim_done st \<Longrightarrow> runs minInterval st (st\<lparr>lim_run := AtTop\<rparr>)"
proof -
  note step = r_into_rtranclp [of "run_step minInterval", OF run_step.check [OF assms(1)]]
  show "runs minInterval st (run_grant minInterval w (st\<lparr>lim_run := Granting w\<rparr>))" if "w \<notin> lim_done st"
    using rtranclp_trans [OF step grant_runs [of "run_check w st" w]] that assms(2,3) by (simp add: run_check_def)
  show "runs minInterval st (st\<lparr>lim_run := AtTop\<rparr>)" if "w \<in> lim_done st" using step that by (simp add: run_check_def)
qed

lemma sleeping_runs:
  assumes "lim_run st = Sleeping w until" "t_ns until = t_ns (lim_next st)"
  shows "runs minInterval st (st\<lparr>lim_now := (lim_now st)\<lparr>t_ns := due st\<rparr>, lim_run := Woken w\<rparr>)"
proof -
  let ?st = "st\<lparr>lim_now := (lim_now st)\<lparr>t_ns := due st\<rparr>\<rparr>"
  have "run_step minInterval st ?st" by (rule run_step.tick) (simp add: Before_def due_def)
  moreover have "run_step minInterval ?st (?st\<lparr>lim_run := Woken w\<rparr>)"
    by (rule run_step.timer) (use assms in \<open>auto simp: Before_def due_def\<close>)
  ultimately show ?thesis by (metis rtranclp.rtrancl_into_rtrancl r_into_rtranclp)
qed

text \<open>From the top of the loop, the first caller that still waits is granted when it is due.\<close>

definition next_grant :: "duration \<Rightarrow> limiter \<Rightarrow> nat \<Rightarrow> nat list \<Rightarrow> limiter \<Rightarrow> bool" where
  "next_grant minInterval st w rest st' \<longleftrightarrow>
     lim_run st' = AtTop \<and> lim_queue st' = rest \<and> granted st' = insert w (granted st) \<and>
     t_ns (lim_now st') \<le> due st \<and> t_ns (lim_next st') \<le> due st + minInterval"

lemma next_grantI:
  assumes "lim_queue st1 = w # rest" "granted st1 = granted st" "t_ns (lim_now st1) \<le> due st"
  shows "next_grant minInterval st w rest (run_grant minInterval w st1)"
  using assms by (simp add: next_grant_def run_grant_def granted_def)

lemma granted_update [simp]: "granted (st\<lparr>lim_run := r\<rparr>) = granted st" "granted (st\<lparr>lim_now := now\<rparr>) = granted st"
  by (simp_all add: granted_def)

lemma top_grants:
  assumes "limiter_inv minInterval st" "lim_run st = AtTop" "0 \<le> minInterval" "in_int64 minInterval"
    and "dropWhile (\<lambda>w. w \<in> lim_done st) (lim_queue st) = w # rest"
  shows "\<exists>st'. runs minInterval st st' \<and> next_grant minInterval st w rest st'"
proof -
  let ?p = "run_pick st"
  have w: "w \<notin> lim_done st" using assms(5) by (auto simp: dropWhile_eq_Cons_conv)
  have p: "lim_queue ?p = w # rest" "lim_done ?p = lim_done st" "granted ?p = granted st" "due ?p = due st" "lim_next ?p = lim_next st"
    "lim_now ?p = lim_now st" by (simp_all add: run_pick_def assms(5) Let_def granted_def due_def)
  have ok: "run_ok ?p (lim_run ?p)" by (rule limiter_invD(4) [OF inv_pick [OF assms(1,2,4)]])
  have step: "runs minInterval st ?p" using run_step.pick [OF assms(2)] by blast
  show ?thesis
  proof (cases "\<exists>until. lim_run ?p = Sleeping w until")
    case True
    then obtain until where s: "lim_run ?p = Sleeping w until" "t_ns until = t_ns (lim_next ?p)" using ok by auto
    let ?q = "?p\<lparr>lim_now := (lim_now ?p)\<lparr>t_ns := due ?p\<rparr>, lim_run := Woken w\<rparr>"
    have "runs minInterval ?q (run_grant minInterval w (?q\<lparr>lim_run := Granting w\<rparr>))" by (rule woken_runs(1)) (use p w in simp_all)
    then have "runs minInterval st (run_grant minInterval w (?q\<lparr>lim_run := Granting w\<rparr>))"
      using step sleeping_runs [OF s] by (meson rtranclp_trans)
    moreover have "next_grant minInterval st w rest (run_grant minInterval w (?q\<lparr>lim_run := Granting w\<rparr>))"
      by (rule next_grantI) (simp_all add: p)
    ultimately show ?thesis by blast
  next
    case False
    then have s: "lim_run ?p = Woken w" by (auto simp: run_pick_def assms(5) Let_def split: if_splits)
    have "runs minInterval ?p (run_grant minInterval w (?p\<lparr>lim_run := Granting w\<rparr>))" by (rule woken_runs(1)) (use p w s in simp_all)
    then have "runs minInterval st (run_grant minInterval w (?p\<lparr>lim_run := Granting w\<rparr>))" using step by (meson rtranclp_trans)
    moreover have "next_grant minInterval st w rest (run_grant minInterval w (?p\<lparr>lim_run := Granting w\<rparr>))"
      by (rule next_grantI) (simp_all add: p due_def)
    ultimately show ?thesis by blast
  qed
qed

text \<open>The place of a caller in the queue.\<close>

definition ahead :: "nat \<Rightarrow> nat list \<Rightarrow> nat" where
  "ahead w q = length (takeWhile (\<lambda>v. v \<noteq> w) q)"

lemma ahead_drop:
  assumes "w \<in> set q" "\<not> P w" "dropWhile P q = v # rest"
  shows "v = w \<or> (w \<in> set rest \<and> ahead w rest < ahead w q)"
  using assms by (induction q) (auto simp: ahead_def split: if_splits)

lemma served_from_top:
  assumes "limiter_inv minInterval st" "lim_run st = AtTop" "0 \<le> minInterval" "in_int64 minInterval" "w \<in> set (lim_queue st)" "w \<notin> lim_done st"
  shows "\<exists>st'. runs minInterval st st' \<and> w \<in> granted st' \<and> t_ns (lim_now st') \<le> due st + int (ahead w (lim_queue st)) * minInterval"
  using assms
proof (induction "ahead w (lim_queue st)" arbitrary: st rule: less_induct)
  case less
  obtain v rest where d: "dropWhile (\<lambda>w. w \<in> lim_done st) (lim_queue st) = v # rest"
    using dropWhile_keeps [OF less(6), of "\<lambda>w. w \<in> lim_done st"] less(7) by (cases "dropWhile (\<lambda>w. w \<in> lim_done st) (lim_queue st)") auto
  obtain st1 where st1: "runs minInterval st st1" "next_grant minInterval st v rest st1" using top_grants [OF less(2-5) d] by blast
  note keeps = run_keeps [OF st1(1) less(2,4,5)]
  have pos: "0 \<le> int n * minInterval" for n using less(4) by simp
  show ?case
  proof (cases "v = w")
    case True
    then show ?thesis using st1 pos [of "ahead w (lim_queue st)"] by (auto simp: next_grant_def intro!: exI [of _ st1])
  next
    case False
    then have w: "w \<in> set rest" "ahead w rest < ahead w (lim_queue st)"
      using ahead_drop [OF less(6) _ d] less(7) by auto
    have st1': "lim_run st1 = AtTop" "lim_queue st1 = rest" "due st1 \<le> due st + minInterval"
      using st1(2) less(4) by (auto simp: next_grant_def due_def)
    obtain st2 where st2: "runs minInterval st1 st2" "w \<in> granted st2" "t_ns (lim_now st2) \<le> due st1 + int (ahead w rest) * minInterval"
      using less(1) [of st1] w st1' keeps less(4,5,7) by auto
    have "int (ahead w rest) * minInterval + minInterval \<le> int (ahead w (lim_queue st)) * minInterval"
      using w(2) less(4) mult_right_mono [of "int (ahead w rest) + 1" "int (ahead w (lim_queue st))" minInterval] by (simp add: algebra_simps)
    then have "t_ns (lim_now st2) \<le> due st + int (ahead w (lim_queue st)) * minInterval" using st2(3) st1'(3) by linarith
    then show ?thesis using rtranclp_trans [OF st1(1) st2(1)] st2(2) by blast
  qed
qed

text \<open>Wherever \<open>run\<close> stands, it gets to the top of its loop by the time its caller is due.\<close>

lemma back_to_top:
  assumes "limiter_inv minInterval st" "lim_run st \<noteq> AtTop" "lim_queue st = v # rest"
  shows "\<exists>st1. runs minInterval st st1 \<and>
    (next_grant minInterval st v rest st1 \<or> v \<in> lim_done st \<and> lim_run st1 = AtTop \<and> lim_queue st1 = lim_queue st \<and> due st1 = due st)"
proof -
  have woken: "\<exists>st1. runs minInterval s st1 \<and> (next_grant minInterval st v rest st1 \<or>
      v \<in> lim_done st \<and> lim_run st1 = AtTop \<and> lim_queue st1 = lim_queue st \<and> due st1 = due st)"
    if s: "lim_run s = Woken v" "lim_queue s = lim_queue st" "lim_done s = lim_done st" "granted s = granted st" "t_ns (lim_now s) \<le> due st" "due s = due st" for s
  proof (cases "v \<in> lim_done st")
    case True
    have "runs minInterval s (s\<lparr>lim_run := AtTop\<rparr>)" by (rule woken_runs(2)) (use s assms(3) True in simp_all)
    moreover have "due (s\<lparr>lim_run := AtTop\<rparr>) = due st" using s(6) by (simp add: due_def)
    ultimately show ?thesis using s(2) True by fastforce
  next
    case False
    have "runs minInterval s (run_grant minInterval v (s\<lparr>lim_run := Granting v\<rparr>))" by (rule woken_runs(1)) (use s assms(3) False in simp_all)
    moreover have "next_grant minInterval st v rest (run_grant minInterval v (s\<lparr>lim_run := Granting v\<rparr>))"
      by (rule next_grantI) (use s assms(3) in simp_all)
    ultimately show ?thesis by blast
  qed
  note ok = limiter_invD(4) [OF assms(1)]
  show ?thesis
  proof (cases "lim_run st")
    case (Sleeping w until)
    then have w: "w = v" "t_ns until = t_ns (lim_next st)" using ok assms(3) by auto
    let ?s = "st\<lparr>lim_now := (lim_now st)\<lparr>t_ns := due st\<rparr>, lim_run := Woken w\<rparr>"
    have "runs minInterval st ?s" by (rule sleeping_runs [OF Sleeping w(2)])
    moreover have "due ?s = due st" by (simp add: due_def)
    ultimately show ?thesis using woken [of ?s] w(1) by (auto intro: rtranclp_trans)
  next
    case (Woken w)
    then show ?thesis using woken [of st] ok assms(3) by (auto simp: due_def)
  next
    case (Granting w)
    then have "w = v" using ok assms(3) by auto
    then show ?thesis using grant_runs [OF Granting, of minInterval] next_grantI [of st v rest st minInterval] assms(3) by (auto simp: due_def)
  qed (use assms ok in auto)
qed


section \<open>Two callers\<close>

definition two_waiting :: limiter where
  "two_waiting = wait_enter 2 (wait_enter 1 (newRateLimiter \<lparr>t_ns = 1000, t_loc = UTC\<rparr>))"

lemma two_reached: "limiter_reach 200 two_waiting"
proof -
  let ?s = "newRateLimiter \<lparr>t_ns = 1000, t_loc = UTC\<rparr>"
  have "limiter_reach 200 ?s" by (rule limiter_reach.start) (simp add: Before_def)
  then have "limiter_reach 200 (wait_enter 1 ?s)"
    by (rule limiter_reach.step) (rule limiter_step.enter, simp_all add: newRateLimiter_def)
  then show ?thesis unfolding two_waiting_def
    by (rule limiter_reach.step) (rule limiter_step.enter, simp_all add: newRateLimiter_def wait_enter_def)
qed


theorem grants_spaced_in_order_witness:
  "\<exists>st. limiter_reach 200 st \<and> lim_grants st = [(1, \<lparr>t_ns = 1000, t_loc = UTC\<rparr>)] \<and> subseq (map fst (lim_grants st)) [1, 2] \<and>
     sorted_wrt (\<lambda>a b. t_ns (snd a) + 200 \<le> t_ns (snd b)) (lim_grants st)"
proof -
  let ?p = "run_pick two_waiting"
  have p: "lim_run ?p = Woken 1" "lim_queue ?p = [1, 2]" "lim_done ?p = {}"
    by (simp_all add: run_pick_def two_waiting_def wait_enter_def newRateLimiter_def Let_def Sub_def clamp64_def int64_defs)
  let ?c = "run_check 1 ?p"
  have c: "lim_run ?c = Granting 1" using p by (simp add: run_check_def)
  let ?g = "run_grant 200 1 ?c"
  have "limiter_reach 200 ?p" "limiter_reach 200 ?c" "limiter_reach 200 ?g"
  proof -
    have "lim_run two_waiting = AtTop" by (simp add: two_waiting_def wait_enter_def newRateLimiter_def)
    then show r: "limiter_reach 200 ?p" using limiter_reach.step [OF two_reached] limiter_step.running run_step.pick by blast
    then show r': "limiter_reach 200 ?c" using limiter_reach.step limiter_step.running run_step.check p(1) by blast
    then show "limiter_reach 200 ?g" using limiter_reach.step limiter_step.running run_step.grant c by blast
  qed
  moreover have g: "lim_grants ?g = [(1, \<lparr>t_ns = 1000, t_loc = UTC\<rparr>)]" "lim_arrived ?g = [1, 2]"
    using p by (simp_all add: run_grant_def run_check_def)
      (simp_all add: run_pick_def two_waiting_def wait_enter_def newRateLimiter_def Let_def Sub_def clamp64_def int64_defs)
  ultimately show ?thesis using grants_spaced_in_order [of 200 ?g] by (auto simp: int64_defs)
qed

end
