(* ===== verification/EventStream.thy ===== *)
theory EventStream
  imports Metrics Beacon Backoff GoFormat
begin

text \<open>
  What a response and an event become (\<open>internal/source/beaconapi\<close>: \<open>client.go\<close>, \<open>stream.go\<close>, \<open>peers.go\<close>, \<open>version.go\<close>;
  \<open>internal/source/registry.go\<close>). The transport's answers, the lines of an event stream and the JSON decoder are arguments.
\<close>

section \<open>Responses\<close>

datatype client_error =
    RateLimited | Transport | UnexpectedStatus nat string | BodyTooLong int | ReadFailed | BadEnvelope | BadData
  | NotFound | BadNumber string | BadSample domain_error

definition maxResponseBodyBytes :: nat where "maxResponseBodyBytes = 16 * 2 ^ 20"

text \<open>A response with the bytes that arrive and whether reading them ends in an error; the length is -1 when it is not announced.\<close>

record http_response =
  rs_StatusCode :: nat
  rs_ContentLength :: int
  rs_Body :: string
  rs_ReadError :: bool

definition readResponse :: "http_response option \<Rightarrow> client_error + string option" where
  "readResponse answer =
     (case answer of
        None \<Rightarrow> Inl Transport
      | Some resp \<Rightarrow>
          if rs_StatusCode resp = 404 \<or> rs_StatusCode resp = 410 then Inr None
          else if rs_StatusCode resp \<noteq> 200 then Inl (UnexpectedStatus (rs_StatusCode resp) (take 4096 (rs_Body resp)))
          else if rs_ContentLength resp > int maxResponseBodyBytes then Inl (BodyTooLong (rs_ContentLength resp))
          else if length (rs_Body resp) \<le> maxResponseBodyBytes \<and> rs_ReadError resp then Inl ReadFailed
          else (let body = take (maxResponseBodyBytes + 1) (rs_Body resp)
                in if length body > maxResponseBodyBytes then Inl (BodyTooLong (int (length body))) else Inr (Some body)))"

text \<open>\<open>do\<close>: the raw \<open>data\<close> field of the body, and what is decoded from it.\<close>

definition client_do :: "(string \<Rightarrow> 'raw option) \<Rightarrow> ('raw \<Rightarrow> 'a option) \<Rightarrow> http_response option \<Rightarrow> client_error + 'a option" where
  "client_do envelope decode answer =
     (case readResponse answer of
        Inl e \<Rightarrow> Inl e
      | Inr None \<Rightarrow> Inr None
      | Inr (Some body) \<Rightarrow>
          (case envelope body of
             None \<Rightarrow> Inl BadEnvelope
           | Some raw \<Rightarrow> (case decode raw of None \<Rightarrow> Inl BadData | Some v \<Rightarrow> Inr (Some v))))"

text \<open>\<open>get\<close> waits for the limiter first; \<open>getEnvelope\<close> decodes the whole body.\<close>

definition client_get :: "bool \<Rightarrow> (string \<Rightarrow> 'raw option) \<Rightarrow> ('raw \<Rightarrow> 'a option) \<Rightarrow> http_response option \<Rightarrow> client_error + 'a option" where
  "client_get permitted envelope decode answer = (if \<not> permitted then Inl RateLimited else client_do envelope decode answer)"

definition getEnvelope :: "bool \<Rightarrow> (string \<Rightarrow> 'a option) \<Rightarrow> http_response option \<Rightarrow> client_error + 'a option" where
  "getEnvelope permitted decode answer =
     (if \<not> permitted then Inl RateLimited
      else case readResponse answer of
        Inl e \<Rightarrow> Inl e
      | Inr None \<Rightarrow> Inr None
      | Inr (Some body) \<Rightarrow> (case decode body of None \<Rightarrow> Inl BadEnvelope | Some v \<Rightarrow> Inr (Some v)))"

section \<open>The node's version and peers\<close>

definition FetchNodeVersion :: "client_error + string option \<Rightarrow> client_error + string" where
  "FetchNodeVersion response = (case response of Inl e \<Rightarrow> Inl e | Inr None \<Rightarrow> Inl NotFound | Inr (Some v) \<Rightarrow> Inr v)"

definition DetectConsensusClient :: "string \<Rightarrow> ConsensusClient" where
  "DetectConsensusClient versionString =
     (if HasPrefix versionString ''Lighthouse'' then ConsensusLighthouse
      else if HasPrefix versionString ''Prysm'' then ConsensusPrysm
      else ConsensusOther ''unknown'')"

definition MetricCLPeerCount :: string where "MetricCLPeerCount = ''cl_peer_count''"

definition peer_sample :: "f64 \<Rightarrow> gotime \<Rightarrow> MetricSample" where
  "peer_sample v now =
     \<lparr>ms_At = in_UTC now, ms_Component = ComponentCL, ms_Name = MetricCLPeerCount, ms_Value = v,
      ms_ClockOffset = 0, ms_ClockMeasured = False, ms_ClockSampleAt = time_zero, ms_Source = SourceBeaconAPI\<rparr>"

definition PeerCount :: "client_error + string option \<Rightarrow> gotime \<Rightarrow> client_error + MetricSample" where
  "PeerCount response now =
     (case response of
        Inl e \<Rightarrow> Inl e
      | Inr None \<Rightarrow> Inl NotFound
      | Inr (Some peersText) \<Rightarrow>
          (case ParseFloat peersText of
             None \<Rightarrow> Inl (BadNumber peersText)
           | Some v \<Rightarrow>
               if f_lt v (FFin 0) \<or> \<not> f_finite v then Inl (BadNumber peersText)
               else (case MetricSample_Validate (peer_sample v now) of
                       Some e \<Rightarrow> Inl (BadSample e)
                     | None \<Rightarrow> Inr (peer_sample v now))))"

section \<open>Events\<close>

record head_payload =
  hp_Slot :: string
  hp_Block :: string
  hp_ExecutionOptimistic :: "bool option"

record event_decoder =
  dec_head :: "string \<Rightarrow> head_payload option"
  dec_reorg :: "string \<Rightarrow> string option"

datatype event_error = BadPayload | BadSlot string | BadRoot bits_error | NoOptimisticStatus | BadEvent domain_error

definition new_event :: "Observation \<Rightarrow> event_error + Observation option" where
  "new_event draft = (case NewObservation draft of Inl e \<Rightarrow> Inl (BadEvent e) | Inr ob \<Rightarrow> Inr (Some ob))"

definition parseEvent :: "event_decoder \<Rightarrow> string \<Rightarrow> string \<Rightarrow> gotime \<Rightarrow> event_error + Observation option" where
  "parseEvent dec eventType text now =
     (if eventType = ''head'' then
        (case dec_head dec text of
           None \<Rightarrow> Inl BadPayload
         | Some payload \<Rightarrow>
             (case ParseUint (hp_Slot payload) of
                None \<Rightarrow> Inl (BadSlot (hp_Slot payload))
              | Some s \<Rightarrow>
                  (case validateBeaconRoot (hp_Block payload) of
                     Some e \<Rightarrow> Inl (BadRoot e)
                   | None \<Rightarrow>
                       (case hp_ExecutionOptimistic payload of
                          None \<Rightarrow> Inl NoOptimisticStatus
                        | Some optimistic \<Rightarrow>
                            if optimistic then Inr None
                            else new_event (beacon_draft (of_nat s) ObsHeadUpdated (in_UTC now) [(AttrBlockRoot, hp_Block payload)])))))
      else if eventType = ''chain_reorg'' then
        (case dec_reorg dec text of
           None \<Rightarrow> Inl BadPayload
         | Some slotText \<Rightarrow>
             (case ParseUint slotText of
                None \<Rightarrow> Inl (BadSlot slotText)
              | Some s \<Rightarrow> new_event (beacon_draft (of_nat s) ObsReorg (in_UTC now) [])))
      else Inr None)"

section \<open>One connection\<close>

text \<open>A line, the time it is read, and whether the context ended while its observation waited for the receiver.\<close>

record stream_line =
  ln_text :: string
  ln_now :: gotime
  ln_ctxDone :: bool

datatype stream_error =
    StreamLimiter | StreamConnect | StreamStatus nat | StreamParse string event_error | StreamCtx | StreamIdle | StreamRead | StreamClosedByNode

text \<open>The scanner's loop: what was sent, and the error that ended it, \<open>None\<close> when the lines ran out.\<close>

fun scan_events :: "event_decoder \<Rightarrow> string \<Rightarrow> stream_line list \<Rightarrow> Observation list \<times> stream_error option" where
  "scan_events dec eventType [] = ([], None)"
| "scan_events dec eventType (l # rest) =
     (case CutPrefix (ln_text l) ''event:'' of
        Some name \<Rightarrow> scan_events dec (TrimSpace name) rest
      | None \<Rightarrow>
          (case CutPrefix (ln_text l) ''data:'' of
             Some payload \<Rightarrow>
               (case parseEvent dec eventType (TrimSpace payload) (ln_now l) of
                  Inl e \<Rightarrow> ([], Some (StreamParse eventType e))
                | Inr None \<Rightarrow> scan_events dec eventType rest
                | Inr (Some ob) \<Rightarrow>
                    if ln_ctxDone l then ([], Some StreamCtx)
                    else (case scan_events dec eventType rest of (obs, e) \<Rightarrow> (ob # obs, e)))
           | None \<Rightarrow> scan_events dec (if ln_text l = [] then [] else eventType) rest))"

text \<open>
  A connection: whether the limiter let it through, the status (\<open>None\<close> is a failed connect), its lines, and at their end whether
  the idle timer or the scanner's own error ended them, and whether the caller's context had ended.
\<close>

record stream_conn =
  cn_permitted :: bool
  cn_status :: "nat option"
  cn_lines :: "stream_line list"
  cn_idle :: bool
  cn_readError :: bool
  cn_ctxDone :: bool
  cn_draw :: "int \<Rightarrow> int"
  cn_sleepDone :: bool

definition streamOnce :: "event_decoder \<Rightarrow> stream_conn \<Rightarrow> Observation list \<times> stream_error" where
  "streamOnce dec c =
     (if \<not> cn_permitted c then ([], StreamLimiter)
      else case cn_status c of
        None \<Rightarrow> ([], StreamConnect)
      | Some status \<Rightarrow>
          if status \<noteq> 200 then ([], StreamStatus status)
          else (case scan_events dec [] (cn_lines c) of
                  (obs, Some e) \<Rightarrow> (obs, e)
                | (obs, None) \<Rightarrow>
                    (obs, if cn_idle c \<and> \<not> cn_ctxDone c then StreamIdle
                          else if cn_readError c then StreamRead else StreamClosedByNode)))"

text \<open>
  \<open>Stream\<close>: what it sends, the errors it reports, and the attempt number of each wait, over the connections it makes. It ends
  with the context, or with the connections that are given.
\<close>

fun Stream :: "event_decoder \<Rightarrow> nat \<Rightarrow> stream_conn list \<Rightarrow> Observation list \<times> stream_error list \<times> nat list" where
  "Stream dec attempt [] = ([], [], [])"
| "Stream dec attempt (c # rest) =
     (case streamOnce dec c of
        (sent, e) \<Rightarrow>
          if cn_ctxDone c then (sent, [], [])
          else (let wait = (if sent \<noteq> [] then 0 else attempt)
                in case sleepReconnect (cn_draw c) (cn_sleepDone c) wait of
                     Slept _ \<Rightarrow>
                       (case Stream dec (wait + 1) rest of (obs, errs, waits) \<Rightarrow> (sent @ obs, e # errs, wait # waits))
                   | _ \<Rightarrow> (sent, [e], [wait])))"

section \<open>What is received\<close>

lemma readResponse_bounded: "readResponse answer = Inr (Some body) \<Longrightarrow> length body \<le> maxResponseBodyBytes"
  by (auto simp: readResponse_def Let_def split: option.splits if_splits)

lemma PeerCount_valid:
  assumes "PeerCount response now = Inr m"
  shows "MetricSample_Validate m = None" "ms_Name m = MetricCLPeerCount" "ms_Source m = SourceBeaconAPI" "\<not> f_lt (ms_Value m) (FFin 0)"
  using assms by (auto simp: PeerCount_def peer_sample_def split: sum.splits option.splits if_splits)

text \<open>An observation of the stream: a head that the node has fully validated, or a reorganisation.\<close>

definition announced :: "event_decoder \<Rightarrow> stream_line list \<Rightarrow> Observation \<Rightarrow> bool" where
  "announced dec lines ob \<longleftrightarrow>
     (\<exists>l \<in> set lines. \<exists>text. obs_At ob = in_UTC (ln_now l) \<and>
        ((\<exists>p. dec_head dec text = Some p \<and> hp_ExecutionOptimistic p = Some False \<and> validateBeaconRoot (hp_Block p) = None \<and>
              obs_Kind ob = ObsHeadUpdated \<and> ParseUint (hp_Slot p) = Some (unat (obs_Slot ob)) \<and>
              obs_Attrs ob = [(AttrBlockRoot, ToLower (hp_Block p))]) \<or>
         (\<exists>s. dec_reorg dec text = Some s \<and> obs_Kind ob = ObsReorg \<and> ParseUint s = Some (unat (obs_Slot ob)))))"

lemma new_event_Some:
  assumes "new_event (beacon_draft s kind now as) = Inr (Some ob)"
  shows "Observation_Validate ob = None" "obs_Kind ob = kind" "obs_Slot ob = s" "obs_At ob = now" "obs_Attrs ob = map lower_root as"
proof -
  have "NewObservation (beacon_draft s kind now as) = Inr ob" using assms by (auto simp: new_event_def split: sum.splits)
  note this' = this NewObservation_valid [OF this]
  then show "Observation_Validate ob = None" "obs_Kind ob = kind" "obs_Slot ob = s" "obs_At ob = now" "obs_Attrs ob = map lower_root as"
    by (auto simp: NewObservation_def beacon_draft_def split: option.splits)
qed

lemma parseEvent_Some:
  assumes "parseEvent dec eventType text now = Inr (Some ob)"
  shows "Observation_Validate ob = None \<and> obs_At ob = in_UTC now \<and>
    ((\<exists>p. dec_head dec text = Some p \<and> hp_ExecutionOptimistic p = Some False \<and> validateBeaconRoot (hp_Block p) = None \<and>
        obs_Kind ob = ObsHeadUpdated \<and> ParseUint (hp_Slot p) = Some (unat (obs_Slot ob)) \<and>
        obs_Attrs ob = [(AttrBlockRoot, ToLower (hp_Block p))]) \<or>
     (\<exists>s. dec_reorg dec text = Some s \<and> obs_Kind ob = ObsReorg \<and> ParseUint s = Some (unat (obs_Slot ob))))"
proof (cases "eventType = ''head''")
  case True
  then obtain p s where p: "dec_head dec text = Some p" "ParseUint (hp_Slot p) = Some s" "validateBeaconRoot (hp_Block p) = None"
    "hp_ExecutionOptimistic p = Some False"
    "new_event (beacon_draft (of_nat s) ObsHeadUpdated (in_UTC now) [(AttrBlockRoot, hp_Block p)]) = Inr (Some ob)"
    using assms by (auto simp: parseEvent_def split: option.splits if_splits)
  have "unat (of_nat s :: 64 word) = s" using ParseUint_bound [OF p(2)] by (simp add: unat_of_nat)
  then show ?thesis using p(1-4) new_event_Some [OF p(5)] by (simp add: lower_root_def)
next
  case False
  then obtain slotText s where r: "dec_reorg dec text = Some slotText" "ParseUint slotText = Some s"
    "new_event (beacon_draft (of_nat s) ObsReorg (in_UTC now) []) = Inr (Some ob)"
    using assms by (auto simp: parseEvent_def split: option.splits if_splits)
  have "unat (of_nat s :: 64 word) = s" using ParseUint_bound [OF r(2)] by (simp add: unat_of_nat)
  then show ?thesis using r(1,2) new_event_Some [OF r(3)] by simp
qed

lemma scan_events_announced:
  "ob \<in> set (fst (scan_events dec eventType lines)) \<Longrightarrow> Observation_Validate ob = None \<and> announced dec lines ob"
proof (induction dec eventType lines rule: scan_events.induct)
  case (2 dec eventType l rest)
  have later: "announced dec rest ob \<Longrightarrow> announced dec (l # rest) ob" by (force simp: announced_def)
  show ?case
  proof (cases "CutPrefix (ln_text l) ''event:''")
    case None
    show ?thesis
    proof (cases "CutPrefix (ln_text l) ''data:''")
      case (Some payload)
      consider "\<exists>e. parseEvent dec eventType (TrimSpace payload) (ln_now l) = Inl e"
        | "parseEvent dec eventType (TrimSpace payload) (ln_now l) = Inr None"
        | new where "parseEvent dec eventType (TrimSpace payload) (ln_now l) = Inr (Some new)"
        by (metis old.sum.exhaust option.exhaust)
      then show ?thesis
      proof cases
        case (3 new)
        have here: "Observation_Validate new = None \<and> announced dec (l # rest) new"
          using parseEvent_Some [OF 3] by (auto simp: announced_def)
        show ?thesis using 2 None Some 3 here later by (auto split: if_splits prod.splits)
      qed (use 2 None Some later in auto)
    qed (use 2 None later in auto)
  qed (use 2 later in auto)
qed simp


text \<open>
  The reconnection backs off while the node is silent and starts over when it has spoken. Each wait but the last
  follows an error reported; its ceiling doubles with every connection that delivered nothing, up to 30 seconds, and returns
  to one second after a connection that delivered.
\<close>

lemma stream_backs_off:
  assumes "Stream dec attempt conns = (obs, errs, waits)"
  shows "length errs = length waits \<and> length waits \<le> length conns \<and>
    (\<forall>i < length waits. waits ! i =
       (if fst (streamOnce dec (conns ! i)) \<noteq> [] then 0 else if i = 0 then attempt else waits ! (i - 1) + 1)) \<and>
    (\<forall>n \<in> set waits. reconnectCeiling n = min (30 * Second) (Second * 2 ^ n))"
proof -
  have "length errs = length waits \<and> length waits \<le> length conns \<and>
    (\<forall>i < length waits. waits ! i =
       (if fst (streamOnce dec (conns ! i)) \<noteq> [] then 0 else if i = 0 then attempt else waits ! (i - 1) + 1))"
    using assms
  proof (induction conns arbitrary: attempt obs errs waits)
    case (Cons c rest)
    obtain sent e where once: "streamOnce dec c = (sent, e)" by fastforce
    let ?wait = "if sent \<noteq> [] then 0 else attempt"
    obtain obs' errs' waits' where r: "Stream dec (?wait + 1) rest = (obs', errs', waits')" by (metis prod_cases3)
    consider "errs = []" "waits = []" | "errs = [e]" "waits = [?wait]" | "errs = e # errs'" "waits = ?wait # waits'"
      using Cons.prems once r by (auto simp: Let_def split: if_splits sleep_result.splits)
    then show ?case
    proof cases
      case 3
      have "(?wait # waits') ! i = (if fst (streamOnce dec ((c # rest) ! i)) \<noteq> [] then 0 else if i = 0 then attempt else (?wait # waits') ! (i - 1) + 1)"
        if "i < length (?wait # waits')" for i
        using that once Cons.IH [OF r] by (cases i; cases "i - 1") auto
      then show ?thesis using 3 Cons.IH [OF r] by simp
    qed (use once in auto)
  qed simp
  then show ?thesis using backoff_ceilings_exact by blast
qed

end
