(* ===== verification/DurationText.thy ===== *)
theory DurationText
  imports GoDuration
begin

text \<open>
  \<open>time.ParseDuration\<close> reads back what \<open>time.Duration.String\<close> writes, for every duration of 64 bits. The fraction is scaled in
  \<open>float64\<close>, exactly, because a duration has at most nine digits after the point.
\<close>

lemma digits_val_Cons: "digits_val (c # s) = digit_val c * 10 ^ length s + digits_val s"
  using digits_val_append [of "[c]" s] by (simp add: digits_val_def)

lemma leadingInt_digits:
  assumes "list_all is_digit ds" "x * 10 ^ length ds + digits_val ds \<le> two63" "rest = [] \<or> \<not> is_digit (hd rest)"
  shows "leadingInt x (ds @ rest) = Some (x * 10 ^ length ds + digits_val ds, rest)"
  using assms(1,2)
proof (induction ds arbitrary: x)
  case Nil
  then show ?case using assms(3) by (cases rest) simp_all
next
  case (Cons c ds)
  let ?y = "x * 10 + digit_val c"
  have sum: "x * 10 ^ length (c # ds) + digits_val (c # ds) = ?y * 10 ^ length ds + digits_val ds"
    by (simp add: digits_val_Cons algebra_simps)
  have "?y \<le> ?y * 10 ^ length ds" by simp
  also have "\<dots> \<le> two63" using Cons.prems(2) unfolding sum by (rule add_leD1)
  finally have "?y \<le> two63" .
  then have "\<not> x > two63 div 10" "\<not> ?y > two63" by (auto simp: two63_def)
  then show ?case using Cons.IH [of ?y] Cons.prems unfolding sum by (simp add: Let_def)
qed

lemma exact_power: "k \<le> 9 \<Longrightarrow> f_mul (FFin (10 ^ k)) (FFin 10) = FFin (10 ^ Suc k)"
proof -
  assume k: "k \<le> 9"
  have "(10 :: int) ^ Suc k \<le> 10 ^ 10" using k by (intro power_increasing) simp_all
  then have "fround (of_int (10 ^ Suc k)) = FFin (of_int (10 ^ Suc k))" by (intro fround_int_exact) simp
  then show ?thesis by (simp add: mult.commute)
qed

lemma leadingFraction_digits:
  assumes "list_all is_digit ds" "k + length ds \<le> 9" "x < 10 ^ k" "rest = [] \<or> \<not> is_digit (hd rest)"
  shows "leadingFraction x (FFin (10 ^ k)) False (ds @ rest) = (x * 10 ^ length ds + digits_val ds, FFin (10 ^ (k + length ds)), rest)"
  using assms(1-3)
proof (induction ds arbitrary: x k)
  case Nil
  then show ?case using assms(4) by (cases rest) simp_all
next
  case (Cons c ds)
  let ?y = "x * 10 + digit_val c"
  have "(10 :: nat) ^ k \<le> 10 ^ 8" using Cons.prems(2) by (intro power_increasing) simp_all
  moreover have c: "digit_val c < 10" using Cons.prems(1) by (auto simp: is_digit_def digit_val_def)
  ultimately have "x \<le> (two63 - 1) div 10" "?y \<le> two63" using Cons.prems(3) by (simp_all add: two63_def)
  moreover have "?y < 10 ^ Suc k" using Cons.prems(3) c by simp
  moreover have "f_mul (FFin (10 ^ k)) (FFin 10) = FFin (10 ^ Suc k)" using Cons.prems(2) by (intro exact_power) simp
  ultimately show ?case using Cons.IH [of "Suc k" ?y] Cons.prems
    by (simp add: Let_def digits_val_Cons algebra_simps del: power_Suc f_mul.simps) simp
qed

section \<open>One number with its unit\<close>

definition ends_unit :: "string \<Rightarrow> bool" where
  "ends_unit rest \<longleftrightarrow> rest = [] \<or> is_digit (hd rest)"

definition unit_text :: "string \<Rightarrow> nat \<Rightarrow> bool" where
  "unit_text u n \<longleftrightarrow> map_of unitMap u = Some n \<and> u \<noteq> [] \<and> list_all (\<lambda>c. \<not> number_char c) u"

lemma unit_texts:
  "unit_text ''ns'' 1" "unit_text [CHR 0xC2, CHR 0xB5, CHR ''s''] 1000" "unit_text ''ms'' 1000000" "unit_text ''s'' 1000000000"
  "unit_text ''m'' 60000000000" "unit_text ''h'' 3600000000000"
  by (simp_all add: unit_text_def unitMap_def number_char_def is_digit_def)

lemma take_unit:
  assumes "unit_text u n" "ends_unit rest"
  shows "takeWhile (\<lambda>c. \<not> number_char c) (u @ rest) = u" "dropWhile (\<lambda>c. \<not> number_char c) (u @ rest) = rest"
  using assms by (auto simp: unit_text_def ends_unit_def list_all_iff number_char_def takeWhile_append2 dropWhile_append2 takeWhile_eq_Nil_iff dropWhile_eq_self_iff)

lemma unit_not_digit: "unit_text u n \<Longrightarrow> \<not> is_digit (hd (u @ rest)) \<and> hd (u @ rest) \<noteq> CHR ''.''"
  by (cases u) (auto simp: unit_text_def number_char_def)

lemma term_whole:
  assumes "unit_text u n" "ends_unit rest" "v * n \<le> two63" "0 < n"
  shows "duration_term (FormatUint v @ u @ rest) = Some (v * n, rest)"
proof -
  note d = FormatUint_digits [of v] and u = unit_not_digit [OF assms(1), of rest]
  have "v \<le> v * n" using assms(4) by simp
  then have "v \<le> two63" using assms(3) by linarith
  then have i: "leadingInt 0 (FormatUint v @ u @ rest) = Some (v, u @ rest)"
    using leadingInt_digits [of "FormatUint v" 0 "u @ rest"] d u by simp
  have "number_char (hd (FormatUint v @ u @ rest))" using FormatUint_hd_digit [of v] by (simp add: number_char_def)
  moreover have "v \<le> two63 div n" using assms(3,4) by (simp add: less_eq_div_iff_mult_less_eq)
  ultimately show ?thesis
    using i u take_unit [OF assms(1,2)] assms(1)
    by (simp add: duration_term_def Let_def unit_text_def)
qed

lemma term_fraction:
  assumes "unit_text u n" "ends_unit rest" "list_all is_digit ds" "ds \<noteq> []" "length ds \<le> 9" "0 < digits_val ds"
    and "10 ^ length ds dvd n" "n \<le> 10 ^ 9" "0 < n" "v * n + digits_val ds * (n div 10 ^ length ds) \<le> two63"
  shows "duration_term (FormatUint v @ CHR ''.'' # ds @ u @ rest) = Some (v * n + digits_val ds * (n div 10 ^ length ds), rest)"
proof -
  let ?k = "length ds" and ?f = "digits_val ds"
  note d = FormatUint_digits [of v] and u = unit_not_digit [OF assms(1), of rest]
  have "v \<le> v * n" using assms(9) by simp
  then have v: "v \<le> two63" "v * n \<le> two63" using assms(10) by linarith+
  have i: "leadingInt 0 (FormatUint v @ CHR ''.'' # ds @ u @ rest) = Some (v, CHR ''.'' # ds @ u @ rest)"
    using leadingInt_digits [of "FormatUint v" 0 "CHR ''.'' # ds @ u @ rest"] d v(1) by (simp add: is_digit_def)
  have fr: "leadingFraction 0 (FFin 1) False (ds @ u @ rest) = (?f, FFin (10 ^ ?k), u @ rest)"
    using leadingFraction_digits [of ds 0 0 "u @ rest"] assms(3,5) u by simp
  obtain q where q: "n = 10 ^ ?k * q" using assms(7) by blast
  have nq: "n div 10 ^ ?k = q" using q by simp
  have f: "?f < 10 ^ ?k" 
  proof -
    have "digits_val s < 10 ^ length s" if "list_all is_digit s" for s
      using that by (induction s rule: rev_induct) (auto simp: is_digit_def digit_val_def)
    then show ?thesis using assms(3) .
  qed
  have small: "?f * q \<le> 10 ^ 9"
  proof -
    have "?f * q \<le> 10 ^ ?k * q" by (rule mult_le_mono1 [OF less_imp_le [OF f]])
    also have "\<dots> \<le> 10 ^ 9" using assms(8) unfolding q .
    finally show ?thesis .
  qed
  have qs: "q \<le> 10 ^ 9" "?f \<le> 10 ^ 9"
    using small assms(6) q assms(8,9) f power_increasing [of ?k 9 "10 :: nat"] assms(5)
    by (auto intro: order_trans [of q "?f * q"])
  have "f_div (f_of_int (int n)) (FFin (10 ^ ?k)) = FFin (of_nat q)"
  proof -
    have "f_of_int (int n) = FFin (of_nat n)" using fround_int_exact [of "int n"] assms(8) by (simp add: f_of_int_def)
    moreover have "fround (of_nat q) = FFin (of_nat q)" using fround_int_exact [of "int q"] qs(1) by simp
    ultimately show ?thesis unfolding q by simp
  qed
  moreover have "f_mul (f_of_int (int ?f)) (FFin (of_nat q)) = FFin (of_nat (?f * q))"
  proof -
    have "\<bar>int (?f * q)\<bar> \<le> 2 ^ 53" using small by (simp del: of_nat_mult)
    from fround_int_exact [OF this] show ?thesis using fround_int_exact [of "int ?f"] qs(2) by (simp add: f_of_int_def)
  qed
  moreover have "f_to_int64 (FFin (of_nat (?f * q))) = Some (int (?f * q))"
    using small by (simp add: int64_defs f_trunc_def floor_of_nat del: of_nat_mult)
  ultimately have "f_to_int64 (f_mul (f_of_int (int ?f)) (f_div (f_of_int (int n)) (FFin (10 ^ ?k)))) = Some (int (?f * q))" by simp
  moreover have "number_char (hd (FormatUint v @ CHR ''.'' # ds @ u @ rest))" using FormatUint_hd_digit [of v] by (simp add: number_char_def)
  moreover have "v \<le> two63 div n" using v(2) assms(9) by (simp add: less_eq_div_iff_mult_less_eq)
  ultimately show ?thesis
    using i fr take_unit [OF assms(1,2)] assms(1,6,10)
    by (simp add: duration_term_def Let_def unit_text_def nq del: f_to_int64.simps f_mul.simps f_div.simps of_nat_mult)
qed

lemma strip_zeros_split: "\<exists>j. s = strip_zeros s @ replicate j (CHR ''0'')"
proof -
  have "rev s = takeWhile (\<lambda>c. c = CHR ''0'') (rev s) @ rev (strip_zeros s)" by (simp add: strip_zeros_def)
  then have "s = strip_zeros s @ rev (takeWhile (\<lambda>c. c = CHR ''0'') (rev s))" by (metis rev_append rev_rev_ident)
  moreover have "takeWhile (\<lambda>c. c = x) xs = replicate (length (takeWhile (\<lambda>c. c = x) xs)) x" for x :: char and xs
    by (induction xs) auto
  then have "rev (takeWhile (\<lambda>c. c = CHR ''0'') (rev s)) = replicate (length (takeWhile (\<lambda>c. c = CHR ''0'') (rev s))) (CHR ''0'')"
    by (metis rev_replicate)
  ultimately show ?thesis by metis
qed

lemma digits_val_zeros: "digits_val (s @ replicate j (CHR ''0'')) = digits_val s * 10 ^ j"
proof -
  have "digits_val (replicate j (CHR ''0'')) = 0" by (induction j) (simp_all add: digits_val_Cons digit_val_def)
  then show ?thesis by (simp add: digits_val_append)
qed

lemma digit_char_val: "is_digit c \<Longrightarrow> digit_char (digit_val c) = c"
  by (simp add: digit_char_def digit_val_def is_digit_def)

text \<open>A number with the fraction \<open>fmt_frac\<close> writes.\<close>

lemma term_frac:
  assumes "unit_text un (10 ^ w)" "0 < w" "w \<le> 9" "ends_unit rest" "v * 10 ^ w + u mod 10 ^ w \<le> two63"
  shows "duration_term (FormatUint v @ fmt_frac u w @ un @ rest) = Some (v * 10 ^ w + u mod 10 ^ w, rest)"
proof -
  let ?m = "u mod 10 ^ w" and ?ds = "strip_zeros (pad_zeros w (FormatUint (u mod 10 ^ w)))"
  have m: "?m < 10 ^ w" by simp
  have pad: "pad_zeros w (FormatUint ?m) = fixed_digits w ?m" by (rule pad_FormatUint [OF assms(2) m])
  obtain j where j: "fixed_digits w ?m = ?ds @ replicate j (CHR ''0'')" using strip_zeros_split unfolding pad by blast
  have len: "w = length ?ds + j" using arg_cong [OF j, of length] by simp
  have val: "digits_val ?ds * 10 ^ j = ?m" using fixed_digits_val [OF m] unfolding j digits_val_zeros .
  have dig: "list_all is_digit ?ds" using fixed_digits_props(2) [of w ?m] unfolding j by simp
  show ?thesis
  proof (cases "?ds = []")
    case True
    then show ?thesis using term_whole [OF assms(1,4), of v] assms(5) val by (simp add: fmt_frac_def Let_def)
  next
    case False
    have "last ?ds \<noteq> CHR ''0''" 
      using False hd_dropWhile [of "\<lambda>c. c = CHR ''0''" "rev (pad_zeros w (FormatUint ?m))"] by (simp add: strip_zeros_def last_rev)
    have "digits_val ?ds \<noteq> 0"
    proof -
      obtain a c where ac: "?ds = a @ [c]" using False by (metis append_butlast_last_id)
      have "c \<noteq> CHR ''0''" using \<open>last ?ds \<noteq> CHR ''0''\<close> ac by simp
      moreover have "is_digit c" using dig unfolding ac by simp
      ultimately have "digit_val c \<noteq> 0" using digit_char_val digit_char_eval(1) by metis
      then show ?thesis unfolding ac by simp
    qed
    then have pos: "0 < digits_val ?ds" by simp
    have "10 ^ (k + j) div 10 ^ k = (10 :: nat) ^ j" for k by (simp add: power_add)
    then have "10 ^ w div 10 ^ length ?ds = (10 :: nat) ^ j" using len by metis
    then show ?thesis
      using term_fraction [OF assms(1,4) dig False _ pos, of v] assms(2,3,5) len val power_increasing [of w 9 "10 :: nat"] False
      by (simp add: fmt_frac_def Let_def le_imp_power_dvd)
  qed
qed

section \<open>The round trip\<close>

lemma loop_term: "duration_term s = Some (v, s') \<Longrightarrow> d + v \<le> two63 \<Longrightarrow> duration_loop d s = duration_loop (d + v) s'"
  by (cases "s = []") (simp_all add: duration_loop.simps [of d s] duration_term_def)

lemma loop_Nil [simp]: "duration_loop d [] = Some d"
  by (simp add: duration_loop.simps [of d "[]"])

lemma ends_number: "ends_unit (FormatUint n @ rest)"
  using FormatUint_hd_digit [of n] by (simp add: ends_unit_def)

lemma seconds_read:
  assumes "d + (v * 10 ^ 9 + u mod 10 ^ 9) \<le> two63"
  shows "duration_loop d (FormatUint v @ fmt_frac u 9 @ ''s'') = Some (d + (v * 10 ^ 9 + u mod 10 ^ 9))"
proof -
  have "unit_text ''s'' (10 ^ 9)" using unit_texts(4) by simp
  moreover have "v * 10 ^ 9 + u mod 10 ^ 9 \<le> two63" using assms by linarith
  ultimately have "duration_term (FormatUint v @ fmt_frac u 9 @ ''s'' @ []) = Some (v * 10 ^ 9 + u mod 10 ^ 9, [])"
    by (intro term_frac) (simp_all add: ends_unit_def)
  from loop_term [OF this assms] show ?thesis by simp
qed

definition clock_text :: "nat \<Rightarrow> string" where
  "clock_text u =
     (let s = u div 1000000000;
          secs = FormatUint (s mod 60) @ fmt_frac u 9 @ ''s'';
          m = s div 60
      in if m = 0 then secs
         else (let mins = FormatUint (m mod 60) @ ''m'' @ secs; h = m div 60
               in if h = 0 then mins else FormatUint h @ ''h'' @ mins))"

lemma clock_parts:
  fixes u :: nat
  assumes "u = a * 1000000000 + r" "a = m * 60 + s" "m = h * 60 + n"
  shows "h * 3600000000000 + (n * 60000000000 + (s * 1000000000 + r)) = u"
  using assms by simp

lemma power9: "(10 :: nat) ^ 9 = 1000000000" by simp

lemma clock_read:
  assumes "u \<le> two63"
  shows "duration_loop 0 (clock_text u) = Some u"
proof -
  let ?s = "u div 1000000000" let ?m = "?s div 60"
  let ?secs = "FormatUint (?s mod 60) @ fmt_frac u 9 @ ''s''"
  have parts: "?m div 60 * 3600000000000 + (?m mod 60 * 60000000000 + (?s mod 60 * 10 ^ 9 + u mod 10 ^ 9)) = u"
    unfolding power9 by (rule clock_parts) (rule div_mult_mod_eq [symmetric])+
  have secs: "duration_loop d ?secs = Some (d + (?s mod 60 * 10 ^ 9 + u mod 10 ^ 9))" if "d + (?s mod 60 * 10 ^ 9 + u mod 10 ^ 9) \<le> two63" for d
    by (rule seconds_read [OF that])
  have mins: "duration_loop d (FormatUint (?m mod 60) @ ''m'' @ ?secs) = Some (d + (?m mod 60 * 60000000000 + (?s mod 60 * 10 ^ 9 + u mod 10 ^ 9)))"
    if "d + (?m mod 60 * 60000000000 + (?s mod 60 * 10 ^ 9 + u mod 10 ^ 9)) \<le> two63" for d
  proof -
    have "duration_term (FormatUint (?m mod 60) @ ''m'' @ ?secs) = Some (?m mod 60 * 60000000000, ?secs)"
      by (rule term_whole [OF unit_texts(5) ends_number]) (use that in linarith, simp)
    from loop_term [OF this, of d] show ?thesis using that secs [of "d + ?m mod 60 * 60000000000"] by simp
  qed
  have hours: "duration_loop 0 (FormatUint (?m div 60) @ ''h'' @ FormatUint (?m mod 60) @ ''m'' @ ?secs) = Some u"
  proof -
    have "duration_term (FormatUint (?m div 60) @ ''h'' @ FormatUint (?m mod 60) @ ''m'' @ ?secs) =
        Some (?m div 60 * 3600000000000, FormatUint (?m mod 60) @ ''m'' @ ?secs)"
      by (rule term_whole [OF unit_texts(6) ends_number]) (use assms parts in linarith, simp)
    from loop_term [OF this, of 0] show ?thesis using mins [of "?m div 60 * 3600000000000"] parts assms by simp
  qed
  show ?thesis
  proof (cases "?m = 0")
    case True
    have "?s mod 60 * 10 ^ 9 + u mod 10 ^ 9 = u" using parts unfolding True by simp
    then show ?thesis using secs [of 0] assms True by (simp add: clock_text_def Let_def)
  next
    case False
    show ?thesis
    proof (cases "?m div 60 = 0")
      case True
      have "?m mod 60 * 60000000000 + (?s mod 60 * 10 ^ 9 + u mod 10 ^ 9) = u" using parts unfolding True by (simp only: mult_0 add_0)
      then have "duration_loop 0 (FormatUint (?m mod 60) @ ''m'' @ ?secs) = Some u" using mins [of 0] assms by (simp only: add_0)
      then show ?thesis using True False unfolding clock_text_def Let_def by (simp only: if_True if_False simp_thms)
    next
      case h: False
      then show ?thesis using hours False by (simp add: clock_text_def Let_def)
    qed
  qed
qed

definition magnitude_text :: "nat \<Rightarrow> string" where
  "magnitude_text u =
     (if u = 0 then ''0s''
      else if u < 1000 then FormatUint u @ ''ns''
      else if u < 1000000 then FormatUint (u div 1000) @ fmt_frac u 3 @ [CHR 0xC2, CHR 0xB5, CHR ''s'']
      else if u < 1000000000 then FormatUint (u div 1000000) @ fmt_frac u 6 @ ''ms''
      else clock_text u)"

lemma Duration_String_magnitude:
  "Duration_String d = (if d < 0 then CHR ''-'' # magnitude_text (nat \<bar>d\<bar>) else magnitude_text (nat \<bar>d\<bar>))"
  by (simp add: Duration_String_def magnitude_text_def clock_text_def Let_def)

lemma magnitude_read:
  assumes "u \<le> two63"
  shows "duration_loop 0 (magnitude_text u) = Some u"
proof -
  have one: "duration_loop 0 s = Some u" if "duration_term (s @ []) = Some (u, [])" for s
    using loop_term [of s u "[]" 0] that assms by simp
  have "duration_term ((FormatUint u @ ''ns'') @ []) = Some (u, [])"
    using term_whole [OF unit_texts(1), of "[]" u] assms by (simp add: ends_unit_def)
  moreover have "duration_term ((FormatUint 0 @ ''s'') @ []) = Some (0, [])"
    using term_whole [OF unit_texts(4), of "[]" 0] by (simp add: ends_unit_def)
  moreover have "duration_term ((FormatUint (u div 1000) @ fmt_frac u 3 @ [CHR 0xC2, CHR 0xB5, CHR ''s'']) @ []) = Some (u, [])"
    using term_frac [of "[CHR 0xC2, CHR 0xB5, CHR ''s'']" 3 "[]" "u div 1000" u] unit_texts(2) assms by (simp add: ends_unit_def)
  moreover have "duration_term ((FormatUint (u div 1000000) @ fmt_frac u 6 @ ''ms'') @ []) = Some (u, [])"
    using term_frac [of "''ms''" 6 "[]" "u div 1000000" u] unit_texts(3) assms by (simp add: ends_unit_def)
  ultimately show ?thesis
    using clock_read [OF assms] one by (auto simp: magnitude_text_def FormatUint_eval digit_char_eval)
qed

lemma magnitude_shape: "magnitude_text u \<noteq> [] \<and> is_digit (hd (magnitude_text u)) \<and> last (magnitude_text u) = CHR ''s''"
proof -
  have "is_digit (CHR ''0'')" by (simp add: is_digit_def)
  then show ?thesis by (simp add: magnitude_text_def clock_text_def Let_def FormatUint_hd_digit)
qed

text \<open>Every duration is read back from its text.\<close>

lemma ParseDuration_String:
  assumes "in_int64 d"
  shows "ParseDuration (Duration_String d) = Some d"
proof -
  let ?u = "nat \<bar>d\<bar>"
  have u: "?u \<le> two63" "d \<ge> 0 \<Longrightarrow> \<not> ?u > two63 - 1" using assms by (auto simp: int64_defs two63_def)
  note shape = magnitude_shape [of ?u]
  have sign: "hd (magnitude_text ?u) \<noteq> CHR ''-''" "hd (magnitude_text ?u) \<noteq> CHR ''+''" using shape is_digit_not_sign by auto
  have "magnitude_text ?u \<noteq> ''0''" using shape by auto
  then show ?thesis
    using shape sign magnitude_read [OF u(1)] u(2) by (auto simp: ParseDuration_def Duration_String_magnitude Let_def)
qed

end
