(* ===== verification/Configuration.thy ===== *)
theory Configuration
  imports Examples Metrics DurationText
begin

text \<open>
  Operator configuration (\<open>internal/config\<close>): defaults, an optional YAML file and the \<open>WHYMISS_*\<close> variables, merged by the
  koanf library and decoded into one record. The library is an argument, \<open>get\<close> for \<open>Koanf.Get\<close> over the layers loaded so far
  and \<open>text\<close> for how \<open>Koanf.String\<close> reads a value; \<open>koanf_merges\<close> states what its documentation promises. The YAML decoder is an
  argument too.
\<close>

section \<open>Values and layers\<close>

datatype cvalue =
    VString string | VStrings "string list" | VUints "64 word list" | VInts "int list"
  | VInt int | VInt64 int | VUint64 "64 word" | VFloat f64 | VMap "string \<Rightarrow> cvalue option" | VOther string

type_synonym layer = "string \<rightharpoonup> cvalue"

definition path_parent :: "string \<Rightarrow> string" where "path_parent path = takeWhile (\<lambda>c. c \<noteq> CHR ''.'') path"
definition path_child :: "string \<Rightarrow> string" where "path_child path = tl (dropWhile (\<lambda>c. c \<noteq> CHR ''.'') path)"

definition setPath :: "string \<Rightarrow> cvalue \<Rightarrow> layer \<Rightarrow> layer" where
  "setPath path v out =
     (if CHR ''.'' \<in> set path
      then (let nested = (case out (path_parent path) of Some (VMap m) \<Rightarrow> m | _ \<Rightarrow> Map.empty)
            in out(path_parent path \<mapsto> VMap (nested(path_child path \<mapsto> v))))
      else out(path \<mapsto> v))"

definition setPointer :: "layer \<Rightarrow> string \<times> cvalue option \<Rightarrow> layer" where
  "setPointer out pv = (case snd pv of None \<Rightarrow> out | Some v \<Rightarrow> setPath (fst pv) v out)"

section \<open>The configuration\<close>

record config_Watch =
  cw_MinRequestInterval :: duration
  cw_HostSampleInterval :: duration
  cw_CLMetricsAPI :: string
  cw_PeerSampleInterval :: duration
  cw_BaselineBeaconAPI :: string
  cw_BaselineMetricsAPI :: string
  cw_NTPServers :: "string list"
  cw_ClockSampleInterval :: duration
  cw_RetentionMaxAge :: duration
  cw_RetentionMaxBytes :: int
  cw_RetentionInterval :: duration
  cw_ValidatorIndices :: "64 word list"
  cw_MetricsAddr :: string

record config_Config =
  cc_BeaconAPI :: string
  cc_DBPath :: string
  cc_Watch :: config_Watch
  cc_Schedule :: SlotSchedule
  cc_RCA :: Config

definition config_Default :: config_Config where
  "config_Default =
     \<lparr>cc_BeaconAPI = [], cc_DBPath = ''whymiss.db'',
      cc_Watch = \<lparr>cw_MinRequestInterval = 200 * Millisecond, cw_HostSampleInterval = 10 * Second, cw_CLMetricsAPI = [],
        cw_PeerSampleInterval = 15 * Second, cw_BaselineBeaconAPI = [], cw_BaselineMetricsAPI = [], cw_NTPServers = [],
        cw_ClockSampleInterval = Minute, cw_RetentionMaxAge = 14 * 24 * 60 * Minute, cw_RetentionMaxBytes = 2 ^ 30,
        cw_RetentionInterval = 60 * Minute, cw_ValidatorIndices = [], cw_MetricsAddr = []\<rparr>,
      cc_Schedule = MainnetPreEPBS, cc_RCA = DefaultConfig\<rparr>"

definition configMap :: "config_Config \<Rightarrow> layer" where
  "configMap cfg =
     (let w = cc_Watch cfg; s = cc_Schedule cfg; r = cc_RCA cfg; duration = (\<lambda>d. VString (Duration_String d))
      in [''beacon_api'' \<mapsto> VString (cc_BeaconAPI cfg),
          ''db'' \<mapsto> VString (cc_DBPath cfg),
          ''watch'' \<mapsto> VMap
            [''min_request_interval'' \<mapsto> duration (cw_MinRequestInterval w),
             ''host_sample_interval'' \<mapsto> duration (cw_HostSampleInterval w),
             ''cl_metrics_api'' \<mapsto> VString (cw_CLMetricsAPI w), ''peer_sample_interval'' \<mapsto> duration (cw_PeerSampleInterval w),
             ''baseline_beacon_api'' \<mapsto> VString (cw_BaselineBeaconAPI w), ''baseline_metrics_api'' \<mapsto> VString (cw_BaselineMetricsAPI w),
             ''ntp_servers'' \<mapsto> VStrings (cw_NTPServers w), ''clock_sample_interval'' \<mapsto> duration (cw_ClockSampleInterval w),
             ''retention_max_age'' \<mapsto> duration (cw_RetentionMaxAge w), ''retention_max_bytes'' \<mapsto> VInt64 (cw_RetentionMaxBytes w),
             ''retention_interval'' \<mapsto> duration (cw_RetentionInterval w), ''validator_indices'' \<mapsto> VUints (cw_ValidatorIndices w),
             ''metrics_addr'' \<mapsto> VString (cw_MetricsAddr w)],
          ''schedule'' \<mapsto> VMap
            [''seconds_per_slot'' \<mapsto> duration (sched_SecondsPerSlot s), ''attestation_deadline'' \<mapsto> duration (sched_AttestationDeadline s),
             ''aggregation_deadline'' \<mapsto> duration (sched_AggregationDeadline s),
             ''payload_reveal_deadline'' \<mapsto> duration (sched_PayloadRevealDeadline s),
             ''ptc_deadline'' \<mapsto> duration (sched_PTCDeadline s)],
          ''thresholds'' \<mapsto> VMap
            [''dominance'' \<mapsto> VFloat (cfg_Dominance r), ''clock_offset_max'' \<mapsto> duration (cfg_ClockOffsetMax r),
             ''clock_sample_max_age'' \<mapsto> duration (cfg_ClockSampleMaxAge r), ''network_deviation'' \<mapsto> duration (cfg_NetworkDeviation r),
             ''engine_spike_multiplier'' \<mapsto> VFloat (cfg_EngineSpikeMultiplier r), ''peer_count_min'' \<mapsto> VFloat (cfg_PeerCountMin r),
             ''iowait_pct'' \<mapsto> VFloat (cfg_IOWaitPct r),
             ''cpu_steal_pct'' \<mapsto> VFloat (cfg_CPUStealPct r), ''psi_mem_avg10'' \<mapsto> VFloat (cfg_PSIMemAvg10 r)]])"

section \<open>The file and the environment\<close>

record fileConfig =
  fc_BeaconAPI :: "string option"
  fc_DBPath :: "string option"
  fc_MinRequestInterval :: "string option"
  fc_HostSampleInterval :: "string option"
  fc_CLMetricsAPI :: "string option"
  fc_PeerSampleInterval :: "string option"
  fc_BaselineBeaconAPI :: "string option"
  fc_BaselineMetricsAPI :: "string option"
  fc_NTPServers :: "string list option"
  fc_ClockSampleInterval :: "string option"
  fc_RetentionMaxAge :: "string option"
  fc_RetentionMaxBytes :: "int option"
  fc_RetentionInterval :: "string option"
  fc_ValidatorIndices :: "64 word list option"
  fc_MetricsAddr :: "string option"
  fc_SecondsPerSlot :: "string option"
  fc_AttestationDeadline :: "string option"
  fc_AggregationDeadline :: "string option"
  fc_PayloadRevealDeadline :: "string option"
  fc_PTCDeadline :: "string option"
  fc_Dominance :: "f64 option"
  fc_ClockOffsetMax :: "string option"
  fc_ClockSampleMaxAge :: "string option"
  fc_NetworkDeviation :: "string option"
  fc_EngineSpikeMultiplier :: "f64 option"
  fc_PeerCountMin :: "f64 option"
  fc_IOWaitPct :: "f64 option"
  fc_CPUStealPct :: "f64 option"
  fc_PSIMemAvg10 :: "f64 option"

definition file_settings :: "fileConfig \<Rightarrow> (string \<times> cvalue option) list" where
  "file_settings raw =
     (let str = map_option VString; num = map_option VFloat in
      [(''beacon_api'', str (fc_BeaconAPI raw)),
       (''db'', str (fc_DBPath raw)),
       (''watch.min_request_interval'', str (fc_MinRequestInterval raw)),
       (''watch.host_sample_interval'', str (fc_HostSampleInterval raw)),
       (''watch.cl_metrics_api'', str (fc_CLMetricsAPI raw)),
       (''watch.baseline_beacon_api'', str (fc_BaselineBeaconAPI raw)),
       (''watch.baseline_metrics_api'', str (fc_BaselineMetricsAPI raw)),
       (''watch.peer_sample_interval'', str (fc_PeerSampleInterval raw)),
       (''watch.ntp_servers'', map_option VStrings (fc_NTPServers raw)),
       (''watch.clock_sample_interval'', str (fc_ClockSampleInterval raw)),
       (''watch.retention_max_age'', str (fc_RetentionMaxAge raw)),
       (''watch.retention_max_bytes'', map_option VInt64 (fc_RetentionMaxBytes raw)),
       (''watch.retention_interval'', str (fc_RetentionInterval raw)),
       (''watch.validator_indices'', map_option VUints (fc_ValidatorIndices raw)),
       (''watch.metrics_addr'', str (fc_MetricsAddr raw)),
       (''schedule.seconds_per_slot'', str (fc_SecondsPerSlot raw)),
       (''schedule.attestation_deadline'', str (fc_AttestationDeadline raw)),
       (''schedule.aggregation_deadline'', str (fc_AggregationDeadline raw)),
       (''schedule.payload_reveal_deadline'', str (fc_PayloadRevealDeadline raw)),
       (''schedule.ptc_deadline'', str (fc_PTCDeadline raw)),
       (''thresholds.dominance'', num (fc_Dominance raw)),
       (''thresholds.clock_offset_max'', str (fc_ClockOffsetMax raw)),
       (''thresholds.clock_sample_max_age'', str (fc_ClockSampleMaxAge raw)),
       (''thresholds.network_deviation'', str (fc_NetworkDeviation raw)),
       (''thresholds.engine_spike_multiplier'', num (fc_EngineSpikeMultiplier raw)),
       (''thresholds.peer_count_min'', num (fc_PeerCountMin raw)),
       (''thresholds.iowait_pct'', num (fc_IOWaitPct raw)),
       (''thresholds.cpu_steal_pct'', num (fc_CPUStealPct raw)),
       (''thresholds.psi_mem_avg10'', num (fc_PSIMemAvg10 raw))])"

definition fileConfigMap :: "fileConfig \<Rightarrow> layer" where
  "fileConfigMap raw = foldl setPointer Map.empty (file_settings raw)"

text \<open>The variables and the settings they stand for. Go ranges over them in any order; they name different settings.\<close>

definition env_paths :: "(string \<times> string) list" where
  "env_paths =
     [(''WHYMISS_BEACON_API'', ''beacon_api''), (''WHYMISS_DB'', ''db''),
      (''WHYMISS_MIN_REQUEST_INTERVAL'', ''watch.min_request_interval''), (''WHYMISS_HOST_SAMPLE_INTERVAL'', ''watch.host_sample_interval''),
      (''WHYMISS_CL_METRICS_API'', ''watch.cl_metrics_api''), (''WHYMISS_PEER_SAMPLE_INTERVAL'', ''watch.peer_sample_interval''),
      (''WHYMISS_BASELINE_BEACON_API'', ''watch.baseline_beacon_api''), (''WHYMISS_BASELINE_METRICS_API'', ''watch.baseline_metrics_api''),
      (''WHYMISS_NTP_SERVERS'', ''watch.ntp_servers''), (''WHYMISS_CLOCK_SAMPLE_INTERVAL'', ''watch.clock_sample_interval''),
      (''WHYMISS_RETENTION_MAX_AGE'', ''watch.retention_max_age''), (''WHYMISS_RETENTION_MAX_BYTES'', ''watch.retention_max_bytes''),
      (''WHYMISS_RETENTION_INTERVAL'', ''watch.retention_interval''), (''WHYMISS_VALIDATOR_INDICES'', ''watch.validator_indices''),
      (''WHYMISS_METRICS_ADDR'', ''watch.metrics_addr''), (''WHYMISS_SECONDS_PER_SLOT'', ''schedule.seconds_per_slot''),
      (''WHYMISS_ATTESTATION_DEADLINE'', ''schedule.attestation_deadline''), (''WHYMISS_AGGREGATION_DEADLINE'', ''schedule.aggregation_deadline''),
      (''WHYMISS_PAYLOAD_REVEAL_DEADLINE'', ''schedule.payload_reveal_deadline''), (''WHYMISS_PTC_DEADLINE'', ''schedule.ptc_deadline''),
      (''WHYMISS_DOMINANCE'', ''thresholds.dominance''), (''WHYMISS_CLOCK_OFFSET_MAX'', ''thresholds.clock_offset_max''),
      (''WHYMISS_CLOCK_SAMPLE_MAX_AGE'', ''thresholds.clock_sample_max_age''), (''WHYMISS_NETWORK_DEVIATION'', ''thresholds.network_deviation''),
      (''WHYMISS_ENGINE_SPIKE_MULTIPLIER'', ''thresholds.engine_spike_multiplier''), (''WHYMISS_PEER_COUNT_MIN'', ''thresholds.peer_count_min''),
      (''WHYMISS_IOWAIT_PCT'', ''thresholds.iowait_pct''), (''WHYMISS_CPU_STEAL_PCT'', ''thresholds.cpu_steal_pct''),
      (''WHYMISS_PSI_MEM_AVG10'', ''thresholds.psi_mem_avg10'')]"

definition envMap :: "(string \<rightharpoonup> string) \<Rightarrow> layer" where
  "envMap lookup = foldl (\<lambda>out (env, path). case lookup env of None \<Rightarrow> out | Some v \<Rightarrow> setPath path (VString v) out) Map.empty env_paths"

section \<open>Decoding\<close>

datatype config_error =
    FileUnreadable | FileNotRegular | FileTooLarge | FileMalformed | MultipleDocuments | BadSetting string | BadSchedule domain_error | BadThresholds string

fun int64Value :: "cvalue option \<Rightarrow> int option" where
  "int64Value (Some (VInt v)) = Some v"
| "int64Value (Some (VInt64 v)) = Some v"
| "int64Value (Some (VUint64 v)) = (if uint v > int64_max then None else Some (uint v))"
| "int64Value (Some (VString s)) = ParseInt 64 s"
| "int64Value _ = None"

fun float64Value :: "cvalue option \<Rightarrow> f64 option" where
  "float64Value (Some (VFloat v)) = Some v"
| "float64Value (Some (VInt v)) = Some (f_of_int v)"
| "float64Value (Some (VString s)) = ParseFloat s"
| "float64Value _ = None"

fun split_on :: "char \<Rightarrow> string \<Rightarrow> string list" where
  "split_on sep [] = [[]]"
| "split_on sep (c # s) =
     (if c = sep then [] # split_on sep s
      else (case split_on sep s of [] \<Rightarrow> [[c]] | p # ps \<Rightarrow> (c # p) # ps))"

fun stringsValue :: "cvalue option \<Rightarrow> string list option" where
  "stringsValue (Some (VStrings v)) = (if list_ex (\<lambda>item. TrimSpace item = []) v then None else Some v)"
| "stringsValue (Some (VString v)) =
     (if TrimSpace v = [] then Some []
      else (let parts = map TrimSpace (split_on (CHR '','') v) in if list_ex (\<lambda>p. p = []) parts then None else Some parts))"
| "stringsValue _ = None"

fun parse_items :: "string list \<Rightarrow> 64 word list option" where
  "parse_items [] = Some []"
| "parse_items (item # rest) =
     (case ParseUint (TrimSpace item) of
        None \<Rightarrow> None
      | Some n \<Rightarrow> (case parse_items rest of None \<Rightarrow> None | Some ns \<Rightarrow> Some (of_nat n # ns)))"

fun uint64sValue :: "cvalue option \<Rightarrow> 64 word list option" where
  "uint64sValue (Some (VUints v)) = Some v"
| "uint64sValue (Some (VInts v)) = (if list_ex (\<lambda>i. i < 0) v then None else Some (map of_int v))"
| "uint64sValue (Some (VString v)) = (if TrimSpace v = [] then Some [] else parse_items (split_on (CHR '','') v))"
| "uint64sValue _ = None"

definition duration_keys :: "string list" where
  "duration_keys =
     [''watch.min_request_interval'', ''watch.host_sample_interval'', ''watch.peer_sample_interval'', ''watch.clock_sample_interval'',
      ''watch.retention_max_age'', ''watch.retention_interval'', ''schedule.seconds_per_slot'', ''schedule.attestation_deadline'',
      ''schedule.aggregation_deadline'', ''schedule.payload_reveal_deadline'', ''schedule.ptc_deadline'', ''thresholds.clock_offset_max'',
      ''thresholds.clock_sample_max_age'', ''thresholds.network_deviation'']"

definition float_keys :: "string list" where
  "float_keys =
     [''thresholds.dominance'', ''thresholds.engine_spike_multiplier'', ''thresholds.peer_count_min'', ''thresholds.iowait_pct'',
      ''thresholds.cpu_steal_pct'', ''thresholds.psi_mem_avg10'']"

text \<open>The fields of a table, in its order; the first that does not parse is the error.\<close>

fun read_fields :: "(string \<Rightarrow> 'a option) \<Rightarrow> string list \<Rightarrow> config_error + 'a list" where
  "read_fields value [] = Inr []"
| "read_fields value (key # keys) =
     (case value key of
        None \<Rightarrow> Inl (BadSetting key)
      | Some v \<Rightarrow> (case read_fields value keys of Inl e \<Rightarrow> Inl e | Inr vs \<Rightarrow> Inr (v # vs)))"

definition config_decode :: "(cvalue option \<Rightarrow> string) \<Rightarrow> (string \<Rightarrow> cvalue option) \<Rightarrow> config_error + config_Config" where
  "config_decode text get =
     (case stringsValue (get ''watch.ntp_servers'') of
        None \<Rightarrow> Inl (BadSetting ''watch.ntp_servers'')
      | Some servers \<Rightarrow>
          (case uint64sValue (get ''watch.validator_indices'') of
             None \<Rightarrow> Inl (BadSetting ''watch.validator_indices'')
           | Some indices \<Rightarrow>
               (case read_fields (\<lambda>key. ParseDuration (text (get key))) duration_keys of
                  Inl e \<Rightarrow> Inl e
                | Inr d \<Rightarrow>
                    (case int64Value (get ''watch.retention_max_bytes'') of
                       None \<Rightarrow> Inl (BadSetting ''watch.retention_max_bytes'')
                     | Some bytes \<Rightarrow>
                         (case read_fields (\<lambda>key. float64Value (get key)) float_keys of
                            Inl e \<Rightarrow> Inl e
                          | Inr f \<Rightarrow>
                              Inr \<lparr>cc_BeaconAPI = text (get ''beacon_api''), cc_DBPath = text (get ''db''),
                                cc_Watch = \<lparr>cw_MinRequestInterval = d ! 0, cw_HostSampleInterval = d ! 1,
                                  cw_CLMetricsAPI = text (get ''watch.cl_metrics_api''), cw_PeerSampleInterval = d ! 2,
                                  cw_BaselineBeaconAPI = text (get ''watch.baseline_beacon_api''),
                                  cw_BaselineMetricsAPI = text (get ''watch.baseline_metrics_api''), cw_NTPServers = servers,
                                  cw_ClockSampleInterval = d ! 3, cw_RetentionMaxAge = d ! 4, cw_RetentionMaxBytes = bytes,
                                  cw_RetentionInterval = d ! 5, cw_ValidatorIndices = indices,
                                  cw_MetricsAddr = text (get ''watch.metrics_addr'')\<rparr>,
                                cc_Schedule = \<lparr>sched_SecondsPerSlot = d ! 6, sched_AttestationDeadline = d ! 7,
                                  sched_AggregationDeadline = d ! 8, sched_PayloadRevealDeadline = d ! 9, sched_PTCDeadline = d ! 10\<rparr>,
                                cc_RCA = \<lparr>cfg_Dominance = f ! 0, cfg_ClockOffsetMax = d ! 11, cfg_ClockSampleMaxAge = d ! 12,
                                  cfg_NetworkDeviation = d ! 13, cfg_EngineSpikeMultiplier = f ! 1, cfg_PeerCountMin = f ! 2,
                                  cfg_IOWaitPct = f ! 3, cfg_CPUStealPct = f ! 4, cfg_PSIMemAvg10 = f ! 5\<rparr>\<rparr>)))))"

section \<open>Loading\<close>

definition maxConfigBytes :: nat where "maxConfigBytes = 2 ^ 20"

text \<open>
  The file as the system presents it (\<open>None\<close>: it cannot be opened, inspected or read), and the decoder: the first document, with
  unknown fields refused, and what follows it.
\<close>

datatype rest_of_file = EndOfFile | AnotherDocument | BrokenDocument

record config_file =
  cf_opened :: bool
  cf_stat :: "(bool \<times> nat) option"
  cf_data :: "string option"

definition readFile :: "(string \<Rightarrow> (fileConfig \<times> rest_of_file) option) \<Rightarrow> config_file \<Rightarrow> config_error + layer" where
  "readFile yaml f =
     (if \<not> cf_opened f then Inl FileUnreadable
      else case cf_stat f of
        None \<Rightarrow> Inl FileUnreadable
      | Some (regular, bytes) \<Rightarrow>
          if \<not> regular then Inl FileNotRegular
          else if bytes > maxConfigBytes then Inl FileTooLarge
          else (case cf_data f of
                  None \<Rightarrow> Inl FileUnreadable
                | Some content \<Rightarrow>
                    if length (take (maxConfigBytes + 1) content) > maxConfigBytes then Inl FileTooLarge
                    else (case yaml content of
                            None \<Rightarrow> Inl FileMalformed
                          | Some (raw, AnotherDocument) \<Rightarrow> Inl MultipleDocuments
                          | Some (raw, BrokenDocument) \<Rightarrow> Inl FileMalformed
                          | Some (raw, EndOfFile) \<Rightarrow> Inr (fileConfigMap raw))))"

definition config_checked :: "config_Config \<Rightarrow> config_error + config_Config" where
  "config_checked cfg =
     (case SlotSchedule_Validate (cc_Schedule cfg) of
        Some e \<Rightarrow> Inl (BadSchedule e)
      | None \<Rightarrow> (case Config_Validate (cc_RCA cfg) of Some e \<Rightarrow> Inl (BadThresholds e) | None \<Rightarrow> Inr cfg))"

definition config_Load ::
  "(cvalue option \<Rightarrow> string) \<Rightarrow> (layer list \<Rightarrow> string \<Rightarrow> cvalue option) \<Rightarrow> (config_error + layer) option \<Rightarrow> (string \<rightharpoonup> string) \<Rightarrow>
   config_error + config_Config" where
  "config_Load text get file lookup =
     (case (case file of None \<Rightarrow> Inr [] | Some (Inl e) \<Rightarrow> Inl e | Some (Inr values) \<Rightarrow> Inr [values]) of
        Inl e \<Rightarrow> Inl e
      | Inr fileLayers \<Rightarrow>
          (case config_decode text (get ([configMap config_Default] @ fileLayers @ [envMap lookup])) of
             Inl e \<Rightarrow> Inl e
           | Inr cfg \<Rightarrow> config_checked cfg))"

section \<open>What the library promises\<close>

definition layer_at :: "layer \<Rightarrow> string \<Rightarrow> cvalue option" where
  "layer_at l path =
     (if CHR ''.'' \<in> set path then (case l (path_parent path) of Some (VMap m) \<Rightarrow> m (path_child path) | _ \<Rightarrow> None) else l path)"

definition merged :: "layer list \<Rightarrow> string \<Rightarrow> cvalue option" where
  "merged layers path = foldl (\<lambda>acc l. case layer_at l path of None \<Rightarrow> acc | Some v \<Rightarrow> Some v) None layers"

definition program_layer :: "layer \<Rightarrow> bool" where
  "program_layer l \<longleftrightarrow> (\<exists>cfg. l = configMap cfg) \<or> (\<exists>raw. l = fileConfigMap raw) \<or> (\<exists>lookup. l = envMap lookup)"

definition setting_paths :: "string list" where "setting_paths = map snd env_paths"

definition koanf_reads :: "(cvalue option \<Rightarrow> string) \<Rightarrow> (layer list \<Rightarrow> string \<Rightarrow> cvalue option) \<Rightarrow> bool" where
  "koanf_reads text get \<longleftrightarrow>
     (\<forall>s. text (Some (VString s)) = s) \<and>
     (\<forall>layers path. path \<in> set setting_paths \<longrightarrow> list_all program_layer layers \<longrightarrow> get layers path = merged layers path)"

lemma program_layers [simp]: "program_layer (configMap cfg)" "program_layer (fileConfigMap raw)" "program_layer (envMap lookup)"
  by (auto simp: program_layer_def)

lemma koanf_text: "koanf_reads text get \<Longrightarrow> text (Some (VString s)) = s"
  by (simp add: koanf_reads_def)

lemma koanf_get: "koanf_reads text get \<Longrightarrow> list_all program_layer layers \<Longrightarrow> path \<in> set setting_paths \<Longrightarrow> get layers path = merged layers path"
  by (simp add: koanf_reads_def)

lemma setting_paths_eq: "setting_paths =
   [''beacon_api'', ''db'', ''watch.min_request_interval'', ''watch.host_sample_interval'', ''watch.cl_metrics_api'',
    ''watch.peer_sample_interval'', ''watch.baseline_beacon_api'', ''watch.baseline_metrics_api'', ''watch.ntp_servers'',
    ''watch.clock_sample_interval'', ''watch.retention_max_age'', ''watch.retention_max_bytes'', ''watch.retention_interval'',
    ''watch.validator_indices'', ''watch.metrics_addr'', ''schedule.seconds_per_slot'', ''schedule.attestation_deadline'',
    ''schedule.aggregation_deadline'', ''schedule.payload_reveal_deadline'', ''schedule.ptc_deadline'', ''thresholds.dominance'',
    ''thresholds.clock_offset_max'', ''thresholds.clock_sample_max_age'', ''thresholds.network_deviation'',
    ''thresholds.engine_spike_multiplier'', ''thresholds.peer_count_min'', ''thresholds.iowait_pct'', ''thresholds.cpu_steal_pct'',
    ''thresholds.psi_mem_avg10'']"
  by (simp add: setting_paths_def env_paths_def)

lemma read_paths:
  "set duration_keys \<subseteq> set setting_paths" "set float_keys \<subseteq> set setting_paths"
  "''beacon_api'' \<in> set setting_paths" "''db'' \<in> set setting_paths" "''watch.cl_metrics_api'' \<in> set setting_paths"
  "''watch.baseline_beacon_api'' \<in> set setting_paths" "''watch.baseline_metrics_api'' \<in> set setting_paths"
  "''watch.metrics_addr'' \<in> set setting_paths" "''watch.ntp_servers'' \<in> set setting_paths"
  "''watch.validator_indices'' \<in> set setting_paths" "''watch.retention_max_bytes'' \<in> set setting_paths"
  unfolding setting_paths_eq duration_keys_def float_keys_def by simp_all

lemma read_fields_cong: "(\<And>key. key \<in> set keys \<Longrightarrow> f key = g key) \<Longrightarrow> read_fields f keys = read_fields g keys"
  by (induction keys) (auto split: option.splits)

lemma config_decode_cong:
  assumes eq: "\<And>path. path \<in> set setting_paths \<Longrightarrow> get path = get' path"
  shows "config_decode text get = config_decode text get'"
proof -
  have d: "read_fields (\<lambda>key. ParseDuration (text (get key))) duration_keys = read_fields (\<lambda>key. ParseDuration (text (get' key))) duration_keys"
    by (rule read_fields_cong) (use eq read_paths(1) in auto)
  have f: "read_fields (\<lambda>key. float64Value (get key)) float_keys = read_fields (\<lambda>key. float64Value (get' key)) float_keys"
    by (rule read_fields_cong) (use eq read_paths(2) in auto)
  note single = read_paths(3-)[THEN eq]
  show ?thesis unfolding config_decode_def d f single ..
qed

section \<open>Precedence\<close>

definition splits_apart :: "string \<Rightarrow> string \<Rightarrow> bool" where
  "splits_apart p q \<longleftrightarrow>
     (if CHR ''.'' \<in> set p
      then (if CHR ''.'' \<in> set q then path_parent p \<noteq> path_parent q \<or> path_child p \<noteq> path_child q else path_parent p \<noteq> q)
      else (if CHR ''.'' \<in> set q then p \<noteq> path_parent q else p \<noteq> q))"

lemma layer_at_setPath_same: "layer_at (setPath p v l) p = Some v"
  by (simp add: layer_at_def setPath_def Let_def)

lemma layer_at_setPath_other: "splits_apart p q \<Longrightarrow> layer_at (setPath p v l) q = layer_at l q"
proof (cases "CHR ''.'' \<in> set p \<and> CHR ''.'' \<in> set q \<and> path_parent p = path_parent q")
  case True
  assume "splits_apart p q"
  then have "path_child p \<noteq> path_child q" using True by (simp add: splits_apart_def)
  then show ?thesis
    using True by (cases "l (path_parent q)") (simp_all add: layer_at_def setPath_def Let_def split: cvalue.split)
next
  case False
  assume apart: "splits_apart p q"
  show ?thesis
  proof (cases "CHR ''.'' \<in> set p")
    case True
    then show ?thesis using False apart by (cases "CHR ''.'' \<in> set q") (simp_all add: layer_at_def setPath_def splits_apart_def Let_def)
  next
    case False
    then show ?thesis using apart by (cases "CHR ''.'' \<in> set q") (simp_all add: layer_at_def setPath_def splits_apart_def)
  qed
qed

lemma path_split: "CHR ''.'' \<in> set p \<Longrightarrow> path_parent p @ CHR ''.'' # path_child p = p"
  unfolding path_parent_def path_child_def by (induction p) auto

lemma path_shapes:
  "list_all (\<lambda>p. if CHR ''.'' \<in> set p then path_parent p \<in> {''watch'', ''schedule'', ''thresholds''} else p \<in> {''beacon_api'', ''db''}) setting_paths"
  unfolding setting_paths_eq by (simp add: path_parent_def)

lemma paths_apart:
  assumes "p \<in> set setting_paths" "q \<in> set setting_paths" "p \<noteq> q"
  shows "splits_apart p q"
proof -
  have "if CHR ''.'' \<in> set r then path_parent r \<in> {''watch'', ''schedule'', ''thresholds''} else r \<in> {''beacon_api'', ''db''}"
    if "r \<in> set setting_paths" for r using path_shapes that unfolding list_all_iff by blast
  from this[OF assms(1)] this[OF assms(2)] assms(3) path_split[of p] path_split[of q]
  show ?thesis by (auto simp: splits_apart_def split: if_splits)
qed

lemma layer_at_setPath:
  "p \<in> set setting_paths \<Longrightarrow> q \<in> set setting_paths \<Longrightarrow> layer_at (setPath p v l) q = (if p = q then Some v else layer_at l q)"
  using paths_apart[of p q] layer_at_setPath_other[of p q] by (auto simp: layer_at_setPath_same)

lemma layer_at_settings:
  assumes "set (map fst settings) \<subseteq> set setting_paths" "distinct (map fst settings)" "path \<in> set setting_paths"
  shows "layer_at (foldl setPointer l settings) path = (case map_of settings path of Some (Some v) \<Rightarrow> Some v | _ \<Rightarrow> layer_at l path)"
  using assms
proof (induction settings arbitrary: l)
  case (Cons s settings)
  obtain p ov where s: "s = (p, ov)" by (cases s)
  have "map_of settings p = None" using Cons.prems(2) s by (simp add: map_of_eq_None_iff)
  then show ?case
    using Cons.prems Cons.IH[of "setPointer l s"] s
    by (cases "p = path") (auto simp: setPointer_def layer_at_setPath split: option.splits)
qed simp

lemma file_settings_paths:
  "set (map fst (file_settings raw)) \<subseteq> set setting_paths" "distinct (map fst (file_settings raw))"
  unfolding setting_paths_eq by (simp_all add: file_settings_def Let_def)

lemma envMap_settings: "envMap lookup = foldl setPointer Map.empty (map (\<lambda>(env, path). (path, map_option VString (lookup env))) env_paths)"
proof -
  have "foldl (\<lambda>out (env, path). case lookup env of None \<Rightarrow> out | Some v \<Rightarrow> setPath path (VString v) out) l ps =
        foldl setPointer l (map (\<lambda>(env, path). (path, map_option VString (lookup env))) ps)" for l ps
    by (induction ps arbitrary: l) (auto simp: setPointer_def split: option.splits)
  then show ?thesis by (simp add: envMap_def)
qed

definition env_name :: "string \<rightharpoonup> string" where
  "env_name = map_of (map (\<lambda>(env, path). (path, env)) env_paths)"

definition effective :: "fileConfig option \<Rightarrow> (string \<rightharpoonup> string) \<Rightarrow> string \<Rightarrow> cvalue option" where
  "effective raw lookup path =
     (case Option.bind (env_name path) lookup of
        Some v \<Rightarrow> Some (VString v)
      | None \<Rightarrow>
          (case Option.bind raw (\<lambda>r. Option.bind (map_of (file_settings r) path) id) of
             Some v \<Rightarrow> Some v
           | None \<Rightarrow> layer_at (configMap config_Default) path))"

lemma layer_at_empty [simp]: "layer_at Map.empty path = None"
  by (simp add: layer_at_def)

lemma layer_at_file:
  "path \<in> set setting_paths \<Longrightarrow> layer_at (fileConfigMap raw) path = Option.bind (map_of (file_settings raw) path) id"
  unfolding fileConfigMap_def
  by (subst layer_at_settings[OF file_settings_paths]) (auto split: option.splits)

lemma map_of_env:
  "map_of (map (\<lambda>(env, path). (path, map_option VString (lookup env))) ps) path =
   map_option (\<lambda>env. map_option VString (lookup env)) (map_of (map (\<lambda>(env, path). (path, env)) ps) path)"
  by (induction ps) auto

lemma layer_at_env: "path \<in> set setting_paths \<Longrightarrow> layer_at (envMap lookup) path = map_option VString (Option.bind (env_name path) lookup)"
proof -
  assume path: "path \<in> set setting_paths"
  let ?s = "map (\<lambda>(env, path). (path, map_option VString (lookup env))) env_paths"
  have keys: "map fst ?s = setting_paths" by (simp add: setting_paths_def split_beta comp_def)
  have dist: "distinct setting_paths" unfolding setting_paths_eq by simp
  have "layer_at (envMap lookup) path = (case map_of ?s path of Some (Some v) \<Rightarrow> Some v | _ \<Rightarrow> layer_at Map.empty path)"
    unfolding envMap_settings by (rule layer_at_settings) (simp_all only: keys dist path subset_refl)
  then show ?thesis by (simp add: map_of_env env_name_def split: option.splits)
qed

lemma merged_effective:
  assumes "path \<in> set setting_paths"
  shows "merged ([configMap config_Default] @ (case raw of None \<Rightarrow> [] | Some r \<Rightarrow> [fileConfigMap r]) @ [envMap lookup]) path = effective raw lookup path"
  using assms by (auto simp: merged_def effective_def layer_at_file layer_at_env split: option.splits)

section \<open>A configuration and its map\<close>

definition config_durations :: "config_Config \<Rightarrow> duration list" where
  "config_durations cfg =
     (let w = cc_Watch cfg; s = cc_Schedule cfg; r = cc_RCA cfg in
      [cw_MinRequestInterval w, cw_HostSampleInterval w, cw_PeerSampleInterval w, cw_ClockSampleInterval w, cw_RetentionMaxAge w,
       cw_RetentionInterval w, sched_SecondsPerSlot s, sched_AttestationDeadline s, sched_AggregationDeadline s,
       sched_PayloadRevealDeadline s, sched_PTCDeadline s, cfg_ClockOffsetMax r, cfg_ClockSampleMaxAge r, cfg_NetworkDeviation r])"

definition config_floats :: "config_Config \<Rightarrow> f64 list" where
  "config_floats cfg =
     (let r = cc_RCA cfg in
      [cfg_Dominance r, cfg_EngineSpikeMultiplier r, cfg_PeerCountMin r, cfg_IOWaitPct r, cfg_CPUStealPct r, cfg_PSIMemAvg10 r])"

lemmas configMap_eval = layer_at_def configMap_def path_parent_def path_child_def Let_def

lemma configMap_durations: "map (layer_at (configMap cfg)) duration_keys = map (\<lambda>d. Some (VString (Duration_String d))) (config_durations cfg)"
  by (simp add: duration_keys_def config_durations_def configMap_eval)

lemma configMap_floats: "map (layer_at (configMap cfg)) float_keys = map (\<lambda>f. Some (VFloat f)) (config_floats cfg)"
  by (simp add: float_keys_def config_floats_def configMap_eval)

lemma configMap_single:
  "layer_at (configMap cfg) ''beacon_api'' = Some (VString (cc_BeaconAPI cfg))"
  "layer_at (configMap cfg) ''db'' = Some (VString (cc_DBPath cfg))"
  "layer_at (configMap cfg) ''watch.cl_metrics_api'' = Some (VString (cw_CLMetricsAPI (cc_Watch cfg)))"
  "layer_at (configMap cfg) ''watch.baseline_beacon_api'' = Some (VString (cw_BaselineBeaconAPI (cc_Watch cfg)))"
  "layer_at (configMap cfg) ''watch.baseline_metrics_api'' = Some (VString (cw_BaselineMetricsAPI (cc_Watch cfg)))"
  "layer_at (configMap cfg) ''watch.metrics_addr'' = Some (VString (cw_MetricsAddr (cc_Watch cfg)))"
  "layer_at (configMap cfg) ''watch.ntp_servers'' = Some (VStrings (cw_NTPServers (cc_Watch cfg)))"
  "layer_at (configMap cfg) ''watch.validator_indices'' = Some (VUints (cw_ValidatorIndices (cc_Watch cfg)))"
  "layer_at (configMap cfg) ''watch.retention_max_bytes'' = Some (VInt64 (cw_RetentionMaxBytes (cc_Watch cfg)))"
  by (simp_all add: configMap_eval)

lemma read_fields_map:
  "map value keys = map Some vs \<Longrightarrow> read_fields value keys = Inr vs"
  by (induction keys arbitrary: vs) (auto simp: map_eq_Cons_conv split: option.splits)

lemma read_durations:
  assumes "\<And>s. text (Some (VString s)) = s" "list_all in_int64 ds" "map get keys = map (\<lambda>d. Some (VString (Duration_String d))) ds"
  shows "read_fields (\<lambda>key. ParseDuration (text (get key))) keys = Inr ds"
proof (rule read_fields_map)
  have "map (\<lambda>key. ParseDuration (text (get key))) keys = map (\<lambda>v. ParseDuration (text v)) (map get keys)" by simp
  also have "\<dots> = map Some ds"
    unfolding assms(3) using assms(2) by (simp add: assms(1) ParseDuration_String list_all_iff)
  finally show "map (\<lambda>key. ParseDuration (text (get key))) keys = map Some ds" .
qed

lemma read_floats:
  assumes "map get keys = map (\<lambda>f. Some (VFloat f)) fs"
  shows "read_fields (\<lambda>key. float64Value (get key)) keys = Inr fs"
proof (rule read_fields_map)
  have "map (\<lambda>key. float64Value (get key)) keys = map float64Value (map get keys)" by simp
  then show "map (\<lambda>key. float64Value (get key)) keys = map Some fs" unfolding assms by (simp add: comp_def)
qed

lemma config_of_fields:
  "cfg = \<lparr>cc_BeaconAPI = cc_BeaconAPI cfg, cc_DBPath = cc_DBPath cfg,
     cc_Watch = \<lparr>cw_MinRequestInterval = config_durations cfg ! 0, cw_HostSampleInterval = config_durations cfg ! 1,
       cw_CLMetricsAPI = cw_CLMetricsAPI (cc_Watch cfg), cw_PeerSampleInterval = config_durations cfg ! 2,
       cw_BaselineBeaconAPI = cw_BaselineBeaconAPI (cc_Watch cfg), cw_BaselineMetricsAPI = cw_BaselineMetricsAPI (cc_Watch cfg),
       cw_NTPServers = cw_NTPServers (cc_Watch cfg), cw_ClockSampleInterval = config_durations cfg ! 3,
       cw_RetentionMaxAge = config_durations cfg ! 4, cw_RetentionMaxBytes = cw_RetentionMaxBytes (cc_Watch cfg),
       cw_RetentionInterval = config_durations cfg ! 5, cw_ValidatorIndices = cw_ValidatorIndices (cc_Watch cfg),
       cw_MetricsAddr = cw_MetricsAddr (cc_Watch cfg)\<rparr>,
     cc_Schedule = \<lparr>sched_SecondsPerSlot = config_durations cfg ! 6, sched_AttestationDeadline = config_durations cfg ! 7,
       sched_AggregationDeadline = config_durations cfg ! 8, sched_PayloadRevealDeadline = config_durations cfg ! 9,
       sched_PTCDeadline = config_durations cfg ! 10\<rparr>,
     cc_RCA = \<lparr>cfg_Dominance = config_floats cfg ! 0, cfg_ClockOffsetMax = config_durations cfg ! 11,
       cfg_ClockSampleMaxAge = config_durations cfg ! 12, cfg_NetworkDeviation = config_durations cfg ! 13,
       cfg_EngineSpikeMultiplier = config_floats cfg ! 1, cfg_PeerCountMin = config_floats cfg ! 2, cfg_IOWaitPct = config_floats cfg ! 3,
       cfg_CPUStealPct = config_floats cfg ! 4, cfg_PSIMemAvg10 = config_floats cfg ! 5\<rparr>\<rparr>"
  by (simp add: config_durations_def config_floats_def Let_def)

lemma decode_layer:
  assumes str: "\<And>s. text (Some (VString s)) = s"
    and ranges: "list_all in_int64 (config_durations cfg)"
    and servers: "list_all (\<lambda>s. TrimSpace s \<noteq> []) (cw_NTPServers (cc_Watch cfg))"
  shows "config_decode text (layer_at (configMap cfg)) = Inr cfg"
proof -
  have "\<not> list_ex (\<lambda>s. TrimSpace s = []) (cw_NTPServers (cc_Watch cfg))" using servers by (auto simp: list_all_iff list_ex_iff)
  then show ?thesis
    unfolding config_decode_def read_durations[OF str ranges configMap_durations] read_floats[OF configMap_floats] configMap_single
      stringsValue.simps uint64sValue.simps int64Value.simps if_False option.case sum.case str
    using config_of_fields[of cfg] by simp
qed

lemma merged_one [simp]: "merged [l] path = layer_at l path"
  by (simp add: merged_def split: option.split)

lemma decode_merged:
  assumes "koanf_reads text get" "list_all program_layer layers" "\<And>path. path \<in> set setting_paths \<Longrightarrow> merged layers path = eff path"
  shows "config_decode text (get layers) = config_decode text eff"
  by (rule config_decode_cong) (simp add: koanf_get[OF assms(1,2)] assms(3))

text \<open>The library's documentation is met by reading the layers directly.\<close>

definition plain_text :: "cvalue option \<Rightarrow> string" where
  "plain_text v = (case v of Some (VString s) \<Rightarrow> s | _ \<Rightarrow> [])"

lemma koanf_reads_merged: "koanf_reads plain_text merged"
  by (simp add: koanf_reads_def plain_text_def)

lemma default_loadable:
  "list_all in_int64 (config_durations config_Default)" "list_all (\<lambda>s. TrimSpace s \<noteq> []) (cw_NTPServers (cc_Watch config_Default))"
  by (simp_all add: config_durations_def config_Default_def MainnetPreEPBS_def DefaultConfig_def int64_defs)

text \<open>
  Property C35: a configuration written as the map the defaults are loaded from is read back unchanged: every duration survives its
  text, every list and number its type, and each setting comes back to the field it was taken from. It holds for durations in the
  range of a signed 64-bit integer and NTP servers that are not blank.
\<close>

theorem config_round_trip:
  assumes "koanf_reads text get" "list_all in_int64 (config_durations cfg)"
    "list_all (\<lambda>s. TrimSpace s \<noteq> []) (cw_NTPServers (cc_Watch cfg))"
  shows "config_decode text (get [configMap cfg]) = Inr cfg"
proof -
  have "config_decode text (get [configMap cfg]) = config_decode text (layer_at (configMap cfg))"
    by (rule decode_merged[OF assms(1)]) simp_all
  then show ?thesis using decode_layer[OF koanf_text[OF assms(1)] assms(2,3)] by simp
qed

theorem config_round_trip_witness: "config_decode plain_text (merged [configMap config_Default]) = Inr config_Default"
  by (rule config_round_trip[OF koanf_reads_merged default_loadable])

text \<open>
  Property C34: a \<open>WHYMISS_\<close> variable overrides the setting's line in the file, and that overrides the default, for each of the 29
  settings and independently of the others; what is loaded is the decoding of these values, refused when the schedule or the
  thresholds do not validate.
\<close>

theorem Load_precedence:
  assumes "koanf_reads text get"
  shows "config_Load text get (map_option (\<lambda>r. Inr (fileConfigMap r)) raw) lookup =
    (case config_decode text (effective raw lookup) of Inl e \<Rightarrow> Inl e | Inr cfg \<Rightarrow> config_checked cfg)"
proof -
  let ?layers = "[configMap config_Default] @ (case raw of None \<Rightarrow> [] | Some r \<Rightarrow> [fileConfigMap r]) @ [envMap lookup]"
  have "config_decode text (get ?layers) = config_decode text (effective raw lookup)"
    by (rule decode_merged[OF assms _ merged_effective]) (simp_all split: option.split)
  then show ?thesis by (cases raw) (simp_all add: config_Load_def)
qed

lemma effective_none: "effective None Map.empty path = layer_at (configMap config_Default) path"
  by (simp add: effective_def split: bind_splits option.split)

lemma default_checked: "config_checked config_Default = Inr config_Default"
  by (simp add: config_checked_def config_Default_def)

theorem Load_precedence_witness: "config_Load plain_text merged None Map.empty = Inr config_Default"
proof -
  have "effective None Map.empty = layer_at (configMap config_Default)" by (rule ext) (rule effective_none)
  then show ?thesis
    using Load_precedence[OF koanf_reads_merged, of None Map.empty] decode_layer[OF koanf_text[OF koanf_reads_merged] default_loadable]
    by (simp add: default_checked)
qed

end
