(* ===== verification/Spec2Isabelle.thy ===== *)
theory Spec2Isabelle
  imports Corpus Collectors FaultRecord StageBudget Caches Retention Commands RateLimiter EventStream Configuration
begin

text \<open>
  \<^bold>\<open>Verification of whymiss\<close>

  whymiss explains why an Ethereum validator lost part of an attestation duty. A daemon watches a beacon node and the host,
  records timed observations in a local database, and for every duty of a tracked validator assembles the facts of the slot
  into a timeline and lets an ordered list of rules name the cause, with evidence and a confidence. Two tools keep a corpus of
  recorded scenarios and measure the rules on it. The development follows the program from the bytes of an attestation to the
  verdict, one theory per component.

  \<^bold>\<open>Conventions.\<close> Names are those of the source; a method \<open>T.M\<close> is \<open>T_M\<close>, and a struct is a record whose fields carry a
  prefix of its own. Slots, epochs and validator indices are 64-bit words and wrap; durations are integers in nanoseconds with
  Go's wrap-around or saturation of \<open>int64\<close> written out; an instant counts nanoseconds from Go's zero time and carries its
  zone offset. A closed set of strings is a datatype with one more constructor for every other string. A nil-able error is an
  option or the left side of a sum, in the order in which the code tests. What the program reads from outside - a decoded HTTP
  response, the rows of a database, the lines of a file, the measured time of a call - is an argument or a field of an
  environment record; the out-of-range conversion of a float, which Go leaves to the platform, is the argument \<open>oob\<close>.

  \<^bold>\<open>Foundations.\<close>
  \<^item> \<open>Prelude\<close>: error sequencing, generic list lemmas and the collections of simplification rules.
  \<^item> \<open>GoStd\<close>, \<open>GoFloat\<close>, \<open>GoSort\<close>, \<open>GoDuration\<close>, \<open>GoHash\<close>: the part of Go's library the program uses. Instants and durations
    with their text; IEEE double precision as exact rationals rounded to nearest even, with overflow, infinities and NaN; the
    stable sort, whose locale \<open>stable_order\<close> says when a comparator makes it a sorted permutation that does not depend on the
    order of its input; the parser of durations; SHA-256 and hexadecimal. \<open>GoFormat\<close>: numbers and instants as text.

  \<^bold>\<open>Domain\<close> (\<open>src/internal/domain\<close>).
  \<^item> \<open>Slots\<close>: \<open>slot.go\<close>, \<open>schedule.go\<close>, \<open>duty.go\<close>, \<open>errors.go\<close>. \<open>Observation\<close>: \<open>observation.go\<close>, the vocabulary of facts
    and their validation. \<open>Sample\<close>: \<open>sample.go\<close>. \<open>Timeline\<close>: \<open>timeline.go\<close>, with the locale \<open>observation_lookup\<close> for the
    queries the rules rely on. \<open>Verdict\<close>: \<open>verdict.go\<close>, the taxonomy and the validation of a verdict.

  \<^bold>\<open>Analysis\<close> (\<open>src/internal/rca\<close>).
  \<^item> \<open>RuleSupport\<close>: thresholds, stages of the latency budget, shared helpers. \<open>RuleContract\<close>: the locale \<open>rule_contract\<close>, what
    the engine may assume of a rule: its causes, its confidence, evidence that names observations of the timeline.
  \<^item> \<open>RulesData\<close>, \<open>RulesTiming\<close>, \<open>RulesTerminal\<close>: the thirteen rules R-010 to R-999, each an interpretation of the contract.
  \<^item> \<open>Engine\<close>: \<open>outcome.go\<close> and \<open>engine.go\<close>; the locale \<open>rule_sequence\<close> walks the rules and is interpreted on \<open>Order\<close>.
  \<^item> \<open>Attribution\<close>, \<open>StageBudget\<close>, \<open>Examples\<close>: validity of every verdict and the exact exception, first match, suppression of
    timing causes under an untrusted clock, what a cause requires of the timeline, and the stages as a tiling of the slot.

  \<^bold>\<open>Timelines and scenarios\<close> (\<open>src/internal/timeline\<close>, \<open>src/tools\<close>).
  \<^item> \<open>Assembler\<close>, \<open>Assembly\<close>: \<open>assembler.go\<close> and \<open>replay.go\<close>. A timeline does not depend on the order of arrival, and replay
    gives back the recorded facts. Both sort orders interpret \<open>stable_order\<close>.
  \<^item> \<open>Corpus\<close>: \<open>corpusctl\<close>, which accepts a recorded scenario, and \<open>eval\<close>, which scores it and applies the release gate.

  \<^bold>\<open>Fault injector\<close> (\<open>src/tools/faultinjector\<close>), which produces the scenarios on a test network.
  \<^item> \<open>FaultScenario\<close>: recipes, the preflight of the mesh, the choice of a duty. \<open>FaultTiming\<close>: the watches for the head, the arrival
    of the block and the Engine baseline. \<open>FaultObserve\<close>: the observer, a second implementation of the daemon's Beacon API client,
    proved to record the same inclusion and the same payload vote on the same chain.
  \<^item> \<open>FaultRecord\<close>: from the measurements of a run to its observations, its verdict and the directory on disk. The composition
    with \<open>corpusctl\<close> and \<open>eval\<close> is a property: a finished run is accepted, and scored correct exactly when it ended in success.

  \<^bold>\<open>Beacon API\<close> (\<open>src/internal/source/beaconapi\<close>).
  \<^item> \<open>Bits\<close>: SSZ bitlists and committee bits. \<open>Beacon\<close>, \<open>Inclusion\<close>: blocks, headers, the scan of the inclusion window and
    the claim that a slot was skipped. \<open>Duties\<close>, \<open>Pool\<close>: duties, committees, the attestation pool, payload votes.
  \<^item> \<open>Caches\<close>: the four single-flight caches with the locale \<open>bounded_cache\<close>. \<open>Backoff\<close>: both backoffs, locale
    \<open>bounded_backoff\<close>. \<open>NodeSchedule\<close>: the schedule a node publishes and which one is adopted (also \<open>app/nodeschedule.go\<close>).
  \<^item> \<open>RateLimiter\<close>: the limiter of \<open>client.go\<close> as a step relation over its callers and its goroutine, with the spacing of grants as
    an invariant and service of a waiting caller. \<open>EventStream\<close>: \<open>client.go\<close>, \<open>stream.go\<close>, \<open>peers.go\<close>, \<open>version.go\<close> and the
    client registry, over a trace of connections.

  \<^bold>\<open>Clock and local measurements.\<close>
  \<^item> \<open>Ntp\<close>, \<open>ClockSampler\<close>, \<open>ClockStamp\<close>: \<open>src/internal/clock\<close> and \<open>app/clocktracker.go\<close>. The error of a reading is bounded by
    half its round trip; retries end; a stamp is fresh (locale \<open>clock_stamp\<close>, interpreted for observations and for samples).
  \<^item> \<open>Metrics\<close>, \<open>EngineWindows\<close>, \<open>HostMetrics\<close>, \<open>EngineBaseline\<close>: metric families, the Engine calls of a slot, host figures,
    the rolling 99th percentile.

  \<^bold>\<open>Store and application.\<close>
  \<^item> \<open>StoreTime\<close>, \<open>Store\<close>, \<open>StoreReplay\<close>, \<open>Retention\<close>: \<open>src/internal/store\<close>. Tables are lists of rows, an SQL statement is the
    list operation it denotes; text order is time order, what is written is read back, and pruning removes oldest first
    (locale \<open>retention_step\<close>).
  \<^item> \<open>Explain\<close>: \<open>app/timeline.go\<close>, \<open>app/explain.go\<close>. \<open>DutyTracking\<close>: \<open>app/duty_tracking.go\<close> and the exporter.
    \<open>StreamHealth\<close>: \<open>app/streamhealth.go\<close>, \<open>app/headfanout.go\<close>. \<open>Collectors\<close>: the turns of the slot clock, the peer sampler, the
    network baseline and the block timing loop (\<open>app/watch.go\<close>, \<open>app/networkbaseline.go\<close>, \<open>app/blocktiming.go\<close>).
  \<^item> \<open>DurationText\<close>: a duration is read back from its text. \<open>Configuration\<close>: \<open>src/internal/config\<close>, over the merging library.
    \<open>Commands\<close>: \<open>report/markdown.go\<close> and the commands \<open>whymiss\<close> and \<open>whymiss timeline\<close> of \<open>src/cmd\<close>.

  \<^bold>\<open>Bounds and fuel.\<close> The scan of the inclusion window has the fuel \<open>untilSlot - wantSlot\<close>, the number of slots it visits, and the
  retry loop of the sampler \<open>MaxAttempts\<close>; both are proved to end with it. Polling loops that wait for the world run over a
  finite trace of answers, and a statement holds for every trace. The text form of instants is exact in the years 1 to 9999,
  which is what the store's layout can express; statements about chain time keep a minute from the ends of that range.
  Concurrency inside one duty is the order in which its collectors finish, an argument over which the statements quantify.

  \<^bold>\<open>Not modelled.\<close> HTTP, JSON, YAML, SQL and Prometheus text themselves; the goroutines that connect the parts; the parsing
  of flags, logs and the JSON report; the doctor command; schema migrations; of the fault injector the mechanisms that drive containers, control groups, traffic shaping and clocks of a test
  network, and the text of a record's readme.
\<close>

end
